(* ===== verification/Switch_Prelude.thy ===== *)
theory Switch_Prelude
  imports Main "HOL-Library.Word" "HOL-Library.Product_Lexorder" "HOL-Library.Monad_Syntax"
begin

unbundle bit_operations_syntax

text \<open>
  Shared vocabulary of the development: the C integer types, the byte order of the host
  (the switch is built for little-endian Linux, see \<open>src/src/build/make.h\<close>), the comparison
  of byte arrays with \<open>memcmp\<close>, bit-flag words, the store of objects that C reaches through
  pointers, and two generic interfaces (locales): a comparison of priority vectors with its
  best-of-a-list search, and an event machine with an invariant.

  A C function that can dereference a null pointer or touch released memory returns an
  option, and \<open>None\<close> is that fault; C return codes and null results are ordinary values.
\<close>

section \<open>Integer types and flags\<close>

type_synonym u8 = "8 word"
type_synonym u16 = "16 word"
type_synonym u32 = "32 word"
type_synonym u64 = "64 word"

named_theorems flag_simps \<open>tests on words used as sets of flags\<close>

text \<open>A word used as a set of flags: \<open>w |= m\<close>, \<open>w &= ~m\<close> and the test \<open>w & m\<close>.\<close>

definition flag_on :: "'a::len word \<Rightarrow> 'a word \<Rightarrow> bool" where
  "flag_on m w \<longleftrightarrow> w AND m \<noteq> 0"

definition flag_set :: "'a::len word \<Rightarrow> 'a word \<Rightarrow> 'a word" where
  "flag_set m w = w OR m"

definition flag_clear :: "'a::len word \<Rightarrow> 'a word \<Rightarrow> 'a word" where
  "flag_clear m w = w AND NOT m"

lemma word_or_eq_0_iff [simp]: "(a :: 'a::len word) OR b = 0 \<longleftrightarrow> a = 0 \<and> b = 0"
proof
  assume h: "a OR b = 0"
  have "a = a AND (a OR b)" and "b = b AND (a OR b)"
    by (auto intro!: bit_word_eqI simp: bit_simps)
  with h show "a = 0 \<and> b = 0" by simp
qed simp

lemma flag_on_set [flag_simps]: "flag_on m (flag_set k w) \<longleftrightarrow> flag_on m w \<or> k AND m \<noteq> 0"
  by (simp add: flag_on_def flag_set_def bit.conj_disj_distrib2)

lemma flag_on_clear_disjoint [flag_simps]:
  "k AND m = 0 \<Longrightarrow> flag_on m (flag_clear k w) \<longleftrightarrow> flag_on m w"
proof -
  assume h: "k AND m = 0"
  have "(w AND NOT k) AND m = (w AND m) AND NOT (k AND m)"
    by (rule bit_word_eqI) (auto simp: bit_simps)
  with h show ?thesis by (simp add: flag_on_def flag_clear_def)
qed

lemma flag_on_clear_covered [flag_simps]: "m AND NOT k = 0 \<Longrightarrow> \<not> flag_on m (flag_clear k w)"
proof -
  assume h: "m AND NOT k = 0"
  have "(w AND NOT k) AND m = w AND (m AND NOT k)"
    by (rule bit_word_eqI) (auto simp: bit_simps)
  with h show ?thesis by (simp add: flag_on_def flag_clear_def)
qed

lemma flag_on_0 [simp]: "\<not> flag_on m 0"
  by (simp add: flag_on_def)

text \<open>Conversion to a 32-bit \<open>int\<close>, and a 32-bit signed comparison.\<close>

definition c_int :: "int \<Rightarrow> int" where
  "c_int x = sint (word_of_int x :: u32)"

lemma c_int_id: "- (2 ^ 31) \<le> x \<Longrightarrow> x < 2 ^ 31 \<Longrightarrow> c_int x = x"
  by (simp add: c_int_def int_word_sint)

lemma uint_of_int_small: "0 \<le> x \<Longrightarrow> x < 2 ^ 32 \<Longrightarrow> uint (word_of_int x :: u32) = x"
  by (simp add: uint_word_of_int_eq take_bit_int_eq_self)

lemma find_append:
  "find P (xs @ ys) = (case find P xs of None \<Rightarrow> find P ys | Some x \<Rightarrow> Some x)"
  by (induction xs) auto

section \<open>Byte order\<close>

text \<open>Byte \<open>i\<close> of a word, counted from the least significant one, and a word read from
  memory with its least significant byte first.\<close>

definition byte_of :: "nat \<Rightarrow> 'a::len word \<Rightarrow> u8" where
  "byte_of i w = ucast (drop_bit (8 * i) w)"

definition le16 :: "u8 \<Rightarrow> u8 \<Rightarrow> u16" where
  "le16 b0 b1 = ucast b0 OR push_bit 8 (ucast b1)"

definition le32 :: "u8 \<Rightarrow> u8 \<Rightarrow> u8 \<Rightarrow> u8 \<Rightarrow> u32" where
  "le32 b0 b1 b2 b3 =
     ucast b0 OR push_bit 8 (ucast b1) OR push_bit 16 (ucast b2) OR push_bit 24 (ucast b3)"

text \<open>\<open>htons\<close>, \<open>ntohs\<close>, \<open>htonl\<close> and \<open>ntohl\<close> on a little-endian host exchange the bytes.\<close>

definition bswap16 :: "u16 \<Rightarrow> u16" where
  "bswap16 w = le16 (byte_of 1 w) (byte_of 0 w)"

definition bswap32 :: "u32 \<Rightarrow> u32" where
  "bswap32 w = le32 (byte_of 3 w) (byte_of 2 w) (byte_of 1 w) (byte_of 0 w)"

abbreviation htons :: "u16 \<Rightarrow> u16" where "htons \<equiv> bswap16"
abbreviation ntohs :: "u16 \<Rightarrow> u16" where "ntohs \<equiv> bswap16"
abbreviation htonl :: "u32 \<Rightarrow> u32" where "htonl \<equiv> bswap32"
abbreviation ntohl :: "u32 \<Rightarrow> u32" where "ntohl \<equiv> bswap32"

lemma bit_u8_beyond [simp]:
  "8 \<le> n \<Longrightarrow> \<not> bit (b :: u8) n"
  "\<not> n < 8 \<Longrightarrow> \<not> bit (b :: u8) n"
  by (auto dest: bit_imp_le_length)

lemma bit_byte_of: "bit (byte_of i w) n \<longleftrightarrow> n < 8 \<and> bit w (8 * i + n)"
  by (auto simp: byte_of_def bit_simps)

lemma bit_le16: "bit (le16 b0 b1) n \<longleftrightarrow> (if n < 8 then bit b0 n else n < 16 \<and> bit b1 (n - 8))"
  by (auto simp: le16_def bit_simps)

lemma bit_le32: "bit (le32 b0 b1 b2 b3) n \<longleftrightarrow>
  (if n < 8 then bit b0 n else if n < 16 then bit b1 (n - 8)
   else if n < 24 then bit b2 (n - 16) else n < 32 \<and> bit b3 (n - 24))"
  by (auto simp: le32_def bit_simps)

lemma byte_le16 [simp]:
  "byte_of 0 (le16 a b) = a" "byte_of (Suc 0) (le16 a b) = b"
  by (rule bit_word_eqI; auto simp: bit_le16 bit_byte_of)+

lemma byte_le32 [simp]:
  "byte_of 0 (le32 a b c d) = a" "byte_of (Suc 0) (le32 a b c d) = b"
  "byte_of 2 (le32 a b c d) = c" "byte_of 3 (le32 a b c d) = d"
  by (rule bit_word_eqI; auto simp: bit_le32 bit_byte_of)+

lemma le16_bytes [simp]: "le16 (byte_of 0 w) (byte_of (Suc 0) w) = w"
  by (rule bit_word_eqI) (auto simp: bit_le16 bit_byte_of)

lemma le32_bytes [simp]:
  "le32 (byte_of 0 w) (byte_of (Suc 0) w) (byte_of 2 w) (byte_of 3 w) = w"
  by (rule bit_word_eqI) (auto simp: bit_le32 bit_byte_of)

lemma bswap16_bswap16 [simp]: "bswap16 (bswap16 w) = w"
  by (simp add: bswap16_def)

lemma bswap32_bswap32 [simp]: "bswap32 (bswap32 w) = w"
  by (simp add: bswap32_def)

section \<open>Byte arrays: MAC addresses and memcmp\<close>

text \<open>\<open>memcmp\<close> of the C library: the sign of the first difference.\<close>

fun memcmp :: "u8 list \<Rightarrow> u8 list \<Rightarrow> int" where
  "memcmp (a # as) (b # bs) = (if a = b then memcmp as bs else uint a - uint b)"
| "memcmp _ _ = 0"

text \<open>The value of a byte array read most significant byte first.\<close>

fun be_val :: "u8 list \<Rightarrow> nat" where
  "be_val [] = 0"
| "be_val (b # bs) = unat b * 256 ^ length bs + be_val bs"

lemma be_val_bound: "be_val bs < 256 ^ length bs"
proof (induction bs)
  case (Cons b bs)
  have "unat b < 256" using unsigned_less [of b, where 'a = nat] by simp
  then have "unat b * 256 ^ length bs + 256 ^ length bs \<le> 256 * 256 ^ length bs"
    by (metis Suc_leI add.commute mult_Suc mult_le_mono1)
  then have "unat b * 256 ^ length bs + be_val bs < 256 * 256 ^ length bs"
    using Cons.IH by linarith
  then show ?case by simp
qed simp

lemma be_val_less_step:
  assumes "unat a < unat b" and "length xs = length ys"
  shows "be_val (a # xs) < be_val (b # ys)"
proof -
  have "be_val (a # xs) < unat a * 256 ^ length xs + 256 ^ length xs"
    using be_val_bound [of xs] by simp
  also have "\<dots> = Suc (unat a) * 256 ^ length ys" using assms(2) by simp
  also have "\<dots> \<le> unat b * 256 ^ length ys" using assms(1) by (intro mult_le_mono1) simp
  finally show ?thesis by simp
qed

lemma memcmp_eq_0: "length xs = length ys \<Longrightarrow> memcmp xs ys = 0 \<longleftrightarrow> xs = ys"
  by (induction xs ys rule: list_induct2) (auto simp: word_uint_eq_iff)

lemma memcmp_less_0:
  "length xs = length ys \<Longrightarrow> memcmp xs ys < 0 \<longleftrightarrow> be_val xs < be_val ys"
proof (induction xs ys rule: list_induct2)
  case (Cons a xs b ys)
  consider "a = b" | "unat a < unat b" | "unat b < unat a"
    by (metis nat_neq_iff word_unat_eq_iff)
  then show ?case
  proof cases
    case 1
    with Cons show ?thesis by simp
  next
    case 2
    then have "uint a < uint b" by (metis word_less_def word_less_nat_alt)
    then have "memcmp (a # xs) (b # ys) < 0" by auto
    with be_val_less_step [OF 2 Cons.hyps] show ?thesis by simp
  next
    case 3
    then have "uint b < uint a" by (metis word_less_def word_less_nat_alt)
    then have "\<not> memcmp (a # xs) (b # ys) < 0" by auto
    with be_val_less_step [OF 3 Cons.hyps [symmetric]] show ?thesis by simp
  qed
qed simp

lemma be_val_inject: "length xs = length ys \<Longrightarrow> be_val xs = be_val ys \<Longrightarrow> xs = ys"
proof (induction xs ys rule: list_induct2)
  case (Cons a xs b ys)
  have "unat a = unat b"
    using be_val_less_step [of a b xs ys] be_val_less_step [of b a ys xs] Cons
    by (metis nat_neq_iff)
  with Cons show ?case by (simp add: word_unat_eq_iff)
qed simp

text \<open>\<open>MACADDRESS\<close> of \<open>common_types.h\<close>: six bytes.\<close>

datatype macaddress = MAC u8 u8 u8 u8 u8 u8

fun mac_bytes :: "macaddress \<Rightarrow> u8 list" where
  "mac_bytes (MAC a b c d e f) = [a, b, c, d, e, f]"

lemma length_mac_bytes [simp]: "length (mac_bytes m) = 6"
  by (cases m) simp

lemma mac_bytes_inject [simp]: "mac_bytes m = mac_bytes n \<longleftrightarrow> m = n"
  by (cases m; cases n) simp

section \<open>Best of a list\<close>

text \<open>
  The scan both spanning tree implementations make over their ports: the current best is
  replaced by a candidate that is strictly better.
\<close>

fun pick_best :: "('v \<Rightarrow> 'v \<Rightarrow> bool) \<Rightarrow> 'v option \<Rightarrow> 'v list \<Rightarrow> 'v option" where
  "pick_best better acc [] = acc"
| "pick_best better None (x # xs) = pick_best better (Some x) xs"
| "pick_best better (Some y) (x # xs) = pick_best better (Some (if better x y then x else y)) xs"

text \<open>The contract of such a comparison: a strict weak order.\<close>

locale priority_order =
  fixes better :: "'v \<Rightarrow> 'v \<Rightarrow> bool"
  assumes better_asym: "better a b \<Longrightarrow> \<not> better b a"
    and better_negtrans: "\<not> better a b \<Longrightarrow> \<not> better b c \<Longrightarrow> \<not> better a c"
begin

lemma better_irrefl: "\<not> better a a"
  using better_asym by blast

lemma better_trans: "better a b \<Longrightarrow> better b c \<Longrightarrow> better a c"
  using better_asym better_negtrans by blast

lemma pick_best_Some: "\<exists>r. pick_best better (Some a) xs = Some r"
  by (induction xs arbitrary: a) auto

lemma pick_best_None_iff: "pick_best better acc xs = None \<longleftrightarrow> acc = None \<and> xs = []"
  by (cases acc; cases xs) (use pick_best_Some in force)+

lemma pick_best_member:
  "pick_best better acc xs = Some r \<Longrightarrow> acc = Some r \<or> r \<in> set xs"
  by (induction better acc xs rule: pick_best.induct) (auto split: if_splits)

lemma pick_best_least_all:
  "pick_best better acc xs = Some r \<Longrightarrow>
    (\<forall>x \<in> set xs. \<not> better x r) \<and> (\<forall>z. acc = Some z \<longrightarrow> \<not> better z r)"
proof (induction xs arbitrary: acc)
  case Nil
  then show ?case using better_irrefl by simp
next
  case (Cons y ys)
  show ?case
  proof (cases acc)
    case None
    with Cons show ?thesis by auto
  next
    case (Some z)
    let ?w = "if better y z then y else z"
    from Cons.prems(1) Some have "pick_best better (Some ?w) ys = Some r" by simp
    from Cons.IH [OF this] have w: "\<not> better ?w r" and ys: "\<forall>x \<in> set ys. \<not> better x r" by auto
    have "\<not> better y ?w" and "\<not> better z ?w" using better_irrefl better_asym by auto
    with w have "\<not> better y r" and "\<not> better z r" using better_negtrans by blast+
    with ys Some show ?thesis by auto
  qed
qed

lemma pick_best_least:
  "pick_best better acc xs = Some r \<Longrightarrow> x \<in> set xs \<or> acc = Some x \<Longrightarrow> \<not> better x r"
  using pick_best_least_all by blast

end

section \<open>Event machines\<close>

text \<open>Running a list of events through a handler that may fault.\<close>

fun run_events :: "('e \<Rightarrow> 's \<Rightarrow> 's option) \<Rightarrow> 'e list \<Rightarrow> 's \<Rightarrow> 's option" where
  "run_events step [] s = Some s"
| "run_events step (e # es) s = Option.bind (step e s) (run_events step es)"

lemma run_events_append:
  "run_events step (xs @ ys) s = Option.bind (run_events step xs s) (run_events step ys)"
  by (induction xs arbitrary: s) (auto split: bind_splits)

lemma run_events_single: "Option.bind x (run_events step []) = x"
  by (cases x) simp_all

text \<open>
  The contract of a component driven by events: every step keeps the invariant. The extension
  adds the events that the component handles without a fault.
\<close>

locale event_machine =
  fixes step :: "'e \<Rightarrow> 's \<Rightarrow> 's option"
    and inv :: "'s \<Rightarrow> bool"
  assumes step_inv: "inv s \<Longrightarrow> step e s = Some t \<Longrightarrow> inv t"
begin

lemma run_inv: "inv s \<Longrightarrow> run_events step es s = Some t \<Longrightarrow> inv t"
  by (induction es arbitrary: s) (auto split: bind_splits intro: step_inv)

end

text \<open>
  A machine that faults only where a guard on the event and the state fails: a run whose events meet
  their guards ends, in the invariant. A machine whose guard looks at the event alone is one.
\<close>

primrec all_ok :: "('e \<Rightarrow> 's \<Rightarrow> 's option) \<Rightarrow> ('e \<Rightarrow> 's \<Rightarrow> bool) \<Rightarrow> 'e list \<Rightarrow> 's \<Rightarrow> bool" where
  "all_ok step ok [] s = True"
| "all_ok step ok (e # es) s = (ok e s \<and> (case step e s of None \<Rightarrow> True | Some t \<Rightarrow> all_ok step ok es t))"

lemma all_ok_const: "list_all ok es \<Longrightarrow> all_ok step (\<lambda>e s. ok e) es s"
  by (induction es arbitrary: s) (auto split: option.split)

locale guarded_machine =
  fixes step :: "'e \<Rightarrow> 's \<Rightarrow> 's option"
    and inv :: "'s \<Rightarrow> bool"
    and guard :: "'e \<Rightarrow> 's \<Rightarrow> bool"
  assumes guarded_step: "inv s \<Longrightarrow> guard e s \<Longrightarrow> \<exists>t. step e s = Some t \<and> inv t"
begin

lemma guarded_run: "inv s \<Longrightarrow> all_ok step guard es s \<Longrightarrow> \<exists>t. run_events step es s = Some t \<and> inv t"
proof (induction es arbitrary: s)
  case (Cons e es)
  then obtain t where "step e s = Some t" "inv t" using guarded_step by fastforce
  with Cons show ?case by simp
qed simp

end

locale total_machine = event_machine +
  fixes ok :: "'e \<Rightarrow> bool"
  assumes step_total: "inv s \<Longrightarrow> ok e \<Longrightarrow> \<exists>t. step e s = Some t"

sublocale total_machine \<subseteq> guarded: guarded_machine step inv "\<lambda>e s. ok e"
proof unfold_locales
  fix s e
  assume i: "inv s" and o: "ok e"
  from step_total [OF i o] obtain t where t: "step e s = Some t" by blast
  with step_inv [OF i t] show "\<exists>t. step e s = Some t \<and> inv t" by simp
qed

context total_machine begin

lemma run_total: "inv s \<Longrightarrow> list_all ok es \<Longrightarrow> \<exists>t. run_events step es s = Some t \<and> inv t"
  by (rule guarded.guarded_run [OF _ all_ok_const])

end

section \<open>Simulation by an abstract machine\<close>

text \<open>
  A machine whose steps may fault, and an abstract one whose steps are functions. When every allowed step
  of the first succeeds and computes what the second computes on the abstraction, so does every
  sequence of steps.
\<close>

fun do_run :: "('u \<Rightarrow> 's \<Rightarrow> ('r \<times> 's) option) \<Rightarrow> 'u list \<Rightarrow> 's \<Rightarrow> ('r list \<times> 's) option" where
  "do_run step [] s = Some ([], s)"
| "do_run step (u # us) s = do { (r, s) \<leftarrow> step u s; (rs, s) \<leftarrow> do_run step us s; Some (r # rs, s) }"

fun spec_run :: "('e \<Rightarrow> 'a \<Rightarrow> 'r \<times> 'a) \<Rightarrow> 'e list \<Rightarrow> 'a \<Rightarrow> 'r list \<times> 'a" where
  "spec_run spec [] a = ([], a)"
| "spec_run spec (e # es) a = (case spec e a of (r, a) \<Rightarrow> case spec_run spec es a of (rs, a) \<Rightarrow> (r # rs, a))"

text \<open>The steps may have a guard on the state, which has to hold where a step is taken.\<close>

primrec run_ok :: "('e \<Rightarrow> 's \<Rightarrow> ('r \<times> 's) option) \<Rightarrow> ('e \<Rightarrow> 's \<Rightarrow> bool) \<Rightarrow> 'e list \<Rightarrow> 's \<Rightarrow> bool" where
  "run_ok step guard [] s = True"
| "run_ok step guard (e # es) s = (guard e s \<and> (case step e s of None \<Rightarrow> True | Some (r, t) \<Rightarrow> run_ok step guard es t))"

lemma run_ok_const: "\<forall>e \<in> set es. ok e \<Longrightarrow> run_ok step (\<lambda>e s. ok e) es s"
  by (induction es arbitrary: s) (auto split: option.split)

locale guarded_simulation =
  fixes step :: "'e \<Rightarrow> 's \<Rightarrow> ('r \<times> 's) option"
    and inv :: "'s \<Rightarrow> bool"
    and abs :: "'s \<Rightarrow> 'a"
    and spec :: "'e \<Rightarrow> 'a \<Rightarrow> 'r \<times> 'a"
    and guard :: "'e \<Rightarrow> 's \<Rightarrow> bool"
  assumes simulates_guarded: "inv s \<Longrightarrow> guard e s \<Longrightarrow> \<exists>r t. step e s = Some (r, t) \<and> inv t \<and> spec e (abs s) = (r, abs t)"
begin

lemma guarded_run_simulates:
  assumes "inv s" "run_ok step guard es s"
  shows "\<exists>rs t. do_run step es s = Some (rs, t) \<and> inv t \<and> spec_run spec es (abs s) = (rs, abs t)"
  using assms
proof (induction es arbitrary: s)
  case (Cons e es)
  from Cons.prems simulates_guarded [of s e] obtain r t where t: "step e s = Some (r, t)" "inv t" "spec e (abs s) = (r, abs t)"
    by auto
  with Cons.IH [of t] Cons.prems(2) show ?case by (auto split: prod.split)
qed simp

end

locale simulation =
  fixes step :: "'e \<Rightarrow> 's \<Rightarrow> ('r \<times> 's) option"
    and inv :: "'s \<Rightarrow> bool"
    and abs :: "'s \<Rightarrow> 'a"
    and spec :: "'e \<Rightarrow> 'a \<Rightarrow> 'r \<times> 'a"
    and allowed :: "'e \<Rightarrow> bool"
  assumes simulates: "inv s \<Longrightarrow> allowed e \<Longrightarrow> \<exists>r t. step e s = Some (r, t) \<and> inv t \<and> spec e (abs s) = (r, abs t)"

sublocale simulation \<subseteq> guarded: guarded_simulation step inv abs spec "\<lambda>e s. allowed e"
  by unfold_locales (rule simulates)

context simulation begin

lemma run_simulates:
  assumes "inv s" "\<forall>e \<in> set es. allowed e"
  shows "\<exists>rs t. do_run step es s = Some (rs, t) \<and> inv t \<and> spec_run spec es (abs s) = (rs, abs t)"
  by (rule guarded.guarded_run_simulates [OF assms(1) run_ok_const [OF assms(2)]])

end

end
