(* ===== verification/Rstp_Types.thy ===== *)
theory Rstp_Types
  imports Switch_Prelude
begin

text \<open>
  The data of the rapid spanning tree implementation, \<open>src/src/bridge/rstp/bridgestp.h\<close>: timers,
  priority vectors, protocol units, the per-port record \<open>bstp_port\<close> and the per-bridge record
  \<open>bstp_state\<close>. A C pointer to a port is an address (a natural number) into the store
  \<open>bs_ports\<close>; the list \<open>bs_bplist\<close> holds the addresses in list order. A \<open>uint8_t\<close> that the code
  uses only for its truth value is a \<open>bool\<close>; counters, identifiers, protocol versions and flag
  words keep their width. Frames handed to \<open>send_packet\<close> are appended to \<open>bs_sent\<close>.

  What the code takes from the port table and the platform is the record \<open>rstp_env\<close>: the
  operational state and MAC address of a port, the bridge's MAC address, and the indeterminate
  value of the local variable that \<open>bstp_calc_path_cost\<close> returns without having assigned it.
\<close>

section \<open>Constants\<close>

datatype bstp_ifstate = BSTP_IFSTATE_DISABLED | BSTP_IFSTATE_LISTENING | BSTP_IFSTATE_LEARNING
  | BSTP_IFSTATE_FORWARDING | BSTP_IFSTATE_BLOCKING | BSTP_IFSTATE_DISCARDING

datatype bstp_tcstate = BSTP_TCSTATE_ACTIVE | BSTP_TCSTATE_DETECTED | BSTP_TCSTATE_INACTIVE
  | BSTP_TCSTATE_LEARNING | BSTP_TCSTATE_PROPAG | BSTP_TCSTATE_ACK | BSTP_TCSTATE_TC
  | BSTP_TCSTATE_TCN

datatype bstp_role = BSTP_ROLE_DISABLED | BSTP_ROLE_ROOT | BSTP_ROLE_DESIGNATED
  | BSTP_ROLE_ALTERNATE | BSTP_ROLE_BACKUP

datatype bstp_info = BSTP_INFO_RECEIVED | BSTP_INFO_MINE | BSTP_INFO_AGED | BSTP_INFO_DISABLED

datatype bstp_pdu = BSTP_PDU_SUPERIOR | BSTP_PDU_REPEATED | BSTP_PDU_INFERIOR
  | BSTP_PDU_INFERIORALT | BSTP_PDU_OTHER

abbreviation (input) "BSTP_PORT_CANMIGRATE \<equiv> 0x0001 :: u32"
abbreviation (input) "BSTP_PORT_NEWINFO \<equiv> 0x0002 :: u32"
abbreviation (input) "BSTP_PORT_DISPUTED \<equiv> 0x0004 :: u32"
abbreviation (input) "BSTP_PORT_ADMCOST \<equiv> 0x0008 :: u32"
abbreviation (input) "BSTP_PORT_AUTOEDGE \<equiv> 0x0010 :: u32"
abbreviation (input) "BSTP_PORT_AUTOPTP \<equiv> 0x0020 :: u32"
abbreviation (input) "BSTP_PORT_ADMEDGE \<equiv> 0x0040 :: u32"
abbreviation (input) "BSTP_PORT_PNDCOST \<equiv> 0x0080 :: u32"

abbreviation (input) "BSTP_PDU_PRMASK \<equiv> 0x0c :: u8"
abbreviation (input) "BSTP_PDU_PRSHIFT \<equiv> 2 :: nat"
abbreviation (input) "BSTP_PDU_F_ALT \<equiv> 0x01 :: u8"
abbreviation (input) "BSTP_PDU_F_ROOT \<equiv> 0x02 :: u8"
abbreviation (input) "BSTP_PDU_F_DESG \<equiv> 0x03 :: u8"
abbreviation (input) "BSTP_PDU_STPMASK \<equiv> 0x81 :: u8"
abbreviation (input) "BSTP_PDU_RSTPMASK \<equiv> 0x7f :: u8"
abbreviation (input) "BSTP_PDU_F_TC \<equiv> 0x01 :: u8"
abbreviation (input) "BSTP_PDU_F_P \<equiv> 0x02 :: u8"
abbreviation (input) "BSTP_PDU_F_L \<equiv> 0x10 :: u8"
abbreviation (input) "BSTP_PDU_F_F \<equiv> 0x20 :: u8"
abbreviation (input) "BSTP_PDU_F_A \<equiv> 0x40 :: u8"
abbreviation (input) "BSTP_PDU_F_TCA \<equiv> 0x80 :: u8"

abbreviation (input) "BSTP_MSGTYPE_CFG \<equiv> 0x00 :: u8"
abbreviation (input) "BSTP_MSGTYPE_RSTP \<equiv> 0x02 :: u8"
abbreviation (input) "BSTP_MSGTYPE_TCN \<equiv> 0x80 :: u8"

abbreviation (input) "BSTP_PROTO_STP \<equiv> 0x00 :: u8"
abbreviation (input) "BSTP_PROTO_RSTP \<equiv> 0x02 :: u8"
abbreviation (input) "BSTP_PROTO_MAX \<equiv> BSTP_PROTO_RSTP"

abbreviation (input) "BSTP_DEFAULT_MIGRATE_DELAY \<equiv> 3 :: u16"
abbreviation (input) "BSTP_DEFAULT_FORWARD_DELAY \<equiv> 15 :: u16"
abbreviation (input) "BSTP_LINK_TIMER \<equiv> 15 :: u16"
abbreviation (input) "BSTP_MAX_PATH_COST \<equiv> 200000000 :: u32"

abbreviation (input) "LLC_8021D_LSAP \<equiv> 0x42 :: u8"
abbreviation (input) "LLC_UI \<equiv> 0x3 :: u8"

abbreviation (input) "IF_UP \<equiv> 1 :: int"
abbreviation (input) "IF_DOWN \<equiv> 2 :: int"

definition bstp_etheraddr :: macaddress where
  "bstp_etheraddr = MAC 0x01 0x80 0xc2 0x00 0x00 0x00"

section \<open>Records\<close>

record bstp_timer =
  tm_active :: bool
  tm_latched :: bool
  tm_value :: int

record bstp_pri_vector =
  pv_root_id :: u64
  pv_dbridge_id :: u64
  pv_cost :: u32
  pv_dport_id :: u16
  pv_port_id :: u16

record bstp_config_unit =
  cu_pv :: bstp_pri_vector
  cu_message_age :: u16
  cu_max_age :: u16
  cu_forward_delay :: u16
  cu_hello_time :: u16
  cu_message_type :: u8
  cu_topology_change_ack :: bool
  cu_topology_change :: bool
  cu_proposal :: bool
  cu_agree :: bool
  cu_learning :: bool
  cu_forwarding :: bool
  cu_role :: bstp_role

text \<open>
  The wire form of a configuration BPDU. Multi-byte fields hold what the memory holds, that is,
  network byte order read on this host. \<open>bstp_tbpdu\<close> is the same memory up to the type field; a
  transmitted field that the code leaves unset is \<open>None\<close>.
\<close>

record bstp_cbpdu =
  ether_dhost :: macaddress
  ether_shost :: macaddress
  ether_type :: u16
  cbu_dsap :: u8
  cbu_ssap :: u8
  cbu_ctl :: u8
  cbu_protoid :: u16
  cbu_protover :: u8
  cbu_bpdutype :: u8
  cbu_flags :: u8
  cbu_rootpri :: u16
  cbu_rootaddr :: macaddress
  cbu_rootpathcost :: u32
  cbu_bridgepri :: u16
  cbu_bridgeaddr :: macaddress
  cbu_portid :: u16
  cbu_messageage :: u16
  cbu_maxage :: u16
  cbu_hellotime :: u16
  cbu_forwarddelay :: u16
  cbu_versionlen :: "u8 option"

record bstp_tbpdu =
  tbu_dhost :: macaddress
  tbu_shost :: macaddress
  tbu_type :: u16
  tbu_dsap :: u8
  tbu_ssap :: u8
  tbu_ctl :: u8
  tbu_protoid :: u16
  tbu_protover :: u8
  tbu_bpdutype :: u8

datatype bstp_frame = ConfigFrame u16 bstp_cbpdu | TcnFrame u16 bstp_tbpdu

record bstp_port =
  bp_ifp :: int
  bp_active :: bool
  bp_protover :: u8
  bp_flags :: u32
  bp_path_cost :: u32
  bp_port_msg_age :: u16
  bp_port_max_age :: u16
  bp_port_fdelay :: u16
  bp_port_htime :: u16
  bp_desg_msg_age :: u16
  bp_desg_max_age :: u16
  bp_desg_fdelay :: u16
  bp_desg_htime :: u16
  bp_edge_delay_timer :: bstp_timer
  bp_forward_delay_timer :: bstp_timer
  bp_hello_timer :: bstp_timer
  bp_message_age_timer :: bstp_timer
  bp_migrate_delay_timer :: bstp_timer
  bp_recent_backup_timer :: bstp_timer
  bp_recent_root_timer :: bstp_timer
  bp_tc_timer :: bstp_timer
  bp_msg_cu :: bstp_config_unit
  bp_desg_pv :: bstp_pri_vector
  bp_port_pv :: bstp_pri_vector
  bp_port_id :: u16
  bp_state :: bstp_ifstate
  bp_tcstate :: bstp_tcstate
  bp_role :: bstp_role
  bp_infois :: bstp_info
  bp_tc_ack :: bool
  bp_tc_prop :: bool
  bp_fdbflush :: bool
  bp_priority :: u8
  bp_ptp_link :: bool
  bp_agree :: bool
  bp_agreed :: bool
  bp_sync :: bool
  bp_synced :: bool
  bp_proposing :: bool
  bp_proposed :: bool
  bp_operedge :: bool
  bp_reroot :: bool
  bp_rcvdtc :: bool
  bp_rcvdtca :: bool
  bp_rcvdtcn :: bool
  bp_forward_transitions :: u32
  bp_txcount :: u8

record bstp_state =
  bs_vlan_id :: u16
  bs_running :: bool
  bs_bridge_pv :: bstp_pri_vector
  bs_root_pv :: bstp_pri_vector
  bs_root_port :: "nat option"
  bs_protover :: u8
  bs_migration_delay :: u16
  bs_edge_delay :: u16
  bs_bridge_max_age :: u16
  bs_bridge_fdelay :: u16
  bs_bridge_htime :: u16
  bs_root_msg_age :: u16
  bs_root_max_age :: u16
  bs_root_fdelay :: u16
  bs_root_htime :: u16
  bs_hold_time :: u16
  bs_bridge_priority :: u16
  bs_txholdcount :: u8
  bs_allsynced :: bool
  bs_link_timer :: bstp_timer
  bs_bplist :: "nat list"
  bs_ports :: "nat \<Rightarrow> bstp_port"
  bs_callout :: bool
  bs_sent :: "bstp_frame list"

record rstp_env =
  env_oper_state :: "u16 \<Rightarrow> int"
  env_port_mac :: "u16 \<Rightarrow> macaddress"
  env_bridge_mac :: macaddress
  env_stale_cost :: u32

text \<open>Writing fields of a port through its address.\<close>

definition pupd :: "nat \<Rightarrow> (bstp_port \<Rightarrow> bstp_port) \<Rightarrow> bstp_state \<Rightarrow> bstp_state" where
  "pupd i f bs = bs\<lparr>bs_ports := (bs_ports bs)(i := f (bs_ports bs i))\<rparr>"

lemma bs_ports_pupd [simp]: "bs_ports (pupd i f bs) j = (if j = i then f (bs_ports bs i) else bs_ports bs j)"
  by (simp add: pupd_def)

lemma pupd_frame [simp]:
  "bs_vlan_id (pupd i f bs) = bs_vlan_id bs" "bs_running (pupd i f bs) = bs_running bs"
  "bs_bridge_pv (pupd i f bs) = bs_bridge_pv bs" "bs_root_pv (pupd i f bs) = bs_root_pv bs"
  "bs_root_port (pupd i f bs) = bs_root_port bs" "bs_protover (pupd i f bs) = bs_protover bs"
  "bs_migration_delay (pupd i f bs) = bs_migration_delay bs"
  "bs_bridge_max_age (pupd i f bs) = bs_bridge_max_age bs"
  "bs_bridge_fdelay (pupd i f bs) = bs_bridge_fdelay bs"
  "bs_bridge_htime (pupd i f bs) = bs_bridge_htime bs"
  "bs_root_msg_age (pupd i f bs) = bs_root_msg_age bs"
  "bs_root_max_age (pupd i f bs) = bs_root_max_age bs"
  "bs_root_fdelay (pupd i f bs) = bs_root_fdelay bs"
  "bs_root_htime (pupd i f bs) = bs_root_htime bs"
  "bs_bridge_priority (pupd i f bs) = bs_bridge_priority bs"
  "bs_txholdcount (pupd i f bs) = bs_txholdcount bs" "bs_allsynced (pupd i f bs) = bs_allsynced bs"
  "bs_link_timer (pupd i f bs) = bs_link_timer bs" "bs_bplist (pupd i f bs) = bs_bplist bs"
  "bs_callout (pupd i f bs) = bs_callout bs" "bs_sent (pupd i f bs) = bs_sent bs"
  by (simp_all add: pupd_def)

end
