(* ===== verification/Rstp_Model.thy ===== *)
theory Rstp_Model
  imports Rstp_Types
begin

unbundle bit_operations_syntax

text \<open>
  The functions of \<open>src/src/bridge/rstp/bridgestp.c\<close> on one bridge instance. Every definition
  takes the environment where the code asks the port table or the platform, the address of the
  port it works on and the bridge state, and returns the new bridge state. The blocks of the
  long switch in \<open>bstp_update_roles\<close> are one definition each, named after the transition the
  source prints there. The two mutually recursive functions \<open>bstp_transmit\<close> and
  \<open>bstp_hello_timer_expiry\<close> terminate because the second starts the hello timer before it calls
  the first.
\<close>

section \<open>Timers\<close>

definition bstp_timer_start :: "u16 \<Rightarrow> bstp_timer" where
  "bstp_timer_start v = \<lparr>tm_active = True, tm_latched = False, tm_value = uint v\<rparr>"

definition bstp_timer_stop :: bstp_timer where
  "bstp_timer_stop = \<lparr>tm_active = False, tm_latched = False, tm_value = 0\<rparr>"

definition bstp_timer_latch :: "bstp_timer \<Rightarrow> bstp_timer" where
  "bstp_timer_latch t = t\<lparr>tm_latched := True, tm_active := True\<rparr>"

definition bstp_timer_expired :: "bstp_timer \<Rightarrow> bool \<times> bstp_timer" where
  "bstp_timer_expired t =
    (if \<not> tm_active t \<or> tm_latched t then (False, t)
     else let v = tm_value t - 1 in
       if v \<le> 0 then (True, bstp_timer_stop) else (False, t\<lparr>tm_value := v\<rparr>))"

section \<open>Bridge identifiers and priority vectors\<close>

definition PV2ADDR :: "u64 \<Rightarrow> macaddress" where
  "PV2ADDR pv = MAC (ucast (drop_bit 40 pv)) (ucast (drop_bit 32 pv)) (ucast (drop_bit 24 pv))
     (ucast (drop_bit 16 pv)) (ucast (drop_bit 8 pv)) (ucast pv)"

fun bridge_id :: "u16 \<Rightarrow> macaddress \<Rightarrow> u64" where
  "bridge_id pri (MAC a0 a1 a2 a3 a4 a5) =
     push_bit 48 (ucast pri) OR push_bit 40 (ucast a0) OR push_bit 32 (ucast a1)
     OR push_bit 24 (ucast a2) OR push_bit 16 (ucast a3) OR push_bit 8 (ucast a4) OR ucast a5"

fun bstp_addr_cmp :: "u8 list \<Rightarrow> u8 list \<Rightarrow> int" where
  "bstp_addr_cmp (a # as) (b # bs) =
     (let d = uint a - uint b in if d \<noteq> 0 then d else bstp_addr_cmp as bs)"
| "bstp_addr_cmp _ _ = 0"

definition bstp_same_bridgeid :: "u64 \<Rightarrow> u64 \<Rightarrow> bool" where
  "bstp_same_bridgeid id1 id2 \<longleftrightarrow>
     bstp_addr_cmp (mac_bytes (PV2ADDR id1)) (mac_bytes (PV2ADDR id2)) = 0"

abbreviation (input) "INFO_BETTER \<equiv> 1 :: int"
abbreviation (input) "INFO_SAME \<equiv> 0 :: int"
abbreviation (input) "INFO_WORSE \<equiv> - 1 :: int"

definition bstp_info_cmp :: "bstp_pri_vector \<Rightarrow> bstp_pri_vector \<Rightarrow> int" where
  "bstp_info_cmp pv cpv =
    (if pv_root_id cpv < pv_root_id pv then INFO_BETTER
     else if pv_root_id cpv > pv_root_id pv then INFO_WORSE
     else if pv_cost cpv < pv_cost pv then INFO_BETTER
     else if pv_cost cpv > pv_cost pv then INFO_WORSE
     else if pv_dbridge_id cpv < pv_dbridge_id pv then INFO_BETTER
     else if pv_dbridge_id cpv > pv_dbridge_id pv then INFO_WORSE
     else if pv_dport_id cpv < pv_dport_id pv then INFO_BETTER
     else if pv_dport_id cpv > pv_dport_id pv then INFO_WORSE
     else INFO_SAME)"

definition bstp_info_superior :: "bstp_pri_vector \<Rightarrow> bstp_pri_vector \<Rightarrow> bool" where
  "bstp_info_superior pv cpv \<longleftrightarrow>
     bstp_info_cmp pv cpv = INFO_BETTER \<or>
     (bstp_same_bridgeid (pv_dbridge_id pv) (pv_dbridge_id cpv) \<and>
      pv_dport_id cpv AND 0xfff = pv_dport_id pv AND 0xfff)"

section \<open>Transmission\<close>

definition ifp_of :: "bstp_port \<Rightarrow> u16" where
  "ifp_of p = word_of_int (bp_ifp p)"

definition bstp_pdu_flags :: "bstp_port \<Rightarrow> u8" where
  "bstp_pdu_flags bp =
    (let flags =
        (if bp_proposing bp \<and> bp_state bp \<noteq> BSTP_IFSTATE_FORWARDING then BSTP_PDU_F_P else 0)
        OR (if bp_agree bp then BSTP_PDU_F_A else 0)
        OR (if tm_active (bp_tc_timer bp) then BSTP_PDU_F_TC else 0)
        OR (if bp_tc_ack bp then BSTP_PDU_F_TCA else 0)
        OR (case bp_state bp of
              BSTP_IFSTATE_LEARNING \<Rightarrow> BSTP_PDU_F_L
            | BSTP_IFSTATE_FORWARDING \<Rightarrow> BSTP_PDU_F_L OR BSTP_PDU_F_F
            | _ \<Rightarrow> 0)
        OR (case bp_role bp of
              BSTP_ROLE_ROOT \<Rightarrow> push_bit BSTP_PDU_PRSHIFT BSTP_PDU_F_ROOT
            | BSTP_ROLE_ALTERNATE \<Rightarrow> push_bit BSTP_PDU_PRSHIFT BSTP_PDU_F_ALT
            | BSTP_ROLE_BACKUP \<Rightarrow> push_bit BSTP_PDU_PRSHIFT BSTP_PDU_F_ALT
            | BSTP_ROLE_DESIGNATED \<Rightarrow> push_bit BSTP_PDU_PRSHIFT BSTP_PDU_F_DESG
            | BSTP_ROLE_DISABLED \<Rightarrow> 0)
     in if bp_protover bp = BSTP_PROTO_STP then flags AND BSTP_PDU_STPMASK
        else if bp_protover bp = BSTP_PROTO_RSTP then flags AND BSTP_PDU_RSTPMASK
        else flags)"

text \<open>
  \<open>bstp_send_bpdu\<close> on the unit that \<open>bstp_transmit_bpdu\<close> has filled in, whose type is one of the
  two that the source's switch handles.
\<close>

definition bstp_send_bpdu :: "rstp_env \<Rightarrow> nat \<Rightarrow> bstp_cbpdu \<Rightarrow> bstp_state \<Rightarrow> bstp_state" where
  "bstp_send_bpdu env i bpdu bs =
    (let ifp = ifp_of (bs_ports bs i);
         bpdu = bpdu\<lparr>cbu_ssap := LLC_8021D_LSAP, cbu_dsap := LLC_8021D_LSAP, cbu_ctl := LLC_UI,
                  cbu_protoid := htons 0, ether_shost := env_port_mac env ifp,
                  ether_dhost := bstp_etheraddr\<rparr>;
         bpdu = (if cbu_bpdutype bpdu = BSTP_MSGTYPE_CFG
                 then bpdu\<lparr>cbu_protover := BSTP_PROTO_STP, ether_type := htons 38\<rparr>
                 else if cbu_bpdutype bpdu = BSTP_MSGTYPE_RSTP
                 then bpdu\<lparr>cbu_protover := BSTP_PROTO_RSTP, cbu_versionlen := Some 0,
                           ether_type := htons 39\<rparr>
                 else bpdu)
     in (pupd i (\<lambda>p. p\<lparr>bp_txcount := bp_txcount p + 1\<rparr>) bs)
          \<lparr>bs_sent := bs_sent bs @ [ConfigFrame ifp bpdu]\<rparr>)"

text \<open>
  The unit before \<open>bstp_send_bpdu\<close>: the header fields, still unset on the C stack, are zero here
  and are all overwritten by \<open>bstp_send_bpdu\<close>, except \<open>cbu_versionlen\<close>, which a configuration
  BPDU of plain STP sends as it is.
\<close>

definition fill_bpdu :: "bstp_port \<Rightarrow> bstp_cbpdu" where
  "fill_bpdu bp =
    \<lparr>ether_dhost = MAC 0 0 0 0 0 0, ether_shost = MAC 0 0 0 0 0 0, ether_type = 0,
     cbu_dsap = 0, cbu_ssap = 0, cbu_ctl = 0, cbu_protoid = 0, cbu_protover = 0,
     cbu_bpdutype = (if bp_protover bp = BSTP_PROTO_STP then BSTP_MSGTYPE_CFG
                     else BSTP_MSGTYPE_RSTP),
     cbu_flags = bstp_pdu_flags bp,
     cbu_rootpri = htons (ucast (drop_bit 48 (pv_root_id (bp_desg_pv bp)))),
     cbu_rootaddr = PV2ADDR (pv_root_id (bp_desg_pv bp)),
     cbu_rootpathcost = htonl (pv_cost (bp_desg_pv bp)),
     cbu_bridgepri = htons (ucast (drop_bit 48 (pv_dbridge_id (bp_desg_pv bp)))),
     cbu_bridgeaddr = PV2ADDR (pv_dbridge_id (bp_desg_pv bp)),
     cbu_portid = htons (bp_port_id bp), cbu_messageage = htons (bp_desg_msg_age bp),
     cbu_maxage = htons (bp_desg_max_age bp), cbu_hellotime = htons (bp_desg_htime bp),
     cbu_forwarddelay = htons (bp_desg_fdelay bp), cbu_versionlen = None\<rparr>"

definition bstp_transmit_bpdu :: "rstp_env \<Rightarrow> nat \<Rightarrow> bstp_state \<Rightarrow> bstp_state" where
  "bstp_transmit_bpdu env i bs = bstp_send_bpdu env i (fill_bpdu (bs_ports bs i)) bs"

definition bstp_transmit_tcn :: "rstp_env \<Rightarrow> nat \<Rightarrow> bstp_state \<Rightarrow> bstp_state" where
  "bstp_transmit_tcn env i bs =
    (let ifp = ifp_of (bs_ports bs i);
         bpdu = \<lparr>tbu_dhost = bstp_etheraddr, tbu_shost = env_port_mac env ifp,
                 tbu_type = htons 21, tbu_dsap = LLC_8021D_LSAP, tbu_ssap = LLC_8021D_LSAP,
                 tbu_ctl = LLC_UI, tbu_protoid = 0, tbu_protover = 0,
                 tbu_bpdutype = BSTP_MSGTYPE_TCN\<rparr>
     in (pupd i (\<lambda>p. p\<lparr>bp_txcount := bp_txcount p + 1\<rparr>) bs)
          \<lparr>bs_sent := bs_sent bs @ [TcnFrame ifp bpdu]\<rparr>)"

function (sequential) bstp_transmit :: "rstp_env \<Rightarrow> nat \<Rightarrow> bstp_state \<Rightarrow> bstp_state"
  and bstp_hello_timer_expiry :: "rstp_env \<Rightarrow> nat \<Rightarrow> bstp_state \<Rightarrow> bstp_state" where
  "bstp_transmit env i bs =
    (if \<not> bs_running bs then bs
     else if \<not> tm_active (bp_hello_timer (bs_ports bs i)) then bstp_hello_timer_expiry env i bs
     else if bp_txcount (bs_ports bs i) > bs_txholdcount bs then bs
     else
       let bs = (if bp_protover (bs_ports bs i) = BSTP_PROTO_RSTP
                 then pupd i (\<lambda>p. p\<lparr>bp_tc_ack := False\<rparr>) (bstp_transmit_bpdu env i bs)
                 else (case bp_role (bs_ports bs i) of
                     BSTP_ROLE_DESIGNATED \<Rightarrow>
                       pupd i (\<lambda>p. p\<lparr>bp_tc_ack := False\<rparr>) (bstp_transmit_bpdu env i bs)
                   | BSTP_ROLE_ROOT \<Rightarrow> bstp_transmit_tcn env i bs
                   | _ \<Rightarrow> bs))
       in pupd i (\<lambda>p. p\<lparr>bp_hello_timer := bstp_timer_start (bp_desg_htime p),
                        bp_flags := flag_clear BSTP_PORT_NEWINFO (bp_flags p)\<rparr>) bs)"
| "bstp_hello_timer_expiry env i bs =
    (let bp = bs_ports bs i in
     if flag_on BSTP_PORT_NEWINFO (bp_flags bp) \<or> bp_role bp = BSTP_ROLE_DESIGNATED
        \<or> (bp_role bp = BSTP_ROLE_ROOT \<and> tm_active (bp_tc_timer bp))
     then bstp_transmit env i
            (pupd i (\<lambda>p. p\<lparr>bp_hello_timer := bstp_timer_start (bp_desg_htime p),
                           bp_flags := flag_set BSTP_PORT_NEWINFO (bp_flags p)\<rparr>) bs)
     else bs)"
  by pat_completeness auto

termination
  by (relation "measure (\<lambda>x. case x of
        Inl (env, i, bs) \<Rightarrow> if tm_active (bp_hello_timer (bs_ports bs i)) then 0 else 2
      | Inr (env, i, bs) \<Rightarrow> 1)")
    (auto simp: bstp_timer_start_def)

section \<open>Port state, topology change and roles\<close>

text \<open>The loop \<open>list_for_each_entry\<close> whose body only writes fields of the visited port.\<close>

definition for_ports :: "(bstp_port \<Rightarrow> bstp_port) \<Rightarrow> nat list \<Rightarrow> bstp_state \<Rightarrow> bstp_state" where
  "for_ports f is bs = fold (\<lambda>j. pupd j f) is bs"

definition bstp_set_port_state :: "bstp_ifstate \<Rightarrow> bstp_port \<Rightarrow> bstp_port" where
  "bstp_set_port_state st bp =
    (if bp_state bp = st then bp
     else let bp = bp\<lparr>bp_state := st\<rparr> in
       (case st of
          BSTP_IFSTATE_LEARNING \<Rightarrow>
            bp\<lparr>bp_forward_delay_timer := bstp_timer_start
                (if bp_protover bp = BSTP_PROTO_RSTP then bp_desg_htime bp else bp_desg_fdelay bp)\<rparr>
        | BSTP_IFSTATE_FORWARDING \<Rightarrow>
            bp\<lparr>bp_forward_delay_timer := bstp_timer_stop,
               bp_forward_transitions := bp_forward_transitions bp + 1\<rparr>
        | _ \<Rightarrow> bp))"

definition bstp_set_other_tcprop :: "nat \<Rightarrow> bstp_state \<Rightarrow> bstp_state" where
  "bstp_set_other_tcprop i bs =
     for_ports (\<lambda>p. p\<lparr>bp_tc_prop := True\<rparr>) (filter (\<lambda>j. j \<noteq> i) (bs_bplist bs)) bs"

definition bstp_set_all_reroot :: "bstp_state \<Rightarrow> bstp_state" where
  "bstp_set_all_reroot bs = for_ports (\<lambda>p. p\<lparr>bp_reroot := True\<rparr>) (bs_bplist bs) bs"

definition bstp_set_all_sync :: "bstp_state \<Rightarrow> bstp_state" where
  "bstp_set_all_sync bs =
     (for_ports (\<lambda>p. p\<lparr>bp_sync := True, bp_synced := False\<rparr>) (bs_bplist bs) bs)
       \<lparr>bs_allsynced := False\<rparr>"

definition bstp_set_timer_tc :: "nat \<Rightarrow> bstp_state \<Rightarrow> bstp_state" where
  "bstp_set_timer_tc i bs =
    (let bp = bs_ports bs i in
     if tm_active (bp_tc_timer bp) then bs
     else if bp_protover bp = BSTP_PROTO_RSTP
     then pupd i (\<lambda>p. p\<lparr>bp_tc_timer := bstp_timer_start (bp_desg_htime p + 1),
                         bp_flags := flag_set BSTP_PORT_NEWINFO (bp_flags p)\<rparr>) bs
     else if bp_protover bp = BSTP_PROTO_STP
     then pupd i (\<lambda>p. p\<lparr>bp_tc_timer :=
                         bstp_timer_start (bs_root_max_age bs + bs_root_fdelay bs)\<rparr>) bs
     else bs)"

definition bstp_set_timer_msgage :: "bstp_port \<Rightarrow> bstp_port" where
  "bstp_set_timer_msgage bp = bp\<lparr>bp_message_age_timer := bstp_timer_start
     (if uint (bp_port_msg_age bp) + 1 \<le> uint (bp_port_max_age bp) then bp_port_htime bp * 3
      else 0)\<rparr>"

text \<open>The common tail of the states TCN and TC of \<open>bstp_set_port_tc\<close>.\<close>

definition tc_received :: "nat \<Rightarrow> bstp_state \<Rightarrow> bstp_state" where
  "tc_received i bs =
    (let bs = pupd i (\<lambda>p. p\<lparr>bp_rcvdtc := False, bp_rcvdtcn := False,
                 bp_tc_ack := (bp_role p = BSTP_ROLE_DESIGNATED \<or> bp_tc_ack p)\<rparr>) bs
     in pupd i (\<lambda>p. p\<lparr>bp_tcstate := BSTP_TCSTATE_ACTIVE\<rparr>) (bstp_set_other_tcprop i bs))"

definition bstp_set_port_tc :: "rstp_env \<Rightarrow> nat \<Rightarrow> bstp_tcstate \<Rightarrow> bstp_state \<Rightarrow> bstp_state" where
  "bstp_set_port_tc env i st bs =
    (let bs = pupd i (\<lambda>p. p\<lparr>bp_tcstate := st\<rparr>) bs in
     case st of
       BSTP_TCSTATE_ACTIVE \<Rightarrow> bs
     | BSTP_TCSTATE_INACTIVE \<Rightarrow>
         pupd i (\<lambda>p. p\<lparr>bp_tc_timer := bstp_timer_stop, bp_fdbflush := True,
                        bp_tc_ack := False\<rparr>) bs
     | BSTP_TCSTATE_LEARNING \<Rightarrow>
         pupd i (\<lambda>p. p\<lparr>bp_rcvdtc := False, bp_rcvdtcn := False, bp_rcvdtca := False,
                        bp_tc_prop := False\<rparr>) bs
     | BSTP_TCSTATE_DETECTED \<Rightarrow>
         let bs = bstp_set_other_tcprop i (bstp_set_timer_tc i bs);
             bs = pupd i (\<lambda>p. p\<lparr>bp_flags := flag_set BSTP_PORT_NEWINFO (bp_flags p)\<rparr>) bs
         in pupd i (\<lambda>p. p\<lparr>bp_tcstate := BSTP_TCSTATE_ACTIVE\<rparr>) (bstp_transmit env i bs)
     | BSTP_TCSTATE_TCN \<Rightarrow> tc_received i (bstp_set_timer_tc i bs)
     | BSTP_TCSTATE_TC \<Rightarrow> tc_received i bs
     | BSTP_TCSTATE_PROPAG \<Rightarrow>
         let bs = pupd i (\<lambda>p. p\<lparr>bp_fdbflush := True, bp_tc_prop := False\<rparr>) bs
         in pupd i (\<lambda>p. p\<lparr>bp_tcstate := BSTP_TCSTATE_ACTIVE\<rparr>) (bstp_set_timer_tc i bs)
     | BSTP_TCSTATE_ACK \<Rightarrow>
         pupd i (\<lambda>p. p\<lparr>bp_tc_timer := bstp_timer_stop, bp_rcvdtca := False,
                        bp_tcstate := BSTP_TCSTATE_ACTIVE\<rparr>) bs)"

text \<open>A guarded change of the topology change state, \<open>if (..) bstp_set_port_tc (bp, ..)\<close>.\<close>

definition tc_when ::
    "(bstp_port \<Rightarrow> bool) \<Rightarrow> bstp_tcstate \<Rightarrow> rstp_env \<Rightarrow> nat \<Rightarrow> bstp_state \<Rightarrow> bstp_state" where
  "tc_when c st env i bs = (if c (bs_ports bs i) then bstp_set_port_tc env i st bs else bs)"

definition tc_role :: "bstp_port \<Rightarrow> bool" where
  "tc_role bp \<longleftrightarrow> bp_role bp = BSTP_ROLE_DESIGNATED \<or> bp_role bp = BSTP_ROLE_ROOT"

definition bstp_update_tc :: "rstp_env \<Rightarrow> nat \<Rightarrow> bstp_state \<Rightarrow> bstp_state" where
  "bstp_update_tc env i bs =
    (case bp_tcstate (bs_ports bs i) of
       BSTP_TCSTATE_ACTIVE \<Rightarrow>
         tc_when bp_rcvdtca BSTP_TCSTATE_ACK env i
           (tc_when (\<lambda>bp. bp_tc_prop bp \<and> \<not> bp_operedge bp) BSTP_TCSTATE_PROPAG env i
             (tc_when bp_rcvdtc BSTP_TCSTATE_TC env i
               (tc_when bp_rcvdtcn BSTP_TCSTATE_TCN env i
                 (tc_when (\<lambda>bp. \<not> tc_role bp \<or> bp_operedge bp) BSTP_TCSTATE_LEARNING env i bs))))
     | BSTP_TCSTATE_INACTIVE \<Rightarrow>
         tc_when (\<lambda>bp. (bp_state bp = BSTP_IFSTATE_LEARNING \<or> bp_state bp = BSTP_IFSTATE_FORWARDING)
                        \<and> \<not> bp_fdbflush bp) BSTP_TCSTATE_LEARNING env i bs
     | BSTP_TCSTATE_LEARNING \<Rightarrow>
         tc_when (\<lambda>bp. tc_role bp \<and> bp_state bp = BSTP_IFSTATE_FORWARDING \<and> \<not> bp_operedge bp)
           BSTP_TCSTATE_DETECTED env i
           (let bp = bs_ports bs i in
            if bp_rcvdtc bp \<or> bp_rcvdtcn bp \<or> bp_rcvdtca bp \<or> bp_tc_prop bp
            then bstp_set_port_tc env i BSTP_TCSTATE_LEARNING bs
            else if \<not> tc_role bp \<and> bp_state bp = BSTP_IFSTATE_DISCARDING
            then bstp_set_port_tc env i BSTP_TCSTATE_INACTIVE bs else bs)
     | _ \<Rightarrow> bs)"

text \<open>The switch of \<open>bstp_set_port_role\<close> on the role that is left, and the one on the new role.\<close>

definition role_leave :: "bstp_port \<Rightarrow> bstp_port" where
  "role_leave bp =
    (case bp_role bp of
       BSTP_ROLE_DISABLED \<Rightarrow>
         bp\<lparr>bp_forward_delay_timer := bstp_timer_start (bp_desg_max_age bp)\<rparr>
     | BSTP_ROLE_BACKUP \<Rightarrow>
         bp\<lparr>bp_recent_backup_timer := bstp_timer_start (bp_desg_htime bp * 2),
            bp_forward_delay_timer := bstp_timer_start (bp_desg_fdelay bp),
            bp_sync := False, bp_synced := True, bp_reroot := False\<rparr>
     | BSTP_ROLE_ALTERNATE \<Rightarrow>
         bp\<lparr>bp_forward_delay_timer := bstp_timer_start (bp_desg_fdelay bp),
            bp_sync := False, bp_synced := True, bp_reroot := False\<rparr>
     | BSTP_ROLE_ROOT \<Rightarrow>
         bp\<lparr>bp_recent_root_timer := bstp_timer_start BSTP_DEFAULT_FORWARD_DELAY\<rparr>
     | BSTP_ROLE_DESIGNATED \<Rightarrow> bp)"

definition role_enter :: "bstp_port \<Rightarrow> bstp_port" where
  "role_enter bp =
    (case bp_role bp of
       BSTP_ROLE_ROOT \<Rightarrow>
         let bp = bstp_set_port_state BSTP_IFSTATE_DISCARDING bp
         in bp\<lparr>bp_recent_root_timer := bstp_timer_latch (bp_recent_root_timer bp),
               bp_proposing := False\<rparr>
     | BSTP_ROLE_DESIGNATED \<Rightarrow>
         bp\<lparr>bp_hello_timer := bstp_timer_start (bp_desg_htime bp), bp_agree := False\<rparr>
     | _ \<Rightarrow>
         let bp = bstp_set_port_state BSTP_IFSTATE_DISCARDING bp
         in bp\<lparr>bp_recent_root_timer := bstp_timer_stop,
               bp_forward_delay_timer := bstp_timer_latch (bp_forward_delay_timer bp),
               bp_sync := False, bp_synced := True, bp_reroot := False\<rparr>)"

definition bstp_set_port_role :: "rstp_env \<Rightarrow> nat \<Rightarrow> bstp_role \<Rightarrow> bstp_state \<Rightarrow> bstp_state" where
  "bstp_set_port_role env i r bs =
    (if bp_role (bs_ports bs i) = r then bs
     else
       let bs = pupd i role_leave bs;
           bs = (pupd i (\<lambda>p. p\<lparr>bp_role := r, bp_proposing := False\<rparr>) bs)\<lparr>bs_allsynced := False\<rparr>;
           bs = pupd i role_enter bs
       in bstp_update_tc env i bs)"

definition bstp_set_port_proto :: "nat \<Rightarrow> u8 \<Rightarrow> bstp_state \<Rightarrow> bstp_state" where
  "bstp_set_port_proto i proto bs =
    (if proto = BSTP_PROTO_STP then
       pupd i (\<lambda>p. p\<lparr>bp_migrate_delay_timer := bstp_timer_stop, bp_operedge := False,
           bp_path_cost := (if bp_path_cost p > 65535 then 65535 else bp_path_cost p),
           bp_protover := proto, bp_flags := flag_clear BSTP_PORT_CANMIGRATE (bp_flags p)\<rparr>) bs
     else if proto = BSTP_PROTO_RSTP then
       pupd i (\<lambda>p. p\<lparr>bp_migrate_delay_timer := bstp_timer_start (bs_migration_delay bs),
           bp_protover := proto, bp_flags := flag_clear BSTP_PORT_CANMIGRATE (bp_flags p)\<rparr>) bs
     else bs)"

definition bstp_pdu_bettersame :: "bstp_info \<Rightarrow> bstp_port \<Rightarrow> bool" where
  "bstp_pdu_bettersame newinfo bp \<longleftrightarrow>
     (newinfo = BSTP_INFO_RECEIVED \<and> bp_infois bp = BSTP_INFO_RECEIVED
        \<and> bstp_info_cmp (bp_port_pv bp) (cu_pv (bp_msg_cu bp)) \<ge> INFO_SAME) \<or>
     (newinfo = BSTP_INFO_MINE \<and> bp_infois bp = BSTP_INFO_MINE
        \<and> bstp_info_cmp (bp_port_pv bp) (bp_desg_pv bp) \<ge> INFO_SAME)"

definition bstp_update_info :: "nat \<Rightarrow> bstp_state \<Rightarrow> bstp_state" where
  "bstp_update_info i bs =
    (let bs = pupd i (\<lambda>p. p\<lparr>bp_proposing := False, bp_proposed := False\<rparr>) bs;
         bp = bs_ports bs i;
         bs = (if bp_agreed bp \<and> \<not> bstp_pdu_bettersame BSTP_INFO_MINE bp
               then pupd i (\<lambda>p. p\<lparr>bp_agreed := False\<rparr>) bs else bs);
         bp = bs_ports bs i;
         bs = (if bp_synced bp \<and> \<not> bp_agreed bp
               then (pupd i (\<lambda>p. p\<lparr>bp_synced := False\<rparr>) bs)\<lparr>bs_allsynced := False\<rparr> else bs)
     in pupd i (\<lambda>p. p\<lparr>bp_port_pv := bp_desg_pv p, bp_port_msg_age := bp_desg_msg_age p,
                    bp_port_max_age := bp_desg_max_age p, bp_port_fdelay := bp_desg_fdelay p,
                    bp_port_htime := bp_desg_htime p, bp_infois := BSTP_INFO_MINE,
                    bp_flags := flag_set BSTP_PORT_NEWINFO (bp_flags p)\<rparr>) bs)"

section \<open>Role selection\<close>

text \<open>The body of the first loop of \<open>bstp_assign_roles\<close>: the port's root path priority vector, and
  the step that lets it replace the root. The pair carries the local variable \<open>rbp\<close>.\<close>

definition root_path_pv :: "bstp_port \<Rightarrow> bstp_pri_vector" where
  "root_path_pv bp = (bp_port_pv bp)\<lparr>pv_cost := pv_cost (bp_port_pv bp) + bp_path_cost bp\<rparr>"

definition assign_root_port ::
    "nat \<Rightarrow> bstp_state \<times> nat option \<Rightarrow> bstp_state \<times> nat option" where
  "assign_root_port i s =
    (case s of (bs, rbp) \<Rightarrow>
       let bp = bs_ports bs i; pv = root_path_pv bp in
       if bp_infois bp \<noteq> BSTP_INFO_RECEIVED then s
       else if \<not> bstp_same_bridgeid (pv_dbridge_id pv) (pv_dbridge_id (bs_bridge_pv bs))
               \<and> bstp_info_cmp (bs_root_pv bs) pv = INFO_BETTER
       then (bs\<lparr>bs_root_pv := pv, bs_root_msg_age := bp_port_msg_age bp + 1,
                bs_root_max_age := bp_port_max_age bp, bs_root_fdelay := bp_port_fdelay bp,
                bs_root_htime := bp_port_htime bp\<rparr>, Some i)
       else s)"

text \<open>The body of the second loop.\<close>

definition assign_desg :: "nat \<Rightarrow> bstp_state \<Rightarrow> bstp_state" where
  "assign_desg i bs =
     pupd i (\<lambda>p. p\<lparr>bp_desg_pv := (bp_desg_pv p)\<lparr>pv_root_id := pv_root_id (bs_root_pv bs),
           pv_cost := pv_cost (bs_root_pv bs), pv_dbridge_id := pv_dbridge_id (bs_bridge_pv bs),
           pv_dport_id := bp_port_id p, pv_port_id := bp_port_id p\<rparr>,
         bp_desg_msg_age := bs_root_msg_age bs, bp_desg_max_age := bs_root_max_age bs,
         bp_desg_fdelay := bs_root_fdelay bs, bp_desg_htime := bs_bridge_htime bs\<rparr>) bs"

definition assign_role :: "rstp_env \<Rightarrow> nat option \<Rightarrow> nat \<Rightarrow> bstp_state \<Rightarrow> bstp_state" where
  "assign_role env rbp i bs =
    (let bs = assign_desg i bs; bp = bs_ports bs i in
     case bp_infois bp of
       BSTP_INFO_DISABLED \<Rightarrow> bstp_set_port_role env i BSTP_ROLE_DISABLED bs
     | BSTP_INFO_AGED \<Rightarrow>
         bstp_update_info i (bstp_set_port_role env i BSTP_ROLE_DESIGNATED bs)
     | BSTP_INFO_MINE \<Rightarrow>
         let bs = bstp_set_port_role env i BSTP_ROLE_DESIGNATED bs; bp = bs_ports bs i;
             stale = (case rbp of None \<Rightarrow> False
               | Some r \<Rightarrow> let rb = bs_ports bs r in
                   bp_port_msg_age bp \<noteq> bp_port_msg_age rb \<or> bp_port_max_age bp \<noteq> bp_port_max_age rb
                   \<or> bp_port_fdelay bp \<noteq> bp_port_fdelay rb \<or> bp_port_htime bp \<noteq> bp_port_htime rb)
         in if bstp_info_cmp (bp_port_pv bp) (bp_desg_pv bp) \<noteq> INFO_SAME \<or> stale
            then bstp_update_info i bs else bs
     | BSTP_INFO_RECEIVED \<Rightarrow>
         if rbp = Some i
         then (bstp_set_port_role env i BSTP_ROLE_ROOT bs)\<lparr>bs_root_port := Some i\<rparr>
         else if bstp_info_cmp (bp_port_pv bp) (bp_desg_pv bp) = INFO_BETTER
         then bstp_update_info i (bstp_set_port_role env i BSTP_ROLE_DESIGNATED bs)
         else if bstp_same_bridgeid (pv_dbridge_id (bp_port_pv bp)) (pv_dbridge_id (bs_bridge_pv bs))
         then bstp_set_port_role env i BSTP_ROLE_BACKUP bs
         else bstp_set_port_role env i BSTP_ROLE_ALTERNATE bs)"

definition reset_root :: "bstp_state \<Rightarrow> bstp_state" where
  "reset_root bs = bs\<lparr>bs_root_pv := bs_bridge_pv bs, bs_root_msg_age := 0,
     bs_root_max_age := bs_bridge_max_age bs, bs_root_fdelay := bs_bridge_fdelay bs,
     bs_root_htime := bs_bridge_htime bs, bs_root_port := None\<rparr>"

definition bstp_assign_roles :: "rstp_env \<Rightarrow> bstp_state \<Rightarrow> bstp_state" where
  "bstp_assign_roles env bs =
    (case fold assign_root_port (bs_bplist bs) (reset_root bs, None) of
       (bs, rbp) \<Rightarrow> fold (assign_role env rbp) (bs_bplist bs) bs)"

section \<open>The port state machines\<close>

definition bstp_rerooted :: "nat \<Rightarrow> bstp_state \<Rightarrow> bool" where
  "bstp_rerooted i bs \<longleftrightarrow>
     list_all (\<lambda>j. j = i \<or> \<not> tm_active (bp_recent_root_timer (bs_ports bs j))) (bs_bplist bs)"

text \<open>\<open>ALTERNATE_PORT\<close>, also the block of a disabled port.\<close>

definition clear_sync :: "bstp_port \<Rightarrow> bstp_port" where
  "clear_sync bp = (if bp_sync bp \<or> \<not> bp_synced bp \<or> bp_reroot bp
     then bp\<lparr>bp_sync := False, bp_synced := True, bp_reroot := False\<rparr> else bp)"

definition alternate_agreed :: "nat \<Rightarrow> bstp_state \<Rightarrow> bstp_state" where
  "alternate_agreed i bs =
    (let bp = bs_ports bs i in
     if (bs_allsynced bs \<and> \<not> bp_agree bp) \<or> (bp_proposed bp \<and> bp_agree bp)
     then pupd i (\<lambda>p. p\<lparr>bp_proposed := False, bp_agree := True,
                        bp_flags := flag_set BSTP_PORT_NEWINFO (bp_flags p)\<rparr>) bs
     else bs)"

text \<open>\<open>ALTERNATE_PROPOSED\<close> and \<open>ROOT_PROPOSED\<close>, which are the same block.\<close>

definition port_proposed :: "nat \<Rightarrow> bstp_state \<Rightarrow> bstp_state" where
  "port_proposed i bs =
    (let bp = bs_ports bs i in
     if bp_proposed bp \<and> \<not> bp_agree bp
     then pupd i (\<lambda>p. p\<lparr>bp_proposed := False\<rparr>) (bstp_set_all_sync bs) else bs)"

definition root_reroot :: "nat \<Rightarrow> bstp_state \<Rightarrow> bstp_state" where
  "root_reroot i bs =
    (let bp = bs_ports bs i in
     if bp_state bp \<noteq> BSTP_IFSTATE_FORWARDING \<and> \<not> bp_reroot bp
     then bstp_set_all_reroot bs else bs)"

definition root_agreed :: "nat \<Rightarrow> bstp_state \<Rightarrow> bstp_state" where
  "root_agreed i bs =
    (let bp = bs_ports bs i in
     if (bs_allsynced bs \<and> \<not> bp_agree bp) \<or> (bp_proposed bp \<and> bp_agree bp)
     then pupd i (\<lambda>p. p\<lparr>bp_proposed := False, bp_sync := False, bp_agree := True,
                        bp_flags := flag_set BSTP_PORT_NEWINFO (bp_flags p)\<rparr>) bs
     else bs)"

definition root_forward :: "nat \<Rightarrow> bstp_state \<Rightarrow> bstp_state" where
  "root_forward i bs =
    (let bp = bs_ports bs i in
     if bp_state bp \<noteq> BSTP_IFSTATE_FORWARDING \<and>
        (\<not> tm_active (bp_forward_delay_timer bp) \<or>
         (bstp_rerooted i bs \<and> \<not> tm_active (bp_recent_backup_timer bp)
          \<and> bp_protover bp = BSTP_PROTO_RSTP))
     then (case bp_state bp of
         BSTP_IFSTATE_DISCARDING \<Rightarrow> pupd i (bstp_set_port_state BSTP_IFSTATE_LEARNING) bs
       | BSTP_IFSTATE_LEARNING \<Rightarrow> pupd i (bstp_set_port_state BSTP_IFSTATE_FORWARDING) bs
       | _ \<Rightarrow> bs)
     else bs)"

definition root_rerooted :: "bstp_port \<Rightarrow> bstp_port" where
  "root_rerooted bp = (if bp_state bp = BSTP_IFSTATE_FORWARDING \<and> bp_reroot bp
     then bp\<lparr>bp_reroot := False\<rparr> else bp)"

definition designated_retired :: "bstp_port \<Rightarrow> bstp_port" where
  "designated_retired bp = (if \<not> tm_active (bp_recent_root_timer bp) \<and> bp_reroot bp
     then bp\<lparr>bp_reroot := False\<rparr> else bp)"

definition designated_synced :: "bstp_port \<Rightarrow> bstp_port" where
  "designated_synced bp =
    (if (bp_state bp = BSTP_IFSTATE_DISCARDING \<and> \<not> bp_synced bp) \<or> (bp_agreed bp \<and> \<not> bp_synced bp)
        \<or> (bp_operedge bp \<and> \<not> bp_synced bp) \<or> (bp_sync bp \<and> bp_synced bp)
     then bp\<lparr>bp_recent_root_timer := bstp_timer_stop, bp_synced := True, bp_sync := False\<rparr>
     else bp)"

definition designated_propose :: "bstp_port \<Rightarrow> bstp_port" where
  "designated_propose bp =
    (if bp_state bp \<noteq> BSTP_IFSTATE_FORWARDING \<and> \<not> bp_agreed bp \<and> \<not> bp_proposing bp
        \<and> \<not> bp_operedge bp
     then bp\<lparr>bp_proposing := True, bp_flags := flag_set BSTP_PORT_NEWINFO (bp_flags bp),
             bp_edge_delay_timer := bstp_timer_start
               (if bp_ptp_link bp then BSTP_DEFAULT_MIGRATE_DELAY else bp_desg_max_age bp)\<rparr>
     else bp)"

definition designated_forward :: "bstp_port \<Rightarrow> bstp_port" where
  "designated_forward bp =
    (if bp_state bp \<noteq> BSTP_IFSTATE_FORWARDING \<and>
        (\<not> tm_active (bp_forward_delay_timer bp) \<or> bp_agreed bp \<or> bp_operedge bp) \<and>
        (\<not> tm_active (bp_recent_root_timer bp) \<or> \<not> bp_reroot bp) \<and> \<not> bp_sync bp
     then if bp_agreed bp \<or> bp_operedge bp \<or> bp_state bp = BSTP_IFSTATE_LEARNING
       then let bp = bstp_set_port_state BSTP_IFSTATE_FORWARDING bp
            in bp\<lparr>bp_agreed := (bp_protover bp \<noteq> 0)\<rparr>
       else if bp_state bp = BSTP_IFSTATE_DISCARDING
       then bstp_set_port_state BSTP_IFSTATE_LEARNING bp else bp
     else bp)"

definition designated_discard :: "bstp_port \<Rightarrow> bstp_port" where
  "designated_discard bp =
    (if ((bp_sync bp \<and> \<not> bp_synced bp) \<or> (bp_reroot bp \<and> tm_active (bp_recent_root_timer bp))
         \<or> flag_on BSTP_PORT_DISPUTED (bp_flags bp)) \<and> \<not> bp_operedge bp
        \<and> bp_state bp \<noteq> BSTP_IFSTATE_DISCARDING
     then let bp = bstp_set_port_state BSTP_IFSTATE_DISCARDING bp
       in bp\<lparr>bp_flags := flag_clear BSTP_PORT_DISPUTED (bp_flags bp),
             bp_forward_delay_timer := bstp_timer_start
               (if bp_protover bp = BSTP_PROTO_RSTP then bp_desg_htime bp else bp_desg_fdelay bp)\<rparr>
     else bp)"

definition update_role_switch :: "nat \<Rightarrow> bstp_state \<Rightarrow> bstp_state" where
  "update_role_switch i bs =
    (case bp_role (bs_ports bs i) of
       BSTP_ROLE_DISABLED \<Rightarrow> pupd i clear_sync bs
     | BSTP_ROLE_ROOT \<Rightarrow>
         pupd i root_rerooted (root_forward i (port_proposed i (root_agreed i (root_reroot i bs))))
     | BSTP_ROLE_DESIGNATED \<Rightarrow>
         pupd i (\<lambda>bp. designated_discard (designated_forward (designated_propose
                      (designated_synced (designated_retired bp))))) bs
     | _ \<Rightarrow> pupd i clear_sync (port_proposed i (alternate_agreed i bs)))"

definition bstp_update_roles :: "rstp_env \<Rightarrow> nat \<Rightarrow> bstp_state \<Rightarrow> bstp_state" where
  "bstp_update_roles env i bs =
    (let bs = update_role_switch i bs in
     if flag_on BSTP_PORT_NEWINFO (bp_flags (bs_ports bs i)) then bstp_transmit env i bs else bs)"

definition bstp_update_state :: "rstp_env \<Rightarrow> nat \<Rightarrow> bstp_state \<Rightarrow> bstp_state" where
  "bstp_update_state env i bs =
    (let bs = (if bs_allsynced bs then bs
               else bs\<lparr>bs_allsynced := list_all (\<lambda>j. bp_synced (bs_ports bs j)
                        \<or> bp_role (bs_ports bs j) = BSTP_ROLE_ROOT) (bs_bplist bs)\<rparr>)
     in bstp_update_tc env i (bstp_update_roles env i bs))"

end
