(* ===== verification/Rstp_Ops.thy ===== *)
theory Rstp_Ops
  imports Rstp_Model
begin

unbundle bit_operations_syntax

text \<open>
  The entry points of \<open>src/src/bridge/rstp/bridgestp.c\<close> on one bridge instance: reception of a
  BPDU, the configuration functions, the periodic tick, creation, enabling and disabling of
  ports, and the start of the instance.
\<close>

section \<open>Reception\<close>

definition bstp_decode_bpdu ::
    "bstp_port \<Rightarrow> bstp_cbpdu \<Rightarrow> bstp_config_unit \<Rightarrow> bstp_config_unit" where
  "bstp_decode_bpdu bp cpdu cu =
    (let cu = cu\<lparr>cu_pv := (cu_pv cu)\<lparr>
             pv_root_id := bridge_id (ntohs (cbu_rootpri cpdu)) (cbu_rootaddr cpdu),
             pv_dbridge_id := bridge_id (ntohs (cbu_bridgepri cpdu)) (cbu_bridgeaddr cpdu),
             pv_cost := ntohl (cbu_rootpathcost cpdu), pv_dport_id := ntohs (cbu_portid cpdu),
             pv_port_id := bp_port_id bp\<rparr>,
           cu_message_age := ntohs (cbu_messageage cpdu), cu_max_age := ntohs (cbu_maxage cpdu),
           cu_hello_time := ntohs (cbu_hellotime cpdu),
           cu_forward_delay := ntohs (cbu_forwarddelay cpdu),
           cu_message_type := cbu_bpdutype cpdu\<rparr>;
         (flags, cu) = (if cbu_protover cpdu = BSTP_PROTO_STP
                        then (cbu_flags cpdu AND BSTP_PDU_STPMASK,
                              cu\<lparr>cu_role := BSTP_ROLE_DESIGNATED\<rparr>)
                        else if cbu_protover cpdu = BSTP_PROTO_RSTP
                        then (cbu_flags cpdu AND BSTP_PDU_RSTPMASK, cu)
                        else (cbu_flags cpdu, cu));
         cu = cu\<lparr>cu_topology_change_ack := flag_on BSTP_PDU_F_TCA flags,
                 cu_proposal := flag_on BSTP_PDU_F_P flags, cu_agree := flag_on BSTP_PDU_F_A flags,
                 cu_learning := flag_on BSTP_PDU_F_L flags,
                 cu_forwarding := flag_on BSTP_PDU_F_F flags,
                 cu_topology_change := flag_on BSTP_PDU_F_TC flags\<rparr>;
         r = drop_bit BSTP_PDU_PRSHIFT (flags AND BSTP_PDU_PRMASK)
     in if r = BSTP_PDU_F_ROOT then cu\<lparr>cu_role := BSTP_ROLE_ROOT\<rparr>
        else if r = BSTP_PDU_F_ALT then cu\<lparr>cu_role := BSTP_ROLE_ALTERNATE\<rparr>
        else if r = BSTP_PDU_F_DESG then cu\<lparr>cu_role := BSTP_ROLE_DESIGNATED\<rparr>
        else cu)"

definition bstp_pdu_rcvtype :: "bstp_port \<Rightarrow> bstp_config_unit \<Rightarrow> bstp_pdu" where
  "bstp_pdu_rcvtype bp cu =
    (case cu_role cu of
       BSTP_ROLE_DESIGNATED \<Rightarrow>
         if bstp_info_superior (bp_port_pv bp) (cu_pv cu) then BSTP_PDU_SUPERIOR
         else if bstp_info_cmp (bp_port_pv bp) (cu_pv cu) = INFO_SAME
         then if bp_port_msg_age bp \<noteq> cu_message_age cu \<or> bp_port_max_age bp \<noteq> cu_max_age cu
                 \<or> bp_port_fdelay bp \<noteq> cu_forward_delay cu \<or> bp_port_htime bp \<noteq> cu_hello_time cu
              then BSTP_PDU_SUPERIOR else BSTP_PDU_REPEATED
         else BSTP_PDU_INFERIOR
     | BSTP_ROLE_DISABLED \<Rightarrow> BSTP_PDU_OTHER
     | _ \<Rightarrow>
         if bstp_info_cmp (bp_port_pv bp) (cu_pv cu) \<le> INFO_SAME then BSTP_PDU_INFERIORALT
         else BSTP_PDU_OTHER)"

text \<open>The cases of \<open>bstp_received_bpdu\<close>; the unit is the port's own \<open>bp_msg_cu\<close>.\<close>

definition note_tc :: "bstp_port \<Rightarrow> bstp_port" where
  "note_tc bp = bp\<lparr>bp_rcvdtc := (cu_topology_change (bp_msg_cu bp) \<or> bp_rcvdtc bp),
                  bp_rcvdtca := (cu_topology_change_ack (bp_msg_cu bp) \<or> bp_rcvdtca bp)\<rparr>"

definition note_proposal :: "bstp_port \<Rightarrow> bstp_port" where
  "note_proposal bp = bp\<lparr>bp_proposed := ((cu_proposal (bp_msg_cu bp) \<and> \<not> cu_forwarding (bp_msg_cu bp))
                                      \<or> bp_proposed bp)\<rparr>"

definition rcvd_superior :: "bstp_port \<Rightarrow> bstp_port" where
  "rcvd_superior bp =
    (let bp = note_tc (note_proposal (bp\<lparr>bp_agreed := False, bp_proposing := False\<rparr>));
         bp = (if bp_agree bp \<and> \<not> bstp_pdu_bettersame BSTP_INFO_RECEIVED bp
               then bp\<lparr>bp_agree := False\<rparr> else bp);
         cu = bp_msg_cu bp;
         bp = bp\<lparr>bp_port_pv := cu_pv cu, bp_port_msg_age := cu_message_age cu,
                bp_port_max_age := cu_max_age cu, bp_port_fdelay := cu_forward_delay cu,
                bp_port_htime := (if cu_hello_time cu > 1 then cu_hello_time cu else 1)\<rparr>
     in (bstp_set_timer_msgage bp)\<lparr>bp_infois := BSTP_INFO_RECEIVED\<rparr>)"

definition bstp_received_bpdu :: "rstp_env \<Rightarrow> nat \<Rightarrow> bstp_state \<Rightarrow> bstp_state" where
  "bstp_received_bpdu env i bs =
    (let bp = bs_ports bs i; cu = bp_msg_cu bp in
     if bp_infois bp = BSTP_INFO_DISABLED \<or> bp_infois bp = BSTP_INFO_AGED then bs
     else (case bstp_pdu_rcvtype bp cu of
         BSTP_PDU_SUPERIOR \<Rightarrow>
           bstp_update_state env i
             (bstp_assign_roles env (pupd i rcvd_superior (bs\<lparr>bs_allsynced := False\<rparr>)))
       | BSTP_PDU_REPEATED \<Rightarrow>
           bstp_update_state env i
             (pupd i (\<lambda>p. bstp_set_timer_msgage (note_tc (note_proposal p))) bs)
       | BSTP_PDU_INFERIOR \<Rightarrow>
           bstp_update_state env i
             (if cu_learning cu then pupd i (\<lambda>p. p\<lparr>bp_agreed := True, bp_proposing := False\<rparr>) bs
              else bs)
       | BSTP_PDU_INFERIORALT \<Rightarrow>
           bstp_update_state env i (pupd i note_tc
             (if cu_agree cu \<and> bp_ptp_link bp
              then pupd i (\<lambda>p. p\<lparr>bp_agreed := True, bp_proposing := False\<rparr>) bs
              else pupd i (\<lambda>p. p\<lparr>bp_agreed := False\<rparr>) bs))
       | BSTP_PDU_OTHER \<Rightarrow> bs))"

definition bstp_received_tcn :: "rstp_env \<Rightarrow> nat \<Rightarrow> bstp_state \<Rightarrow> bstp_state" where
  "bstp_received_tcn env i bs = bstp_update_tc env i (pupd i (\<lambda>p. p\<lparr>bp_rcvdtcn := True\<rparr>) bs)"

definition receive_config :: "rstp_env \<Rightarrow> nat \<Rightarrow> bstp_cbpdu \<Rightarrow> bstp_state \<Rightarrow> bstp_state" where
  "receive_config env i cpdu bs = bstp_received_bpdu env i
     (pupd i (\<lambda>p. p\<lparr>bp_msg_cu := bstp_decode_bpdu p cpdu (bp_msg_cu p)\<rparr>) bs)"

definition bstp_received_stp :: "rstp_env \<Rightarrow> nat \<Rightarrow> bstp_cbpdu \<Rightarrow> bstp_state \<Rightarrow> bstp_state" where
  "bstp_received_stp env i tpdu bs =
    (if cbu_bpdutype tpdu = BSTP_MSGTYPE_TCN then bstp_received_tcn env i bs
     else if cbu_bpdutype tpdu = BSTP_MSGTYPE_CFG then receive_config env i tpdu bs
     else bs)"

definition bstp_received_rstp :: "rstp_env \<Rightarrow> nat \<Rightarrow> bstp_cbpdu \<Rightarrow> bstp_state \<Rightarrow> bstp_state" where
  "bstp_received_rstp env i tpdu bs =
    (if cbu_bpdutype tpdu \<noteq> BSTP_MSGTYPE_RSTP then bs else receive_config env i tpdu bs)"

text \<open>\<open>rstp_process_bpdu\<close> on the port that \<open>rstp_get_port_info\<close> found.\<close>

definition process_bpdu_port :: "rstp_env \<Rightarrow> nat \<Rightarrow> bstp_cbpdu \<Rightarrow> bstp_state \<Rightarrow> bstp_state" where
  "process_bpdu_port env i tpdu bs =
    (if cbu_dsap tpdu \<noteq> LLC_8021D_LSAP \<or> cbu_ssap tpdu \<noteq> LLC_8021D_LSAP \<or> cbu_ctl tpdu \<noteq> LLC_UI
     then bs
     else if cbu_protoid tpdu \<noteq> 0 then bs
     else
       let tpdu = (if cbu_protover tpdu > BSTP_PROTO_MAX then tpdu\<lparr>cbu_protover := BSTP_PROTO_MAX\<rparr>
                   else tpdu);
           bp = bs_ports bs i
       in if cbu_protover tpdu \<noteq> bp_protover bp \<and> \<not> flag_on BSTP_PORT_CANMIGRATE (bp_flags bp)
          then bs
          else
            let bs = (if cbu_protover tpdu \<noteq> bp_protover bp
                      then bstp_set_port_proto i (cbu_protover tpdu) bs else bs);
                bs = pupd i (\<lambda>p. p\<lparr>bp_operedge := False,
                       bp_edge_delay_timer := bstp_timer_start BSTP_DEFAULT_MIGRATE_DELAY\<rparr>) bs
            in if cbu_protover tpdu = BSTP_PROTO_STP then bstp_received_stp env i tpdu bs
               else if cbu_protover tpdu = BSTP_PROTO_RSTP then bstp_received_rstp env i tpdu bs
               else bs)"

section \<open>Link status and initialisation\<close>

definition bstp_calc_path_cost :: "rstp_env \<Rightarrow> bstp_port \<Rightarrow> u32" where
  "bstp_calc_path_cost env bp =
    (if flag_on BSTP_PORT_ADMCOST (bp_flags bp) then bp_path_cost bp
     else let c = env_stale_cost env;
              c = (if c > BSTP_MAX_PATH_COST then BSTP_MAX_PATH_COST else c)
          in if bp_protover bp = BSTP_PROTO_STP \<and> c > 65535 then 65535 else c)"

definition bstp_enable_port :: "rstp_env \<Rightarrow> nat \<Rightarrow> bstp_state \<Rightarrow> bstp_state" where
  "bstp_enable_port env i bs =
     bstp_assign_roles env (pupd i (\<lambda>p. p\<lparr>bp_infois := BSTP_INFO_AGED\<rparr>) bs)"

definition bstp_disable_port :: "rstp_env \<Rightarrow> nat \<Rightarrow> bstp_state \<Rightarrow> bstp_state" where
  "bstp_disable_port env i bs =
     bstp_assign_roles env (pupd i (\<lambda>p. bstp_set_port_state BSTP_IFSTATE_DISCARDING
                                      (p\<lparr>bp_infois := BSTP_INFO_DISABLED\<rparr>)) bs)"

definition bstp_ifupdstatus :: "rstp_env \<Rightarrow> nat \<Rightarrow> bstp_state \<Rightarrow> bstp_state" where
  "bstp_ifupdstatus env i bs =
    (let bp = bs_ports bs i in
     if env_oper_state env (ifp_of bp) \<noteq> IF_DOWN
     then
       let bs = (if flag_on BSTP_PORT_PNDCOST (bp_flags bp)
                 then pupd i (\<lambda>p. p\<lparr>bp_path_cost := bstp_calc_path_cost env p,
                                    bp_flags := flag_clear BSTP_PORT_PNDCOST (bp_flags p)\<rparr>) bs
                 else bs)
       in if bp_role (bs_ports bs i) = BSTP_ROLE_DISABLED then bstp_enable_port env i bs else bs
     else if bp_infois bp \<noteq> BSTP_INFO_DISABLED then bstp_disable_port env i bs
     else bs)"

definition make_port_id :: "bstp_port \<Rightarrow> u16" where
  "make_port_id bp = push_bit 8 (ucast (bp_priority bp)) OR (word_of_int (bp_ifp bp) AND 0xfff)"

definition bstp_reinit :: "rstp_env \<Rightarrow> bstp_state \<Rightarrow> bstp_state" where
  "bstp_reinit env bs =
    (let id = bridge_id (bs_bridge_priority bs) (env_bridge_mac env);
         bs = bs\<lparr>bs_bridge_pv := \<lparr>pv_root_id = id, pv_dbridge_id = id, pv_cost = 0,
                                pv_dport_id = 0, pv_port_id = 0\<rparr>\<rparr>;
         bs = (if bs_running bs \<and> \<not> bs_callout bs then bs\<lparr>bs_callout := True\<rparr> else bs);
         bs = fold (\<lambda>i bs. bstp_ifupdstatus env i
                       (pupd i (\<lambda>p. p\<lparr>bp_port_id := make_port_id p\<rparr>) bs)) (bs_bplist bs) bs
     in (bstp_assign_roles env bs)\<lparr>bs_link_timer := bstp_timer_start BSTP_LINK_TIMER\<rparr>)"

definition bstp_init :: "rstp_env \<Rightarrow> bstp_state \<Rightarrow> bstp_state" where
  "bstp_init env bs = bstp_reinit env (bs\<lparr>bs_running := True\<rparr>)"

definition bstp_enable :: "rstp_env \<Rightarrow> nat \<Rightarrow> bstp_state \<Rightarrow> bstp_state" where
  "bstp_enable env i bs =
     bstp_update_roles env i (bstp_reinit env
       (pupd i (\<lambda>p. p\<lparr>bp_active := True, bp_flags := flag_set BSTP_PORT_NEWINFO (bp_flags p)\<rparr>) bs))"

definition bstp_disable :: "rstp_env \<Rightarrow> nat \<Rightarrow> bstp_state \<Rightarrow> bstp_state" where
  "bstp_disable env i bs =
    (let bs = bstp_disable_port env i bs;
         bs = bs\<lparr>bs_bplist := remove1 i (bs_bplist bs)\<rparr>
     in bstp_reinit env (pupd i (\<lambda>p. p\<lparr>bp_active := False\<rparr>) bs))"

text \<open>
  A port after \<open>bzero\<close>. The zero of \<open>bp_infois\<close> and \<open>bp_tcstate\<close> is none of their constants;
  \<open>bstp_create\<close> overwrites both before anything reads them.
\<close>

definition pri_vector_zero :: bstp_pri_vector where
  "pri_vector_zero = \<lparr>pv_root_id = 0, pv_dbridge_id = 0, pv_cost = 0, pv_dport_id = 0,
     pv_port_id = 0\<rparr>"

definition bstp_port_zero :: bstp_port where
  "bstp_port_zero = \<lparr>bp_ifp = 0, bp_active = False, bp_protover = 0, bp_flags = 0,
     bp_path_cost = 0, bp_port_msg_age = 0, bp_port_max_age = 0, bp_port_fdelay = 0,
     bp_port_htime = 0, bp_desg_msg_age = 0, bp_desg_max_age = 0, bp_desg_fdelay = 0,
     bp_desg_htime = 0, bp_edge_delay_timer = bstp_timer_stop,
     bp_forward_delay_timer = bstp_timer_stop, bp_hello_timer = bstp_timer_stop,
     bp_message_age_timer = bstp_timer_stop, bp_migrate_delay_timer = bstp_timer_stop,
     bp_recent_backup_timer = bstp_timer_stop, bp_recent_root_timer = bstp_timer_stop,
     bp_tc_timer = bstp_timer_stop,
     bp_msg_cu = \<lparr>cu_pv = pri_vector_zero, cu_message_age = 0, cu_max_age = 0,
       cu_forward_delay = 0, cu_hello_time = 0, cu_message_type = 0,
       cu_topology_change_ack = False, cu_topology_change = False, cu_proposal = False,
       cu_agree = False, cu_learning = False, cu_forwarding = False,
       cu_role = BSTP_ROLE_DISABLED\<rparr>,
     bp_desg_pv = pri_vector_zero, bp_port_pv = pri_vector_zero, bp_port_id = 0,
     bp_state = BSTP_IFSTATE_DISABLED, bp_tcstate = BSTP_TCSTATE_INACTIVE,
     bp_role = BSTP_ROLE_DISABLED, bp_infois = BSTP_INFO_DISABLED, bp_tc_ack = False,
     bp_tc_prop = False, bp_fdbflush = False, bp_priority = 0, bp_ptp_link = False,
     bp_agree = False, bp_agreed = False, bp_sync = False, bp_synced = False,
     bp_proposing = False, bp_proposed = False, bp_operedge = False, bp_reroot = False,
     bp_rcvdtc = False, bp_rcvdtca = False, bp_rcvdtcn = False, bp_forward_transitions = 0,
     bp_txcount = 0\<rparr>"

definition bstp_create :: "rstp_env \<Rightarrow> nat \<Rightarrow> u16 \<Rightarrow> bstp_state \<Rightarrow> bstp_state" where
  "bstp_create env i ifp bs =
    (let bs = pupd i (\<lambda>_. bstp_set_port_state BSTP_IFSTATE_DISCARDING
                (bstp_port_zero\<lparr>bp_ifp := uint ifp, bp_priority := 0x80,
                   bp_infois := BSTP_INFO_DISABLED,
                   bp_flags := BSTP_PORT_AUTOEDGE OR BSTP_PORT_AUTOPTP\<rparr>)) bs;
         bs = bstp_set_port_proto i (bs_protover bs) bs;
         bs = bstp_set_port_role env i BSTP_ROLE_DISABLED bs;
         bs = bstp_set_port_tc env i BSTP_TCSTATE_INACTIVE bs;
         bs = pupd i (\<lambda>p. p\<lparr>bp_path_cost := bstp_calc_path_cost env p\<rparr>) bs;
         bs = bs\<lparr>bs_bplist := bs_bplist bs @ [i]\<rparr>
     in if env_oper_state env ifp = IF_UP then bstp_enable env i bs else bs)"

section \<open>Configuration of one instance\<close>

text \<open>Each function returns the code's result (0 or -1) and the new state.\<close>

definition bstp_set_htime :: "rstp_env \<Rightarrow> int \<Rightarrow> bstp_state \<Rightarrow> int \<times> bstp_state" where
  "bstp_set_htime env t bs =
    (if t < 1 \<or> t > 10 then (-1, bs)
     else (0, bstp_reinit env (bs\<lparr>bs_bridge_htime := word_of_int t\<rparr>)))"

definition bstp_set_fdelay :: "rstp_env \<Rightarrow> int \<Rightarrow> bstp_state \<Rightarrow> int \<times> bstp_state" where
  "bstp_set_fdelay env t bs =
    (if t < 4 \<or> t > 30 then (-1, bs)
     else (0, bstp_reinit env (bs\<lparr>bs_bridge_fdelay := word_of_int t\<rparr>)))"

definition bstp_set_maxage :: "rstp_env \<Rightarrow> int \<Rightarrow> bstp_state \<Rightarrow> int \<times> bstp_state" where
  "bstp_set_maxage env t bs =
    (if t < 6 \<or> t > 40 then (-1, bs)
     else (0, bstp_reinit env (bs\<lparr>bs_bridge_max_age := word_of_int t\<rparr>)))"

definition bstp_set_holdcount :: "int \<Rightarrow> bstp_state \<Rightarrow> int \<times> bstp_state" where
  "bstp_set_holdcount count bs =
    (if count < 1 \<or> count > 10 then (-1, bs)
     else (0, for_ports (\<lambda>p. p\<lparr>bp_txcount := 0\<rparr>) (bs_bplist bs)
                (bs\<lparr>bs_txholdcount := word_of_int count\<rparr>)))"

text \<open>The body of the loop of \<open>bstp_set_protocol\<close>.\<close>

definition protocol_port :: "rstp_env \<Rightarrow> nat \<Rightarrow> bstp_state \<Rightarrow> bstp_state" where
  "protocol_port env i bs =
    (let bs = pupd i (\<lambda>p. p\<lparr>bp_infois := BSTP_INFO_DISABLED, bp_txcount := 0\<rparr>) bs;
         bs = bstp_set_port_proto i (bs_protover bs) bs;
         bs = bstp_set_port_role env i BSTP_ROLE_DISABLED bs;
         bs = bstp_set_port_tc env i BSTP_TCSTATE_INACTIVE bs
     in pupd i (\<lambda>p. p\<lparr>bp_recent_backup_timer := bstp_timer_stop\<rparr>) bs)"

definition bstp_set_protocol :: "rstp_env \<Rightarrow> int \<Rightarrow> bstp_state \<Rightarrow> int \<times> bstp_state" where
  "bstp_set_protocol env proto bs =
    (if proto \<noteq> uint BSTP_PROTO_STP \<and> proto \<noteq> uint BSTP_PROTO_RSTP then (-1, bs)
     else
       let bs = bs\<lparr>bs_protover := word_of_int proto, bs_bridge_htime := 2\<rparr>
       in (0, bstp_reinit env (fold (protocol_port env) (bs_bplist bs) bs)))"

definition bstp_set_priority :: "rstp_env \<Rightarrow> int \<Rightarrow> bstp_state \<Rightarrow> int \<times> bstp_state" where
  "bstp_set_priority env pri bs =
    (if pri < 0 \<or> pri > 61440 then (-1, bs)
     else (0, bstp_reinit env (bs\<lparr>bs_bridge_priority := word_of_int (pri - pri mod 4096)\<rparr>)))"

definition bstp_set_port_priority :: "rstp_env \<Rightarrow> nat \<Rightarrow> int \<Rightarrow> bstp_state \<Rightarrow> int \<times> bstp_state" where
  "bstp_set_port_priority env i pri bs =
    (if pri < 0 \<or> pri > 240 then (-1, bs)
     else (0, bstp_reinit env
                (pupd i (\<lambda>p. p\<lparr>bp_priority := word_of_int (pri - pri mod 16)\<rparr>) bs)))"

definition bstp_set_path_cost :: "rstp_env \<Rightarrow> nat \<Rightarrow> u32 \<Rightarrow> bstp_state \<Rightarrow> int \<times> bstp_state" where
  "bstp_set_path_cost env i path_cost bs =
    (if path_cost > BSTP_MAX_PATH_COST then (-1, bs)
     else
       let path_cost = (if bp_protover (bs_ports bs i) = BSTP_PROTO_STP \<and> path_cost > 65535
                        then 65535 else path_cost);
           bs = (if path_cost = 0
                 then pupd i (\<lambda>p. p\<lparr>bp_path_cost := bstp_calc_path_cost env p\<rparr>)
                        (pupd i (\<lambda>p. p\<lparr>bp_flags := flag_clear BSTP_PORT_ADMCOST (bp_flags p)\<rparr>) bs)
                 else pupd i (\<lambda>p. p\<lparr>bp_path_cost := path_cost,
                                   bp_flags := flag_set BSTP_PORT_ADMCOST (bp_flags p)\<rparr>) bs)
       in (0, bstp_reinit env bs))"

definition bstp_set_edge :: "nat \<Rightarrow> int \<Rightarrow> bstp_state \<Rightarrow> int \<times> bstp_state" where
  "bstp_set_edge i v bs =
    (let e = ((word_of_int v :: u8) \<noteq> 0) in
     (0, pupd i (\<lambda>p. p\<lparr>bp_operedge := e,
            bp_flags := (if e then flag_set else flag_clear) BSTP_PORT_ADMEDGE (bp_flags p)\<rparr>) bs))"

definition bstp_edge_delay_expiry :: "bstp_port \<Rightarrow> bstp_port" where
  "bstp_edge_delay_expiry bp =
    (if flag_on BSTP_PORT_AUTOEDGE (bp_flags bp) \<and> bp_protover bp = BSTP_PROTO_RSTP
        \<and> bp_proposing bp \<and> bp_role bp = BSTP_ROLE_DESIGNATED
     then bp\<lparr>bp_operedge := True\<rparr> else bp)"

definition bstp_set_autoedge :: "nat \<Rightarrow> int \<Rightarrow> bstp_state \<Rightarrow> int \<times> bstp_state" where
  "bstp_set_autoedge i v bs =
    (if v \<noteq> 0
     then let bs = pupd i (\<lambda>p. p\<lparr>bp_flags := flag_set BSTP_PORT_AUTOEDGE (bp_flags p)\<rparr>) bs
          in (0, if \<not> tm_active (bp_edge_delay_timer (bs_ports bs i))
                 then pupd i bstp_edge_delay_expiry bs else bs)
     else (0, pupd i (\<lambda>p. p\<lparr>bp_flags := flag_clear BSTP_PORT_AUTOEDGE (bp_flags p)\<rparr>) bs))"

definition bstp_set_ptp :: "nat \<Rightarrow> int \<Rightarrow> bstp_state \<Rightarrow> int \<times> bstp_state" where
  "bstp_set_ptp i v bs = (0, pupd i (\<lambda>p. p\<lparr>bp_ptp_link := ((word_of_int v :: u8) \<noteq> 0)\<rparr>) bs)"

definition bstp_set_autoptp :: "rstp_env \<Rightarrow> nat \<Rightarrow> int \<Rightarrow> bstp_state \<Rightarrow> int \<times> bstp_state" where
  "bstp_set_autoptp env i v bs =
    (if v \<noteq> 0
     then let bs = pupd i (\<lambda>p. p\<lparr>bp_flags := flag_set BSTP_PORT_AUTOPTP (bp_flags p)\<rparr>) bs
          in (0, if bp_role (bs_ports bs i) \<noteq> BSTP_ROLE_DISABLED then bstp_ifupdstatus env i bs
                 else bs)
     else (0, pupd i (\<lambda>p. p\<lparr>bp_flags := flag_clear BSTP_PORT_AUTOPTP (bp_flags p)\<rparr>) bs))"

definition bstp_ifsflags :: "rstp_env \<Rightarrow> nat \<Rightarrow> u32 \<Rightarrow> bstp_state \<Rightarrow> bstp_state" where
  "bstp_ifsflags env i flags bs =
    (if \<not> flag_on 0x0008 flags then bs
     else
       let bs = (if flag_on 0x0020 flags
             then if \<not> flag_on BSTP_PORT_AUTOEDGE (bp_flags (bs_ports bs i))
               then let bs = pupd i (\<lambda>p. p\<lparr>bp_flags := flag_set BSTP_PORT_AUTOEDGE (bp_flags p)\<rparr>) bs
                    in if \<not> tm_active (bp_edge_delay_timer (bs_ports bs i))
                       then pupd i bstp_edge_delay_expiry bs else bs
               else bs
             else pupd i (\<lambda>p. p\<lparr>bp_flags := flag_clear BSTP_PORT_AUTOEDGE (bp_flags p)\<rparr>) bs);
           bs = pupd i (\<lambda>p. p\<lparr>bp_operedge := flag_on 0x0010 flags\<rparr>) bs;
           bs = (if flag_on 0x0080 flags
             then if \<not> flag_on BSTP_PORT_AUTOPTP (bp_flags (bs_ports bs i))
               then bstp_ifupdstatus env i
                      (pupd i (\<lambda>p. p\<lparr>bp_flags := flag_set BSTP_PORT_AUTOPTP (bp_flags p)\<rparr>) bs)
               else bs
             else pupd i (\<lambda>p. p\<lparr>bp_flags := flag_clear BSTP_PORT_AUTOPTP (bp_flags p)\<rparr>) bs)
       in pupd i (\<lambda>p. p\<lparr>bp_ptp_link := flag_on 0x0040 flags\<rparr>) bs)"

definition bstp_getstate :: "bstp_state \<Rightarrow> nat \<Rightarrow> bstp_ifstate" where
  "bstp_getstate bs i =
    (let bp = bs_ports bs i; st = bp_state bp in
     if bs_protover bs \<noteq> BSTP_PROTO_STP then st
     else if bp_role bp = BSTP_ROLE_DISABLED then BSTP_IFSTATE_DISABLED
     else if bp_role bp = BSTP_ROLE_ALTERNATE \<or> bp_role bp = BSTP_ROLE_BACKUP
     then BSTP_IFSTATE_BLOCKING
     else if st = BSTP_IFSTATE_DISCARDING then BSTP_IFSTATE_LISTENING
     else st)"

section \<open>The periodic tick\<close>

definition bstp_message_age_expiry :: "rstp_env \<Rightarrow> nat \<Rightarrow> bstp_state \<Rightarrow> bstp_state" where
  "bstp_message_age_expiry env i bs =
    (if bp_infois (bs_ports bs i) = BSTP_INFO_RECEIVED
     then bstp_assign_roles env (pupd i (\<lambda>p. p\<lparr>bp_infois := BSTP_INFO_AGED\<rparr>) bs) else bs)"

definition bstp_migrate_delay_expiry :: "bstp_port \<Rightarrow> bstp_port" where
  "bstp_migrate_delay_expiry bp = bp\<lparr>bp_flags := flag_set BSTP_PORT_CANMIGRATE (bp_flags bp)\<rparr>"

text \<open>The four timers whose expiry calls a handler, one definition each, then the loop body.\<close>

definition tick_quiet :: "bstp_port \<Rightarrow> bstp_port" where
  "tick_quiet p = p\<lparr>bp_tc_timer := snd (bstp_timer_expired (bp_tc_timer p)),
     bp_recent_root_timer := snd (bstp_timer_expired (bp_recent_root_timer p)),
     bp_forward_delay_timer := snd (bstp_timer_expired (bp_forward_delay_timer p)),
     bp_recent_backup_timer := snd (bstp_timer_expired (bp_recent_backup_timer p))\<rparr>"

definition tick_hello :: "rstp_env \<Rightarrow> nat \<Rightarrow> bstp_state \<Rightarrow> bstp_state" where
  "tick_hello env i bs =
    (case bstp_timer_expired (bp_hello_timer (bs_ports bs i)) of (e, t) \<Rightarrow>
       let bs = pupd i (\<lambda>p. p\<lparr>bp_hello_timer := t\<rparr>) bs
       in if e then bstp_hello_timer_expiry env i bs else bs)"

definition tick_msgage :: "rstp_env \<Rightarrow> nat \<Rightarrow> bstp_state \<Rightarrow> bstp_state" where
  "tick_msgage env i bs =
    (case bstp_timer_expired (bp_message_age_timer (bs_ports bs i)) of (e, t) \<Rightarrow>
       let bs = pupd i (\<lambda>p. p\<lparr>bp_message_age_timer := t\<rparr>) bs
       in if e then bstp_message_age_expiry env i bs else bs)"

definition tick_migrate :: "bstp_port \<Rightarrow> bstp_port" where
  "tick_migrate p =
    (case bstp_timer_expired (bp_migrate_delay_timer p) of (e, t) \<Rightarrow>
       let p = p\<lparr>bp_migrate_delay_timer := t\<rparr> in if e then bstp_migrate_delay_expiry p else p)"

definition tick_edge :: "bstp_port \<Rightarrow> bstp_port" where
  "tick_edge p =
    (case bstp_timer_expired (bp_edge_delay_timer p) of (e, t) \<Rightarrow>
       let p = p\<lparr>bp_edge_delay_timer := t\<rparr> in if e then bstp_edge_delay_expiry p else p)"

definition tick_port :: "rstp_env \<Rightarrow> nat \<Rightarrow> bstp_state \<Rightarrow> bstp_state" where
  "tick_port env i bs =
    (let bs = tick_msgage env i (tick_hello env i (pupd i tick_quiet bs));
         bs = pupd i (\<lambda>p. tick_edge (tick_migrate p)) bs;
         bs = bstp_update_state env i bs
     in pupd i (\<lambda>p. if bp_txcount p > 0 then p\<lparr>bp_txcount := bp_txcount p - 1\<rparr> else p) bs)"

definition bstp_tick :: "rstp_env \<Rightarrow> bstp_state \<Rightarrow> bstp_state" where
  "bstp_tick env bs =
    (if \<not> bs_running bs then bs
     else
       let (e, t) = bstp_timer_expired (bs_link_timer bs);
           bs = bs\<lparr>bs_link_timer := t\<rparr>;
           bs = (if e then (fold (bstp_ifupdstatus env) (bs_bplist bs) bs)
                             \<lparr>bs_link_timer := bstp_timer_start BSTP_LINK_TIMER\<rparr>
                 else bs);
           bs = fold (tick_port env) (bs_bplist bs) bs
       in bs\<lparr>bs_callout := True\<rparr>)"

section \<open>Attaching an instance\<close>

definition bstp_state_zero :: bstp_state where
  "bstp_state_zero = \<lparr>bs_vlan_id = 0, bs_running = False, bs_bridge_pv = pri_vector_zero,
     bs_root_pv = pri_vector_zero, bs_root_port = None, bs_protover = 0, bs_migration_delay = 0,
     bs_edge_delay = 0, bs_bridge_max_age = 0, bs_bridge_fdelay = 0, bs_bridge_htime = 0,
     bs_root_msg_age = 0, bs_root_max_age = 0, bs_root_fdelay = 0, bs_root_htime = 0,
     bs_hold_time = 0, bs_bridge_priority = 0, bs_txholdcount = 0, bs_allsynced = False,
     bs_link_timer = bstp_timer_stop, bs_bplist = [], bs_ports = (\<lambda>_. bstp_port_zero),
     bs_callout = False, bs_sent = []\<rparr>"

definition bstp_attach :: "u16 \<Rightarrow> bstp_state \<Rightarrow> bstp_state" where
  "bstp_attach vlan_id bs = bs\<lparr>bs_callout := False, bs_bplist := [], bs_bridge_max_age := 20,
     bs_bridge_htime := 2, bs_bridge_fdelay := 15, bs_bridge_priority := 0x8000,
     bs_hold_time := 1, bs_migration_delay := 3, bs_txholdcount := 6,
     bs_protover := BSTP_PROTO_RSTP, bs_vlan_id := vlan_id\<rparr>"

end
