(* ===== verification/Rstp_Frame.thy ===== *)
theory Rstp_Frame
  imports Rstp_Ops
begin

text \<open>
  What the functions of the spanning tree leave alone. The lemmas of this theory say which
  fields of the bridge and of its ports an operation keeps; they are simplification rules, so
  that the invariants of the next theory only look at the fields an operation writes.
\<close>

declare bstp_transmit.simps [simp del] bstp_hello_timer_expiry.simps [simp del]

section \<open>Loops over the ports\<close>

lemma for_ports_Nil [simp]: "for_ports f [] bs = bs"
  by (simp add: for_ports_def)

lemma for_ports_Cons [simp]: "for_ports f (i # is) bs = for_ports f is (pupd i f bs)"
  by (simp add: for_ports_def)

lemma for_ports_frame [simp]:
  "bs_running (for_ports f is bs) = bs_running bs"
  "bs_bplist (for_ports f is bs) = bs_bplist bs"
  "bs_root_port (for_ports f is bs) = bs_root_port bs"
  "bs_txholdcount (for_ports f is bs) = bs_txholdcount bs"
  "bs_bridge_pv (for_ports f is bs) = bs_bridge_pv bs"
  "bs_root_pv (for_ports f is bs) = bs_root_pv bs"
  "bs_protover (for_ports f is bs) = bs_protover bs"
  "bs_sent (for_ports f is bs) = bs_sent bs"
  by (induction "is" arbitrary: bs) simp_all

lemma for_ports_proj:
  assumes "\<And>p. g (f p) = g p"
  shows "g (bs_ports (for_ports f is bs) j) = g (bs_ports bs j)"
  using assms by (induction "is" arbitrary: bs) simp_all

lemma for_ports_idem:
  assumes "\<And>p. f (f p) = f p"
  shows "bs_ports (for_ports f is bs) j = (if j \<in> set is then f (bs_ports bs j) else bs_ports bs j)"
  using assms by (induction "is" arbitrary: bs) auto

section \<open>Transmission\<close>

text \<open>A transmission writes four fields of the port and the trace of sent frames.\<close>

definition tx_erase :: "nat \<Rightarrow> bstp_state \<Rightarrow> bstp_state" where
  "tx_erase i bs = (pupd i (\<lambda>p. p\<lparr>bp_hello_timer := bstp_timer_stop, bp_flags := 0,
     bp_tc_ack := False, bp_txcount := 0\<rparr>) bs)\<lparr>bs_sent := []\<rparr>"

definition tx_change :: "nat \<Rightarrow> bstp_state \<Rightarrow> bstp_state \<Rightarrow> bool" where
  "tx_change i bs t \<longleftrightarrow> tx_erase i t = tx_erase i bs"

lemma pupd_pupd [simp]: "pupd i f (pupd i g bs) = pupd i (\<lambda>p. f (g p)) bs"
  by (simp add: pupd_def)

lemma tx_erase_step:
  "(\<And>p. (f p)\<lparr>bp_hello_timer := bstp_timer_stop, bp_flags := 0, bp_tc_ack := False, bp_txcount := 0\<rparr>
     = p\<lparr>bp_hello_timer := bstp_timer_stop, bp_flags := 0, bp_tc_ack := False, bp_txcount := 0\<rparr>) \<Longrightarrow>
   tx_erase i (pupd i f bs) = tx_erase i bs"
  by (simp add: tx_erase_def)

lemma tx_erase_sent: "tx_erase i (bs\<lparr>bs_sent := s\<rparr>) = tx_erase i bs"
  by (simp add: tx_erase_def pupd_def)

lemma tx_erase_bpdu: "tx_erase i (bstp_transmit_bpdu env i bs) = tx_erase i bs"
  by (simp add: bstp_transmit_bpdu_def bstp_send_bpdu_def Let_def tx_erase_sent tx_erase_step)

lemma tx_erase_tcn: "tx_erase i (bstp_transmit_tcn env i bs) = tx_erase i bs"
  by (simp add: bstp_transmit_tcn_def Let_def tx_erase_sent tx_erase_step)

lemma tx_change_transmit:
  "tx_change i bs (bstp_transmit env i bs)"
  "tx_change i bs (bstp_hello_timer_expiry env i bs)"
proof (induction env i bs and env i bs rule: bstp_transmit_bstp_hello_timer_expiry.induct)
  case (1 env i bs)
  then show ?case
    by (auto simp: bstp_transmit.simps tx_change_def Let_def tx_erase_step tx_erase_bpdu
        tx_erase_tcn split: bstp_role.split)
next
  case (2 env i bs)
  then show ?case
    by (simp add: bstp_hello_timer_expiry.simps [of env i bs] tx_change_def Let_def tx_erase_step)
qed

lemma tx_change_proj: "tx_change i bs t \<Longrightarrow> (\<And>s. g (tx_erase i s) = g s) \<Longrightarrow> g t = g bs"
  unfolding tx_change_def by (metis (full_types))

lemma tx_change_frame:
  assumes "tx_change i bs t"
  shows "bs_running t = bs_running bs" "bs_bplist t = bs_bplist bs"
    "bs_root_port t = bs_root_port bs" "bs_txholdcount t = bs_txholdcount bs"
    "bs_bridge_pv t = bs_bridge_pv bs" "bs_root_pv t = bs_root_pv bs"
    "bs_protover t = bs_protover bs" "bs_allsynced t = bs_allsynced bs"
    "bp_port_pv (bs_ports t j) = bp_port_pv (bs_ports bs j)"
    "bp_role (bs_ports t j) = bp_role (bs_ports bs j)"
    "bp_infois (bs_ports t j) = bp_infois (bs_ports bs j)"
    "bp_state (bs_ports t j) = bp_state (bs_ports bs j)"
    "bp_tcstate (bs_ports t j) = bp_tcstate (bs_ports bs j)"
    "bp_fdbflush (bs_ports t j) = bp_fdbflush (bs_ports bs j)"
    "bp_tc_timer (bs_ports t j) = bp_tc_timer (bs_ports bs j)"
    "bp_tc_prop (bs_ports t j) = bp_tc_prop (bs_ports bs j)"
    "bp_protover (bs_ports t j) = bp_protover (bs_ports bs j)"
    "bp_path_cost (bs_ports t j) = bp_path_cost (bs_ports bs j)"
    "bp_ifp (bs_ports t j) = bp_ifp (bs_ports bs j)"
    "bp_desg_pv (bs_ports t j) = bp_desg_pv (bs_ports bs j)"
    "bp_port_id (bs_ports t j) = bp_port_id (bs_ports bs j)"
    "j \<noteq> i \<Longrightarrow> bs_ports t j = bs_ports bs j"
  by (rule tx_change_proj [OF assms]; simp add: tx_erase_def)+

lemmas transmit_frame [simp] =
  tx_change_transmit [THEN tx_change_frame(1)] tx_change_transmit [THEN tx_change_frame(2)]
  tx_change_transmit [THEN tx_change_frame(3)] tx_change_transmit [THEN tx_change_frame(4)]
  tx_change_transmit [THEN tx_change_frame(5)] tx_change_transmit [THEN tx_change_frame(6)]
  tx_change_transmit [THEN tx_change_frame(7)] tx_change_transmit [THEN tx_change_frame(8)]
  tx_change_transmit [THEN tx_change_frame(9)] tx_change_transmit [THEN tx_change_frame(10)]
  tx_change_transmit [THEN tx_change_frame(11)] tx_change_transmit [THEN tx_change_frame(12)]
  tx_change_transmit [THEN tx_change_frame(13)] tx_change_transmit [THEN tx_change_frame(14)]
  tx_change_transmit [THEN tx_change_frame(15)] tx_change_transmit [THEN tx_change_frame(16)]
  tx_change_transmit [THEN tx_change_frame(17)] tx_change_transmit [THEN tx_change_frame(18)]
  tx_change_transmit [THEN tx_change_frame(19)] tx_change_transmit [THEN tx_change_frame(20)]
  tx_change_transmit [THEN tx_change_frame(21)] tx_change_transmit [THEN tx_change_frame(22)]

section \<open>Topology change and roles\<close>

lemmas for_ports_fields =
  for_ports_proj [where g = bp_role]
  for_ports_proj [where g = bp_infois]
  for_ports_proj [where g = bp_state]
  for_ports_proj [where g = bp_protover]
  for_ports_proj [where g = bp_port_pv]
  for_ports_proj [where g = bp_path_cost]
  for_ports_proj [where g = bp_ifp]
  for_ports_proj [where g = bp_desg_pv]
  for_ports_proj [where g = bp_port_id]

lemma set_other_tcprop_frame [simp]:
  "bs_running (bstp_set_other_tcprop i bs) = bs_running bs"
  "bs_bplist (bstp_set_other_tcprop i bs) = bs_bplist bs"
  "bs_root_port (bstp_set_other_tcprop i bs) = bs_root_port bs"
  "bs_txholdcount (bstp_set_other_tcprop i bs) = bs_txholdcount bs"
  "bs_bridge_pv (bstp_set_other_tcprop i bs) = bs_bridge_pv bs"
  "bs_root_pv (bstp_set_other_tcprop i bs) = bs_root_pv bs"
  "bs_protover (bstp_set_other_tcprop i bs) = bs_protover bs"
  "bp_role (bs_ports (bstp_set_other_tcprop i bs) j) = bp_role (bs_ports bs j)"
  "bp_infois (bs_ports (bstp_set_other_tcprop i bs) j) = bp_infois (bs_ports bs j)"
  "bp_state (bs_ports (bstp_set_other_tcprop i bs) j) = bp_state (bs_ports bs j)"
  "bp_protover (bs_ports (bstp_set_other_tcprop i bs) j) = bp_protover (bs_ports bs j)"
  "bp_port_pv (bs_ports (bstp_set_other_tcprop i bs) j) = bp_port_pv (bs_ports bs j)"
  "bp_path_cost (bs_ports (bstp_set_other_tcprop i bs) j) = bp_path_cost (bs_ports bs j)"
  "bp_ifp (bs_ports (bstp_set_other_tcprop i bs) j) = bp_ifp (bs_ports bs j)"
  "bp_desg_pv (bs_ports (bstp_set_other_tcprop i bs) j) = bp_desg_pv (bs_ports bs j)"
  "bp_port_id (bs_ports (bstp_set_other_tcprop i bs) j) = bp_port_id (bs_ports bs j)"
  by (simp_all add: bstp_set_other_tcprop_def for_ports_fields)

lemma set_all_reroot_frame [simp]:
  "bs_running (bstp_set_all_reroot bs) = bs_running bs"
  "bs_bplist (bstp_set_all_reroot bs) = bs_bplist bs"
  "bs_root_port (bstp_set_all_reroot bs) = bs_root_port bs"
  "bs_txholdcount (bstp_set_all_reroot bs) = bs_txholdcount bs"
  "bs_bridge_pv (bstp_set_all_reroot bs) = bs_bridge_pv bs"
  "bs_root_pv (bstp_set_all_reroot bs) = bs_root_pv bs"
  "bs_protover (bstp_set_all_reroot bs) = bs_protover bs"
  "bp_role (bs_ports (bstp_set_all_reroot bs) j) = bp_role (bs_ports bs j)"
  "bp_infois (bs_ports (bstp_set_all_reroot bs) j) = bp_infois (bs_ports bs j)"
  "bp_state (bs_ports (bstp_set_all_reroot bs) j) = bp_state (bs_ports bs j)"
  "bp_protover (bs_ports (bstp_set_all_reroot bs) j) = bp_protover (bs_ports bs j)"
  "bp_port_pv (bs_ports (bstp_set_all_reroot bs) j) = bp_port_pv (bs_ports bs j)"
  "bp_path_cost (bs_ports (bstp_set_all_reroot bs) j) = bp_path_cost (bs_ports bs j)"
  "bp_ifp (bs_ports (bstp_set_all_reroot bs) j) = bp_ifp (bs_ports bs j)"
  "bp_desg_pv (bs_ports (bstp_set_all_reroot bs) j) = bp_desg_pv (bs_ports bs j)"
  "bp_port_id (bs_ports (bstp_set_all_reroot bs) j) = bp_port_id (bs_ports bs j)"
  by (simp_all add: bstp_set_all_reroot_def for_ports_fields)

lemma set_all_sync_frame [simp]:
  "bs_running (bstp_set_all_sync bs) = bs_running bs"
  "bs_bplist (bstp_set_all_sync bs) = bs_bplist bs"
  "bs_root_port (bstp_set_all_sync bs) = bs_root_port bs"
  "bs_txholdcount (bstp_set_all_sync bs) = bs_txholdcount bs"
  "bs_bridge_pv (bstp_set_all_sync bs) = bs_bridge_pv bs"
  "bs_root_pv (bstp_set_all_sync bs) = bs_root_pv bs"
  "bs_protover (bstp_set_all_sync bs) = bs_protover bs"
  "bp_role (bs_ports (bstp_set_all_sync bs) j) = bp_role (bs_ports bs j)"
  "bp_infois (bs_ports (bstp_set_all_sync bs) j) = bp_infois (bs_ports bs j)"
  "bp_state (bs_ports (bstp_set_all_sync bs) j) = bp_state (bs_ports bs j)"
  "bp_protover (bs_ports (bstp_set_all_sync bs) j) = bp_protover (bs_ports bs j)"
  "bp_port_pv (bs_ports (bstp_set_all_sync bs) j) = bp_port_pv (bs_ports bs j)"
  "bp_path_cost (bs_ports (bstp_set_all_sync bs) j) = bp_path_cost (bs_ports bs j)"
  "bp_ifp (bs_ports (bstp_set_all_sync bs) j) = bp_ifp (bs_ports bs j)"
  "bp_desg_pv (bs_ports (bstp_set_all_sync bs) j) = bp_desg_pv (bs_ports bs j)"
  "bp_port_id (bs_ports (bstp_set_all_sync bs) j) = bp_port_id (bs_ports bs j)"
  by (simp_all add: bstp_set_all_sync_def for_ports_fields)

lemma set_timer_tc_frame [simp]:
  "bs_running (bstp_set_timer_tc i bs) = bs_running bs"
  "bs_bplist (bstp_set_timer_tc i bs) = bs_bplist bs"
  "bs_root_port (bstp_set_timer_tc i bs) = bs_root_port bs"
  "bs_txholdcount (bstp_set_timer_tc i bs) = bs_txholdcount bs"
  "bs_bridge_pv (bstp_set_timer_tc i bs) = bs_bridge_pv bs"
  "bs_root_pv (bstp_set_timer_tc i bs) = bs_root_pv bs"
  "bs_protover (bstp_set_timer_tc i bs) = bs_protover bs"
  "bp_role (bs_ports (bstp_set_timer_tc i bs) j) = bp_role (bs_ports bs j)"
  "bp_infois (bs_ports (bstp_set_timer_tc i bs) j) = bp_infois (bs_ports bs j)"
  "bp_state (bs_ports (bstp_set_timer_tc i bs) j) = bp_state (bs_ports bs j)"
  "bp_protover (bs_ports (bstp_set_timer_tc i bs) j) = bp_protover (bs_ports bs j)"
  "bp_port_pv (bs_ports (bstp_set_timer_tc i bs) j) = bp_port_pv (bs_ports bs j)"
  "bp_path_cost (bs_ports (bstp_set_timer_tc i bs) j) = bp_path_cost (bs_ports bs j)"
  "bp_ifp (bs_ports (bstp_set_timer_tc i bs) j) = bp_ifp (bs_ports bs j)"
  "bp_desg_pv (bs_ports (bstp_set_timer_tc i bs) j) = bp_desg_pv (bs_ports bs j)"
  "bp_port_id (bs_ports (bstp_set_timer_tc i bs) j) = bp_port_id (bs_ports bs j)"
  by (simp_all add: bstp_set_timer_tc_def Let_def)

lemma tc_received_frame [simp]:
  "bs_running (tc_received i bs) = bs_running bs" "bs_bplist (tc_received i bs) = bs_bplist bs"
  "bs_root_port (tc_received i bs) = bs_root_port bs"
  "bs_txholdcount (tc_received i bs) = bs_txholdcount bs"
  "bs_bridge_pv (tc_received i bs) = bs_bridge_pv bs"
  "bs_root_pv (tc_received i bs) = bs_root_pv bs"
  "bs_protover (tc_received i bs) = bs_protover bs"
  "bp_role (bs_ports (tc_received i bs) j) = bp_role (bs_ports bs j)"
  "bp_infois (bs_ports (tc_received i bs) j) = bp_infois (bs_ports bs j)"
  "bp_state (bs_ports (tc_received i bs) j) = bp_state (bs_ports bs j)"
  "bp_protover (bs_ports (tc_received i bs) j) = bp_protover (bs_ports bs j)"
  "bp_port_pv (bs_ports (tc_received i bs) j) = bp_port_pv (bs_ports bs j)"
  "bp_path_cost (bs_ports (tc_received i bs) j) = bp_path_cost (bs_ports bs j)"
  "bp_ifp (bs_ports (tc_received i bs) j) = bp_ifp (bs_ports bs j)"
  "bp_desg_pv (bs_ports (tc_received i bs) j) = bp_desg_pv (bs_ports bs j)"
  "bp_port_id (bs_ports (tc_received i bs) j) = bp_port_id (bs_ports bs j)"
  by (simp_all add: tc_received_def Let_def)

lemma set_port_tc_frame [simp]:
  "bs_running (bstp_set_port_tc env i st bs) = bs_running bs"
  "bs_bplist (bstp_set_port_tc env i st bs) = bs_bplist bs"
  "bs_root_port (bstp_set_port_tc env i st bs) = bs_root_port bs"
  "bs_txholdcount (bstp_set_port_tc env i st bs) = bs_txholdcount bs"
  "bs_bridge_pv (bstp_set_port_tc env i st bs) = bs_bridge_pv bs"
  "bs_root_pv (bstp_set_port_tc env i st bs) = bs_root_pv bs"
  "bs_protover (bstp_set_port_tc env i st bs) = bs_protover bs"
  "bp_role (bs_ports (bstp_set_port_tc env i st bs) j) = bp_role (bs_ports bs j)"
  "bp_infois (bs_ports (bstp_set_port_tc env i st bs) j) = bp_infois (bs_ports bs j)"
  "bp_state (bs_ports (bstp_set_port_tc env i st bs) j) = bp_state (bs_ports bs j)"
  "bp_protover (bs_ports (bstp_set_port_tc env i st bs) j) = bp_protover (bs_ports bs j)"
  "bp_port_pv (bs_ports (bstp_set_port_tc env i st bs) j) = bp_port_pv (bs_ports bs j)"
  "bp_path_cost (bs_ports (bstp_set_port_tc env i st bs) j) = bp_path_cost (bs_ports bs j)"
  "bp_ifp (bs_ports (bstp_set_port_tc env i st bs) j) = bp_ifp (bs_ports bs j)"
  "bp_desg_pv (bs_ports (bstp_set_port_tc env i st bs) j) = bp_desg_pv (bs_ports bs j)"
  "bp_port_id (bs_ports (bstp_set_port_tc env i st bs) j) = bp_port_id (bs_ports bs j)"
  by (cases st; simp add: bstp_set_port_tc_def Let_def)+

lemma tc_when_frame [simp]:
  "bs_running (tc_when c st env i bs) = bs_running bs"
  "bs_bplist (tc_when c st env i bs) = bs_bplist bs"
  "bs_root_port (tc_when c st env i bs) = bs_root_port bs"
  "bs_txholdcount (tc_when c st env i bs) = bs_txholdcount bs"
  "bs_bridge_pv (tc_when c st env i bs) = bs_bridge_pv bs"
  "bs_root_pv (tc_when c st env i bs) = bs_root_pv bs"
  "bs_protover (tc_when c st env i bs) = bs_protover bs"
  "bp_role (bs_ports (tc_when c st env i bs) j) = bp_role (bs_ports bs j)"
  "bp_infois (bs_ports (tc_when c st env i bs) j) = bp_infois (bs_ports bs j)"
  "bp_state (bs_ports (tc_when c st env i bs) j) = bp_state (bs_ports bs j)"
  "bp_protover (bs_ports (tc_when c st env i bs) j) = bp_protover (bs_ports bs j)"
  "bp_port_pv (bs_ports (tc_when c st env i bs) j) = bp_port_pv (bs_ports bs j)"
  "bp_path_cost (bs_ports (tc_when c st env i bs) j) = bp_path_cost (bs_ports bs j)"
  "bp_ifp (bs_ports (tc_when c st env i bs) j) = bp_ifp (bs_ports bs j)"
  "bp_desg_pv (bs_ports (tc_when c st env i bs) j) = bp_desg_pv (bs_ports bs j)"
  "bp_port_id (bs_ports (tc_when c st env i bs) j) = bp_port_id (bs_ports bs j)"
  by (simp_all add: tc_when_def)

lemma update_tc_frame [simp]:
  "bs_running (bstp_update_tc env i bs) = bs_running bs"
  "bs_bplist (bstp_update_tc env i bs) = bs_bplist bs"
  "bs_root_port (bstp_update_tc env i bs) = bs_root_port bs"
  "bs_txholdcount (bstp_update_tc env i bs) = bs_txholdcount bs"
  "bs_bridge_pv (bstp_update_tc env i bs) = bs_bridge_pv bs"
  "bs_root_pv (bstp_update_tc env i bs) = bs_root_pv bs"
  "bs_protover (bstp_update_tc env i bs) = bs_protover bs"
  "bp_role (bs_ports (bstp_update_tc env i bs) j) = bp_role (bs_ports bs j)"
  "bp_infois (bs_ports (bstp_update_tc env i bs) j) = bp_infois (bs_ports bs j)"
  "bp_state (bs_ports (bstp_update_tc env i bs) j) = bp_state (bs_ports bs j)"
  "bp_protover (bs_ports (bstp_update_tc env i bs) j) = bp_protover (bs_ports bs j)"
  "bp_port_pv (bs_ports (bstp_update_tc env i bs) j) = bp_port_pv (bs_ports bs j)"
  "bp_path_cost (bs_ports (bstp_update_tc env i bs) j) = bp_path_cost (bs_ports bs j)"
  "bp_ifp (bs_ports (bstp_update_tc env i bs) j) = bp_ifp (bs_ports bs j)"
  "bp_desg_pv (bs_ports (bstp_update_tc env i bs) j) = bp_desg_pv (bs_ports bs j)"
  "bp_port_id (bs_ports (bstp_update_tc env i bs) j) = bp_port_id (bs_ports bs j)"
  by (simp_all add: bstp_update_tc_def Let_def split: bstp_tcstate.split)

lemma update_info_frame [simp]:
  "bs_running (bstp_update_info i bs) = bs_running bs"
  "bs_bplist (bstp_update_info i bs) = bs_bplist bs"
  "bs_root_port (bstp_update_info i bs) = bs_root_port bs"
  "bs_txholdcount (bstp_update_info i bs) = bs_txholdcount bs"
  "bs_bridge_pv (bstp_update_info i bs) = bs_bridge_pv bs"
  "bs_root_pv (bstp_update_info i bs) = bs_root_pv bs"
  "bs_protover (bstp_update_info i bs) = bs_protover bs"
  "bp_role (bs_ports (bstp_update_info i bs) j) = bp_role (bs_ports bs j)"
  "bp_state (bs_ports (bstp_update_info i bs) j) = bp_state (bs_ports bs j)"
  "bp_protover (bs_ports (bstp_update_info i bs) j) = bp_protover (bs_ports bs j)"
  "bp_ifp (bs_ports (bstp_update_info i bs) j) = bp_ifp (bs_ports bs j)"
  "bp_path_cost (bs_ports (bstp_update_info i bs) j) = bp_path_cost (bs_ports bs j)"
  "bp_desg_pv (bs_ports (bstp_update_info i bs) j) = bp_desg_pv (bs_ports bs j)"
  "bp_port_id (bs_ports (bstp_update_info i bs) j) = bp_port_id (bs_ports bs j)"
  by (simp_all add: bstp_update_info_def Let_def)

end
