(* ===== verification/Rstp_Inv.thy ===== *)
theory Rstp_Inv
  imports Rstp_Frame
begin

unbundle bit_operations_syntax

text \<open>
  Invariants of the rapid spanning tree and their preservation by every operation. The first,
  \<open>base_inv\<close>, is about each port on its own: the port state agrees with the port role, the
  transmit counter is bounded, the topology change machine rests. The second, \<open>root_ok\<close>, says
  that the port with the root role is the one \<open>bs_root_port\<close> points to; role selection
  establishes it from scratch and every other operation leaves roles alone.
\<close>

section \<open>The port invariant\<close>

definition port_safe :: "bstp_port \<Rightarrow> bool" where
  "port_safe p \<longleftrightarrow>
     (bp_state p = BSTP_IFSTATE_DISCARDING \<or> bp_state p = BSTP_IFSTATE_LEARNING
      \<or> bp_state p = BSTP_IFSTATE_FORWARDING)
     \<and> (bp_state p = BSTP_IFSTATE_DISCARDING \<or> bp_role p = BSTP_ROLE_ROOT
        \<or> bp_role p = BSTP_ROLE_DESIGNATED)"

definition tc_idle :: "bstp_port \<Rightarrow> bool" where
  "tc_idle p \<longleftrightarrow> bp_tcstate p = BSTP_TCSTATE_INACTIVE \<and> bp_fdbflush p \<and> bp_tc_timer p = bstp_timer_stop"

definition port_inv :: "u8 \<Rightarrow> bstp_port \<Rightarrow> bool" where
  "port_inv h p \<longleftrightarrow> port_safe p \<and> tc_idle p \<and> unat (bp_txcount p) \<le> unat h + 1
     \<and> (bp_protover p = BSTP_PROTO_STP \<or> bp_protover p = BSTP_PROTO_RSTP)"

fun frame_quiet :: "bstp_frame \<Rightarrow> bool" where
  "frame_quiet (ConfigFrame ifp bpdu) \<longleftrightarrow> \<not> flag_on BSTP_PDU_F_TC (cbu_flags bpdu)"
| "frame_quiet (TcnFrame ifp bpdu) \<longleftrightarrow> True"

definition base_inv :: "bstp_state \<Rightarrow> bool" where
  "base_inv bs \<longleftrightarrow> distinct (bs_bplist bs) \<and> unat (bs_txholdcount bs) \<le> 10
     \<and> (bs_protover bs = BSTP_PROTO_STP \<or> bs_protover bs = BSTP_PROTO_RSTP)
     \<and> (\<forall>i \<in> set (bs_bplist bs). port_inv (bs_txholdcount bs) (bs_ports bs i))
     \<and> list_all frame_quiet (bs_sent bs)"

lemma base_inv_glob [simp]:
  "base_inv (bs\<lparr>bs_allsynced := a\<rparr>) = base_inv bs"
  "base_inv (bs\<lparr>bs_root_port := r\<rparr>) = base_inv bs"
  "base_inv (bs\<lparr>bs_link_timer := t\<rparr>) = base_inv bs"
  "base_inv (bs\<lparr>bs_callout := c\<rparr>) = base_inv bs"
  "base_inv (bs\<lparr>bs_running := c\<rparr>) = base_inv bs"
  "base_inv (bs\<lparr>bs_bridge_pv := pv\<rparr>) = base_inv bs"
  "base_inv (bs\<lparr>bs_bridge_htime := v\<rparr>) = base_inv bs"
  "base_inv (bs\<lparr>bs_bridge_fdelay := v\<rparr>) = base_inv bs"
  "base_inv (bs\<lparr>bs_bridge_max_age := v\<rparr>) = base_inv bs"
  "base_inv (bs\<lparr>bs_bridge_priority := v\<rparr>) = base_inv bs"
  by (simp_all add: base_inv_def)

lemma base_inv_pupd:
  assumes "base_inv bs"
    and "i \<in> set (bs_bplist bs) \<Longrightarrow> port_inv (bs_txholdcount bs) (bs_ports bs i) \<Longrightarrow>
      port_inv (bs_txholdcount bs) (f (bs_ports bs i))"
  shows "base_inv (pupd i f bs)"
  using assms by (auto simp: base_inv_def)

text \<open>A write that leaves the fields of the invariant alone.\<close>

definition inv_fields :: "bstp_port \<Rightarrow> bstp_ifstate \<times> bstp_role \<times> bstp_tcstate \<times> bool
    \<times> bstp_timer \<times> u8 \<times> u8" where
  "inv_fields p = (bp_state p, bp_role p, bp_tcstate p, bp_fdbflush p, bp_tc_timer p,
     bp_txcount p, bp_protover p)"

lemma port_inv_fields: "inv_fields q = inv_fields p \<Longrightarrow> port_inv h p \<Longrightarrow> port_inv h q"
  by (simp add: port_inv_def port_safe_def tc_idle_def inv_fields_def)

lemma base_inv_pupd_same: "base_inv bs \<Longrightarrow> (\<And>p. inv_fields (f p) = inv_fields p) \<Longrightarrow> base_inv (pupd i f bs)"
  by (rule base_inv_pupd) (auto intro: port_inv_fields)

lemma base_inv_for_ports:
  "base_inv bs \<Longrightarrow> (\<And>p. inv_fields (f p) = inv_fields p) \<Longrightarrow> base_inv (for_ports f is bs)"
  by (induction "is" arbitrary: bs) (auto intro: base_inv_pupd_same)

section \<open>Transmission\<close>

lemma flag_on_TC: "flag_on BSTP_PDU_F_TC w \<longleftrightarrow> odd w"
  by (simp add: flag_on_def and_one_eq odd_iff_mod_2_eq_one)

lemma pdu_flags_quiet: "\<not> tm_active (bp_tc_timer p) \<Longrightarrow> \<not> flag_on BSTP_PDU_F_TC (bstp_pdu_flags p)"
  unfolding flag_on_TC bstp_pdu_flags_def Let_def
  by (simp add: even_or_iff even_and_iff split: bstp_ifstate.split bstp_role.split)

lemma base_inv_send:
  assumes "base_inv bs" "i \<in> set (bs_bplist bs)" "frame_quiet fr"
    "bp_txcount (bs_ports bs i) \<le> bs_txholdcount bs"
  shows "base_inv ((pupd i (\<lambda>p. p\<lparr>bp_txcount := bp_txcount p + 1\<rparr>) bs)\<lparr>bs_sent := bs_sent bs @ [fr]\<rparr>)"
proof -
  let ?p = "bs_ports bs i"
  have le: "unat (bp_txcount ?p) \<le> unat (bs_txholdcount bs)" "unat (bs_txholdcount bs) \<le> 10"
    using assms by (simp_all add: word_le_nat_alt base_inv_def)
  then have "unat (bp_txcount ?p + 1) = unat (bp_txcount ?p) + 1"
    by (intro unat_add_lem [THEN iffD1, THEN trans]) auto
  then have "base_inv (pupd i (\<lambda>p. p\<lparr>bp_txcount := bp_txcount p + 1\<rparr>) bs)"
    using assms(1) le by (intro base_inv_pupd) (auto simp: port_inv_def port_safe_def tc_idle_def)
  with assms(3) show ?thesis by (simp add: base_inv_def)
qed

lemma base_inv_bpdu:
  assumes "base_inv bs" "i \<in> set (bs_bplist bs)" "bp_txcount (bs_ports bs i) \<le> bs_txholdcount bs"
  shows "base_inv (bstp_transmit_bpdu env i bs)"
proof -
  have "\<not> tm_active (bp_tc_timer (bs_ports bs i))"
    using assms(1,2) by (auto simp: base_inv_def port_inv_def tc_idle_def bstp_timer_stop_def)
  then show ?thesis
    unfolding bstp_transmit_bpdu_def bstp_send_bpdu_def Let_def
    by (intro base_inv_send assms) (simp add: fill_bpdu_def pdu_flags_quiet)
qed

lemma base_inv_tcn:
  assumes "base_inv bs" "i \<in> set (bs_bplist bs)" "bp_txcount (bs_ports bs i) \<le> bs_txholdcount bs"
  shows "base_inv (bstp_transmit_tcn env i bs)"
  unfolding bstp_transmit_tcn_def Let_def by (intro base_inv_send assms) simp

lemma base_inv_transmit:
  "base_inv bs \<Longrightarrow> i \<in> set (bs_bplist bs) \<Longrightarrow> base_inv (bstp_transmit env i bs)"
  "base_inv bs \<Longrightarrow> i \<in> set (bs_bplist bs) \<Longrightarrow> base_inv (bstp_hello_timer_expiry env i bs)"
proof (induction env i bs and env i bs rule: bstp_transmit_bstp_hello_timer_expiry.induct)
  case (1 env i bs)
  then show ?case
    by (auto simp: bstp_transmit.simps [of env i bs] Let_def inv_fields_def
        split: bstp_role.split intro!: base_inv_pupd_same base_inv_bpdu base_inv_tcn)
next
  case (2 env i bs)
  then show ?case
    by (simp add: bstp_hello_timer_expiry.simps [of env i bs] Let_def base_inv_pupd_same inv_fields_def)
qed

section \<open>Roles and states\<close>

lemma base_inv_idle: "base_inv bs \<Longrightarrow> i \<in> set (bs_bplist bs) \<Longrightarrow> tc_idle (bs_ports bs i)"
  by (simp add: base_inv_def port_inv_def)

lemma update_tc_idle: "tc_idle (bs_ports bs i) \<Longrightarrow> bstp_update_tc env i bs = bs"
  by (simp add: bstp_update_tc_def tc_idle_def tc_when_def)

lemma base_inv_update_tc:
  "base_inv bs \<Longrightarrow> i \<in> set (bs_bplist bs) \<Longrightarrow> base_inv (bstp_update_tc env i bs)"
  by (simp add: update_tc_idle base_inv_idle)

lemma set_port_state_fields [simp]:
  "bp_state (bstp_set_port_state st p) = st" "bp_role (bstp_set_port_state st p) = bp_role p"
  "bp_tcstate (bstp_set_port_state st p) = bp_tcstate p"
  "bp_fdbflush (bstp_set_port_state st p) = bp_fdbflush p"
  "bp_tc_timer (bstp_set_port_state st p) = bp_tc_timer p"
  "bp_txcount (bstp_set_port_state st p) = bp_txcount p"
  "bp_protover (bstp_set_port_state st p) = bp_protover p"
  "bp_infois (bstp_set_port_state st p) = bp_infois p"
  "bp_port_pv (bstp_set_port_state st p) = bp_port_pv p"
  "bp_path_cost (bstp_set_port_state st p) = bp_path_cost p"
  "bp_ifp (bstp_set_port_state st p) = bp_ifp p"
  "bp_port_id (bstp_set_port_state st p) = bp_port_id p"
  "bp_desg_pv (bstp_set_port_state st p) = bp_desg_pv p"
  by (simp_all add: bstp_set_port_state_def Let_def split: bstp_ifstate.split)

lemma role_change_fields:
  "bp_role (role_enter ((role_leave p)\<lparr>bp_role := r, bp_proposing := False\<rparr>)) = r"
  "bp_tcstate (role_enter ((role_leave p)\<lparr>bp_role := r, bp_proposing := False\<rparr>)) = bp_tcstate p"
  "bp_fdbflush (role_enter ((role_leave p)\<lparr>bp_role := r, bp_proposing := False\<rparr>)) = bp_fdbflush p"
  "bp_tc_timer (role_enter ((role_leave p)\<lparr>bp_role := r, bp_proposing := False\<rparr>)) = bp_tc_timer p"
  "bp_txcount (role_enter ((role_leave p)\<lparr>bp_role := r, bp_proposing := False\<rparr>)) = bp_txcount p"
  "bp_protover (role_enter ((role_leave p)\<lparr>bp_role := r, bp_proposing := False\<rparr>)) = bp_protover p"
  "bp_infois (role_enter ((role_leave p)\<lparr>bp_role := r, bp_proposing := False\<rparr>)) = bp_infois p"
  "bp_port_pv (role_enter ((role_leave p)\<lparr>bp_role := r, bp_proposing := False\<rparr>)) = bp_port_pv p"
  "bp_path_cost (role_enter ((role_leave p)\<lparr>bp_role := r, bp_proposing := False\<rparr>)) = bp_path_cost p"
  "bp_ifp (role_enter ((role_leave p)\<lparr>bp_role := r, bp_proposing := False\<rparr>)) = bp_ifp p"
  "bp_port_id (role_enter ((role_leave p)\<lparr>bp_role := r, bp_proposing := False\<rparr>)) = bp_port_id p"
  "bp_desg_pv (role_enter ((role_leave p)\<lparr>bp_role := r, bp_proposing := False\<rparr>)) = bp_desg_pv p"
  "bp_state (role_enter ((role_leave p)\<lparr>bp_role := r, bp_proposing := False\<rparr>)) =
     (if r = BSTP_ROLE_DESIGNATED then bp_state p else BSTP_IFSTATE_DISCARDING)"
  by (cases r; cases "bp_role p"; simp add: role_enter_def role_leave_def Let_def)+

lemma set_port_role_unfold:
  "bstp_set_port_role env i r bs =
    (if bp_role (bs_ports bs i) = r then bs
     else bstp_update_tc env i ((pupd i (\<lambda>p. role_enter ((role_leave p)
            \<lparr>bp_role := r, bp_proposing := False\<rparr>)) bs)\<lparr>bs_allsynced := False\<rparr>))"
  by (cases bs) (simp add: bstp_set_port_role_def Let_def pupd_def)

lemma set_port_role_frame [simp]:
  "bs_running (bstp_set_port_role env i r bs) = bs_running bs"
  "bs_bplist (bstp_set_port_role env i r bs) = bs_bplist bs"
  "bs_root_port (bstp_set_port_role env i r bs) = bs_root_port bs"
  "bs_txholdcount (bstp_set_port_role env i r bs) = bs_txholdcount bs"
  "bs_bridge_pv (bstp_set_port_role env i r bs) = bs_bridge_pv bs"
  "bs_root_pv (bstp_set_port_role env i r bs) = bs_root_pv bs"
  "bs_protover (bstp_set_port_role env i r bs) = bs_protover bs"
  "bp_infois (bs_ports (bstp_set_port_role env i r bs) j) = bp_infois (bs_ports bs j)"
  "bp_port_pv (bs_ports (bstp_set_port_role env i r bs) j) = bp_port_pv (bs_ports bs j)"
  "bp_path_cost (bs_ports (bstp_set_port_role env i r bs) j) = bp_path_cost (bs_ports bs j)"
  "bp_ifp (bs_ports (bstp_set_port_role env i r bs) j) = bp_ifp (bs_ports bs j)"
  "bp_port_id (bs_ports (bstp_set_port_role env i r bs) j) = bp_port_id (bs_ports bs j)"
  "bp_desg_pv (bs_ports (bstp_set_port_role env i r bs) j) = bp_desg_pv (bs_ports bs j)"
  "bp_protover (bs_ports (bstp_set_port_role env i r bs) j) = bp_protover (bs_ports bs j)"
  "bp_role (bs_ports (bstp_set_port_role env i r bs) j) = (if j = i then r else bp_role (bs_ports bs j))"
  by (simp_all add: set_port_role_unfold role_change_fields)

lemma base_inv_set_port_role:
  assumes "base_inv bs" "i \<in> set (bs_bplist bs)"
  shows "base_inv (bstp_set_port_role env i r bs)"
proof -
  have "base_inv (pupd i (\<lambda>p. role_enter ((role_leave p)\<lparr>bp_role := r, bp_proposing := False\<rparr>)) bs)"
    using assms(1) by (rule base_inv_pupd)
      (auto simp: port_inv_def port_safe_def tc_idle_def role_change_fields)
  then show ?thesis
    using assms by (simp add: set_port_role_unfold base_inv_update_tc)
qed

lemma base_inv_set_port_proto: "base_inv bs \<Longrightarrow> base_inv (bstp_set_port_proto i v bs)"
  unfolding bstp_set_port_proto_def
  by (auto intro!: base_inv_pupd simp: port_inv_def port_safe_def tc_idle_def)

lemma base_inv_update_info: "base_inv bs \<Longrightarrow> base_inv (bstp_update_info i bs)"
  unfolding bstp_update_info_def Let_def
  by (auto intro!: base_inv_pupd_same simp: inv_fields_def simp del: pupd_pupd)

lemma base_inv_assign_desg: "base_inv bs \<Longrightarrow> base_inv (assign_desg i bs)"
  unfolding assign_desg_def by (rule base_inv_pupd_same) (auto simp: inv_fields_def)

lemma assign_desg_frame [simp]:
  "bs_bplist (assign_desg i bs) = bs_bplist bs" "bs_root_port (assign_desg i bs) = bs_root_port bs"
  "bs_running (assign_desg i bs) = bs_running bs"
  "bs_txholdcount (assign_desg i bs) = bs_txholdcount bs"
  "bs_bridge_pv (assign_desg i bs) = bs_bridge_pv bs" "bs_root_pv (assign_desg i bs) = bs_root_pv bs"
  "bs_protover (assign_desg i bs) = bs_protover bs"
  "bp_role (bs_ports (assign_desg i bs) j) = bp_role (bs_ports bs j)"
  "bp_infois (bs_ports (assign_desg i bs) j) = bp_infois (bs_ports bs j)"
  "bp_port_pv (bs_ports (assign_desg i bs) j) = bp_port_pv (bs_ports bs j)"
  "bp_path_cost (bs_ports (assign_desg i bs) j) = bp_path_cost (bs_ports bs j)"
  "bp_ifp (bs_ports (assign_desg i bs) j) = bp_ifp (bs_ports bs j)"
  "bp_protover (bs_ports (assign_desg i bs) j) = bp_protover (bs_ports bs j)"
  by (simp_all add: assign_desg_def)

lemma base_inv_assign_role:
  "base_inv bs \<Longrightarrow> i \<in> set (bs_bplist bs) \<Longrightarrow> base_inv (assign_role env rbp i bs)"
  by (simp add: assign_role_def Let_def base_inv_set_port_role base_inv_update_info
      base_inv_assign_desg split: bstp_info.split)

lemma assign_role_frame [simp]:
  "bs_bplist (assign_role env rbp i bs) = bs_bplist bs"
  "bs_running (assign_role env rbp i bs) = bs_running bs"
  "bs_txholdcount (assign_role env rbp i bs) = bs_txholdcount bs"
  "bs_bridge_pv (assign_role env rbp i bs) = bs_bridge_pv bs"
  "bs_root_pv (assign_role env rbp i bs) = bs_root_pv bs"
  "bs_protover (assign_role env rbp i bs) = bs_protover bs"
  by (simp_all add: assign_role_def Let_def split: bstp_info.split)

text \<open>Loops over a fixed list of ports.\<close>

lemma fold_inv:
  assumes "P s" and "\<And>x s. x \<in> set xs \<Longrightarrow> P s \<Longrightarrow> P (f x s)"
  shows "P (fold f xs s)"
  using assms by (induction xs arbitrary: s) auto

text \<open>The first loop of \<open>bstp_assign_roles\<close> writes the fields of the root only.\<close>

definition root_erase :: "bstp_state \<Rightarrow> bstp_state" where
  "root_erase bs = bs\<lparr>bs_root_pv := pri_vector_zero, bs_root_msg_age := 0, bs_root_max_age := 0,
     bs_root_fdelay := 0, bs_root_htime := 0, bs_root_port := None\<rparr>"

definition root_only :: "bstp_state \<Rightarrow> bstp_state \<Rightarrow> bool" where
  "root_only bs t \<longleftrightarrow> root_erase t = root_erase bs \<and> bs_root_port t = None"

lemma assign_scan_root_only:
  "root_only bs (fst (fold assign_root_port is (reset_root bs, r)))"
proof (rule fold_inv [where P = "\<lambda>s. root_only bs (fst s)"])
  show "root_only bs (fst (reset_root bs, r))" by (simp add: root_only_def reset_root_def root_erase_def)
next
  fix x and s :: "bstp_state \<times> nat option" assume "root_only bs (fst s)"
  then show "root_only bs (fst (assign_root_port x s))"
    by (cases s) (simp add: assign_root_port_def root_only_def root_erase_def Let_def)
qed

lemma root_only_proj: "root_only bs t \<Longrightarrow> (\<And>s. g (root_erase s) = g s) \<Longrightarrow> g t = g bs"
  unfolding root_only_def by (metis (full_types))

lemma root_only_frame:
  assumes "root_only bs t"
  shows "bs_ports t = bs_ports bs" "bs_bplist t = bs_bplist bs" "bs_running t = bs_running bs"
    "bs_bridge_pv t = bs_bridge_pv bs" "bs_txholdcount t = bs_txholdcount bs"
    "bs_protover t = bs_protover bs" "base_inv t = base_inv bs" "bs_root_port t = None"
  by (rule root_only_proj [OF assms]; simp add: root_erase_def base_inv_def)+
    (use assms in \<open>simp add: root_only_def\<close>)

lemma assign_rolesE:
  obtains t rbp where "root_only bs t" "fold assign_root_port (bs_bplist bs) (reset_root bs, None) = (t, rbp)"
    "bstp_assign_roles env bs = fold (assign_role env rbp) (bs_bplist bs) t"
proof -
  obtain t rbp where e: "fold assign_root_port (bs_bplist bs) (reset_root bs, None) = (t, rbp)"
    by (cases "fold assign_root_port (bs_bplist bs) (reset_root bs, None)") auto
  with assign_scan_root_only [of bs "bs_bplist bs" None] have "root_only bs t" by simp
  with e that show thesis by (auto simp: bstp_assign_roles_def root_only_frame(2))
qed

lemma fold_assign_role_frame [simp]:
  "bs_bplist (fold (assign_role env rbp) is bs) = bs_bplist bs"
  "bs_running (fold (assign_role env rbp) is bs) = bs_running bs"
  "bs_txholdcount (fold (assign_role env rbp) is bs) = bs_txholdcount bs"
  "bs_bridge_pv (fold (assign_role env rbp) is bs) = bs_bridge_pv bs"
  "bs_root_pv (fold (assign_role env rbp) is bs) = bs_root_pv bs"
  "bs_protover (fold (assign_role env rbp) is bs) = bs_protover bs"
  by (induction "is" arbitrary: bs) simp_all

lemma assign_roles_frame [simp]:
  "bs_bplist (bstp_assign_roles env bs) = bs_bplist bs"
  "bs_running (bstp_assign_roles env bs) = bs_running bs"
  "bs_txholdcount (bstp_assign_roles env bs) = bs_txholdcount bs"
  "bs_bridge_pv (bstp_assign_roles env bs) = bs_bridge_pv bs"
  "bs_protover (bstp_assign_roles env bs) = bs_protover bs"
  by (rule assign_rolesE [of bs env]; simp add: root_only_frame)+

lemma base_inv_assign_roles: "base_inv bs \<Longrightarrow> base_inv (bstp_assign_roles env bs)"
proof (rule assign_rolesE [of bs env])
  fix t rbp assume "base_inv bs" and t: "root_only bs t"
    and e: "bstp_assign_roles env bs = fold (assign_role env rbp) (bs_bplist bs) t"
  then have "base_inv (fold (assign_role env rbp) (bs_bplist bs) t)
      \<and> bs_bplist (fold (assign_role env rbp) (bs_bplist bs) t) = bs_bplist bs"
    by (intro fold_inv [where P = "\<lambda>s. base_inv s \<and> bs_bplist s = bs_bplist bs"])
      (auto simp: root_only_frame base_inv_assign_role)
  with e show ?thesis by simp
qed

section \<open>The root port\<close>

definition root_ok :: "bstp_state \<Rightarrow> bool" where
  "root_ok bs \<longleftrightarrow> set_option (bs_root_port bs) =
     {j \<in> set (bs_bplist bs). bp_role (bs_ports bs j) = BSTP_ROLE_ROOT}"

lemma root_ok_cong:
  assumes "bs_root_port t = bs_root_port bs" "bs_bplist t = bs_bplist bs"
    "\<And>j. bp_role (bs_ports t j) = bp_role (bs_ports bs j)"
  shows "root_ok t = root_ok bs"
  using assms by (simp add: root_ok_def)

definition takes_root :: "bstp_state \<Rightarrow> nat option \<Rightarrow> nat \<Rightarrow> bool" where
  "takes_root bs rbp i \<longleftrightarrow> bp_infois (bs_ports bs i) = BSTP_INFO_RECEIVED \<and> rbp = Some i"

lemma assign_role_effect:
  "(bp_role (bs_ports (assign_role env rbp i bs) i) = BSTP_ROLE_ROOT) = takes_root bs rbp i"
  "bs_root_port (assign_role env rbp i bs) = (if takes_root bs rbp i then rbp else bs_root_port bs)"
  "j \<noteq> i \<Longrightarrow> bp_role (bs_ports (assign_role env rbp i bs) j) = bp_role (bs_ports bs j)"
  "j \<noteq> i \<Longrightarrow> bp_infois (bs_ports (assign_role env rbp i bs) j) = bp_infois (bs_ports bs j)"
  by (simp_all add: assign_role_def takes_root_def Let_def bstp_update_info_def
      split: bstp_info.split)

lemma fold_assign_role_effect:
  assumes "distinct is"
  shows "(\<forall>j. bp_role (bs_ports (fold (assign_role env rbp) is bs) j) = BSTP_ROLE_ROOT \<longleftrightarrow>
      (if j \<in> set is then takes_root bs rbp j else bp_role (bs_ports bs j) = BSTP_ROLE_ROOT))
    \<and> bs_root_port (fold (assign_role env rbp) is bs) =
      (if \<exists>j \<in> set is. takes_root bs rbp j then rbp else bs_root_port bs)"
  using assms
proof (induction "is" arbitrary: bs)
  case (Cons i "is")
  let ?s = "assign_role env rbp i bs"
  have t: "takes_root ?s rbp j = takes_root bs rbp j" if "j \<in> set is" for j
  proof -
    from that Cons.prems have "j \<noteq> i" by auto
    then show ?thesis by (simp add: takes_root_def assign_role_effect(4))
  qed
  have r: "bp_role (bs_ports ?s j) = BSTP_ROLE_ROOT \<longleftrightarrow>
      (if j = i then takes_root bs rbp i else bp_role (bs_ports bs j) = BSTP_ROLE_ROOT)" for j
    by (simp add: assign_role_effect)
  from Cons.prems show ?case
    by (auto simp: Cons.IH t r assign_role_effect(2))
qed simp

lemma assign_scan_received:
  assumes "fold assign_root_port is (reset_root bs, None) = (t, Some r)"
  shows "r \<in> set is \<and> bp_infois (bs_ports bs r) = BSTP_INFO_RECEIVED"
proof -
  have "case fold assign_root_port is (reset_root bs, None) of
      (s, x) \<Rightarrow> bs_ports s = bs_ports bs
        \<and> (\<forall>r. x = Some r \<longrightarrow> r \<in> set is \<and> bp_infois (bs_ports bs r) = BSTP_INFO_RECEIVED)"
    by (rule fold_inv) (auto simp: reset_root_def assign_root_port_def Let_def split: prod.splits if_splits)
  with assms show ?thesis by simp
qed

lemma assign_roles_root_ok:
  assumes "distinct (bs_bplist bs)"
  shows "root_ok (bstp_assign_roles env bs)"
proof (rule assign_rolesE [of bs env])
  fix t rbp assume t: "root_only bs t"
    and scan: "fold assign_root_port (bs_bplist bs) (reset_root bs, None) = (t, rbp)"
    and e: "bstp_assign_roles env bs = fold (assign_role env rbp) (bs_bplist bs) t"
  have k: "takes_root t rbp j \<longleftrightarrow> rbp = Some j" for j
    using scan assign_scan_received [of "bs_bplist bs" bs t j] t
    by (auto simp: takes_root_def root_only_frame)
  have m: "rbp = Some j \<Longrightarrow> j \<in> set (bs_bplist bs)" for j
    using scan assign_scan_received [of "bs_bplist bs" bs t j] by blast
  from fold_assign_role_effect [OF assms, of env rbp t, unfolded k] t
  have "set_option (bs_root_port (bstp_assign_roles env bs)) = set_option rbp"
    and "\<forall>j \<in> set (bs_bplist bs). bp_role (bs_ports (bstp_assign_roles env bs) j) = BSTP_ROLE_ROOT
      \<longleftrightarrow> rbp = Some j"
    by (auto simp: e root_only_frame dest: m)
  then show "root_ok (bstp_assign_roles env bs)" by (auto simp: root_ok_def dest: m)
qed

section \<open>Every operation keeps the invariant\<close>

definition rstp_inv :: "bstp_state \<Rightarrow> bool" where
  "rstp_inv bs \<longleftrightarrow> base_inv bs \<and> root_ok bs"

lemma base_inv_distinct: "base_inv bs \<Longrightarrow> distinct (bs_bplist bs)"
  by (simp add: base_inv_def)

lemma rstp_inv_assign_roles: "base_inv bs \<Longrightarrow> rstp_inv (bstp_assign_roles env bs)"
  by (simp add: rstp_inv_def base_inv_assign_roles assign_roles_root_ok base_inv_distinct)

text \<open>The state machines of a port.\<close>

lemma base_inv_set_all:
  "base_inv bs \<Longrightarrow> base_inv (bstp_set_all_sync bs)" "base_inv bs \<Longrightarrow> base_inv (bstp_set_all_reroot bs)"
  by (simp_all add: bstp_set_all_sync_def bstp_set_all_reroot_def base_inv_for_ports inv_fields_def)

lemma base_inv_stages:
  "base_inv bs \<Longrightarrow> base_inv (alternate_agreed i bs)" "base_inv bs \<Longrightarrow> base_inv (port_proposed i bs)"
  "base_inv bs \<Longrightarrow> base_inv (root_reroot i bs)" "base_inv bs \<Longrightarrow> base_inv (root_agreed i bs)"
  by (simp_all add: alternate_agreed_def port_proposed_def root_reroot_def root_agreed_def Let_def
      base_inv_pupd_same inv_fields_def base_inv_set_all)

lemma stage_frame [simp]:
  "bs_bplist (alternate_agreed i bs) = bs_bplist bs" "bs_bplist (port_proposed i bs) = bs_bplist bs"
  "bs_bplist (root_reroot i bs) = bs_bplist bs" "bs_bplist (root_agreed i bs) = bs_bplist bs"
  "bs_bplist (root_forward i bs) = bs_bplist bs"
  "bs_root_port (alternate_agreed i bs) = bs_root_port bs"
  "bs_root_port (port_proposed i bs) = bs_root_port bs"
  "bs_root_port (root_reroot i bs) = bs_root_port bs" "bs_root_port (root_agreed i bs) = bs_root_port bs"
  "bs_root_port (root_forward i bs) = bs_root_port bs"
  "bp_role (bs_ports (alternate_agreed i bs) j) = bp_role (bs_ports bs j)"
  "bp_role (bs_ports (port_proposed i bs) j) = bp_role (bs_ports bs j)"
  "bp_role (bs_ports (root_reroot i bs) j) = bp_role (bs_ports bs j)"
  "bp_role (bs_ports (root_agreed i bs) j) = bp_role (bs_ports bs j)"
  "bp_role (bs_ports (root_forward i bs) j) = bp_role (bs_ports bs j)"
  by (simp_all add: alternate_agreed_def port_proposed_def root_reroot_def root_agreed_def
      root_forward_def Let_def split: bstp_ifstate.split)

lemma port_inv_state:
  "port_inv h p \<Longrightarrow> bp_role p = BSTP_ROLE_ROOT \<or> bp_role p = BSTP_ROLE_DESIGNATED \<Longrightarrow>
   st = BSTP_IFSTATE_DISCARDING \<or> st = BSTP_IFSTATE_LEARNING \<or> st = BSTP_IFSTATE_FORWARDING \<Longrightarrow>
   port_inv h (bstp_set_port_state st p)"
  by (auto simp: port_inv_def port_safe_def tc_idle_def)

lemma base_inv_root_forward:
  "base_inv bs \<Longrightarrow> bp_role (bs_ports bs i) = BSTP_ROLE_ROOT \<Longrightarrow> base_inv (root_forward i bs)"
  by (auto simp: root_forward_def Let_def split: bstp_ifstate.split intro: base_inv_pupd port_inv_state)

lemma designated_fields:
  "inv_fields (designated_retired p) = inv_fields p" "inv_fields (designated_synced p) = inv_fields p"
  "inv_fields (designated_propose p) = inv_fields p" "inv_fields (clear_sync p) = inv_fields p"
  "inv_fields (root_rerooted p) = inv_fields p"
  by (simp_all add: inv_fields_def designated_retired_def designated_synced_def designated_propose_def
      clear_sync_def root_rerooted_def)

lemma designated_role [simp]:
  "bp_role (designated_retired p) = bp_role p" "bp_role (designated_synced p) = bp_role p"
  "bp_role (designated_propose p) = bp_role p" "bp_role (designated_forward p) = bp_role p"
  "bp_role (designated_discard p) = bp_role p" "bp_role (clear_sync p) = bp_role p"
  "bp_role (root_rerooted p) = bp_role p"
  by (simp_all add: designated_retired_def designated_synced_def designated_propose_def
      designated_forward_def designated_discard_def clear_sync_def root_rerooted_def Let_def)

lemma port_inv_designated:
  assumes "port_inv h p" "bp_role p = BSTP_ROLE_DESIGNATED"
  shows "port_inv h (designated_forward p)" "port_inv h (designated_discard p)"
  using assms by (auto simp add: port_inv_def port_safe_def tc_idle_def designated_forward_def
      designated_discard_def Let_def)

lemma base_inv_update_role_switch:
  assumes "base_inv bs"
  shows "base_inv (update_role_switch i bs)"
proof -
  note clear = base_inv_pupd_same [OF _ designated_fields(4)]
    base_inv_pupd_same [OF _ designated_fields(5)]
  have "base_inv (pupd i (\<lambda>bp. designated_discard (designated_forward (designated_propose
         (designated_synced (designated_retired bp))))) bs)"
    if "bp_role (bs_ports bs i) = BSTP_ROLE_DESIGNATED"
    using assms that by (intro base_inv_pupd)
      (auto intro!: port_inv_designated port_inv_fields [OF designated_fields(1)]
        port_inv_fields [OF designated_fields(2)] port_inv_fields [OF designated_fields(3)])
  with assms show ?thesis
    by (auto simp: update_role_switch_def base_inv_stages base_inv_root_forward clear
        split: bstp_role.split)
qed

lemma update_role_switch_frame [simp]:
  "bs_bplist (update_role_switch i bs) = bs_bplist bs"
  "bs_root_port (update_role_switch i bs) = bs_root_port bs"
  "bp_role (bs_ports (update_role_switch i bs) j) = bp_role (bs_ports bs j)"
  by (simp_all add: update_role_switch_def split: bstp_role.split)

lemma update_state_frame [simp]:
  "bs_bplist (bstp_update_roles env i bs) = bs_bplist bs"
  "bs_root_port (bstp_update_roles env i bs) = bs_root_port bs"
  "bp_role (bs_ports (bstp_update_roles env i bs) j) = bp_role (bs_ports bs j)"
  "bs_bplist (bstp_update_state env i bs) = bs_bplist bs"
  "bs_root_port (bstp_update_state env i bs) = bs_root_port bs"
  "bp_role (bs_ports (bstp_update_state env i bs) j) = bp_role (bs_ports bs j)"
  by (simp_all add: bstp_update_roles_def bstp_update_state_def Let_def)

lemma base_inv_update_state:
  assumes "base_inv bs" "i \<in> set (bs_bplist bs)"
  shows "base_inv (bstp_update_roles env i bs)" "base_inv (bstp_update_state env i bs)"
  using assms by (simp_all add: bstp_update_roles_def bstp_update_state_def Let_def
      base_inv_update_role_switch base_inv_transmit base_inv_update_tc)

lemma rstp_inv_update_state:
  assumes "rstp_inv bs" "i \<in> set (bs_bplist bs)"
  shows "rstp_inv (bstp_update_roles env i bs)" "rstp_inv (bstp_update_state env i bs)"
  using assms root_ok_cong [of "bstp_update_roles env i bs" bs]
    root_ok_cong [of "bstp_update_state env i bs" bs]
  by (simp_all add: rstp_inv_def base_inv_update_state)

text \<open>Reception.\<close>

lemma rstp_inv_same:
  "rstp_inv bs \<Longrightarrow> (\<And>p. inv_fields (f p) = inv_fields p) \<Longrightarrow> rstp_inv (pupd i f bs)"
  using root_ok_cong [of "pupd i f bs" bs] by (auto simp: rstp_inv_def base_inv_pupd_same inv_fields_def)

lemma receive_fields:
  "inv_fields (rcvd_superior p) = inv_fields p" "inv_fields (bstp_set_timer_msgage p) = inv_fields p"
  "inv_fields (note_tc p) = inv_fields p" "inv_fields (note_proposal p) = inv_fields p"
  "inv_fields (p\<lparr>bp_agreed := a\<rparr>) = inv_fields p" "inv_fields (p\<lparr>bp_proposing := a\<rparr>) = inv_fields p"
  by (simp_all add: inv_fields_def rcvd_superior_def bstp_set_timer_msgage_def note_tc_def
      note_proposal_def Let_def)

lemma rstp_inv_received_bpdu:
  assumes "rstp_inv bs" "i \<in> set (bs_bplist bs)"
  shows "rstp_inv (bstp_received_bpdu env i bs)"
proof -
  have "base_inv (pupd i rcvd_superior (bs\<lparr>bs_allsynced := False\<rparr>))"
    using assms by (simp add: rstp_inv_def base_inv_pupd_same receive_fields)
  with assms show ?thesis
    by (simp add: bstp_received_bpdu_def Let_def rstp_inv_same receive_fields
        rstp_inv_update_state rstp_inv_assign_roles split: bstp_pdu.split)
qed

lemma rstp_inv_received_tcn:
  "rstp_inv bs \<Longrightarrow> i \<in> set (bs_bplist bs) \<Longrightarrow> rstp_inv (bstp_received_tcn env i bs)"
proof -
  assume inv: "rstp_inv bs" and i: "i \<in> set (bs_bplist bs)"
  let ?s = "pupd i (\<lambda>p. p\<lparr>bp_rcvdtcn := True\<rparr>) bs"
  have "rstp_inv ?s" using inv by (rule rstp_inv_same) (simp add: inv_fields_def)
  moreover from this i have "bstp_update_tc env i ?s = ?s"
    by (intro update_tc_idle base_inv_idle) (simp_all add: rstp_inv_def)
  ultimately show ?thesis by (simp add: bstp_received_tcn_def)
qed

lemma rstp_inv_receive_config:
  assumes "rstp_inv bs" "i \<in> set (bs_bplist bs)"
  shows "rstp_inv (receive_config env i cpdu bs)"
  unfolding receive_config_def using assms
  by (intro rstp_inv_received_bpdu rstp_inv_same) (simp_all add: inv_fields_def)

lemma rstp_inv_set_port_proto: "rstp_inv bs \<Longrightarrow> rstp_inv (bstp_set_port_proto i v bs)"
  using root_ok_cong [of "bstp_set_port_proto i v bs" bs]
  by (simp add: rstp_inv_def base_inv_set_port_proto) (simp add: bstp_set_port_proto_def)

lemma set_port_proto_bplist [simp]: "bs_bplist (bstp_set_port_proto i v bs) = bs_bplist bs"
  by (simp add: bstp_set_port_proto_def)

lemma rstp_inv_process_bpdu_port:
  assumes "rstp_inv bs" "i \<in> set (bs_bplist bs)"
  shows "rstp_inv (process_bpdu_port env i tpdu bs)"
proof -
  have *: "rstp_inv (bstp_received_stp env i t s)" "rstp_inv (bstp_received_rstp env i t s)"
    if "rstp_inv s" "bs_bplist s = bs_bplist bs" for t s
    using that assms(2) by (simp_all add: bstp_received_stp_def bstp_received_rstp_def
        rstp_inv_received_tcn rstp_inv_receive_config)
  have "rstp_inv (pupd i (\<lambda>p. p\<lparr>bp_operedge := False,
      bp_edge_delay_timer := bstp_timer_start BSTP_DEFAULT_MIGRATE_DELAY\<rparr>) s)"
    if "rstp_inv s" for s
    using that by (rule rstp_inv_same) (simp add: inv_fields_def)
  with assms * show ?thesis
    by (simp add: process_bpdu_port_def Let_def rstp_inv_set_port_proto)
qed

text \<open>Link status, initialisation and configuration.\<close>

lemma base_inv_ifupdstatus:
  assumes "base_inv bs" "i \<in> set (bs_bplist bs)"
  shows "base_inv (bstp_ifupdstatus env i bs)"
proof -
  have "base_inv (pupd i (\<lambda>p. bstp_set_port_state BSTP_IFSTATE_DISCARDING
      (p\<lparr>bp_infois := BSTP_INFO_DISABLED\<rparr>)) bs)"
    using assms(1) by (rule base_inv_pupd) (auto simp: port_inv_def port_safe_def tc_idle_def)
  with assms(1) show ?thesis
    by (simp add: bstp_ifupdstatus_def bstp_enable_port_def bstp_disable_port_def Let_def
        base_inv_assign_roles base_inv_pupd_same inv_fields_def)
qed

lemma ifupdstatus_bplist [simp]: "bs_bplist (bstp_ifupdstatus env i bs) = bs_bplist bs"
  by (simp add: bstp_ifupdstatus_def bstp_enable_port_def bstp_disable_port_def Let_def)

lemma rstp_inv_ifupdstatus:
  assumes "rstp_inv bs" "i \<in> set (bs_bplist bs)"
  shows "rstp_inv (bstp_ifupdstatus env i bs)"
proof -
  have c: "root_ok (pupd i (\<lambda>p. p\<lparr>bp_path_cost := bstp_calc_path_cost env p,
      bp_flags := flag_clear BSTP_PORT_PNDCOST (bp_flags p)\<rparr>) bs)"
    using assms(1) by (subst root_ok_cong [of _ bs]) (simp_all add: rstp_inv_def)
  from assms show ?thesis
    using base_inv_ifupdstatus [of bs i env] c unfolding rstp_inv_def
    by (simp add: bstp_ifupdstatus_def bstp_enable_port_def bstp_disable_port_def Let_def
        assign_roles_root_ok base_inv_distinct)
qed

lemma rstp_inv_reinit:
  assumes "base_inv bs"
  shows "rstp_inv (bstp_reinit env bs)" and "bs_bplist (bstp_reinit env bs) = bs_bplist bs"
proof -
  define id where "id = bridge_id (bs_bridge_priority bs) (env_bridge_mac env)"
  define u where "u = bs\<lparr>bs_bridge_pv := \<lparr>pv_root_id = id, pv_dbridge_id = id, pv_cost = 0,
      pv_dport_id = 0, pv_port_id = 0\<rparr>\<rparr>"
  define s where "s = (if bs_running u \<and> \<not> bs_callout u then u\<lparr>bs_callout := True\<rparr> else u)"
  let ?f = "\<lambda>i bs. bstp_ifupdstatus env i (pupd i (\<lambda>p. p\<lparr>bp_port_id := make_port_id p\<rparr>) bs)"
  have "base_inv s" and l: "bs_bplist s = bs_bplist bs" using assms by (simp_all add: s_def u_def)
  then have loop: "base_inv (fold ?f (bs_bplist bs) s) \<and> bs_bplist (fold ?f (bs_bplist bs) s) = bs_bplist bs"
    by (intro fold_inv [where P = "\<lambda>s. base_inv s \<and> bs_bplist s = bs_bplist bs"])
      (simp_all add: base_inv_ifupdstatus base_inv_pupd_same inv_fields_def)
  have "bstp_reinit env bs =
      (bstp_assign_roles env (fold ?f (bs_bplist bs) s))\<lparr>bs_link_timer := bstp_timer_start BSTP_LINK_TIMER\<rparr>"
    unfolding bstp_reinit_def Let_def id_def [symmetric] u_def [symmetric] s_def [symmetric] l by (rule refl)
  with loop rstp_inv_assign_roles [of "fold ?f (bs_bplist bs) s" env]
  show "rstp_inv (bstp_reinit env bs)" "bs_bplist (bstp_reinit env bs) = bs_bplist bs"
    by (simp_all add: rstp_inv_def root_ok_def)
qed

lemma rstp_inv_base: "rstp_inv bs \<Longrightarrow> base_inv bs"
  by (simp add: rstp_inv_def)

lemma rstp_inv_setters:
  assumes "rstp_inv bs"
  shows "rstp_inv (snd (bstp_set_htime env v bs))" "rstp_inv (snd (bstp_set_fdelay env v bs))"
    "rstp_inv (snd (bstp_set_maxage env v bs))" "rstp_inv (snd (bstp_set_priority env v bs))"
    "rstp_inv (snd (bstp_set_port_priority env i v bs))"
    "rstp_inv (snd (bstp_set_path_cost env i c bs))"
  using assms by (simp_all add: bstp_set_htime_def bstp_set_fdelay_def bstp_set_maxage_def
      bstp_set_priority_def bstp_set_port_priority_def bstp_set_path_cost_def Let_def
      rstp_inv_reinit rstp_inv_base base_inv_pupd_same inv_fields_def)

lemma edge_fields: "inv_fields (bstp_edge_delay_expiry p) = inv_fields p"
  by (simp add: bstp_edge_delay_expiry_def inv_fields_def)

lemma rstp_inv_port_setters:
  assumes "rstp_inv bs" "i \<in> set (bs_bplist bs)"
  shows "rstp_inv (snd (bstp_set_edge i v bs))" "rstp_inv (snd (bstp_set_autoedge i v bs))"
    "rstp_inv (snd (bstp_set_ptp i v bs))" "rstp_inv (snd (bstp_set_autoptp env i v bs))"
proof -
  have w: "rstp_inv (pupd i (\<lambda>p. p\<lparr>bp_flags := f (bp_flags p)\<rparr>) bs)" for f
    using assms(1) by (rule rstp_inv_same) (simp add: inv_fields_def)
  then show "rstp_inv (snd (bstp_set_autoptp env i v bs))"
    using assms(2) by (simp add: bstp_set_autoptp_def Let_def rstp_inv_ifupdstatus)
  have "rstp_inv (pupd i (\<lambda>p. bstp_edge_delay_expiry (p\<lparr>bp_flags := f (bp_flags p)\<rparr>)) bs)" for f
    using assms(1) by (rule rstp_inv_same) (simp add: edge_fields, simp add: inv_fields_def)
  with w show "rstp_inv (snd (bstp_set_autoedge i v bs))"
    by (simp add: bstp_set_autoedge_def Let_def)
  show "rstp_inv (snd (bstp_set_edge i v bs))" "rstp_inv (snd (bstp_set_ptp i v bs))"
    using assms(1)
    by (simp_all add: bstp_set_edge_def bstp_set_ptp_def Let_def inv_fields_def rstp_inv_same)
qed

lemma rstp_inv_set_holdcount:
  assumes "rstp_inv bs"
  shows "rstp_inv (snd (bstp_set_holdcount v bs))"
proof (cases "v < 1 \<or> v > 10")
  case False
  let ?s = "bs\<lparr>bs_txholdcount := word_of_int v\<rparr>" and ?f = "\<lambda>p :: bstp_port. p\<lparr>bp_txcount := 0\<rparr>"
  have h: "unat (word_of_int v :: u8) \<le> 10"
    using False by (simp add: unat_eq_nat_uint uint_word_of_int) linarith
  have ports: "bs_ports (for_ports ?f (bs_bplist bs) ?s) j =
      (if j \<in> set (bs_bplist bs) then ?f (bs_ports bs j) else bs_ports bs j)" for j
    by (subst for_ports_idem) simp_all
  have "base_inv (for_ports ?f (bs_bplist bs) ?s)"
    using assms h by (simp add: rstp_inv_def base_inv_def ports port_inv_def port_safe_def tc_idle_def)
  moreover have "root_ok (for_ports ?f (bs_bplist bs) ?s)"
    using assms by (subst root_ok_cong [of _ bs]) (simp_all add: rstp_inv_def ports)
  ultimately show ?thesis using False by (simp add: bstp_set_holdcount_def rstp_inv_def)
qed (use assms in \<open>simp add: bstp_set_holdcount_def\<close>)

lemma base_inv_set_tc_inactive:
  "base_inv bs \<Longrightarrow> base_inv (bstp_set_port_tc env i BSTP_TCSTATE_INACTIVE bs)"
  by (auto simp: bstp_set_port_tc_def Let_def port_inv_def port_safe_def tc_idle_def intro: base_inv_pupd)

lemma base_inv_protocol_port:
  assumes "base_inv bs" "i \<in> set (bs_bplist bs)"
  shows "base_inv (protocol_port env i bs)"
proof -
  define s where "s = pupd i (\<lambda>p. p\<lparr>bp_infois := BSTP_INFO_DISABLED, bp_txcount := 0\<rparr>) bs"
  have "base_inv s" unfolding s_def
    using assms(1) by (rule base_inv_pupd) (auto simp: port_inv_def port_safe_def tc_idle_def)
  moreover have "i \<in> set (bs_bplist s)" using assms(2) by (simp add: s_def)
  ultimately show ?thesis
    unfolding protocol_port_def Let_def s_def [symmetric]
    by (intro base_inv_pupd_same base_inv_set_tc_inactive base_inv_set_port_role
        base_inv_set_port_proto) (simp_all add: inv_fields_def)
qed

lemma protocol_port_bplist [simp]: "bs_bplist (protocol_port env i bs) = bs_bplist bs"
  by (simp add: protocol_port_def Let_def)

lemma rstp_inv_set_protocol:
  assumes "rstp_inv bs"
  shows "rstp_inv (snd (bstp_set_protocol env v bs))"
proof (cases "v = 0 \<or> v = 2")
  case True
  let ?s = "bs\<lparr>bs_protover := word_of_int v, bs_bridge_htime := 2\<rparr>"
  have "base_inv ?s" using assms True by (auto simp: rstp_inv_def base_inv_def)
  then have "base_inv (fold (protocol_port env) (bs_bplist ?s) ?s)
      \<and> bs_bplist (fold (protocol_port env) (bs_bplist ?s) ?s) = bs_bplist ?s"
    by (intro fold_inv [where P = "\<lambda>s. base_inv s \<and> bs_bplist s = bs_bplist ?s"])
      (simp_all add: base_inv_protocol_port)
  then show ?thesis using True by (auto simp: bstp_set_protocol_def Let_def rstp_inv_reinit)
qed (use assms in \<open>simp add: bstp_set_protocol_def\<close>)

text \<open>Ports come and go.\<close>

lemma rstp_inv_init: "rstp_inv bs \<Longrightarrow> rstp_inv (bstp_init env bs)"
  by (simp add: bstp_init_def rstp_inv_reinit rstp_inv_base)

lemma rstp_inv_enable:
  "base_inv bs \<Longrightarrow> i \<in> set (bs_bplist bs) \<Longrightarrow> rstp_inv (bstp_enable env i bs)"
  unfolding bstp_enable_def
  by (intro rstp_inv_update_state rstp_inv_reinit base_inv_pupd_same)
    (simp_all add: inv_fields_def rstp_inv_reinit base_inv_pupd_same)

lemma rstp_inv_disable:
  assumes "rstp_inv bs"
  shows "rstp_inv (bstp_disable env i bs)"
proof -
  have "base_inv (pupd i (\<lambda>p. bstp_set_port_state BSTP_IFSTATE_DISCARDING
      (p\<lparr>bp_infois := BSTP_INFO_DISABLED\<rparr>)) bs)"
    using rstp_inv_base [OF assms]
    by (rule base_inv_pupd) (auto simp: port_inv_def port_safe_def tc_idle_def)
  then have "base_inv (bstp_disable_port env i bs)"
    unfolding bstp_disable_port_def by (rule base_inv_assign_roles)
  then have "base_inv ((bstp_disable_port env i bs)
      \<lparr>bs_bplist := remove1 i (bs_bplist (bstp_disable_port env i bs))\<rparr>)"
    by (simp add: base_inv_def)
  then show ?thesis
    unfolding bstp_disable_def Let_def
    by (intro rstp_inv_reinit base_inv_pupd_same) (simp_all add: inv_fields_def)
qed

end
