(* ===== verification/Rstp_Run.thy ===== *)
theory Rstp_Run
  imports Rstp_Inv
begin

unbundle bit_operations_syntax

text \<open>
  Runs of one rapid spanning tree instance: creation of ports, the periodic tick, and the
  machine whose events are the calls the rest of the switch makes (\<open>stpmgr_main.c\<close>, \<open>vlan_stp.c\<close>,
  \<open>rstp_cli.c\<close> and the timer service). The instance is an interpretation of the event machines of
  the prelude, and the properties of whole runs are the facts of that interpretation.
\<close>

section \<open>Creation and tick\<close>

definition create_state :: "rstp_env \<Rightarrow> nat \<Rightarrow> u16 \<Rightarrow> bstp_state \<Rightarrow> bstp_state" where
  "create_state env i ifp bs =
    (let bs = pupd i (\<lambda>_. bstp_set_port_state BSTP_IFSTATE_DISCARDING
                (bstp_port_zero\<lparr>bp_ifp := uint ifp, bp_priority := 0x80,
                   bp_infois := BSTP_INFO_DISABLED,
                   bp_flags := BSTP_PORT_AUTOEDGE OR BSTP_PORT_AUTOPTP\<rparr>)) bs;
         bs = bstp_set_port_proto i (bs_protover bs) bs;
         bs = bstp_set_port_role env i BSTP_ROLE_DISABLED bs;
         bs = bstp_set_port_tc env i BSTP_TCSTATE_INACTIVE bs
     in pupd i (\<lambda>p. p\<lparr>bp_path_cost := bstp_calc_path_cost env p\<rparr>) bs)"

lemma bstp_create_unfold:
  "bstp_create env i ifp bs =
    (let bs = create_state env i ifp bs; bs = bs\<lparr>bs_bplist := bs_bplist bs @ [i]\<rparr>
     in if env_oper_state env ifp = IF_UP then bstp_enable env i bs else bs)"
  by (simp add: bstp_create_def create_state_def Let_def)

lemma set_port_role_same: "bp_role (bs_ports bs i) = r \<Longrightarrow> bstp_set_port_role env i r bs = bs"
  by (simp add: bstp_set_port_role_def)

lemma create_state_port:
  assumes "bs_protover bs = BSTP_PROTO_STP \<or> bs_protover bs = BSTP_PROTO_RSTP"
  shows "port_inv (bs_txholdcount bs) (bs_ports (create_state env i ifp bs) i)"
    "bp_role (bs_ports (create_state env i ifp bs) i) = BSTP_ROLE_DISABLED"
    "bp_infois (bs_ports (create_state env i ifp bs) i) = BSTP_INFO_DISABLED"
    "bp_ifp (bs_ports (create_state env i ifp bs) i) = uint ifp"
    "j \<noteq> i \<Longrightarrow> bs_ports (create_state env i ifp bs) j = bs_ports bs j"
    "bs_bplist (create_state env i ifp bs) = bs_bplist bs"
    "bs_root_port (create_state env i ifp bs) = bs_root_port bs"
    "bs_txholdcount (create_state env i ifp bs) = bs_txholdcount bs"
    "bs_protover (create_state env i ifp bs) = bs_protover bs"
    "bs_sent (create_state env i ifp bs) = bs_sent bs"
  using assms
  by (auto simp: create_state_def Let_def bstp_set_port_proto_def set_port_role_same bstp_port_zero_def
      bstp_set_port_tc_def port_inv_def port_safe_def tc_idle_def)

lemma create_state_inv:
  fixes env ifp
  assumes "rstp_inv bs" "i \<notin> set (bs_bplist bs)"
  defines "s \<equiv> create_state env i ifp bs"
  shows "rstp_inv (s\<lparr>bs_bplist := bs_bplist s @ [i]\<rparr>)"
proof -
  have v: "bs_protover bs = BSTP_PROTO_STP \<or> bs_protover bs = BSTP_PROTO_RSTP"
    using assms(1) by (simp add: rstp_inv_def base_inv_def)
  note s = create_state_port [OF v, where env = env and i = i and ifp = ifp, folded s_def]
  have other: "bs_ports s j = bs_ports bs j" if "j \<in> set (bs_bplist bs)" for j
    using that assms(2) s(5) by metis
  have "base_inv (s\<lparr>bs_bplist := bs_bplist s @ [i]\<rparr>)"
    using assms(1,2) v by (auto simp: rstp_inv_def base_inv_def s other)
  moreover have "root_ok (s\<lparr>bs_bplist := bs_bplist s @ [i]\<rparr>)"
  proof -
    have "{j \<in> set (bs_bplist bs @ [i]). bp_role (bs_ports s j) = BSTP_ROLE_ROOT} =
        {j \<in> set (bs_bplist bs). bp_role (bs_ports bs j) = BSTP_ROLE_ROOT}"
      using s(2) other by auto
    then show ?thesis using assms(1) by (simp add: rstp_inv_def root_ok_def s(6,7))
  qed
  ultimately show ?thesis by (simp add: rstp_inv_def)
qed

lemma rstp_inv_create:
  assumes "rstp_inv bs" "i \<notin> set (bs_bplist bs)"
  shows "rstp_inv (bstp_create env i ifp bs)"
  using create_state_inv [OF assms, of env ifp]
  by (simp add: bstp_create_unfold Let_def rstp_inv_enable rstp_inv_base)

lemma rstp_inv_pupd:
  assumes "rstp_inv bs" and "\<And>p. bp_role (f p) = bp_role p"
    and "\<And>p. port_inv (bs_txholdcount bs) p \<Longrightarrow> port_inv (bs_txholdcount bs) (f p)"
  shows "rstp_inv (pupd i f bs)"
proof -
  have "root_ok (pupd i f bs) = root_ok bs" using assms(2) by (intro root_ok_cong) simp_all
  with assms base_inv_pupd [of bs i f] show ?thesis by (simp add: rstp_inv_def)
qed

lemma rstp_inv_hello:
  "rstp_inv bs \<Longrightarrow> i \<in> set (bs_bplist bs) \<Longrightarrow> rstp_inv (bstp_hello_timer_expiry env i bs)"
  using root_ok_cong [of "bstp_hello_timer_expiry env i bs" bs]
  by (simp add: rstp_inv_def base_inv_transmit)

lemma rstp_inv_tick_port:
  assumes "rstp_inv bs" "i \<in> set (bs_bplist bs)"
  shows "rstp_inv (tick_port env i bs)" "bs_bplist (tick_port env i bs) = bs_bplist bs"
proof -
  define a where "a = pupd i tick_quiet bs"
  have a: "rstp_inv a" "bs_bplist a = bs_bplist bs" unfolding a_def using assms(1)
    by (auto intro!: rstp_inv_pupd simp: tick_quiet_def port_inv_def port_safe_def tc_idle_def
        bstp_timer_expired_def bstp_timer_stop_def)
  define b where "b = tick_hello env i a"
  have b: "rstp_inv b" "bs_bplist b = bs_bplist bs" unfolding b_def using a assms(2)
    by (auto simp: tick_hello_def Let_def split: prod.split
        intro!: rstp_inv_hello rstp_inv_same simp: inv_fields_def)
  define c where "c = tick_msgage env i b"
  have c: "rstp_inv c" "bs_bplist c = bs_bplist bs" unfolding c_def using b
    by (auto simp: tick_msgage_def bstp_message_age_expiry_def Let_def inv_fields_def split: prod.split
        intro!: rstp_inv_same rstp_inv_assign_roles base_inv_pupd_same rstp_inv_base)
  define d where "d = pupd i (\<lambda>p. tick_edge (tick_migrate p)) c"
  have d: "rstp_inv d" "bs_bplist d = bs_bplist bs" unfolding d_def using c
    by (auto intro!: rstp_inv_same simp: tick_edge_def tick_migrate_def bstp_edge_delay_expiry_def
        bstp_migrate_delay_expiry_def inv_fields_def Let_def split: prod.split)
  have e: "rstp_inv (bstp_update_state env i d)" "bs_bplist (bstp_update_state env i d) = bs_bplist bs"
    using d assms(2) by (simp_all add: rstp_inv_update_state)
  have t: "tick_port env i bs = pupd i (\<lambda>p. if bp_txcount p > 0 then p\<lparr>bp_txcount := bp_txcount p - 1\<rparr> else p)
      (bstp_update_state env i d)"
    by (simp only: tick_port_def Let_def a_def b_def c_def d_def)
  have "unat (w - 1) \<le> Suc h" if "unat w \<le> Suc h" "w > 0" for w :: u8 and h
    using that by (simp add: unat_minus_one word_neq_0_conv [symmetric])
  then show "rstp_inv (tick_port env i bs)" "bs_bplist (tick_port env i bs) = bs_bplist bs"
    unfolding t using e
    by (auto intro!: rstp_inv_pupd simp: port_inv_def port_safe_def tc_idle_def)
qed

lemma rstp_inv_glob [simp]:
  "rstp_inv (bs\<lparr>bs_link_timer := t\<rparr>) = rstp_inv bs" "rstp_inv (bs\<lparr>bs_callout := c\<rparr>) = rstp_inv bs"
  by (simp_all add: rstp_inv_def root_ok_def)

lemma rstp_inv_tick:
  assumes "rstp_inv bs"
  shows "rstp_inv (bstp_tick env bs)"
proof -
  have link: "rstp_inv (fold (bstp_ifupdstatus env) (bs_bplist s) s)
      \<and> bs_bplist (fold (bstp_ifupdstatus env) (bs_bplist s) s) = bs_bplist s" if "rstp_inv s" for s
    using that by (intro fold_inv [where P = "\<lambda>t. rstp_inv t \<and> bs_bplist t = bs_bplist s"])
      (simp_all add: rstp_inv_ifupdstatus)
  have ports: "rstp_inv (fold (tick_port env) xs s)" if "rstp_inv s" "bs_bplist s = xs" for s xs
    using that fold_inv [where P = "\<lambda>t. rstp_inv t \<and> bs_bplist t = xs" and s = s
        and f = "tick_port env" and xs = xs]
    by (simp add: rstp_inv_tick_port)
  show ?thesis
    using assms link [of "bs\<lparr>bs_link_timer := t\<rparr>" for t]
    by (auto simp: bstp_tick_def Let_def split: prod.split intro!: ports)
qed

lemma rstp_inv_ifsflags:
  assumes "rstp_inv bs" "i \<in> set (bs_bplist bs)"
  shows "rstp_inv (bstp_ifsflags env i flags bs)"
proof -
  have w: "rstp_inv (pupd i (\<lambda>p. p\<lparr>bp_flags := f (bp_flags p)\<rparr>) s)"
    "rstp_inv (pupd i (\<lambda>p. p\<lparr>bp_operedge := b\<rparr>) s)" "rstp_inv (pupd i (\<lambda>p. p\<lparr>bp_ptp_link := b\<rparr>) s)"
    "rstp_inv (pupd i bstp_edge_delay_expiry s)"
    if "rstp_inv s" for f b s
    using that by (simp_all add: rstp_inv_same inv_fields_def bstp_edge_delay_expiry_def)
  show ?thesis using assms
    by (simp add: bstp_ifsflags_def Let_def w rstp_inv_ifupdstatus del: pupd_pupd)
qed

section \<open>The instance as an event machine\<close>

definition rstp_get_port_entry :: "bstp_state \<Rightarrow> u16 \<Rightarrow> nat option" where
  "rstp_get_port_entry bs port = find (\<lambda>i. bp_ifp (bs_ports bs i) = uint port) (bs_bplist bs)"

text \<open>
  The link event on the instance that holds the port. \<open>rstp_enable_or_disable_port\<close> hands the result
  of the lookup to \<open>bstp_enable\<close> or \<open>bstp_disable\<close> without a check; a port that is not found is a
  null pointer that they dereference. The lookup over all instances is in theory \<open>Rstp_Mgmt\<close>.
\<close>

definition link_change ::
    "rstp_env \<Rightarrow> u16 \<Rightarrow> int \<Rightarrow> bstp_state \<Rightarrow> bstp_state option" where
  "link_change env port st bs =
    (if st = IF_UP then map_option (\<lambda>i. bstp_enable env i bs) (rstp_get_port_entry bs port)
     else if st = IF_DOWN then map_option (\<lambda>i. bstp_disable env i bs) (rstp_get_port_entry bs port)
     else Some bs)"

text \<open>
  The calls the switch makes. The address in \<open>EvCreate\<close> is what \<open>malloc\<close> returned; \<open>malloc\<close> never
  returns a block that is in use, so an event that says so is no step.
\<close>

datatype rstp_event = EvInit | EvTick | EvCreate nat u16 | EvLink u16 int | EvBpdu u16 bstp_cbpdu
  | EvHtime int | EvFdelay int | EvMaxage int | EvHoldcount int | EvProtocol int | EvPriority int
  | EvPortPriority u16 int | EvPathCost u16 u32 | EvEdge u16 int | EvAutoedge u16 int
  | EvPtp u16 int | EvAutoptp u16 int | EvIfsflags u16 u32

definition on_port :: "u16 \<Rightarrow> (nat \<Rightarrow> bstp_state \<Rightarrow> bstp_state) \<Rightarrow> bstp_state \<Rightarrow> bstp_state" where
  "on_port port f bs = (case rstp_get_port_entry bs port of None \<Rightarrow> bs | Some i \<Rightarrow> f i bs)"

fun rstp_step :: "rstp_env \<times> rstp_event \<Rightarrow> bstp_state \<Rightarrow> bstp_state option" where
  "rstp_step (env, EvInit) bs = Some (bstp_init env bs)"
| "rstp_step (env, EvTick) bs =
     Some (if bs_callout bs then bstp_tick env (bs\<lparr>bs_callout := False\<rparr>) else bs)"
| "rstp_step (env, EvCreate a port) bs =
     Some (if a \<in> set (bs_bplist bs) then bs else bstp_create env a port bs)"
| "rstp_step (env, EvLink port st) bs = link_change env port st bs"
| "rstp_step (env, EvBpdu port tpdu) bs = Some (on_port port (\<lambda>i. process_bpdu_port env i tpdu) bs)"
| "rstp_step (env, EvHtime v) bs = Some (snd (bstp_set_htime env v bs))"
| "rstp_step (env, EvFdelay v) bs = Some (snd (bstp_set_fdelay env v bs))"
| "rstp_step (env, EvMaxage v) bs = Some (snd (bstp_set_maxage env v bs))"
| "rstp_step (env, EvHoldcount v) bs = Some (snd (bstp_set_holdcount v bs))"
| "rstp_step (env, EvProtocol v) bs = Some (snd (bstp_set_protocol env v bs))"
| "rstp_step (env, EvPriority v) bs = Some (snd (bstp_set_priority env v bs))"
| "rstp_step (env, EvPortPriority port v) bs =
     Some (on_port port (\<lambda>i bs. snd (bstp_set_port_priority env i v bs)) bs)"
| "rstp_step (env, EvPathCost port v) bs =
     Some (on_port port (\<lambda>i bs. snd (bstp_set_path_cost env i v bs)) bs)"
| "rstp_step (env, EvEdge port v) bs = Some (on_port port (\<lambda>i bs. snd (bstp_set_edge i v bs)) bs)"
| "rstp_step (env, EvAutoedge port v) bs =
     Some (on_port port (\<lambda>i bs. snd (bstp_set_autoedge i v bs)) bs)"
| "rstp_step (env, EvPtp port v) bs = Some (on_port port (\<lambda>i bs. snd (bstp_set_ptp i v bs)) bs)"
| "rstp_step (env, EvAutoptp port v) bs =
     Some (on_port port (\<lambda>i bs. snd (bstp_set_autoptp env i v bs)) bs)"
| "rstp_step (env, EvIfsflags port v) bs = Some (on_port port (\<lambda>i. bstp_ifsflags env i v) bs)"

fun rstp_no_link :: "rstp_env \<times> rstp_event \<Rightarrow> bool" where
  "rstp_no_link (env, EvLink port st) = False"
| "rstp_no_link _ = True"

lemma get_port_entry_mem: "rstp_get_port_entry bs port = Some i \<Longrightarrow> i \<in> set (bs_bplist bs)"
  by (auto simp: rstp_get_port_entry_def find_Some_iff)

lemma rstp_inv_on_port:
  "rstp_inv bs \<Longrightarrow> (\<And>i. i \<in> set (bs_bplist bs) \<Longrightarrow> rstp_inv (f i bs)) \<Longrightarrow> rstp_inv (on_port port f bs)"
  by (auto simp: on_port_def split: option.split dest: get_port_entry_mem)

lemma rstp_inv_link:
  "rstp_inv bs \<Longrightarrow> link_change env port st bs = Some t \<Longrightarrow> rstp_inv t"
  by (auto simp: link_change_def split: if_splits dest: get_port_entry_mem
      intro: rstp_inv_enable rstp_inv_base rstp_inv_disable)

interpretation rstp: total_machine rstp_step rstp_inv rstp_no_link
proof
  fix e s t assume "rstp_inv s" and "rstp_step e s = Some t"
  then show "rstp_inv t"
    by (cases "(e, s)" rule: rstp_step.cases)
      (auto intro!: rstp_inv_init rstp_inv_tick rstp_inv_create rstp_inv_on_port rstp_inv_setters
        rstp_inv_set_holdcount rstp_inv_set_protocol rstp_inv_process_bpdu_port
        rstp_inv_port_setters rstp_inv_ifsflags dest: rstp_inv_link)
next
  fix e s assume "rstp_no_link e"
  then show "\<exists>t. rstp_step e s = Some t"
    by (cases "(e, s)" rule: rstp_step.cases) auto
qed

abbreviation rstp_start :: "u16 \<Rightarrow> bstp_state" where
  "rstp_start vlan \<equiv> bstp_attach vlan bstp_state_zero"

lemma rstp_inv_start: "rstp_inv (rstp_start vlan)"
  by (simp add: rstp_inv_def base_inv_def root_ok_def bstp_attach_def bstp_state_zero_def)

end
