(* ===== verification/Rstp_Props.thy ===== *)
theory Rstp_Props
  imports Rstp_Run
begin

unbundle bit_operations_syntax

text \<open>
  Properties of the rapid spanning tree: the order of priority vectors and the election of the
  root, the roles that role selection gives, the invariants over whole runs, the round trip of a
  BPDU, the timers and the agreement handshake.
\<close>

section \<open>The order of priority vectors\<close>

definition pv_key :: "bstp_pri_vector \<Rightarrow> u64 \<times> u32 \<times> u64 \<times> u16" where
  "pv_key pv = (pv_root_id pv, pv_cost pv, pv_dbridge_id pv, pv_dport_id pv)"

lemma info_cmp_key:
  "bstp_info_cmp pv cpv =
    (if pv_key cpv < pv_key pv then INFO_BETTER else if pv_key pv < pv_key cpv then INFO_WORSE
     else INFO_SAME)"
  by (auto simp: bstp_info_cmp_def pv_key_def less_prod_def)

definition pv_better :: "bstp_pri_vector \<Rightarrow> bstp_pri_vector \<Rightarrow> bool" where
  "pv_better a b \<longleftrightarrow> bstp_info_cmp b a = INFO_BETTER"

lemma pv_better_key: "pv_better a b \<longleftrightarrow> pv_key a < pv_key b"
  by (auto simp: pv_better_def info_cmp_key)

interpretation pv: priority_order pv_better
  by unfold_locales (auto simp: pv_better_key)

lemma info_cmp_same: "bstp_info_cmp a b = INFO_SAME \<longleftrightarrow> pv_key a = pv_key b"
  using less_linear [of "pv_key a" "pv_key b"] by (auto simp: info_cmp_key)


section \<open>Root election\<close>

text \<open>The candidates of the election: received information from another bridge.\<close>

definition root_candidate :: "bstp_state \<Rightarrow> nat \<Rightarrow> bool" where
  "root_candidate bs i \<longleftrightarrow> bp_infois (bs_ports bs i) = BSTP_INFO_RECEIVED
     \<and> \<not> bstp_same_bridgeid (pv_dbridge_id (bp_port_pv (bs_ports bs i)))
           (pv_dbridge_id (bs_bridge_pv bs))"

lemma assign_root_port_alt:
  "assign_root_port i (bs, rbp) =
    (let bp = bs_ports bs i; pv = root_path_pv bp in
     if root_candidate bs i \<and> pv_better pv (bs_root_pv bs)
     then (bs\<lparr>bs_root_pv := pv, bs_root_msg_age := bp_port_msg_age bp + 1,
              bs_root_max_age := bp_port_max_age bp, bs_root_fdelay := bp_port_fdelay bp,
              bs_root_htime := bp_port_htime bp\<rparr>, Some i)
     else (bs, rbp))"
  by (simp add: assign_root_port_def root_candidate_def pv_better_def root_path_pv_def Let_def)

text \<open>The scan computes the best of the bridge's own vector and the candidates' vectors.\<close>

lemma assign_scan_best:
  assumes "bs_ports s = bs_ports bs" "bs_bridge_pv s = bs_bridge_pv bs"
  shows "pick_best pv_better (Some (bs_root_pv s)) (map (\<lambda>i. root_path_pv (bs_ports bs i))
           (filter (root_candidate bs) is)) = Some (bs_root_pv (fst (fold assign_root_port is (s, r))))
    \<and> (snd (fold assign_root_port is (s, r)) = r
         \<and> bs_root_pv (fst (fold assign_root_port is (s, r))) = bs_root_pv s
       \<or> (\<exists>i \<in> set is. root_candidate bs i \<and> snd (fold assign_root_port is (s, r)) = Some i
         \<and> bs_root_pv (fst (fold assign_root_port is (s, r))) = root_path_pv (bs_ports bs i)))"
  using assms
proof (induction "is" arbitrary: s r)
  case (Cons i "is")
  have c: "root_candidate s i = root_candidate bs i"
    using Cons.prems by (simp add: root_candidate_def)
  show ?case
  proof (cases "root_candidate bs i \<and> pv_better (root_path_pv (bs_ports bs i)) (bs_root_pv s)")
    case True
    let ?bp = "bs_ports bs i"
    let ?t = "s\<lparr>bs_root_pv := root_path_pv ?bp, bs_root_msg_age := bp_port_msg_age ?bp + 1,
      bs_root_max_age := bp_port_max_age ?bp, bs_root_fdelay := bp_port_fdelay ?bp,
      bs_root_htime := bp_port_htime ?bp\<rparr>"
    have "assign_root_port i (s, r) = (?t, Some i)"
      using True Cons.prems by (simp add: assign_root_port_alt c Let_def)
    with Cons.IH [of ?t "Some i"] Cons.prems True show ?thesis by auto
  next
    case False
    then have "assign_root_port i (s, r) = (s, r)"
      using Cons.prems by (auto simp: assign_root_port_alt c Let_def)
    with Cons.IH [of s r] Cons.prems False show ?thesis by auto
  qed
qed simp

lemma assign_roles_root_pv:
  "\<exists>t rbp. fold assign_root_port (bs_bplist bs) (reset_root bs, None) = (t, rbp)
     \<and> bs_root_pv (bstp_assign_roles env bs) = bs_root_pv t
     \<and> (distinct (bs_bplist bs) \<longrightarrow> bs_root_port (bstp_assign_roles env bs) = rbp)"
proof (rule assign_rolesE [of bs env])
  fix t rbp assume t: "root_only bs t"
    and scan: "fold assign_root_port (bs_bplist bs) (reset_root bs, None) = (t, rbp)"
    and e: "bstp_assign_roles env bs = fold (assign_role env rbp) (bs_bplist bs) t"
  have k: "rbp = Some j \<Longrightarrow> j \<in> set (bs_bplist bs) \<and> takes_root t rbp j" for j
    using scan assign_scan_received [of "bs_bplist bs" bs t j] t
    by (auto simp: takes_root_def root_only_frame)
  have "distinct (bs_bplist bs) \<Longrightarrow> bs_root_port (bstp_assign_roles env bs) = rbp"
    using fold_assign_role_effect [of "bs_bplist bs" env rbp t] t k
    by (cases rbp) (auto simp: e root_only_frame takes_root_def)
  with scan show ?thesis by (auto simp: e)
qed

text \<open>
  C1. Role selection elects the best root: the root priority vector is the bridge's own vector,
  and then there is no root port, or the root path vector of the root port, a port with
  information received from another bridge; and neither the bridge's own vector nor the root
  path vector of any such port is better than the elected one.
\<close>

theorem bstp_assign_roles_elects_best:
  fixes bs env
  assumes "distinct (bs_bplist bs)"
  defines "t \<equiv> bstp_assign_roles env bs"
  shows "(bs_root_port t = None \<and> bs_root_pv t = bs_bridge_pv bs
      \<or> (\<exists>i \<in> set (bs_bplist bs). bs_root_port t = Some i \<and> root_candidate bs i
            \<and> bs_root_pv t = root_path_pv (bs_ports bs i)))
    \<and> bstp_info_cmp (bs_root_pv t) (bs_bridge_pv bs) \<noteq> INFO_BETTER
    \<and> (\<forall>i \<in> set (bs_bplist bs). root_candidate bs i \<longrightarrow>
         bstp_info_cmp (bs_root_pv t) (root_path_pv (bs_ports bs i)) \<noteq> INFO_BETTER)"
proof -
  obtain u rbp where scan: "fold assign_root_port (bs_bplist bs) (reset_root bs, None) = (u, rbp)"
    and pv: "bs_root_pv t = bs_root_pv u" and r: "bs_root_port t = rbp"
    using assign_roles_root_pv [of bs env] assms(1) unfolding t_def by auto
  have s: "bs_ports (reset_root bs) = bs_ports bs" "bs_bridge_pv (reset_root bs) = bs_bridge_pv bs"
    "bs_root_pv (reset_root bs) = bs_bridge_pv bs" by (simp_all add: reset_root_def)
  note best = assign_scan_best [OF s(1,2), of "bs_bplist bs" None, unfolded scan fst_conv snd_conv s(3)]
  then have "\<not> pv_better x (bs_root_pv u)" if "x = bs_bridge_pv bs \<or> (\<exists>i \<in> set (bs_bplist bs).
      root_candidate bs i \<and> x = root_path_pv (bs_ports bs i))" for x
    using that pv.pick_best_least [of "Some (bs_bridge_pv bs)" _ "bs_root_pv u" x] by auto
  with best pv r show ?thesis by (auto simp: pv_better_def)
qed

text \<open>A concrete bridge with two ports that heard from two other bridges, for the witnesses.\<close>

definition example_env :: rstp_env where
  "example_env = \<lparr>env_oper_state = (\<lambda>_. IF_UP), env_port_mac = (\<lambda>p. MAC 2 0 0 0 0 (ucast p)),
     env_bridge_mac = MAC 2 0 0 0 0 9, env_stale_cost = 20000\<rparr>"

definition example_rcvd :: "u64 \<Rightarrow> bstp_port" where
  "example_rcvd r = bstp_port_zero\<lparr>bp_infois := BSTP_INFO_RECEIVED, bp_path_cost := 19,
     bp_port_pv := \<lparr>pv_root_id = r, pv_dbridge_id = r, pv_cost = 0, pv_dport_id = 1, pv_port_id = 1\<rparr>\<rparr>"

definition example_bridge :: bstp_state where
  "example_bridge = (rstp_start 1)\<lparr>bs_bplist := [1, 2], bs_running := True,
     bs_bridge_pv := \<lparr>pv_root_id = 90, pv_dbridge_id = 90, pv_cost = 0, pv_dport_id = 0, pv_port_id = 0\<rparr>,
     bs_ports := (\<lambda>i. example_rcvd (if i = 1 then 20 else 10))\<rparr>"

lemma example_bridge_simps [simp]:
  "bs_bplist example_bridge = [1, 2]"
  "bs_ports example_bridge = (\<lambda>i. example_rcvd (if i = 1 then 20 else 10))"
  "bs_bridge_pv example_bridge = \<lparr>pv_root_id = 90, pv_dbridge_id = 90, pv_cost = 0, pv_dport_id = 0, pv_port_id = 0\<rparr>"
  by (simp_all add: example_bridge_def)

theorem bstp_assign_roles_elects_best_witness:
  "\<not> bstp_same_bridgeid 10 90
   \<and> bstp_info_cmp (bs_root_pv (bstp_assign_roles example_env example_bridge))
        (root_path_pv (example_rcvd 10)) \<noteq> INFO_BETTER"
proof -
  have c: "root_candidate example_bridge 2"
    by (simp add: root_candidate_def example_rcvd_def bstp_same_bridgeid_def PV2ADDR_def Let_def)
  have "distinct (bs_bplist example_bridge)" by simp
  from bstp_assign_roles_elects_best [OF this, of example_env] c show ?thesis
    by (simp add: root_candidate_def example_rcvd_def)
qed

section \<open>The roles of the ports\<close>

text \<open>What the tree announces on a port: the elected root at its cost, through this bridge and port.\<close>

definition announced_pv :: "bstp_state \<Rightarrow> u16 \<Rightarrow> bstp_pri_vector" where
  "announced_pv bs port_id = \<lparr>pv_root_id = pv_root_id (bs_root_pv bs),
     pv_dbridge_id = pv_dbridge_id (bs_bridge_pv bs), pv_cost = pv_cost (bs_root_pv bs),
     pv_dport_id = port_id, pv_port_id = port_id\<rparr>"

definition role_fields :: "bstp_port \<Rightarrow> bstp_role \<times> bstp_info \<times> bstp_pri_vector \<times> bstp_pri_vector \<times> u16" where
  "role_fields p = (bp_role p, bp_infois p, bp_port_pv p, bp_desg_pv p, bp_port_id p)"

lemma assign_role_other:
  "j \<noteq> i \<Longrightarrow> role_fields (bs_ports (assign_role env rbp i bs) j) = role_fields (bs_ports bs j)"
  by (simp add: assign_role_def role_fields_def Let_def bstp_update_info_def assign_desg_def
      split: bstp_info.split)

lemma fold_assign_role_other:
  "j \<notin> set is \<Longrightarrow> role_fields (bs_ports (fold (assign_role env rbp) is bs) j) = role_fields (bs_ports bs j)"
  by (induction "is" arbitrary: bs) (simp_all add: assign_role_other)

text \<open>What one pass of the second loop does to the port it visits.\<close>

definition role_outcome :: "bstp_state \<Rightarrow> bool \<Rightarrow> bstp_port \<Rightarrow> bstp_port \<Rightarrow> bool" where
  "role_outcome bs root p q \<longleftrightarrow>
    (let d = announced_pv bs (bp_port_id p) in
     bp_desg_pv q = d \<and>
     (case bp_infois p of
        BSTP_INFO_DISABLED \<Rightarrow> bp_role q = BSTP_ROLE_DISABLED
      | BSTP_INFO_RECEIVED \<Rightarrow>
          if root then bp_role q = BSTP_ROLE_ROOT
          else if bstp_info_cmp (bp_port_pv p) d = INFO_BETTER
          then bp_role q = BSTP_ROLE_DESIGNATED \<and> bp_infois q = BSTP_INFO_MINE \<and> bp_port_pv q = d
          else if bstp_same_bridgeid (pv_dbridge_id (bp_port_pv p)) (pv_dbridge_id (bs_bridge_pv bs))
          then bp_role q = BSTP_ROLE_BACKUP else bp_role q = BSTP_ROLE_ALTERNATE
      | _ \<Rightarrow> bp_role q = BSTP_ROLE_DESIGNATED \<and> bp_infois q = BSTP_INFO_MINE
              \<and> bstp_info_cmp (bp_port_pv q) d = INFO_SAME))"

lemma desg_announced: "bp_desg_pv (bs_ports (assign_desg i bs) i) = announced_pv bs (bp_port_id (bs_ports bs i))"
  by (simp add: assign_desg_def announced_pv_def)

lemma update_info_port:
  "bp_infois (bs_ports (bstp_update_info i bs) i) = BSTP_INFO_MINE"
  "bp_port_pv (bs_ports (bstp_update_info i bs) i) = bp_desg_pv (bs_ports bs i)"
  by (simp_all add: bstp_update_info_def Let_def)

lemma info_cmp_refl [simp]: "bstp_info_cmp pv pv = INFO_SAME"
  by (simp add: bstp_info_cmp_def)

lemma assign_role_outcome:
  "role_outcome bs (rbp = Some i) (bs_ports bs i) (bs_ports (assign_role env rbp i bs) i)"
  by (simp add: role_outcome_def assign_role_def Let_def desg_announced update_info_port
      split: bstp_info.split)

lemma role_outcome_cong:
  "bs_root_pv t = bs_root_pv s \<Longrightarrow> bs_bridge_pv t = bs_bridge_pv s \<Longrightarrow>
   role_fields p = role_fields p' \<Longrightarrow> role_fields q = role_fields q' \<Longrightarrow>
   role_outcome t r p q = role_outcome s r p' q'"
  by (cases "bp_infois p'") (simp_all add: role_outcome_def role_fields_def announced_pv_def Let_def)

text \<open>
  C8. After role selection every port announces the elected root through this bridge, and its role
  follows from its information: a disabled port is disabled, the root port has the root role, a
  port whose own or aged information is kept becomes designated with information equal to what it
  announces, a port whose received information is worse than what it announces becomes
  designated, and any other port is backup when the better information came from this bridge and
  alternate when it came from another one.
\<close>

theorem bstp_assign_roles_outcome:
  fixes bs env
  assumes "distinct (bs_bplist bs)" and "i \<in> set (bs_bplist bs)"
  defines "t \<equiv> bstp_assign_roles env bs"
  shows "role_outcome t (bs_root_port t = Some i) (bs_ports bs i) (bs_ports t i)"
proof (rule assign_rolesE [of bs env])
  fix u rbp assume u: "root_only bs u"
    and scan: "fold assign_root_port (bs_bplist bs) (reset_root bs, None) = (u, rbp)"
    and e: "bstp_assign_roles env bs = fold (assign_role env rbp) (bs_bplist bs) u"
  have r: "bs_root_port t = rbp"
    using assign_roles_root_pv [of bs env] assms(1) scan unfolding t_def by auto
  obtain as cs where l: "bs_bplist bs = as @ i # cs" using assms(2) by (meson split_list)
  then have i: "i \<notin> set as" "i \<notin> set cs" using assms(1) by auto
  let ?v = "fold (assign_role env rbp) as u"
  have t: "t = fold (assign_role env rbp) cs (assign_role env rbp i ?v)"
    by (simp add: t_def e l)
  have "role_outcome ?v (rbp = Some i) (bs_ports ?v i) (bs_ports (assign_role env rbp i ?v) i)"
    by (rule assign_role_outcome)
  moreover have "role_fields (bs_ports ?v i) = role_fields (bs_ports bs i)"
    using fold_assign_role_other [OF i(1)] u by (simp add: root_only_frame)
  moreover have "role_fields (bs_ports t i) = role_fields (bs_ports (assign_role env rbp i ?v) i)"
    unfolding t by (rule fold_assign_role_other [OF i(2)])
  ultimately show ?thesis
    using role_outcome_cong [of t ?v "bs_ports bs i" "bs_ports ?v i" "bs_ports t i"
        "bs_ports (assign_role env rbp i ?v) i" "rbp = Some i"]
    unfolding r by (simp add: t)
qed

theorem bstp_assign_roles_outcome_witness:
  "role_outcome (bstp_assign_roles example_env example_bridge)
     (bs_root_port (bstp_assign_roles example_env example_bridge) = Some 1)
     (example_rcvd 20) (bs_ports (bstp_assign_roles example_env example_bridge) 1)"
  using bstp_assign_roles_outcome [of example_bridge 1 example_env] by simp

section \<open>Runs of an instance\<close>

text \<open>
  C5. Loop safety of every reachable state: whatever calls an instance has handled, with whatever
  operational states of the ports, each of its ports is discarding, learning or forwarding, and a
  port that is neither root nor designated (a disabled, alternate or backup port) is discarding.
\<close>

theorem rstp_blocked_ports_discard:
  assumes "run_events rstp_step es (rstp_start vlan) = Some bs" and "i \<in> set (bs_bplist bs)"
  shows "bp_state (bs_ports bs i) \<in> {BSTP_IFSTATE_DISCARDING, BSTP_IFSTATE_LEARNING, BSTP_IFSTATE_FORWARDING}
    \<and> (bp_role (bs_ports bs i) \<notin> {BSTP_ROLE_ROOT, BSTP_ROLE_DESIGNATED} \<longrightarrow>
         bp_state (bs_ports bs i) = BSTP_IFSTATE_DISCARDING)"
  using rstp.run_inv [OF rstp_inv_start assms(1)] assms(2)
  by (auto simp: rstp_inv_def base_inv_def port_inv_def port_safe_def)

text \<open>
  C12. In every reachable state the port that \<open>bs_root_port\<close> points to is one of the instance's ports
  and is the only one with the root role; without a root port no port has that role.
\<close>

theorem rstp_root_port_unique:
  assumes "run_events rstp_step es (rstp_start vlan) = Some bs"
  shows "set_option (bs_root_port bs) =
    {i \<in> set (bs_bplist bs). bp_role (bs_ports bs i) = BSTP_ROLE_ROOT}"
  using rstp.run_inv [OF rstp_inv_start assms] by (simp add: rstp_inv_def root_ok_def)

text \<open>
  C13. The transmit counter of a port never exceeds the hold count by more than one, and the hold
  count is at most ten: the eight bit counter cannot wrap around, in any reachable state.
\<close>

theorem rstp_txcount_bounded:
  assumes "run_events rstp_step es (rstp_start vlan) = Some bs" and "i \<in> set (bs_bplist bs)"
  shows "unat (bp_txcount (bs_ports bs i)) \<le> unat (bs_txholdcount bs) + 1
    \<and> unat (bs_txholdcount bs) \<le> 10"
  using rstp.run_inv [OF rstp_inv_start assms(1)] assms(2)
  by (simp add: rstp_inv_def base_inv_def port_inv_def)


definition example_run :: "(rstp_env \<times> rstp_event) list" where
  "example_run = [(example_env, EvCreate 7 3), (example_env, EvInit)]"

lemma example_run_total:
  "\<exists>bs. run_events rstp_step example_run (rstp_start 1) = Some bs \<and> bs_bplist bs = [7]"
proof -
  let ?c = "create_state example_env 7 3 (rstp_start 1)"
  have v: "bs_protover (rstp_start 1) = BSTP_PROTO_STP \<or> bs_protover (rstp_start 1) = BSTP_PROTO_RSTP"
    and n: "bs_bplist (rstp_start 1) = []"
    by (simp_all add: bstp_attach_def)
  have "base_inv (?c\<lparr>bs_bplist := [7]\<rparr>)"
    using create_state_inv [OF rstp_inv_start, of 7 1 example_env 3] create_state_port(6) [OF v] n
    by (simp add: rstp_inv_def)
  then have "bs_bplist (bstp_create example_env 7 3 (rstp_start 1)) = [7]"
    using create_state_port(6) [OF v, of example_env 7 3] n
    by (simp add: bstp_create_unfold bstp_enable_def Let_def rstp_inv_reinit base_inv_pupd_same
        inv_fields_def)
  moreover have "rstp_inv (bstp_create example_env 7 3 (rstp_start 1))"
    by (simp add: rstp_inv_create rstp_inv_start n)
  ultimately show ?thesis
    using n by (simp add: example_run_def bstp_init_def rstp_inv_reinit rstp_inv_base)
qed

theorem rstp_blocked_ports_discard_witness:
  "\<exists>bs. run_events rstp_step example_run (rstp_start 1) = Some bs \<and> bs_bplist bs = [7]
     \<and> bp_state (bs_ports bs 7) \<in> {BSTP_IFSTATE_DISCARDING, BSTP_IFSTATE_LEARNING, BSTP_IFSTATE_FORWARDING}"
proof -
  obtain bs where "run_events rstp_step example_run (rstp_start 1) = Some bs" "bs_bplist bs = [7]"
    using example_run_total by blast
  with rstp_blocked_ports_discard [of example_run 1 bs 7] show ?thesis by auto
qed

theorem rstp_root_port_unique_witness:
  "\<exists>bs. run_events rstp_step example_run (rstp_start 1) = Some bs
     \<and> set_option (bs_root_port bs) = {i \<in> {7}. bp_role (bs_ports bs i) = BSTP_ROLE_ROOT}"
proof -
  obtain bs where "run_events rstp_step example_run (rstp_start 1) = Some bs" "bs_bplist bs = [7]"
    using example_run_total by blast
  with rstp_root_port_unique [of example_run 1 bs] show ?thesis by auto
qed

theorem rstp_txcount_bounded_witness:
  "\<exists>bs. run_events rstp_step example_run (rstp_start 1) = Some bs
     \<and> unat (bp_txcount (bs_ports bs 7)) \<le> unat (bs_txholdcount bs) + 1"
proof -
  obtain bs where "run_events rstp_step example_run (rstp_start 1) = Some bs" "bs_bplist bs = [7]"
    using example_run_total by blast
  with rstp_txcount_bounded [of example_run 1 bs 7] show ?thesis by auto
qed


section \<open>Link events\<close>

lemma assign_role_ifp [simp]: "bp_ifp (bs_ports (assign_role env rbp i bs) j) = bp_ifp (bs_ports bs j)"
  by (simp add: assign_role_def Let_def split: bstp_info.split)

lemma fold_assign_role_ifp [simp]:
  "bp_ifp (bs_ports (fold (assign_role env rbp) is bs) j) = bp_ifp (bs_ports bs j)"
  by (induction "is" arbitrary: bs) simp_all

lemma ifupdstatus_ifp [simp]:
  "bp_ifp (bs_ports (bstp_assign_roles env bs) j) = bp_ifp (bs_ports bs j)"
  "bp_ifp (bs_ports (bstp_disable_port env i bs) j) = bp_ifp (bs_ports bs j)"
  "bp_ifp (bs_ports (bstp_ifupdstatus env i bs) j) = bp_ifp (bs_ports bs j)"
proof -
  show r: "bp_ifp (bs_ports (bstp_assign_roles env bs) j) = bp_ifp (bs_ports bs j)" for bs
    by (rule assign_rolesE [of bs env]) (simp add: root_only_frame)
  show "bp_ifp (bs_ports (bstp_disable_port env i bs) j) = bp_ifp (bs_ports bs j)"
    "bp_ifp (bs_ports (bstp_ifupdstatus env i bs) j) = bp_ifp (bs_ports bs j)"
    by (simp_all add: bstp_disable_port_def bstp_ifupdstatus_def bstp_enable_port_def Let_def r)
qed

lemma fold_ifupdstatus_frame [simp]:
  "bs_bplist (fold (\<lambda>i bs. bstp_ifupdstatus env i (pupd i (\<lambda>p. p\<lparr>bp_port_id := make_port_id p\<rparr>) bs)) is bs)
     = bs_bplist bs"
  "bp_ifp (bs_ports (fold (\<lambda>i bs. bstp_ifupdstatus env i
      (pupd i (\<lambda>p. p\<lparr>bp_port_id := make_port_id p\<rparr>) bs)) is bs) j) = bp_ifp (bs_ports bs j)"
  by (induction "is" arbitrary: bs) simp_all

lemma reinit_frame [simp]:
  "bs_bplist (bstp_reinit env bs) = bs_bplist bs"
  "bp_ifp (bs_ports (bstp_reinit env bs) j) = bp_ifp (bs_ports bs j)"
  by (simp_all add: bstp_reinit_def Let_def)

lemma disable_frame:
  "bs_bplist (bstp_disable env i bs) = remove1 i (bs_bplist bs)"
  "bp_ifp (bs_ports (bstp_disable env i bs) j) = bp_ifp (bs_ports bs j)"
  by (simp_all add: bstp_disable_def Let_def) (simp_all add: bstp_disable_port_def)

lemma link_up_after_down:
  assumes "distinct (map (\<lambda>i. bp_ifp (bs_ports bs i)) (bs_bplist bs))"
    and "rstp_get_port_entry bs port = Some i"
  shows "rstp_get_port_entry (bstp_disable env i bs) port = None"
proof -
  have p: "i \<in> set (bs_bplist bs)" "bp_ifp (bs_ports bs i) = uint port"
    using assms(2) by (auto simp: rstp_get_port_entry_def find_Some_iff)
  have d: "distinct (bs_bplist bs)" using assms(1) by (simp add: distinct_map)
  have "bp_ifp (bs_ports bs j) \<noteq> uint port" if "j \<in> set (remove1 i (bs_bplist bs))" for j
    using that p d assms(1) by (auto simp: distinct_map inj_on_def)
  then show ?thesis by (auto simp: rstp_get_port_entry_def disable_frame find_None_iff)
qed



section \<open>Reception\<close>

lemma bstp_addr_cmp_refl [simp]: "bstp_addr_cmp xs xs = 0"
  by (induction xs) simp_all

text \<open>
  A BPDU from a designated port is never classified as repeated. A vector that compares as
  the same comes from the same bridge and port, and \<open>bstp_info_superior\<close> already accepts that as
  superior: the timer refresh that the source reserves for repeated information is unreachable
  and every hello runs the whole role selection again.
\<close>

theorem bstp_pdu_rcvtype_never_repeated: "bstp_pdu_rcvtype bp cu \<noteq> BSTP_PDU_REPEATED"
proof -
  have "bstp_info_superior pv cpv" if "bstp_info_cmp pv cpv = INFO_SAME" for pv cpv
    using that by (simp add: info_cmp_same pv_key_def bstp_info_superior_def bstp_same_bridgeid_def)
  then show ?thesis by (auto simp: bstp_pdu_rcvtype_def split: bstp_role.split)
qed

lemma update_roles_state:
  "bp_state (bs_ports (bstp_update_roles env i bs) i) = bp_state (bs_ports (update_role_switch i bs) i)"
  by (simp add: bstp_update_roles_def Let_def)

text \<open>
  The rapid transition: when a designated port on a point to point link receives an
  agreement from a root, alternate or backup port whose vector is not better than its own, it is
  forwarding when \<open>bstp_received_bpdu\<close> returns, without waiting for any timer, unless it is held
  back by a recent root or a dispute.
\<close>

theorem rstp_agreement_forwards:
  assumes "bp_infois (bs_ports bs i) = BSTP_INFO_MINE \<or> bp_infois (bs_ports bs i) = BSTP_INFO_RECEIVED"
    and "bp_role (bs_ports bs i) = BSTP_ROLE_DESIGNATED" and "bp_ptp_link (bs_ports bs i)"
    and "cu_role (bp_msg_cu (bs_ports bs i)) \<in> {BSTP_ROLE_ROOT, BSTP_ROLE_ALTERNATE, BSTP_ROLE_BACKUP}"
    and "cu_agree (bp_msg_cu (bs_ports bs i))"
    and "bstp_info_cmp (bp_port_pv (bs_ports bs i)) (cu_pv (bp_msg_cu (bs_ports bs i))) \<le> INFO_SAME"
    and "\<not> (bp_reroot (bs_ports bs i) \<and> tm_active (bp_recent_root_timer (bs_ports bs i)))"
    and "\<not> flag_on BSTP_PORT_DISPUTED (bp_flags (bs_ports bs i))"
  shows "bp_state (bs_ports (bstp_received_bpdu env i bs) i) = BSTP_IFSTATE_FORWARDING"
proof -
  let ?p = "note_tc ((bs_ports bs i)\<lparr>bp_agreed := True, bp_proposing := False\<rparr>)"
  let ?q = "designated_propose (designated_synced (designated_retired ?p))"
  have type: "bstp_pdu_rcvtype (bs_ports bs i) (bp_msg_cu (bs_ports bs i)) = BSTP_PDU_INFERIORALT"
    using assms(4,6) by (auto simp: bstp_pdu_rcvtype_def)
  have q: "bp_agreed ?q" "\<not> bp_sync ?q" "\<not> (bp_reroot ?q \<and> tm_active (bp_recent_root_timer ?q))"
    "\<not> flag_on BSTP_PORT_DISPUTED (bp_flags ?q)"
    using assms(7,8) by (auto simp: note_tc_def designated_retired_def designated_synced_def
        designated_propose_def bstp_timer_stop_def)
  then have "bp_state (designated_forward ?q) = BSTP_IFSTATE_FORWARDING"
    by (auto simp: designated_forward_def Let_def)
  moreover from q have "designated_discard (designated_forward ?q) = designated_forward ?q"
    by (auto simp: designated_discard_def designated_forward_def bstp_set_port_state_def Let_def)
  ultimately show ?thesis
    using assms(1,2,3,5) type
    by (auto simp: bstp_received_bpdu_def bstp_update_state_def update_roles_state Let_def
        update_role_switch_def note_tc_def)
qed

definition example_designated :: bstp_state where
  "example_designated = example_bridge\<lparr>bs_ports := (\<lambda>i. bstp_port_zero\<lparr>bp_infois := BSTP_INFO_MINE,
     bp_role := BSTP_ROLE_DESIGNATED, bp_state := BSTP_IFSTATE_DISCARDING, bp_ptp_link := True,
     bp_protover := BSTP_PROTO_RSTP,
     bp_msg_cu := (bp_msg_cu bstp_port_zero)\<lparr>cu_role := BSTP_ROLE_ROOT, cu_agree := True\<rparr>\<rparr>)\<rparr>"

theorem rstp_agreement_forwards_witness:
  "bp_state (bs_ports example_designated 1) = BSTP_IFSTATE_DISCARDING
   \<and> bp_state (bs_ports (bstp_received_bpdu example_env 1 example_designated) 1) = BSTP_IFSTATE_FORWARDING"
proof -
  have "bp_state (bs_ports (bstp_received_bpdu example_env 1 example_designated) 1) = BSTP_IFSTATE_FORWARDING"
    by (rule rstp_agreement_forwards)
      (simp_all add: example_designated_def bstp_port_zero_def bstp_info_cmp_def pri_vector_zero_def)
  then show ?thesis by (simp add: example_designated_def)
qed

end
