(* ===== verification/Rstp_Wire.thy ===== *)
theory Rstp_Wire
  imports Rstp_Props
begin

unbundle bit_operations_syntax

text \<open>
  The wire format of the rapid spanning tree: bridge identifiers, the flag byte, and the round
  trip of a BPDU between the sender's and the receiver's port; then the timers and port
  identifiers.
\<close>

section \<open>BPDUs on the wire\<close>

lemma bit_push_byte: "bit (push_bit k (ucast (a :: u8)) :: u64) n \<longleftrightarrow> k \<le> n \<and> n < 64 \<and> n < k + 8 \<and> bit a (n - k)"
  by (auto simp: bit_simps less_diff_conv2 dest: bit_imp_le_length)

lemma bit_push_pri: "bit (push_bit 48 (ucast (a :: u16)) :: u64) n \<longleftrightarrow> 48 \<le> n \<and> n < 64 \<and> bit a (n - 48)"
  by (auto simp: bit_simps)

lemma bit_low_byte: "bit (ucast (a :: u8) :: u64) n \<longleftrightarrow> n < 8 \<and> bit a n"
  by (auto simp: bit_simps dest: bit_imp_le_length)

lemma bit_drop: "bit (drop_bit k (w :: u64)) n \<longleftrightarrow> bit w (k + n)"
  by (simp add: bit_simps)

lemma bit_byte: "bit (ucast (w :: u64) :: u8) n \<longleftrightarrow> n < 8 \<and> bit w n"
  "bit (ucast (w :: u64) :: u16) n \<longleftrightarrow> n < 16 \<and> bit w n"
  by (auto simp: bit_simps)

lemmas bridge_id_bits = bit_or_iff bit_push_byte bit_push_pri bit_low_byte bit_drop bit_byte

lemma bridge_id_PV2ADDR: "bridge_id (ucast (drop_bit 48 w)) (PV2ADDR w) = w"
proof (rule bit_word_eqI)
  fix n assume "n < LENGTH(64)"
  then consider "n < 8" | "8 \<le> n" "n < 16" | "16 \<le> n" "n < 24" | "24 \<le> n" "n < 32"
    | "32 \<le> n" "n < 40" | "40 \<le> n" "n < 48" | "48 \<le> n" "n < 64" by force
  then show "bit (bridge_id (ucast (drop_bit 48 w)) (PV2ADDR w)) n = bit w n"
    by cases (simp_all add: PV2ADDR_def bridge_id_bits less_diff_conv2)
qed

lemma PV2ADDR_bridge_id: "PV2ADDR (bridge_id pri m) = m"
proof (cases m)
  case (MAC a0 a1 a2 a3 a4 a5)
  have "ucast (drop_bit 40 (bridge_id pri m)) = a0" "ucast (drop_bit 32 (bridge_id pri m)) = a1"
    "ucast (drop_bit 24 (bridge_id pri m)) = a2" "ucast (drop_bit 16 (bridge_id pri m)) = a3"
    "ucast (drop_bit 8 (bridge_id pri m)) = a4" "ucast (bridge_id pri m) = a5"
    by (rule bit_word_eqI, simp add: MAC bridge_id_bits del: drop_bit_or)+
  then show ?thesis by (simp add: PV2ADDR_def MAC)
qed
lemma bstp_addr_cmp_eq_0: "length xs = length ys \<Longrightarrow> bstp_addr_cmp xs ys = 0 \<longleftrightarrow> xs = ys"
  by (induction xs ys rule: list_induct2) (auto simp: Let_def word_uint_eq_iff)

lemma same_bridgeid_iff: "bstp_same_bridgeid a b \<longleftrightarrow> PV2ADDR a = PV2ADDR b"
  by (simp add: bstp_same_bridgeid_def bstp_addr_cmp_eq_0)

lemma pdu_flag_bit:
  "flag_on BSTP_PDU_F_TC w \<longleftrightarrow> bit w 0" "flag_on BSTP_PDU_F_P w \<longleftrightarrow> bit w 1"
  "flag_on BSTP_PDU_F_L w \<longleftrightarrow> bit w 4" "flag_on BSTP_PDU_F_F w \<longleftrightarrow> bit w 5"
  "flag_on BSTP_PDU_F_A w \<longleftrightarrow> bit w 6" "flag_on BSTP_PDU_F_TCA w \<longleftrightarrow> bit w 7"
proof -
  have "flag_on (push_bit k 1) w \<longleftrightarrow> bit w k" for k
    by (auto simp: flag_on_def bit_iff_and_push_bit_not_eq_0)
  from this [of 0] this [of 1] this [of 4] this [of 5] this [of 6] this [of 7]
  show "flag_on BSTP_PDU_F_TC w \<longleftrightarrow> bit w 0" "flag_on BSTP_PDU_F_P w \<longleftrightarrow> bit w 1"
  "flag_on BSTP_PDU_F_L w \<longleftrightarrow> bit w 4" "flag_on BSTP_PDU_F_F w \<longleftrightarrow> bit w 5"
  "flag_on BSTP_PDU_F_A w \<longleftrightarrow> bit w 6" "flag_on BSTP_PDU_F_TCA w \<longleftrightarrow> bit w 7"
    by simp_all
qed

lemma pdu_flags_bits:
  assumes "bp_protover p = BSTP_PROTO_RSTP"
  shows "bit (bstp_pdu_flags p) 0 \<longleftrightarrow> tm_active (bp_tc_timer p)"
    "bit (bstp_pdu_flags p) 1 \<longleftrightarrow> bp_proposing p \<and> bp_state p \<noteq> BSTP_IFSTATE_FORWARDING"
    "bit (bstp_pdu_flags p) 4 \<longleftrightarrow> bp_state p = BSTP_IFSTATE_LEARNING \<or> bp_state p = BSTP_IFSTATE_FORWARDING"
    "bit (bstp_pdu_flags p) 5 \<longleftrightarrow> bp_state p = BSTP_IFSTATE_FORWARDING"
    "bit (bstp_pdu_flags p) 6 \<longleftrightarrow> bp_agree p"
    "\<not> bit (bstp_pdu_flags p) 7"
    "bit (bstp_pdu_flags p) 2 \<longleftrightarrow> bp_role p \<noteq> BSTP_ROLE_DISABLED \<and> bp_role p \<noteq> BSTP_ROLE_ROOT"
    "bit (bstp_pdu_flags p) 3 \<longleftrightarrow> bp_role p = BSTP_ROLE_ROOT \<or> bp_role p = BSTP_ROLE_DESIGNATED"
  using assms unfolding bstp_pdu_flags_def Let_def
  by (cases "bp_state p"; cases "bp_role p"; simp add: bit_or_iff bit_and_iff)+

lemma pdu_role_bits:
  "drop_bit BSTP_PDU_PRSHIFT (w AND BSTP_PDU_PRMASK) =
     (if bit w 3 then if bit w 2 then 3 else 2 else if bit w 2 then 1 else 0)"
proof (rule bit_word_eqI)
  fix n assume "n < LENGTH(8)"
  then consider "n = 0" | "n = 1" | "2 \<le> n" "n < 8" by force
  then show "bit (drop_bit BSTP_PDU_PRSHIFT (w AND BSTP_PDU_PRMASK)) n =
      bit (if bit w 3 then if bit w 2 then 3 else 2 else if bit w 2 then 1 else 0 :: u8) n"
    by cases (auto simp: bit_simps numeral_2_eq_2 numeral_3_eq_3 bit_numeral_rec split: nat.split)
qed

text \<open>The role that a BPDU conveys; the code of a disabled port is the unknown role.\<close>

definition conveyed_role :: "bstp_role \<Rightarrow> bstp_role \<Rightarrow> bstp_role" where
  "conveyed_role old r = (case r of BSTP_ROLE_BACKUP \<Rightarrow> BSTP_ROLE_ALTERNATE
     | BSTP_ROLE_DISABLED \<Rightarrow> old | _ \<Rightarrow> r)"

definition role_of_bits :: "bstp_role \<Rightarrow> u8 \<Rightarrow> bstp_role" where
  "role_of_bits old w = (if bit w 3 then if bit w 2 then BSTP_ROLE_DESIGNATED else BSTP_ROLE_ROOT
     else if bit w 2 then BSTP_ROLE_ALTERNATE else old)"

lemma role_of_pdu_flags:
  "bp_protover p = BSTP_PROTO_RSTP \<Longrightarrow> role_of_bits old (bstp_pdu_flags p) = conveyed_role old (bp_role p)"
  by (cases "bp_role p") (simp_all add: role_of_bits_def conveyed_role_def pdu_flags_bits)

lemma decode_rstp:
  assumes "cbu_protover f = BSTP_PROTO_RSTP" "cbu_flags f AND BSTP_PDU_RSTPMASK = cbu_flags f"
  shows "bstp_decode_bpdu q f cu =
    \<lparr>cu_pv = \<lparr>pv_root_id = bridge_id (ntohs (cbu_rootpri f)) (cbu_rootaddr f),
       pv_dbridge_id = bridge_id (ntohs (cbu_bridgepri f)) (cbu_bridgeaddr f),
       pv_cost = ntohl (cbu_rootpathcost f), pv_dport_id = ntohs (cbu_portid f),
       pv_port_id = bp_port_id q\<rparr>,
     cu_message_age = ntohs (cbu_messageage f), cu_max_age = ntohs (cbu_maxage f),
     cu_forward_delay = ntohs (cbu_forwarddelay f), cu_hello_time = ntohs (cbu_hellotime f),
     cu_message_type = cbu_bpdutype f, cu_topology_change_ack = bit (cbu_flags f) 7,
     cu_topology_change = bit (cbu_flags f) 0, cu_proposal = bit (cbu_flags f) 1,
     cu_agree = bit (cbu_flags f) 6, cu_learning = bit (cbu_flags f) 4,
     cu_forwarding = bit (cbu_flags f) 5, cu_role = role_of_bits (cu_role cu) (cbu_flags f)\<rparr>"
  using assms unfolding bstp_decode_bpdu_def pdu_flag_bit pdu_role_bits
  by (cases "bit (cbu_flags f) 3"; cases "bit (cbu_flags f) 2"; simp add: role_of_bits_def)

text \<open>
  C15. Round trip of a rapid spanning tree BPDU: the frame that \<open>bstp_transmit_bpdu\<close> hands to the
  driver passes the checks of \<open>rstp_process_bpdu\<close>, and decoding it at a peer's port gives back the
  announced vector with the sender's port, the announced times, the flags and the role (a backup
  port is announced as an alternate one, a disabled port conveys no role).
\<close>

theorem rstp_bpdu_round_trip:
  fixes bs i
  defines "p \<equiv> bs_ports bs i"
  assumes "bp_protover p = BSTP_PROTO_RSTP"
  shows "\<exists>f. bs_sent (bstp_transmit_bpdu env i bs) = bs_sent bs @ [ConfigFrame (ifp_of p) f]
    \<and> cbu_dsap f = LLC_8021D_LSAP \<and> cbu_ssap f = LLC_8021D_LSAP \<and> cbu_ctl f = LLC_UI
    \<and> cbu_protoid f = 0 \<and> cbu_protover f = BSTP_PROTO_RSTP \<and> cbu_bpdutype f = BSTP_MSGTYPE_RSTP
    \<and> bstp_decode_bpdu q f cu =
       \<lparr>cu_pv = (bp_desg_pv p)\<lparr>pv_dport_id := bp_port_id p, pv_port_id := bp_port_id q\<rparr>,
        cu_message_age = bp_desg_msg_age p, cu_max_age = bp_desg_max_age p,
        cu_forward_delay = bp_desg_fdelay p, cu_hello_time = bp_desg_htime p,
        cu_message_type = BSTP_MSGTYPE_RSTP, cu_topology_change_ack = False,
        cu_topology_change = tm_active (bp_tc_timer p),
        cu_proposal = (bp_proposing p \<and> bp_state p \<noteq> BSTP_IFSTATE_FORWARDING),
        cu_agree = bp_agree p,
        cu_learning = (bp_state p = BSTP_IFSTATE_LEARNING \<or> bp_state p = BSTP_IFSTATE_FORWARDING),
        cu_forwarding = (bp_state p = BSTP_IFSTATE_FORWARDING),
        cu_role = conveyed_role (cu_role cu) (bp_role p)\<rparr>"
proof -
  let ?f = "(fill_bpdu p)\<lparr>cbu_ssap := LLC_8021D_LSAP, cbu_dsap := LLC_8021D_LSAP, cbu_ctl := LLC_UI,
    cbu_protoid := htons 0, ether_shost := env_port_mac env (ifp_of p), ether_dhost := bstp_etheraddr,
    cbu_protover := BSTP_PROTO_RSTP, cbu_versionlen := Some 0, ether_type := htons 39\<rparr>"
  have m: "cbu_flags ?f AND BSTP_PDU_RSTPMASK = cbu_flags ?f"
    using assms(2) by (simp add: bstp_pdu_flags_def fill_bpdu_def Let_def and.assoc)
  have s: "bs_sent (bstp_transmit_bpdu env i bs) = bs_sent bs @ [ConfigFrame (ifp_of p) ?f]"
    using assms(2) by (simp add: bstp_transmit_bpdu_def bstp_send_bpdu_def Let_def p_def fill_bpdu_def)
  have "cbu_protoid ?f = 0" by (simp add: bswap16_def byte_of_def le16_def)
  with s m assms(2) show ?thesis
    by (intro exI [of _ ?f]) (simp add: decode_rstp role_of_pdu_flags pdu_flags_bits fill_bpdu_def
        bridge_id_PV2ADDR del: One_nat_def)
qed

theorem rstp_bpdu_round_trip_witness:
  "\<exists>f. bs_sent (bstp_transmit_bpdu example_env 1 example_designated)
       = bs_sent example_designated @ [ConfigFrame 0 f]
    \<and> cu_role (bstp_decode_bpdu bstp_port_zero f (bp_msg_cu bstp_port_zero)) = BSTP_ROLE_DESIGNATED"
proof -
  have "bp_protover (bs_ports example_designated 1) = BSTP_PROTO_RSTP"
    by (simp add: example_designated_def)
  from rstp_bpdu_round_trip [OF this, of example_env bstp_port_zero "bp_msg_cu bstp_port_zero"]
  show ?thesis
    by (auto simp: example_designated_def ifp_of_def bstp_port_zero_def conveyed_role_def)
qed

section \<open>Timers\<close>

abbreviation tick_timer :: "bstp_timer \<Rightarrow> bstp_timer" where
  "tick_timer t \<equiv> snd (bstp_timer_expired t)"

lemma tick_timer_stop [simp]: "bstp_timer_expired bstp_timer_stop = (False, bstp_timer_stop)"
  by (simp add: bstp_timer_expired_def bstp_timer_stop_def)

lemma tick_timer_stop_iter [simp]: "(tick_timer ^^ k) bstp_timer_stop = bstp_timer_stop"
  by (induction k) simp_all

abbreviation running :: "int \<Rightarrow> bstp_timer" where
  "running v \<equiv> \<lparr>tm_active = True, tm_latched = False, tm_value = v\<rparr>"

lemma timer_start_running: "bstp_timer_start v = running (int (unat v))"
  by (simp add: bstp_timer_start_def)

lemma expired_running: "bstp_timer_expired (running v) =
    (if v \<le> 1 then (True, bstp_timer_stop) else (False, running (v - 1)))"
  by (simp add: bstp_timer_expired_def Let_def)

lemma timer_iter:
  fixes n :: nat
  shows "k < max 1 n \<Longrightarrow> (tick_timer ^^ k) (running (int n)) = running (int n - int k)"
  by (induction k) (auto simp: expired_running)

lemma timer_done:
  fixes n :: nat
  shows "(tick_timer ^^ max 1 n) (running (int n)) = bstp_timer_stop"
proof (cases n)
  case 0
  then show ?thesis by (simp add: expired_running)
next
  case (Suc m)
  with timer_iter [of m n] have "(tick_timer ^^ m) (running (int n)) = running 1" by simp
  moreover have "max 1 n = Suc m" using Suc by simp
  ultimately show ?thesis by (simp add: expired_running)
qed

lemma latched_iter: "(tick_timer ^^ k) (bstp_timer_latch t) = bstp_timer_latch t"
  by (induction k) (simp_all add: bstp_timer_expired_def bstp_timer_latch_def)

text \<open>
  A timer started with \<open>v\<close> expires exactly once, at tick \<open>max 1 v\<close>: counting ticks from zero, the
  call of \<open>bstp_timer_expired\<close> number \<open>k\<close> reports expiry if and only if \<open>k + 1 = max 1 v\<close>; a latched
  timer never expires.
\<close>

theorem bstp_timer_expires_once:
  "(fst (bstp_timer_expired ((tick_timer ^^ k) (bstp_timer_start v))) \<longleftrightarrow> k + 1 = max 1 (unat v))
   \<and> fst (bstp_timer_expired ((tick_timer ^^ k) (bstp_timer_latch t))) = False"
proof -
  define n where "n = unat v"
  have "fst (bstp_timer_expired ((tick_timer ^^ k) (running (int n)))) \<longleftrightarrow> k + 1 = max 1 n"
  proof (cases "k < max 1 n")
    case True
    from timer_iter [OF this] True show ?thesis by (auto simp: expired_running)
  next
    case False
    then obtain m where "k = m + max 1 n" by (metis add.commute le_Suc_ex not_less)
    then have "(tick_timer ^^ k) (running (int n)) = bstp_timer_stop"
      using timer_done [of n] by (simp add: funpow_add)
    with False show ?thesis by simp
  qed
  then show ?thesis
    unfolding timer_start_running n_def [symmetric] latched_iter
    by (simp add: bstp_timer_expired_def bstp_timer_latch_def)
qed

section \<open>Port identifiers\<close>

lemma make_port_id_low:
  assumes "bp_priority p AND 15 = 0"
  shows "make_port_id p AND 0xfff = word_of_int (bp_ifp p) AND 0xfff"
proof (rule bit_word_eqI)
  fix n assume "n < LENGTH(16)"
  have lo: "\<not> bit (bp_priority p) m" if "m < 4" for m
  proof -
    have "\<not> bit (bp_priority p AND 15) m" using assms by simp
    moreover have "bit (15 :: u8) m" using that by (auto simp: less_Suc_eq numeral_eq_Suc)
    ultimately show ?thesis by (simp add: bit_and_iff)
  qed
  have "bit (0xfff :: u16) n \<longleftrightarrow> n < 12"
    by (auto simp: bit_simps bit_numeral_rec split: nat.split)
  with lo show "bit (make_port_id p AND 0xfff) n = bit (word_of_int (bp_ifp p) AND 0xfff :: u16) n"
    by (auto simp: make_port_id_def bit_simps less_diff_conv2)
qed
lemma word_of_int_low:
  assumes "0 \<le> x" "x < 4096"
  shows "word_of_int x AND 0xfff = (word_of_int x :: u16)"
proof (rule bit_word_eqI)
  fix n assume "n < LENGTH(16)"
  have "take_bit 12 x = x" using assms by (simp add: take_bit_int_eq_self)
  then have "\<not> bit x n" if "12 \<le> n" using that by (metis bit_take_bit_iff not_less)
  moreover have "bit (0xfff :: u16) n \<longleftrightarrow> n < 12"
    by (auto simp: bit_simps bit_numeral_rec split: nat.split)
  ultimately show "bit (word_of_int x AND 0xfff :: u16) n = bit (word_of_int x :: u16) n"
    by (auto simp: bit_simps)
qed

text \<open>
  Ports get different port identifiers: with priorities in steps of sixteen, as
  \<open>bstp_set_port_priority\<close> keeps them, and interface numbers below 4096, equal identifiers mean
  the same interface, whatever the priorities are.
\<close>

theorem rstp_port_ids_distinct:
  assumes "bp_priority p AND 15 = 0" "bp_priority q AND 15 = 0"
    and "0 \<le> bp_ifp p" "bp_ifp p < 4096" "0 \<le> bp_ifp q" "bp_ifp q < 4096"
    and "make_port_id p = make_port_id q"
  shows "bp_ifp p = bp_ifp q"
proof -
  have "(word_of_int (bp_ifp p) :: u16) = word_of_int (bp_ifp q)"
    using make_port_id_low [OF assms(1)] make_port_id_low [OF assms(2)] assms(3-7)
    by (simp add: word_of_int_low)
  then have "uint (word_of_int (bp_ifp p) :: u16) = uint (word_of_int (bp_ifp q) :: u16)" by simp
  then show ?thesis using assms(3-6) by (simp add: uint_word_of_int)
qed

theorem rstp_port_ids_distinct_witness:
  "make_port_id (bstp_port_zero\<lparr>bp_ifp := 3, bp_priority := 0x80\<rparr>)
     \<noteq> make_port_id (bstp_port_zero\<lparr>bp_ifp := 4, bp_priority := 0x80\<rparr>)"
  using rstp_port_ids_distinct [of "bstp_port_zero\<lparr>bp_ifp := 3, bp_priority := 0x80\<rparr>"
      "bstp_port_zero\<lparr>bp_ifp := 4, bp_priority := 0x80\<rparr>"] by auto

end
