(* ===== verification/Rstp_Mgmt.thy ===== *)
theory Rstp_Mgmt
  imports Rstp_Wire
begin

text \<open>
  The instances of the rapid spanning tree and their management: the list \<open>bstp_list\<close> of instances,
  the lookups, creation of an instance, and the commands of \<open>rstp_cli.c\<close>. An instance is an
  address; address 0 is the static \<open>rstp_global_instance\<close>, which exists before it is attached and
  whose port list is then still a zeroed list head that no loop can walk: a loop over it faults.
\<close>

section \<open>Configured times survive the recomputation\<close>

lemma for_ports_times [simp]:
  "bs_bridge_max_age (for_ports f is bs) = bs_bridge_max_age bs"
  "bs_bridge_fdelay (for_ports f is bs) = bs_bridge_fdelay bs"
  "bs_bridge_htime (for_ports f is bs) = bs_bridge_htime bs"
  by (induction "is" arbitrary: bs) simp_all

lemma transmit_times [simp]:
  "bs_bridge_max_age (bstp_transmit env i bs) = bs_bridge_max_age bs"
  "bs_bridge_fdelay (bstp_transmit env i bs) = bs_bridge_fdelay bs"
  "bs_bridge_htime (bstp_transmit env i bs) = bs_bridge_htime bs"
  by (rule tx_change_proj [OF tx_change_transmit(1)]; simp add: tx_erase_def)+

lemma set_port_tc_times [simp]:
  "bs_bridge_max_age (bstp_set_port_tc env i st bs) = bs_bridge_max_age bs"
  "bs_bridge_fdelay (bstp_set_port_tc env i st bs) = bs_bridge_fdelay bs"
  "bs_bridge_htime (bstp_set_port_tc env i st bs) = bs_bridge_htime bs"
  by (cases st; simp add: bstp_set_port_tc_def bstp_set_timer_tc_def bstp_set_other_tcprop_def
      tc_received_def Let_def)+

lemma update_tc_times [simp]:
  "bs_bridge_max_age (bstp_update_tc env i bs) = bs_bridge_max_age bs"
  "bs_bridge_fdelay (bstp_update_tc env i bs) = bs_bridge_fdelay bs"
  "bs_bridge_htime (bstp_update_tc env i bs) = bs_bridge_htime bs"
  by (simp_all add: bstp_update_tc_def tc_when_def Let_def split: bstp_tcstate.split)

lemma set_port_role_times [simp]:
  "bs_bridge_max_age (bstp_set_port_role env i r bs) = bs_bridge_max_age bs"
  "bs_bridge_fdelay (bstp_set_port_role env i r bs) = bs_bridge_fdelay bs"
  "bs_bridge_htime (bstp_set_port_role env i r bs) = bs_bridge_htime bs"
  by (simp_all add: bstp_set_port_role_def Let_def)

lemma update_info_times [simp]:
  "bs_bridge_max_age (bstp_update_info i bs) = bs_bridge_max_age bs"
  "bs_bridge_fdelay (bstp_update_info i bs) = bs_bridge_fdelay bs"
  "bs_bridge_htime (bstp_update_info i bs) = bs_bridge_htime bs"
  by (simp_all add: bstp_update_info_def Let_def)

lemma assign_role_times [simp]:
  "bs_bridge_max_age (assign_role env rbp i bs) = bs_bridge_max_age bs"
  "bs_bridge_fdelay (assign_role env rbp i bs) = bs_bridge_fdelay bs"
  "bs_bridge_htime (assign_role env rbp i bs) = bs_bridge_htime bs"
  by (simp_all add: assign_role_def assign_desg_def Let_def split: bstp_info.split)

lemma fold_assign_role_times [simp]:
  "bs_bridge_max_age (fold (assign_role env rbp) is bs) = bs_bridge_max_age bs"
  "bs_bridge_fdelay (fold (assign_role env rbp) is bs) = bs_bridge_fdelay bs"
  "bs_bridge_htime (fold (assign_role env rbp) is bs) = bs_bridge_htime bs"
  by (induction "is" arbitrary: bs) simp_all

lemma assign_roles_times [simp]:
  "bs_bridge_max_age (bstp_assign_roles env bs) = bs_bridge_max_age bs"
  "bs_bridge_fdelay (bstp_assign_roles env bs) = bs_bridge_fdelay bs"
  "bs_bridge_htime (bstp_assign_roles env bs) = bs_bridge_htime bs"
proof -
  have r: "bs_bridge_max_age t = bs_bridge_max_age bs" "bs_bridge_fdelay t = bs_bridge_fdelay bs"
    "bs_bridge_htime t = bs_bridge_htime bs" if "root_only bs t" for t
    by (rule root_only_proj [OF that]; simp add: root_erase_def)+
  show "bs_bridge_max_age (bstp_assign_roles env bs) = bs_bridge_max_age bs"
    "bs_bridge_fdelay (bstp_assign_roles env bs) = bs_bridge_fdelay bs"
    "bs_bridge_htime (bstp_assign_roles env bs) = bs_bridge_htime bs"
    by (rule assign_rolesE [of bs env]; simp add: r)+
qed

lemma ifupdstatus_times [simp]:
  "bs_bridge_max_age (bstp_ifupdstatus env i bs) = bs_bridge_max_age bs"
  "bs_bridge_fdelay (bstp_ifupdstatus env i bs) = bs_bridge_fdelay bs"
  "bs_bridge_htime (bstp_ifupdstatus env i bs) = bs_bridge_htime bs"
  by (simp_all add: bstp_ifupdstatus_def bstp_enable_port_def bstp_disable_port_def Let_def)

lemma fold_ifupdstatus_times [simp]:
  "bs_bridge_max_age (fold (\<lambda>i bs. bstp_ifupdstatus env i
      (pupd i (\<lambda>p. p\<lparr>bp_port_id := make_port_id p\<rparr>) bs)) is bs) = bs_bridge_max_age bs"
  "bs_bridge_fdelay (fold (\<lambda>i bs. bstp_ifupdstatus env i
      (pupd i (\<lambda>p. p\<lparr>bp_port_id := make_port_id p\<rparr>) bs)) is bs) = bs_bridge_fdelay bs"
  "bs_bridge_htime (fold (\<lambda>i bs. bstp_ifupdstatus env i
      (pupd i (\<lambda>p. p\<lparr>bp_port_id := make_port_id p\<rparr>) bs)) is bs) = bs_bridge_htime bs"
  by (induction "is" arbitrary: bs) simp_all

lemma reinit_times [simp]:
  "bs_bridge_max_age (bstp_reinit env bs) = bs_bridge_max_age bs"
  "bs_bridge_fdelay (bstp_reinit env bs) = bs_bridge_fdelay bs"
  "bs_bridge_htime (bstp_reinit env bs) = bs_bridge_htime bs"
  by (simp_all add: bstp_reinit_def Let_def)

section \<open>Instances\<close>

record rstp_sys =
  rs_inst :: "nat \<Rightarrow> bstp_state"
  rs_list :: "nat list"

abbreviation (input) "VLAN_INVALID_ID \<equiv> 0x7FFF :: u16"

abbreviation (input) rstp_global_instance :: nat where
  "rstp_global_instance \<equiv> 0"

definition rstp_sys_init :: rstp_sys where
  "rstp_sys_init = \<lparr>rs_inst = (\<lambda>_. bstp_state_zero), rs_list = []\<rparr>"

definition find_inst :: "u16 \<Rightarrow> rstp_sys \<Rightarrow> nat option" where
  "find_inst vlan_id sys = find (\<lambda>a. bs_vlan_id (rs_inst sys a) = vlan_id) (rs_list sys)"

text \<open>The argument \<open>m\<close> is what \<open>tm_malloc\<close> returned, zeroed memory or a null pointer.\<close>

definition rstp_create_instance ::
    "u16 \<Rightarrow> nat option \<Rightarrow> rstp_sys \<Rightarrow> int \<times> nat option \<times> rstp_sys" where
  "rstp_create_instance vlan_id m sys =
    (case find_inst vlan_id sys of
       Some a \<Rightarrow> (0, Some a, sys)
     | None \<Rightarrow>
         (case (if vlan_id = VLAN_INVALID_ID then Some rstp_global_instance else m) of
            None \<Rightarrow> (-1, None, sys)
          | Some a \<Rightarrow>
              (0, Some a, sys\<lparr>rs_inst := (rs_inst sys)(a := bstp_attach vlan_id
                   (if vlan_id = VLAN_INVALID_ID then rs_inst sys a else bstp_state_zero)),
                 rs_list := rs_list sys @ [a]\<rparr>)))"

definition rstp_get_this_bridge_entry :: "u16 \<Rightarrow> rstp_sys \<Rightarrow> nat option" where
  "rstp_get_this_bridge_entry vlan_id sys =
    (if vlan_id = VLAN_INVALID_ID then Some rstp_global_instance else find_inst vlan_id sys)"

fun port_info :: "(nat \<Rightarrow> bstp_state) \<Rightarrow> u16 \<Rightarrow> nat list \<Rightarrow> (nat \<times> nat) option" where
  "port_info inst port [] = None"
| "port_info inst port (a # as) =
    (case rstp_get_port_entry (inst a) port of
       Some i \<Rightarrow> Some (a, i)
     | None \<Rightarrow> port_info inst port as)"

definition rstp_get_port_info :: "u16 \<Rightarrow> rstp_sys \<Rightarrow> (nat \<times> nat) option" where
  "rstp_get_port_info port sys = port_info (rs_inst sys) port (rs_list sys)"

definition rstp_process_bpdu :: "rstp_env \<Rightarrow> bstp_cbpdu \<Rightarrow> u16 \<Rightarrow> rstp_sys \<Rightarrow> int \<times> rstp_sys" where
  "rstp_process_bpdu env tpdu ifp sys =
    (case rstp_get_port_info ifp sys of
       None \<Rightarrow> (-1, sys)
     | Some (a, i) \<Rightarrow>
         (0, sys\<lparr>rs_inst := (rs_inst sys)(a := process_bpdu_port env i tpdu (rs_inst sys a))\<rparr>))"

definition bstp_linkstate :: "rstp_env \<Rightarrow> u16 \<Rightarrow> rstp_sys \<Rightarrow> rstp_sys" where
  "bstp_linkstate env ifp sys =
    (case rstp_get_port_info ifp sys of
       None \<Rightarrow> sys
     | Some (a, i) \<Rightarrow>
         sys\<lparr>rs_inst := (rs_inst sys)(a := bstp_update_state env i
               (bstp_ifupdstatus env i (rs_inst sys a)))\<rparr>)"

text \<open>\<open>rstp_create_port\<close>, with what \<open>malloc\<close> returned.\<close>

definition rstp_create_port :: "rstp_env \<Rightarrow> nat \<Rightarrow> u16 \<Rightarrow> nat option \<Rightarrow> rstp_sys \<Rightarrow> int \<times> rstp_sys" where
  "rstp_create_port env a port m sys =
    (case m of
       None \<Rightarrow> (-1, sys)
     | Some i \<Rightarrow> (0, sys\<lparr>rs_inst := (rs_inst sys)(a := bstp_create env i port (rs_inst sys a))\<rparr>))"

text \<open>The link event of the switch: the port is looked up over all the instances.\<close>

definition rstp_enable_or_disable_port :: "rstp_env \<Rightarrow> u16 \<Rightarrow> int \<Rightarrow> rstp_sys \<Rightarrow> rstp_sys option" where
  "rstp_enable_or_disable_port env port st sys =
    (if st \<noteq> IF_UP \<and> st \<noteq> IF_DOWN then Some sys
     else map_option (\<lambda>(a, i). sys\<lparr>rs_inst := (rs_inst sys)(a :=
              (if st = IF_UP then bstp_enable env i (rs_inst sys a)
               else bstp_disable env i (rs_inst sys a)))\<rparr>)
            (rstp_get_port_info port sys))"

lemma link_change_sys:
  assumes "rs_list sys = [a]"
  shows "rstp_enable_or_disable_port env port st sys =
    map_option (\<lambda>bs. sys\<lparr>rs_inst := (rs_inst sys)(a := bs)\<rparr>) (link_change env port st (rs_inst sys a))"
  by (auto simp: rstp_enable_or_disable_port_def link_change_def rstp_get_port_info_def assms
      split: option.split)

definition rstp_is_root_bridge :: "bstp_state \<Rightarrow> bool" where
  "rstp_is_root_bridge bs \<longleftrightarrow>
     bstp_same_bridgeid (pv_root_id (bs_root_pv bs)) (pv_root_id (bs_bridge_pv bs))"

section \<open>Management functions\<close>

text \<open>A setter of an instance: it may only run when the instance's port list can be walked.\<close>

definition on_inst :: "nat \<Rightarrow> (bstp_state \<Rightarrow> int \<times> bstp_state) \<Rightarrow> rstp_sys \<Rightarrow> (int \<times> rstp_sys) option" where
  "on_inst a f sys =
    (case f (rs_inst sys a) of (r, bs) \<Rightarrow>
       if r \<noteq> 0 then Some (r, sys)
       else if a \<notin> set (rs_list sys) then None
       else Some (0, sys\<lparr>rs_inst := (rs_inst sys)(a := bs)\<rparr>))"

definition rstp_set_bridge_priority ::
    "rstp_env \<Rightarrow> u16 \<Rightarrow> u16 \<Rightarrow> rstp_sys \<Rightarrow> (int \<times> rstp_sys) option" where
  "rstp_set_bridge_priority env newprio vlan_id sys =
    (case rstp_get_this_bridge_entry vlan_id sys of
       None \<Rightarrow> Some (-1, sys)
     | Some a \<Rightarrow> on_inst a (bstp_set_priority env (uint newprio)) sys)"

definition bridge_timer_relation :: "int \<Rightarrow> int \<Rightarrow> int \<Rightarrow> int" where
  "bridge_timer_relation fdelay max_age hello =
    (if c_int (2 * (fdelay - 1)) < max_age \<or> max_age < c_int (2 * (hello + 1)) then -1 else 0)"

definition rstp_set_bridge_hello_time ::
    "rstp_env \<Rightarrow> u32 \<Rightarrow> u16 \<Rightarrow> rstp_sys \<Rightarrow> (int \<times> rstp_sys) option" where
  "rstp_set_bridge_hello_time env hello vlan_id sys =
    (case rstp_get_this_bridge_entry vlan_id sys of
       None \<Rightarrow> Some (-1, sys)
     | Some a \<Rightarrow>
         if bridge_timer_relation (uint (bs_bridge_fdelay (rs_inst sys a)))
              (uint (bs_bridge_max_age (rs_inst sys a))) (sint hello) = 0
         then on_inst a (bstp_set_htime env (sint hello)) sys
         else Some (-1, sys))"

definition rstp_set_bridge_fdly ::
    "rstp_env \<Rightarrow> u32 \<Rightarrow> u16 \<Rightarrow> rstp_sys \<Rightarrow> (int \<times> rstp_sys) option" where
  "rstp_set_bridge_fdly env fdly vlan_id sys =
    (case rstp_get_this_bridge_entry vlan_id sys of
       None \<Rightarrow> Some (-1, sys)
     | Some a \<Rightarrow>
         if bridge_timer_relation (sint fdly) (uint (bs_bridge_max_age (rs_inst sys a)))
              (uint (bs_bridge_htime (rs_inst sys a))) = 0
         then on_inst a (bstp_set_fdelay env (sint fdly)) sys
         else Some (-1, sys))"

definition rstp_set_bridge_max_age ::
    "rstp_env \<Rightarrow> u32 \<Rightarrow> u16 \<Rightarrow> rstp_sys \<Rightarrow> (int \<times> rstp_sys) option" where
  "rstp_set_bridge_max_age env max_age vlan_id sys =
    (case rstp_get_this_bridge_entry vlan_id sys of
       None \<Rightarrow> Some (-1, sys)
     | Some a \<Rightarrow>
         if bridge_timer_relation (uint (bs_bridge_fdelay (rs_inst sys a))) (sint max_age)
              (uint (bs_bridge_htime (rs_inst sys a))) = 0
         then on_inst a (bstp_set_maxage env (sint max_age)) sys
         else Some (-1, sys))"

text \<open>\<open>rstp_set_bridge_times\<close> on one instance; negative arguments mean the current value.\<close>

definition set_times :: "rstp_env \<Rightarrow> int \<Rightarrow> int \<Rightarrow> int \<Rightarrow> bstp_state \<Rightarrow> int \<times> bstp_state" where
  "set_times env fdly maxage htime bs =
    (let htime = (if htime < 0 then uint (bs_bridge_htime bs) else htime);
         fdly = (if fdly < 0 then uint (bs_bridge_fdelay bs) else fdly);
         maxage = (if maxage < 0 then uint (bs_bridge_max_age bs) else maxage)
     in if bridge_timer_relation fdly maxage htime \<noteq> 0 then (-1, bs)
        else (0, bstp_reinit env (bs\<lparr>bs_bridge_max_age := word_of_int maxage,
               bs_bridge_fdelay := word_of_int fdly, bs_bridge_htime := word_of_int htime\<rparr>)))"

definition rstp_set_bridge_times ::
    "rstp_env \<Rightarrow> int \<Rightarrow> int \<Rightarrow> int \<Rightarrow> u16 \<Rightarrow> rstp_sys \<Rightarrow> (int \<times> rstp_sys) option" where
  "rstp_set_bridge_times env fdly maxage htime vlan_id sys =
    (case rstp_get_this_bridge_entry vlan_id sys of
       None \<Rightarrow> Some (-1, sys)
     | Some a \<Rightarrow> on_inst a (set_times env fdly maxage htime) sys)"

section \<open>Commands\<close>

datatype cparser_result = CPARSER_OK | CPARSER_NOT_OK

definition res_of :: "int \<Rightarrow> cparser_result" where
  "res_of r = (if r = 0 then CPARSER_OK else CPARSER_NOT_OK)"

definition out_of :: "int \<Rightarrow> int \<Rightarrow> int option \<Rightarrow> bool" where
  "out_of lo hi v = (case v of None \<Rightarrow> False | Some x \<Rightarrow> x < lo \<or> x > hi)"

definition or_minus1 :: "int option \<Rightarrow> int" where
  "or_minus1 v = (case v of None \<Rightarrow> -1 | Some x \<Rightarrow> x)"

definition cmd_priority :: "rstp_env \<Rightarrow> int \<Rightarrow> u16 \<Rightarrow> rstp_sys \<Rightarrow> (cparser_result \<times> rstp_sys) option" where
  "cmd_priority env pri vlan sys =
     map_option (\<lambda>(r, sys). (res_of r, sys)) (rstp_set_bridge_priority env (word_of_int pri) vlan sys)"

text \<open>
  The three commands that set the times, in the three orders of their arguments; the first
  argument is mandatory, a missing optional argument is \<open>None\<close>. The tail of all three answers
  \<open>CPARSER_NOT_OK\<close> whatever \<open>rstp_set_bridge_times\<close> returned.
\<close>

definition cmd_hello_time :: "rstp_env \<Rightarrow> int \<Rightarrow> int option \<Rightarrow> int option \<Rightarrow> u16 \<Rightarrow> rstp_sys
    \<Rightarrow> (cparser_result \<times> rstp_sys) option" where
  "cmd_hello_time env htime fdly maxage vlan sys =
    (if fdly = None \<and> maxage = None
     then map_option (\<lambda>(r, sys). (res_of r, sys))
            (rstp_set_bridge_hello_time env (word_of_int htime) vlan sys)
     else if htime < 1 \<or> htime > 10 then Some (CPARSER_NOT_OK, sys)
     else if out_of 4 30 fdly then Some (CPARSER_NOT_OK, sys)
     else if out_of 6 40 maxage then Some (CPARSER_NOT_OK, sys)
     else map_option (\<lambda>(r, sys). (CPARSER_NOT_OK, sys))
            (rstp_set_bridge_times env (or_minus1 fdly) (or_minus1 maxage) htime vlan sys))"

definition cmd_forward_delay :: "rstp_env \<Rightarrow> int \<Rightarrow> int option \<Rightarrow> int option \<Rightarrow> u16 \<Rightarrow> rstp_sys
    \<Rightarrow> (cparser_result \<times> rstp_sys) option" where
  "cmd_forward_delay env fdly maxage htime vlan sys =
    (if htime = None \<and> maxage = None
     then map_option (\<lambda>(r, sys). (res_of r, sys))
            (rstp_set_bridge_fdly env (word_of_int fdly) vlan sys)
     else if fdly < 4 \<or> fdly > 30 then Some (CPARSER_NOT_OK, sys)
     else if out_of 1 10 htime then Some (CPARSER_NOT_OK, sys)
     else if out_of 6 40 maxage then Some (CPARSER_NOT_OK, sys)
     else map_option (\<lambda>(r, sys). (CPARSER_NOT_OK, sys))
            (rstp_set_bridge_times env fdly (or_minus1 maxage) (or_minus1 htime) vlan sys))"

definition cmd_max_age :: "rstp_env \<Rightarrow> int \<Rightarrow> int option \<Rightarrow> int option \<Rightarrow> u16 \<Rightarrow> rstp_sys
    \<Rightarrow> (cparser_result \<times> rstp_sys) option" where
  "cmd_max_age env maxage fdly htime vlan sys =
    (if fdly = None \<and> htime = None
     then map_option (\<lambda>(r, sys). (res_of r, sys))
            (rstp_set_bridge_max_age env (word_of_int maxage) vlan sys)
     else if maxage < 6 \<or> maxage > 40 then Some (CPARSER_NOT_OK, sys)
     else if out_of 4 30 fdly then Some (CPARSER_NOT_OK, sys)
     else if out_of 1 10 htime then Some (CPARSER_NOT_OK, sys)
     else map_option (\<lambda>(r, sys). (CPARSER_NOT_OK, sys))
            (rstp_set_bridge_times env (or_minus1 fdly) maxage (or_minus1 htime) vlan sys))"

text \<open>A command on a port: the instance and the port must exist.\<close>

definition cmd_port :: "u16 \<Rightarrow> (nat \<Rightarrow> bstp_state \<Rightarrow> int \<times> bstp_state) \<Rightarrow> u16 \<Rightarrow> rstp_sys
    \<Rightarrow> (cparser_result \<times> rstp_sys) option" where
  "cmd_port port f vlan sys =
    (case rstp_get_this_bridge_entry vlan sys of
       None \<Rightarrow> Some (CPARSER_NOT_OK, sys)
     | Some a \<Rightarrow>
         if a \<notin> set (rs_list sys) then None
         else (case rstp_get_port_entry (rs_inst sys a) port of
             None \<Rightarrow> Some (CPARSER_NOT_OK, sys)
           | Some i \<Rightarrow> map_option (\<lambda>(r, sys). (res_of r, sys)) (on_inst a (f i) sys)))"

definition set_spanning_8021w_port_path_cost :: "rstp_env \<Rightarrow> u32 \<Rightarrow> u16 \<Rightarrow> u16 \<Rightarrow> rstp_sys
    \<Rightarrow> (cparser_result \<times> rstp_sys) option" where
  "set_spanning_8021w_port_path_cost env path_cost port = cmd_port port
     (\<lambda>i bs. if path_cost > BSTP_MAX_PATH_COST then (-1, bs) else bstp_set_path_cost env i path_cost bs)"

definition set_spanning_8021w_port_prio :: "rstp_env \<Rightarrow> u32 \<Rightarrow> u16 \<Rightarrow> u16 \<Rightarrow> rstp_sys
    \<Rightarrow> (cparser_result \<times> rstp_sys) option" where
  "set_spanning_8021w_port_prio env prio port = cmd_port port
     (\<lambda>i bs. if prio > 240 then (-1, bs) else bstp_set_port_priority env i (uint prio) bs)"

definition cmd_admin_edge_port :: "u16 \<Rightarrow> u16 \<Rightarrow> rstp_sys \<Rightarrow> (cparser_result \<times> rstp_sys) option" where
  "cmd_admin_edge_port port = cmd_port port (\<lambda>i. bstp_set_edge i 1)"

definition cmd_admin_pt2pt :: "u16 \<Rightarrow> u16 \<Rightarrow> rstp_sys \<Rightarrow> (cparser_result \<times> rstp_sys) option" where
  "cmd_admin_pt2pt port = cmd_port port (\<lambda>i. bstp_set_ptp i 1)"

section \<open>The relation of the times\<close>

definition times_ok :: "bstp_state \<Rightarrow> bool" where
  "times_ok bs \<longleftrightarrow> uint (bs_bridge_max_age bs) \<le> 2 * (uint (bs_bridge_fdelay bs) - 1)
     \<and> 2 * (uint (bs_bridge_htime bs) + 1) \<le> uint (bs_bridge_max_age bs)"

definition sys_times_ok :: "rstp_sys \<Rightarrow> bool" where
  "sys_times_ok sys \<longleftrightarrow> (\<forall>a \<in> set (rs_list sys). times_ok (rs_inst sys a))"

datatype rstp_cmd = McCreate u16 "nat option" | McPriority int | McHello int "int option" "int option"
  | McFdelay int "int option" "int option" | McMaxage int "int option" "int option"
  | McPathCost u32 u16 | McPortPrio u32 u16 | McEdge u16 | McPtp u16

text \<open>A command given while the command line is at VLAN \<open>vlan\<close>; a reused block is no step.\<close>

fun rstp_cmd_step :: "rstp_env \<times> u16 \<times> rstp_cmd \<Rightarrow> rstp_sys \<Rightarrow> rstp_sys option" where
  "rstp_cmd_step (env, vlan, McCreate v m) sys =
     Some (if \<exists>a \<in> set (rs_list sys). m = Some a then sys else snd (snd (rstp_create_instance v m sys)))"
| "rstp_cmd_step (env, vlan, McPriority p) sys = map_option snd (cmd_priority env p vlan sys)"
| "rstp_cmd_step (env, vlan, McHello h f m) sys = map_option snd (cmd_hello_time env h f m vlan sys)"
| "rstp_cmd_step (env, vlan, McFdelay f m h) sys = map_option snd (cmd_forward_delay env f m h vlan sys)"
| "rstp_cmd_step (env, vlan, McMaxage m f h) sys = map_option snd (cmd_max_age env m f h vlan sys)"
| "rstp_cmd_step (env, vlan, McPathCost c p) sys =
     map_option snd (set_spanning_8021w_port_path_cost env c p vlan sys)"
| "rstp_cmd_step (env, vlan, McPortPrio c p) sys =
     map_option snd (set_spanning_8021w_port_prio env c p vlan sys)"
| "rstp_cmd_step (env, vlan, McEdge p) sys = map_option snd (cmd_admin_edge_port p vlan sys)"
| "rstp_cmd_step (env, vlan, McPtp p) sys = map_option snd (cmd_admin_pt2pt p vlan sys)"

lemma relation_ok:
  assumes "bridge_timer_relation f m h = 0" "f < 2 ^ 16" "0 \<le> f" "h < 2 ^ 16" "0 \<le> h"
  shows "m \<le> 2 * (f - 1) \<and> 2 * (h + 1) \<le> m"
  using assms by (auto simp: bridge_timer_relation_def c_int_id split: if_splits)

lemma on_inst_times:
  assumes "sys_times_ok sys" "on_inst a f sys = Some (r, t)"
    and "\<And>u. times_ok (rs_inst sys a) \<Longrightarrow> f (rs_inst sys a) = (0, u) \<Longrightarrow> times_ok u"
  shows "sys_times_ok t"
  using assms by (auto simp: on_inst_def sys_times_ok_def split: prod.splits if_splits)

lemma uint_u16: "0 \<le> v \<Longrightarrow> v < 2 ^ 16 \<Longrightarrow> uint (word_of_int v :: u16) = v"
  by (simp add: uint_word_of_int)

lemma uint_u16_bound: "0 \<le> uint (w :: u16)" "uint (w :: u16) < 2 ^ 16"
  using uint_lt2p [of w] by simp_all

lemma times_ok_setter:
  "bstp_set_htime env v bs = (0, u) \<Longrightarrow>
     bridge_timer_relation (uint (bs_bridge_fdelay bs)) (uint (bs_bridge_max_age bs)) v = 0 \<Longrightarrow> times_ok u"
  "bstp_set_fdelay env v bs = (0, u) \<Longrightarrow>
     bridge_timer_relation v (uint (bs_bridge_max_age bs)) (uint (bs_bridge_htime bs)) = 0 \<Longrightarrow> times_ok u"
  "bstp_set_maxage env v bs = (0, u) \<Longrightarrow>
     bridge_timer_relation (uint (bs_bridge_fdelay bs)) v (uint (bs_bridge_htime bs)) = 0 \<Longrightarrow> times_ok u"
  using uint_u16_bound [of "bs_bridge_htime bs"] uint_u16_bound [of "bs_bridge_fdelay bs"]
    uint_u16_bound [of "bs_bridge_max_age bs"]
  by (auto simp: bstp_set_htime_def bstp_set_fdelay_def bstp_set_maxage_def times_ok_def uint_u16
      split: if_splits dest!: relation_ok)

lemma times_ok_set_times:
  assumes "set_times env f m h bs = (0, u)" "f < 2 ^ 16" "m < 2 ^ 16" "h < 2 ^ 16"
  shows "times_ok u"
  using assms uint_u16_bound [of "bs_bridge_htime bs"] uint_u16_bound [of "bs_bridge_fdelay bs"]
    uint_u16_bound [of "bs_bridge_max_age bs"]
  by (auto simp: set_times_def Let_def times_ok_def uint_u16 split: if_splits dest!: relation_ok)

lemma times_ok_other:
  "bstp_set_priority env v bs = (0, u) \<Longrightarrow> times_ok bs \<Longrightarrow> times_ok u"
  "bstp_set_port_priority env i v bs = (0, u) \<Longrightarrow> times_ok bs \<Longrightarrow> times_ok u"
  "bstp_set_path_cost env i c bs = (0, u) \<Longrightarrow> times_ok bs \<Longrightarrow> times_ok u"
  "bstp_set_edge i v bs = (0, u) \<Longrightarrow> times_ok bs \<Longrightarrow> times_ok u"
  "bstp_set_ptp i v bs = (0, u) \<Longrightarrow> times_ok bs \<Longrightarrow> times_ok u"
  by (auto simp: bstp_set_priority_def bstp_set_port_priority_def bstp_set_path_cost_def bstp_set_edge_def
      bstp_set_ptp_def times_ok_def Let_def split: if_splits)

lemma set_bridge_times_ok:
  assumes "sys_times_ok sys"
  shows "rstp_set_bridge_priority env p vlan sys = Some (r, t) \<Longrightarrow> sys_times_ok t"
    "rstp_set_bridge_hello_time env v vlan sys = Some (r, t) \<Longrightarrow> sys_times_ok t"
    "rstp_set_bridge_fdly env v vlan sys = Some (r, t) \<Longrightarrow> sys_times_ok t"
    "rstp_set_bridge_max_age env v vlan sys = Some (r, t) \<Longrightarrow> sys_times_ok t"
    "rstp_set_bridge_times env f m h vlan sys = Some (r, t) \<Longrightarrow> f < 2 ^ 16 \<Longrightarrow> m < 2 ^ 16 \<Longrightarrow> h < 2 ^ 16
       \<Longrightarrow> sys_times_ok t"
  using assms
  by (auto simp: rstp_set_bridge_priority_def rstp_set_bridge_hello_time_def rstp_set_bridge_fdly_def
      rstp_set_bridge_max_age_def rstp_set_bridge_times_def split: option.splits if_splits
      elim!: on_inst_times intro: times_ok_setter times_ok_set_times times_ok_other)

lemma cmd_port_times:
  assumes "sys_times_ok sys" "cmd_port port f vlan sys = Some (r, t)"
    and "\<And>i bs u. times_ok bs \<Longrightarrow> f i bs = (0, u) \<Longrightarrow> times_ok u"
  shows "sys_times_ok t"
  using assms by (auto simp: cmd_port_def split: option.splits if_splits elim!: on_inst_times)

lemma create_instance_times:
  assumes "sys_times_ok sys" "\<And>a. m = Some a \<Longrightarrow> a \<notin> set (rs_list sys)"
  shows "sys_times_ok (snd (snd (rstp_create_instance v m sys)))"
  using assms by (auto simp: rstp_create_instance_def sys_times_ok_def times_ok_def bstp_attach_def
      split: option.splits)

lemma time_commands_times:
  assumes "sys_times_ok sys"
  shows "cmd_hello_time env v x y vlan sys = Some (r, t) \<Longrightarrow> sys_times_ok t"
    "cmd_forward_delay env v x y vlan sys = Some (r, t) \<Longrightarrow> sys_times_ok t"
    "cmd_max_age env v x y vlan sys = Some (r, t) \<Longrightarrow> sys_times_ok t"
  using assms
  by (auto simp: cmd_hello_time_def cmd_forward_delay_def cmd_max_age_def out_of_def or_minus1_def
      split: if_splits option.splits dest: set_bridge_times_ok)

lemma port_commands_times:
  assumes "sys_times_ok sys"
  shows "set_spanning_8021w_port_path_cost env c port vlan sys = Some (r, t) \<Longrightarrow> sys_times_ok t"
    "set_spanning_8021w_port_prio env c port vlan sys = Some (r, t) \<Longrightarrow> sys_times_ok t"
    "cmd_admin_edge_port port vlan sys = Some (r, t) \<Longrightarrow> sys_times_ok t"
    "cmd_admin_pt2pt port vlan sys = Some (r, t) \<Longrightarrow> sys_times_ok t"
  unfolding set_spanning_8021w_port_path_cost_def set_spanning_8021w_port_prio_def
    cmd_admin_edge_port_def cmd_admin_pt2pt_def
  by (erule cmd_port_times [OF assms], auto split: if_splits dest: times_ok_other)+

interpretation rstp_cmds: event_machine rstp_cmd_step sys_times_ok
proof
  fix s t and e :: "rstp_env \<times> u16 \<times> rstp_cmd" assume "sys_times_ok s" "rstp_cmd_step e s = Some t"
  then show "sys_times_ok t"
    by (cases "(e, s)" rule: rstp_cmd_step.cases)
      (auto simp: cmd_priority_def intro!: create_instance_times split: if_splits
        dest: time_commands_times port_commands_times set_bridge_times_ok)
qed

text \<open>
  C19. The standard's relation of the times holds in every configuration that commands can reach:
  for every instance twice the forward delay minus one second is at least the maximum age, which is
  at least twice the hello time plus one second.
\<close>

theorem rstp_times_relation:
  assumes "run_events rstp_cmd_step cs rstp_sys_init = Some sys" and "a \<in> set (rs_list sys)"
  shows "uint (bs_bridge_max_age (rs_inst sys a)) \<le> 2 * (uint (bs_bridge_fdelay (rs_inst sys a)) - 1)
    \<and> 2 * (uint (bs_bridge_htime (rs_inst sys a)) + 1) \<le> uint (bs_bridge_max_age (rs_inst sys a))"
proof -
  have "sys_times_ok rstp_sys_init" by (simp add: sys_times_ok_def rstp_sys_init_def)
  from rstp_cmds.run_inv [OF this assms(1)] assms(2) show ?thesis
    by (simp add: sys_times_ok_def times_ok_def)
qed

text \<open>A switch whose only instance is the global one.\<close>

definition example_sys :: rstp_sys where
  "example_sys = snd (snd (rstp_create_instance VLAN_INVALID_ID None rstp_sys_init))"

lemma example_sys_simps:
  "rs_list example_sys = [0]" "rs_inst example_sys 0 = bstp_attach VLAN_INVALID_ID bstp_state_zero"
  by (simp_all add: example_sys_def rstp_create_instance_def find_inst_def rstp_sys_init_def)

lemma relation_default: "bridge_timer_relation 20 20 2 = 0" "bridge_timer_relation 15 20 3 = 0"
  by (simp_all add: bridge_timer_relation_def c_int_id)

theorem rstp_times_relation_witness:
  "\<exists>sys. run_events rstp_cmd_step [(example_env, VLAN_INVALID_ID, McCreate VLAN_INVALID_ID None),
      (example_env, VLAN_INVALID_ID, McHello 3 None None)] rstp_sys_init = Some sys
    \<and> bs_bridge_htime (rs_inst sys 0) = 3
    \<and> 2 * (uint (bs_bridge_htime (rs_inst sys 0)) + 1) \<le> uint (bs_bridge_max_age (rs_inst sys 0))"
proof -
  let ?cs = "[(example_env, VLAN_INVALID_ID, McCreate VLAN_INVALID_ID None),
      (example_env, VLAN_INVALID_ID, McHello 3 None None)]"
  have "run_events rstp_cmd_step ?cs rstp_sys_init =
      map_option snd (cmd_hello_time example_env 3 None None VLAN_INVALID_ID example_sys)"
    by (simp add: example_sys_def rstp_sys_init_def run_events_single)
  moreover have "\<exists>sys. map_option snd (cmd_hello_time example_env 3 None None VLAN_INVALID_ID example_sys)
      = Some sys \<and> rs_list sys = [0] \<and> bs_bridge_htime (rs_inst sys 0) = 3"
    by (simp add: cmd_hello_time_def rstp_set_bridge_hello_time_def rstp_get_this_bridge_entry_def
        on_inst_def bstp_set_htime_def example_sys_simps bstp_attach_def relation_default)
  ultimately have "\<exists>sys. run_events rstp_cmd_step ?cs rstp_sys_init = Some sys \<and> rs_list sys = [0]
      \<and> bs_bridge_htime (rs_inst sys 0) = 3"
    by simp
  then obtain sys where s: "run_events rstp_cmd_step ?cs rstp_sys_init = Some sys" "rs_list sys = [0]"
    "bs_bridge_htime (rs_inst sys 0) = 3" by blast
  with rstp_times_relation [OF s(1), of 0] show ?thesis by auto
qed

text \<open>
  The commands with more than one time answer that they failed even when they succeed: with an
  optional argument the answer is always \<open>CPARSER_NOT_OK\<close>.
\<close>

theorem rstp_time_commands_never_ok:
  assumes "x \<noteq> None \<or> y \<noteq> None"
    and "cmd_hello_time env v x y vlan sys = Some (r, t) \<or> cmd_forward_delay env v x y vlan sys = Some (r, t)
      \<or> cmd_max_age env v x y vlan sys = Some (r, t)"
  shows "r = CPARSER_NOT_OK"
  using assms by (auto simp: cmd_hello_time_def cmd_forward_delay_def cmd_max_age_def split: if_splits)

theorem rstp_time_commands_never_ok_witness:
  "\<exists>r t. cmd_hello_time example_env 2 (Some 20) None VLAN_INVALID_ID example_sys = Some (r, t)
    \<and> bs_bridge_fdelay (rs_inst t 0) = 20 \<and> r = CPARSER_NOT_OK"
proof -
  have "\<exists>r t. cmd_hello_time example_env 2 (Some 20) None VLAN_INVALID_ID example_sys = Some (r, t)
    \<and> bs_bridge_fdelay (rs_inst t 0) = 20"
    by (simp add: cmd_hello_time_def rstp_set_bridge_times_def rstp_get_this_bridge_entry_def out_of_def
        or_minus1_def on_inst_def set_times_def example_sys_simps bstp_attach_def relation_default Let_def)
  then obtain r t where rt: "cmd_hello_time example_env 2 (Some 20) None VLAN_INVALID_ID example_sys = Some (r, t)"
    "bs_bridge_fdelay (rs_inst t 0) = 20" by blast
  with rstp_time_commands_never_ok [of "Some 20" None example_env 2 VLAN_INVALID_ID example_sys r t]
  show ?thesis by auto
qed

text \<open>The first instance of the list that has the port answers the lookup.\<close>

lemma port_info_None: "port_info inst port as = None \<longleftrightarrow> (\<forall>a \<in> set as. rstp_get_port_entry (inst a) port = None)"
  by (induction as) (auto split: option.split)

lemma port_info_Some: "port_info inst port as = Some (a, i) \<Longrightarrow>
    a \<in> set as \<and> rstp_get_port_entry (inst a) port = Some i"
  by (induction as) (auto split: option.splits)

text \<open>
  C17. Going down and up again breaks a port: \<open>bstp_disable\<close> takes the port off the list of the
  instance, nothing puts it back, and the link event that reports the port up then dereferences
  the null pointer that the lookup returns, when the port belongs to one instance.
\<close>

theorem rstp_link_up_after_down_faults:
  assumes "distinct (map (\<lambda>i. bp_ifp (bs_ports (rs_inst sys a) i)) (bs_bplist (rs_inst sys a)))"
    and "\<forall>b \<in> set (rs_list sys). b \<noteq> a \<longrightarrow> rstp_get_port_entry (rs_inst sys b) port = None"
    and "rstp_enable_or_disable_port env port IF_DOWN sys = Some t"
  shows "rstp_enable_or_disable_port env' port IF_UP t = None"
proof -
  from assms(3) obtain b i where b: "rstp_get_port_info port sys = Some (b, i)"
    and t: "t = sys\<lparr>rs_inst := (rs_inst sys)(b := bstp_disable env i (rs_inst sys b))\<rparr>"
    by (auto simp: rstp_enable_or_disable_port_def)
  then have "b \<in> set (rs_list sys)" and e: "rstp_get_port_entry (rs_inst sys b) port = Some i"
    by (auto simp: rstp_get_port_info_def dest: port_info_Some)
  with assms(2) have [simp]: "b = a" by force
  have "rstp_get_port_entry (bstp_disable env i (rs_inst sys a)) port = None"
    using link_up_after_down assms(1) e by simp
  then have "rstp_get_port_info port t = None"
    using assms(2) by (auto simp: rstp_get_port_info_def port_info_None t)
  then show ?thesis by (simp add: rstp_enable_or_disable_port_def)
qed

theorem rstp_link_up_after_down_faults_witness:
  "\<exists>t. rstp_enable_or_disable_port example_env 0 IF_DOWN
      (example_sys\<lparr>rs_inst := (\<lambda>_. example_bridge\<lparr>bs_bplist := [1]\<rparr>)\<rparr>) = Some t
     \<and> rstp_enable_or_disable_port example_env 0 IF_UP t = None"
proof -
  let ?sys = "example_sys\<lparr>rs_inst := (\<lambda>_. example_bridge\<lparr>bs_bplist := [1]\<rparr>)\<rparr>"
  have "rstp_get_port_info 0 ?sys = Some (0, 1)"
    by (simp add: rstp_get_port_info_def rstp_get_port_entry_def example_sys_simps example_rcvd_def
        bstp_port_zero_def)
  then obtain t where t: "rstp_enable_or_disable_port example_env 0 IF_DOWN ?sys = Some t"
    by (simp add: rstp_enable_or_disable_port_def)
  moreover have "rs_list ?sys = [0]" by (simp add: example_sys_simps)
  ultimately show ?thesis
    using rstp_link_up_after_down_faults [of ?sys 0 0 example_env t example_env] by auto
qed

end
