(* ===== verification/Timers.thy ===== *)
theory Timers
  imports Switch_Prelude
begin

unbundle bit_operations_syntax

text \<open>
  The timer service of \<open>src/src/lib\<close>: \<open>tmr_init.c\<close> (creation, arming, cancelling, the clock),
  \<open>update.c\<close> (the wheels) and \<open>btm_hlf.c\<close> (running the handlers of expired timers). A timer
  (\<open>TIMER_T\<close>) and an armed entry (\<open>APP_TIMER_T\<close>) are objects in two stores; each wheel is the list
  of the addresses of its entries, which the code keeps in a red-black tree ordered by \<open>rt\<close>: the
  order among entries with the same \<open>rt\<close> is the order of the list here. The number of ticks per
  second comes from the platform and is the parameter \<open>tps\<close>; what \<open>tm_calloc\<close> returns is the
  parameter \<open>m\<close>. Erasing an entry from a tree that does not hold it is a fault.
\<close>

section \<open>State\<close>

datatype wheel = TICK_W | SEC_W | MIN_W | HRS_W | WAIT_TIMERS

record tm_timer =
  rmt :: u32
  exp_at :: u32
  wheel_of :: wheel
  tm_flags :: u32
  is_running :: bool
  apptimer :: "nat option"

record app_timer =
  at_timer :: "nat option"
  ctime :: u32
  rt :: u32

record tmr_state =
  clk :: "wheel \<Rightarrow> u32"
  root :: "wheel \<Rightarrow> nat list"
  tmr_count :: u32
  timers :: "nat \<Rightarrow> tm_timer option"
  apps :: "nat \<Rightarrow> app_timer option"
  expd_tmrs :: "nat list"

abbreviation (input) "TIMER_ONCE \<equiv> 1 :: u32"
abbreviation (input) "TIMER_REPEAT \<equiv> 2 :: u32"
abbreviation (input) "TIMER_FOREVER \<equiv> 4 :: u32"

abbreviation (input) "MAX_TIMERS \<equiv> 2000 :: u32"

section \<open>The packed time\<close>

definition GET_TICK :: "u32 \<Rightarrow> u32" where "GET_TICK ct = ct AND 0x3ff"
definition GET_SECS :: "u32 \<Rightarrow> u32" where "GET_SECS ct = drop_bit 10 ct AND 0x3f"
definition GET_MINS :: "u32 \<Rightarrow> u32" where "GET_MINS ct = drop_bit 16 ct AND 0x3f"
definition GET_HRS :: "u32 \<Rightarrow> u32" where "GET_HRS ct = drop_bit 22 ct AND 0x3ff"

definition pack_time :: "u32 \<Rightarrow> u32 \<Rightarrow> u32 \<Rightarrow> u32" where
  "pack_time tps ct tick =
    (let secs = tick div tps; mins = secs div 60; hrs = mins div 60 in
     ct OR tick mod tps OR push_bit 10 (secs mod 60) OR push_bit 16 (mins mod 60) OR push_bit 22 hrs)"

definition slot_of :: "u32 \<Rightarrow> (wheel \<times> u32) option" where
  "slot_of ct = (if GET_HRS ct \<noteq> 0 then Some (HRS_W, GET_HRS ct)
     else if GET_MINS ct \<noteq> 0 then Some (MIN_W, GET_MINS ct)
     else if GET_SECS ct \<noteq> 0 then Some (SEC_W, GET_SECS ct)
     else if GET_TICK ct \<noteq> 0 then Some (TICK_W, GET_TICK ct) else None)"

section \<open>Arming and cancelling\<close>

text \<open>Writing a field of the timer object at \<open>t\<close>, a fault when it has been released.\<close>

definition tm_upd :: "nat \<Rightarrow> (tm_timer \<Rightarrow> tm_timer) \<Rightarrow> tmr_state \<Rightarrow> tmr_state option" where
  "tm_upd t f s = map_option (\<lambda>x. s\<lparr>timers := (timers s)(t \<mapsto> f x)\<rparr>) (timers s t)"

definition app_upd :: "nat \<Rightarrow> (app_timer \<Rightarrow> app_timer) \<Rightarrow> tmr_state \<Rightarrow> tmr_state option" where
  "app_upd a f s = map_option (\<lambda>e. s\<lparr>apps := (apps s)(a \<mapsto> f e)\<rparr>) (apps s a)"

definition entry_timer :: "nat \<Rightarrow> tmr_state \<Rightarrow> nat option" where
  "entry_timer a s = Option.bind (apps s a) at_timer"

definition timer_add :: "nat \<Rightarrow> wheel \<Rightarrow> tmr_state \<Rightarrow> tmr_state" where
  "timer_add a w s = s\<lparr>root := (root s)(w := root s w @ [a])\<rparr>"

definition timer_del :: "nat \<Rightarrow> wheel \<Rightarrow> tmr_state \<Rightarrow> tmr_state option" where
  "timer_del a w s = (if a \<in> set (root s w) then Some (s\<lparr>root := (root s)(w := remove1 a (root s w))\<rparr>) else None)"

definition find_tmr_slot_and_place :: "nat \<Rightarrow> tmr_state \<Rightarrow> tmr_state option" where
  "find_tmr_slot_and_place a s = do {
     e \<leftarrow> apps s a;
     case slot_of (ctime e) of
       None \<Rightarrow> Some s
     | Some (w, v) \<Rightarrow> do {
         s \<leftarrow> app_upd a (\<lambda>e. e\<lparr>rt := clk s w + v\<rparr>) s;
         t \<leftarrow> at_timer e;
         s \<leftarrow> tm_upd t (\<lambda>x. x\<lparr>wheel_of := w, is_running := True\<rparr>) s;
         Some (timer_add a w s)
       }
   }"

definition calc_time :: "u32 \<Rightarrow> nat \<Rightarrow> tmr_state \<Rightarrow> tmr_state option" where
  "calc_time tps a s = do {
     t \<leftarrow> entry_timer a s;
     x \<leftarrow> timers s t;
     s \<leftarrow> app_upd a (\<lambda>e. e\<lparr>ctime := pack_time tps (ctime e) (rmt x)\<rparr>) s;
     tm_upd t (\<lambda>y. y\<lparr>exp_at := rmt x + clk s TICK_W\<rparr>) s
   }"

text \<open>
  The allocators hand out a zeroed object at an address; the address is what \<open>tm_calloc\<close> returned.
\<close>

definition app_new :: "nat \<Rightarrow> tmr_state \<Rightarrow> tmr_state" where
  "app_new a s = s\<lparr>apps := (apps s)(a \<mapsto> \<lparr>at_timer = None, ctime = 0, rt = 0\<rparr>)\<rparr>"

definition timer_zero :: tm_timer where
  "timer_zero = \<lparr>rmt = 0, exp_at = 0, wheel_of = TICK_W, tm_flags = 0, is_running = False, apptimer = None\<rparr>"

definition inc_count :: "tmr_state \<Rightarrow> tmr_state" where
  "inc_count s = s\<lparr>tmr_count := tmr_count s + 1\<rparr>"

definition start_timer :: "u32 \<Rightarrow> nat option \<Rightarrow> nat option \<Rightarrow> u32 \<Rightarrow> u32 \<Rightarrow> tmr_state
    \<Rightarrow> (nat option \<times> tmr_state) option" where
  "start_timer tps n m ticks flags s =
    (if tmr_count s > MAX_TIMERS then Some (None, s)
     else case n of
       None \<Rightarrow> Some (None, s)
     | Some t \<Rightarrow> (case m of
         None \<Rightarrow> Some (None, s)
       | Some a \<Rightarrow> do {
           let s = app_new a (s\<lparr>timers := (timers s)(t \<mapsto> timer_zero\<lparr>rmt := ticks,
                 tm_flags := (if flags \<noteq> 0 then flags else TIMER_ONCE), apptimer := Some a\<rparr>)\<rparr>);
           s \<leftarrow> app_upd a (\<lambda>e. e\<lparr>at_timer := Some t\<rparr>) s;
           s \<leftarrow> calc_time tps a s;
           s \<leftarrow> find_tmr_slot_and_place a s;
           Some (Some t, inc_count s)
         }))"

definition setup_timer :: "nat option \<Rightarrow> tmr_state \<Rightarrow> nat option \<times> tmr_state" where
  "setup_timer n s =
    (if tmr_count s > MAX_TIMERS then (None, s)
     else case n of
       None \<Rightarrow> (None, s)
     | Some t \<Rightarrow> (Some t, s\<lparr>timers := (timers s)(t \<mapsto> timer_zero\<lparr>tm_flags := TIMER_FOREVER,
                    wheel_of := WAIT_TIMERS\<rparr>)\<rparr>))"

definition mod_timer :: "u32 \<Rightarrow> nat option \<Rightarrow> nat \<Rightarrow> u32 \<Rightarrow> tmr_state \<Rightarrow> (int \<times> tmr_state) option" where
  "mod_timer tps m t secs s =
    (case m of
       None \<Rightarrow> Some (-1, s)
     | Some a \<Rightarrow> do {
         s \<leftarrow> tm_upd t (\<lambda>x. x\<lparr>rmt := secs * tps, apptimer := Some a\<rparr>) (app_new a s);
         s \<leftarrow> app_upd a (\<lambda>e. e\<lparr>at_timer := Some t\<rparr>) s;
         s \<leftarrow> calc_time tps a s;
         s \<leftarrow> find_tmr_slot_and_place a s;
         Some (0, inc_count s)
       })"

text \<open>\<open>timer_restart\<close> does not set the entry's timer before \<open>calc_time\<close> reads through it.\<close>

definition timer_restart :: "u32 \<Rightarrow> nat option \<Rightarrow> nat \<Rightarrow> tmr_state \<Rightarrow> (int \<times> tmr_state) option" where
  "timer_restart tps m t s =
    (case m of
       None \<Rightarrow> Some (-1, s)
     | Some a \<Rightarrow> do {
         s \<leftarrow> tm_upd t (\<lambda>x. x\<lparr>apptimer := Some a\<rparr>) (app_new a s);
         s \<leftarrow> calc_time tps a s;
         s \<leftarrow> find_tmr_slot_and_place a s;
         Some (0, inc_count s)
       })"

definition stop_timer :: "nat \<Rightarrow> tmr_state \<Rightarrow> tmr_state option" where
  "stop_timer t s = do {
     x \<leftarrow> timers s t;
     (case apptimer x of
        None \<Rightarrow> Some s
      | Some a \<Rightarrow>
          if \<not> is_running x then Some s
          else do {
            s \<leftarrow> timer_del a (wheel_of x) s;
            s \<leftarrow> tm_upd t (\<lambda>x. x\<lparr>is_running := False\<rparr>) s;
            Some (s\<lparr>apps := (apps s)(a := None), tmr_count := tmr_count s - 1\<rparr>)
          })
   }"

definition del_timer :: "nat \<Rightarrow> tmr_state \<Rightarrow> tmr_state option" where
  "del_timer t s = do {
     x \<leftarrow> timers s t;
     if apptimer x \<noteq> None \<and> is_running x then stop_timer t s else Some s
   }"

definition timer_pending :: "nat \<Rightarrow> tmr_state \<Rightarrow> bool option" where
  "timer_pending t s = map_option is_running (timers s t)"

definition timer_get_remaining_time :: "nat \<Rightarrow> tmr_state \<Rightarrow> u32 option" where
  "timer_get_remaining_time t s = map_option (\<lambda>x.
     if \<not> is_running x then 0
     else let d = exp_at x - clk s TICK_W in if sint d < 0 then 0 else d) (timers s t)"

section \<open>The clock and the wheels\<close>

definition update_clk :: "u32 \<Rightarrow> tmr_state \<Rightarrow> tmr_state" where
  "update_clk tps s =
    (let c = (clk s)(TICK_W := clk s TICK_W + 1);
         c = (if c TICK_W mod tps = 0
              then let c = c(SEC_W := c SEC_W + 1) in
                if c SEC_W mod 60 = 0
                then let c = c(MIN_W := c MIN_W + 1) in
                  if c MIN_W mod 60 = 0 then c(HRS_W := c HRS_W + 1) else c
                else c
              else c)
     in s\<lparr>clk := c\<rparr>)"

definition nxt_sec :: "u32 \<Rightarrow> tmr_state \<Rightarrow> bool" where
  "nxt_sec tps s \<longleftrightarrow> clk s TICK_W mod tps = 0"

definition nxt_min :: "tmr_state \<Rightarrow> bool" where
  "nxt_min s \<longleftrightarrow> clk s SEC_W \<noteq> 0 \<and> clk s SEC_W mod 60 = 0"

definition nxt_hr :: "tmr_state \<Rightarrow> bool" where
  "nxt_hr s \<longleftrightarrow> clk s MIN_W \<noteq> 0 \<and> clk s MIN_W mod 60 = 0"

definition wheel_mask :: "wheel \<Rightarrow> u32" where
  "wheel_mask w = (case w of TICK_W \<Rightarrow> 0xFFFFFC00 | SEC_W \<Rightarrow> 0xFFFF03FF | MIN_W \<Rightarrow> 0xFFC0FFFF
     | _ \<Rightarrow> 0x3FFFFF)"

definition clear_wheel_timer :: "nat \<Rightarrow> tmr_state \<Rightarrow> tmr_state option" where
  "clear_wheel_timer a s = do {
     t \<leftarrow> entry_timer a s;
     x \<leftarrow> timers s t;
     if wheel_of x = WAIT_TIMERS then None
     else app_upd a (\<lambda>e. e\<lparr>ctime := ctime e AND wheel_mask (wheel_of x)\<rparr>) s
   }"

definition timer_expiry_action :: "nat \<Rightarrow> tmr_state \<Rightarrow> tmr_state option" where
  "timer_expiry_action a s = do {
     e \<leftarrow> apps s a;
     if ctime e = 0
     then do {
       t \<leftarrow> at_timer e;
       s \<leftarrow> tm_upd t (\<lambda>x. x\<lparr>is_running := False\<rparr>) s;
       Some (s\<lparr>tmr_count := tmr_count s - 1, expd_tmrs := expd_tmrs s @ [a]\<rparr>)
     }
     else find_tmr_slot_and_place a s
   }"

definition expire_entry :: "wheel \<Rightarrow> nat \<Rightarrow> tmr_state \<Rightarrow> tmr_state option" where
  "expire_entry w a s = do {
     s \<leftarrow> clear_wheel_timer a s;
     s \<leftarrow> timer_del a w s;
     timer_expiry_action a s
   }"

text \<open>
  The loop of \<open>process_timers\<close> takes an entry with \<open>rt\<close> equal to the wheel's clock as long as
  there is one. An entry that it places again gets a later \<open>rt\<close> or a lower wheel, so it takes the
  entries that are due when it starts, once each.
\<close>

definition due :: "wheel \<Rightarrow> tmr_state \<Rightarrow> nat list" where
  "due w s = filter (\<lambda>a. map_option rt (apps s a) = Some (clk s w)) (root s w)"

definition process_timers :: "wheel \<Rightarrow> tmr_state \<Rightarrow> tmr_state option" where
  "process_timers w s = run_events (expire_entry w) (due w s) s"

definition tm_process_tick_and_update_timers :: "u32 \<Rightarrow> tmr_state \<Rightarrow> tmr_state option" where
  "tm_process_tick_and_update_timers tps s = do {
     s \<leftarrow> process_timers TICK_W s;
     if nxt_sec tps s
     then do {
       s \<leftarrow> process_timers SEC_W s;
       if nxt_min s
       then do {
         s \<leftarrow> process_timers MIN_W s;
         if nxt_hr s then process_timers HRS_W s else Some s
       }
       else Some s
     }
     else Some s
   }"

definition timers_pending_for_service :: "u32 \<Rightarrow> tmr_state \<Rightarrow> bool" where
  "timers_pending_for_service tps s \<longleftrightarrow> tmr_count s \<noteq> 0 \<and>
     (root s TICK_W \<noteq> [] \<or> nxt_sec tps s \<and> root s SEC_W \<noteq> [] \<or> nxt_min s \<and> root s MIN_W \<noteq> []
      \<or> nxt_hr s \<and> root s HRS_W \<noteq> [])"

definition update_times :: "u32 \<Rightarrow> tmr_state \<Rightarrow> tmr_state option" where
  "update_times tps s =
    (let s = update_clk tps s in
     if timers_pending_for_service tps s then tm_process_tick_and_update_timers tps s else Some s)"

text \<open>
  Running the handlers. The handler of the timer at \<open>t\<close> is \<open>h t\<close>; what \<open>tm_calloc\<close> returns to a
  restart after the entry at \<open>a\<close> is \<open>m a\<close>.
\<close>

definition run_expired :: "(nat \<Rightarrow> tmr_state \<Rightarrow> tmr_state option) \<Rightarrow> u32 \<Rightarrow> (nat \<Rightarrow> nat option) \<Rightarrow> nat
    \<Rightarrow> tmr_state \<Rightarrow> tmr_state option" where
  "run_expired h tps m a s = do {
     t \<leftarrow> entry_timer a s;
     s \<leftarrow> h t s;
     let s = s\<lparr>expd_tmrs := remove1 a (expd_tmrs s)\<rparr>;
     s \<leftarrow> tm_upd t (\<lambda>x. x\<lparr>apptimer := None\<rparr>) s;
     x \<leftarrow> timers s t;
     s \<leftarrow> (if flag_on TIMER_ONCE (tm_flags x) then Some (s\<lparr>timers := (timers s)(t := None)\<rparr>)
           else if flag_on TIMER_REPEAT (tm_flags x) then map_option snd (timer_restart tps (m a) t s)
           else Some s);
     Some (s\<lparr>apps := (apps s)(a := None)\<rparr>)
   }"

definition process_expd_timers :: "(nat \<Rightarrow> tmr_state \<Rightarrow> tmr_state option) \<Rightarrow> u32
    \<Rightarrow> (nat \<Rightarrow> nat option) \<Rightarrow> tmr_state \<Rightarrow> tmr_state option" where
  "process_expd_timers h tps m s = run_events (run_expired h tps m) (expd_tmrs s) s"

definition btm_hlf :: "(nat \<Rightarrow> tmr_state \<Rightarrow> tmr_state option) \<Rightarrow> u32
    \<Rightarrow> (nat \<Rightarrow> nat option) \<Rightarrow> tmr_state \<Rightarrow> tmr_state option" where
  "btm_hlf h tps m s = (if expd_tmrs s = [] then Some s else process_expd_timers h tps m s)"

section \<open>The packed time, unpacked\<close>

lemma bit_small:
  assumes "unat (w :: u32) < 2 ^ k" "bit w n"
  shows "n < k"
proof -
  have "bit (unat w) n" using assms(2) by (simp add: bit_unsigned_iff bit_imp_le_length)
  moreover have "take_bit k (unat w) = unat w" using assms(1) by (rule take_bit_nat_eq_self)
  ultimately show ?thesis by (metis bit_take_bit_iff)
qed

lemma and_mask_bits: "(w :: u32) AND 0x3ff = take_bit 10 w" "w AND 0x3f = take_bit 6 w"
  by (simp_all add: take_bit_eq_mask mask_eq_exp_minus_1)

lemma unpack_fields:
  fixes k s m h :: u32
  assumes "unat k < 2 ^ 10" "unat s < 2 ^ 6" "unat m < 2 ^ 6"
  defines "ct \<equiv> k OR push_bit 10 s OR push_bit 16 m OR push_bit 22 h"
  shows "GET_TICK ct = k" "GET_SECS ct = s" "GET_MINS ct = m" "GET_HRS ct = h AND 0x3ff"
proof -
  have b: "bit k n \<Longrightarrow> n < 10" "bit s n \<Longrightarrow> n < 6" "bit m n \<Longrightarrow> n < 6" for n
    using bit_small assms(1-3) by blast+
  note u = GET_TICK_def GET_SECS_def GET_MINS_def GET_HRS_def ct_def and_mask_bits
  note bits = bit_and_iff bit_or_iff bit_push_bit_iff bit_drop_bit_eq bit_take_bit_iff
  show "GET_TICK ct = k" unfolding u by (rule bit_word_eqI) (auto simp: bits dest: b)
  show "GET_SECS ct = s" unfolding u by (rule bit_word_eqI) (auto simp: bits dest: b)
  show "GET_MINS ct = m" unfolding u by (rule bit_word_eqI) (auto simp: bits dest: b)
  show "GET_HRS ct = h AND 0x3ff" unfolding u by (rule bit_word_eqI) (auto simp: bits dest: b)
qed

lemma pack_fields:
  assumes "0 < tps" "tps \<le> 1024" "tick div tps div 60 div 60 < 1024"
  shows "GET_TICK (pack_time tps 0 tick) = tick mod tps"
    "GET_SECS (pack_time tps 0 tick) = tick div tps mod 60"
    "GET_MINS (pack_time tps 0 tick) = tick div tps div 60 mod 60"
    "GET_HRS (pack_time tps 0 tick) = tick div tps div 60 div 60"
proof -
  have "unat tick mod unat tps < unat tps" "unat tps \<le> 1024"
    using assms(1,2) by (simp_all add: word_less_nat_alt word_le_nat_alt)
  then have k: "unat (tick mod tps) < 2 ^ 10" by (simp add: unat_mod)
  have m: "unat (x mod 60) < 2 ^ 6" for x :: u32
    using mod_less_divisor [of 60 "unat x"] by (simp add: unat_mod)
  have "(tick div tps div 60 div 60) AND 0x3ff = tick div tps div 60 div 60"
    using bit_small [of "tick div tps div 60 div 60" 10] assms(3) [unfolded word_less_nat_alt]
    by (intro bit_word_eqI) (auto simp: and_mask_bits bit_take_bit_iff)
  with unpack_fields [OF k m m, of "tick div tps" "tick div tps div 60"]
  show "GET_TICK (pack_time tps 0 tick) = tick mod tps"
    "GET_SECS (pack_time tps 0 tick) = tick div tps mod 60"
    "GET_MINS (pack_time tps 0 tick) = tick div tps div 60 mod 60"
    "GET_HRS (pack_time tps 0 tick) = tick div tps div 60 div 60"
    by (simp_all add: pack_time_def Let_def)
qed

text \<open>
  Packing the duration of a timer and unpacking it again gives its ticks within the second, its
  seconds within the minute, its minutes within the hour and its hours, as long as a second has at
  most 1024 ticks and the duration is below 1024 hours.
\<close>

theorem timer_pack_round_trip:
  assumes "0 < tps" "tps \<le> 1024" "tick div tps div 60 div 60 < 1024"
  shows "GET_TICK (pack_time tps 0 tick) = tick mod tps
    \<and> GET_SECS (pack_time tps 0 tick) = tick div tps mod 60
    \<and> GET_MINS (pack_time tps 0 tick) = tick div tps div 60 mod 60
    \<and> GET_HRS (pack_time tps 0 tick) = tick div tps div 60 div 60"
  using pack_fields [OF assms] by blast

theorem timer_pack_round_trip_witness:
  "GET_MINS (pack_time 100 0 9025) = 1 \<and> GET_SECS (pack_time 100 0 9025) = 30
   \<and> GET_TICK (pack_time 100 0 9025) = 25"
  using timer_pack_round_trip [of 100 9025] by simp

end
