(* ===== verification/Timer_Run.thy ===== *)
theory Timer_Run
  imports Timers
begin

unbundle bit_operations_syntax

text \<open>
  When a timer fires. The wheels hold well-formed entries (\<open>tm_wf\<close>), a tick of the clock keeps that
  and never faults, and an armed entry is taken off the wheels at its deadline, after it has moved
  down from the hours to the ticks. The deadline is counted from the last full unit of the wheel
  that the entry starts on.
\<close>

section \<open>Packed times\<close>

lemma wheel_mask_bits:
  "wheel_mask TICK_W = NOT (mask 10)" "wheel_mask SEC_W = NOT (push_bit 10 (mask 6))"
  "wheel_mask MIN_W = NOT (push_bit 16 (mask 6))" "wheel_mask HRS_W = NOT (push_bit 22 (mask 10))"
  by (simp_all add: wheel_mask_def mask_eq_exp_minus_1)

lemmas get_defs = GET_TICK_def GET_SECS_def GET_MINS_def GET_HRS_def and_mask_bits
lemmas get_bits = bit_and_iff bit_not_iff bit_push_bit_iff bit_drop_bit_eq bit_take_bit_iff bit_mask_iff
  bit_0_eq

lemma get_masked:
  "GET_TICK (ct AND wheel_mask TICK_W) = 0" "GET_SECS (ct AND wheel_mask TICK_W) = GET_SECS ct"
  "GET_MINS (ct AND wheel_mask TICK_W) = GET_MINS ct" "GET_HRS (ct AND wheel_mask TICK_W) = GET_HRS ct"
  "GET_TICK (ct AND wheel_mask SEC_W) = GET_TICK ct" "GET_SECS (ct AND wheel_mask SEC_W) = 0"
  "GET_MINS (ct AND wheel_mask SEC_W) = GET_MINS ct" "GET_HRS (ct AND wheel_mask SEC_W) = GET_HRS ct"
  "GET_TICK (ct AND wheel_mask MIN_W) = GET_TICK ct" "GET_SECS (ct AND wheel_mask MIN_W) = GET_SECS ct"
  "GET_MINS (ct AND wheel_mask MIN_W) = 0" "GET_HRS (ct AND wheel_mask MIN_W) = GET_HRS ct"
  "GET_TICK (ct AND wheel_mask HRS_W) = GET_TICK ct" "GET_SECS (ct AND wheel_mask HRS_W) = GET_SECS ct"
  "GET_MINS (ct AND wheel_mask HRS_W) = GET_MINS ct" "GET_HRS (ct AND wheel_mask HRS_W) = 0"
  unfolding get_defs wheel_mask_bits by (rule bit_word_eqI, auto simp: get_bits)+

lemma get_zero:
  assumes "GET_TICK ct = 0" "GET_SECS ct = 0" "GET_MINS ct = 0" "GET_HRS ct = 0"
  shows "ct = 0"
proof (rule bit_word_eqI)
  fix n assume n: "n < LENGTH(32)"
  have z: "\<not> bit (take_bit 10 ct) n" "\<not> bit (take_bit 6 (drop_bit 10 ct)) (n - 10)"
    "\<not> bit (take_bit 6 (drop_bit 16 ct)) (n - 16)" "\<not> bit (take_bit 10 (drop_bit 22 ct)) (n - 22)"
    using assms by (simp_all add: get_defs)
  consider "n < 10" | "10 \<le> n" "n < 16" | "16 \<le> n" "n < 22" | "22 \<le> n" by linarith
  then show "bit ct n = bit 0 n" using z n by cases (auto simp: bit_take_bit_iff bit_drop_bit_eq)
qed

lemma slot_of_None [simp]: "slot_of ct = None \<longleftrightarrow> ct = 0"
  by (auto simp: slot_of_def split: if_splits intro: get_zero) (simp_all add: get_defs)

lemma slot_of_0 [simp]: "slot_of 0 = None"
  by simp

definition tick_unit :: "u32 \<Rightarrow> wheel \<Rightarrow> nat" where
  "tick_unit tps w = (case w of TICK_W \<Rightarrow> 1 | SEC_W \<Rightarrow> unat tps | MIN_W \<Rightarrow> 60 * unat tps
     | _ \<Rightarrow> 3600 * unat tps)"

definition ticks_of :: "u32 \<Rightarrow> u32 \<Rightarrow> nat" where
  "ticks_of tps ct = unat (GET_TICK ct) + unat (GET_SECS ct) * unat tps
     + unat (GET_MINS ct) * (60 * unat tps) + unat (GET_HRS ct) * (3600 * unat tps)"

definition wheel_rank :: "wheel \<Rightarrow> nat" where
  "wheel_rank w = (case w of TICK_W \<Rightarrow> 0 | SEC_W \<Rightarrow> 1 | MIN_W \<Rightarrow> 2 | HRS_W \<Rightarrow> 3 | WAIT_TIMERS \<Rightarrow> 4)"

lemma slot_ticks:
  "slot_of ct = Some (w, v) \<Longrightarrow>
     v \<noteq> 0 \<and> w \<noteq> WAIT_TIMERS \<and> ticks_of tps ct = unat v * tick_unit tps w + ticks_of tps (ct AND wheel_mask w)"
  by (auto simp: slot_of_def ticks_of_def tick_unit_def get_masked split: if_splits)

lemma slot_next:
  "slot_of ct = Some (w, v) \<Longrightarrow> slot_of (ct AND wheel_mask w) = Some (w', v') \<Longrightarrow>
     wheel_rank w' < wheel_rank w \<and> tick_unit tps w' dvd tick_unit tps w"
  by (auto simp: slot_of_def get_masked wheel_rank_def tick_unit_def split: if_splits)

lemma ticks_of_pack:
  assumes "0 < tps" "tps \<le> 1024" "T div tps div 60 div 60 < 1024"
  shows "ticks_of tps (pack_time tps 0 T) = unat T"
proof -
  define q where "q = unat T div unat tps"
  have "q = q mod 60 + (q div 60 mod 60) * 60 + (q div 60 div 60) * 3600"
    using mod_div_mult_eq [of q 60] mod_div_mult_eq [of "q div 60" 60] by linarith
  then have "q * unat tps = (q mod 60 + (q div 60 mod 60) * 60 + (q div 60 div 60) * 3600) * unat tps"
    by simp
  also have "\<dots> = (q mod 60) * unat tps + (q div 60 mod 60) * (60 * unat tps)
      + (q div 60 div 60) * (3600 * unat tps)"
    by (simp add: add_mult_distrib mult.assoc)
  finally have "unat T = unat T mod unat tps + (q mod 60) * unat tps + (q div 60 mod 60) * (60 * unat tps)
      + (q div 60 div 60) * (3600 * unat tps)"
    using mod_div_mult_eq [of "unat T" "unat tps"] unfolding q_def by linarith
  then show ?thesis
    using pack_fields [OF assms] by (simp add: ticks_of_def unat_mod unat_div q_def)
qed

section \<open>Well-formed wheels\<close>

definition entry_ok :: "tmr_state \<Rightarrow> nat \<Rightarrow> bool" where
  "entry_ok s b \<longleftrightarrow> (\<exists>e t x. apps s b = Some e \<and> at_timer e = Some t \<and> timers s t = Some x
     \<and> wheel_of x \<noteq> WAIT_TIMERS)"

definition entries :: "tmr_state \<Rightarrow> nat" where
  "entries s = length (root s TICK_W) + length (root s SEC_W) + length (root s MIN_W) + length (root s HRS_W)"

definition tm_wf :: "tmr_state \<Rightarrow> bool" where
  "tm_wf s \<longleftrightarrow> root s WAIT_TIMERS = [] \<and> (\<forall>w. distinct (root s w))
     \<and> (\<forall>w v b. b \<in> set (root s w) \<longrightarrow> b \<in> set (root s v) \<longrightarrow> w = v)
     \<and> (\<forall>w b. b \<in> set (root s w) \<longrightarrow> entry_ok s b) \<and> entries s \<le> unat (tmr_count s)"

lemma expire_entry_eq:
  assumes "apps s b = Some e" "at_timer e = Some t" "timers s t = Some x" "wheel_of x \<noteq> WAIT_TIMERS"
    and "b \<in> set (root s w)"
  defines "c \<equiv> ctime e AND wheel_mask (wheel_of x)"
    and "s1 \<equiv> s\<lparr>root := (root s)(w := remove1 b (root s w)),
                apps := (apps s)(b \<mapsto> e\<lparr>ctime := ctime e AND wheel_mask (wheel_of x)\<rparr>)\<rparr>"
  shows "expire_entry w b s = (case slot_of c of
      None \<Rightarrow> Some (s1\<lparr>timers := (timers s)(t \<mapsto> x\<lparr>is_running := False\<rparr>),
                tmr_count := tmr_count s - 1, expd_tmrs := expd_tmrs s @ [b]\<rparr>)
    | Some (w', v) \<Rightarrow> Some (s1\<lparr>root := (root s1)(w' := root s1 w' @ [b]),
                apps := (apps s)(b \<mapsto> e\<lparr>ctime := c, rt := clk s w' + v\<rparr>),
                timers := (timers s)(t \<mapsto> x\<lparr>wheel_of := w', is_running := True\<rparr>)\<rparr>))"
proof (cases "slot_of c")
  case None
  then have "c = 0" by simp
  with None show ?thesis using assms(1-5)
    by (cases s) (simp add: expire_entry_def clear_wheel_timer_def entry_timer_def app_upd_def timer_del_def
        timer_expiry_action_def tm_upd_def c_def s1_def)
next
  case (Some p)
  moreover from Some have "c \<noteq> 0" by (metis option.distinct(1) slot_of_None)
  ultimately show ?thesis using assms(1-5)
    by (cases p; cases s) (simp add: expire_entry_def clear_wheel_timer_def entry_timer_def app_upd_def timer_del_def
        timer_expiry_action_def tm_upd_def c_def s1_def find_tmr_slot_and_place_def timer_add_def)
qed

text \<open>What the expiry of the entries in \<open>A\<close> leaves alone.\<close>

definition others_kept :: "nat set \<Rightarrow> tmr_state \<Rightarrow> tmr_state \<Rightarrow> bool" where
  "others_kept A s s' \<longleftrightarrow> clk s' = clk s \<and> set (expd_tmrs s) \<subseteq> set (expd_tmrs s')
     \<and> (\<forall>c. entry_timer c s' = entry_timer c s)
     \<and> (\<forall>c. c \<notin> A \<longrightarrow> apps s' c = apps s c \<and> (\<forall>v. c \<in> set (root s' v) \<longleftrightarrow> c \<in> set (root s v)))
     \<and> (\<forall>t. (\<forall>b \<in> A. entry_timer b s \<noteq> Some t) \<longrightarrow> timers s' t = timers s t)"

text \<open>What becomes of the entry \<open>b\<close> of the timer \<open>t\<close>.\<close>

definition moved_down :: "nat \<Rightarrow> nat \<Rightarrow> tmr_state \<Rightarrow> tmr_state \<Rightarrow> bool" where
  "moved_down b t s s' \<longleftrightarrow> (\<exists>e x. apps s b = Some e \<and> timers s t = Some x \<and>
     (case slot_of (ctime e AND wheel_mask (wheel_of x)) of
        None \<Rightarrow> b \<in> set (expd_tmrs s') \<and> timers s' t = Some (x\<lparr>is_running := False\<rparr>)
          \<and> (\<forall>v. b \<notin> set (root s' v))
      | Some (w', v) \<Rightarrow>
          apps s' b = Some (e\<lparr>ctime := ctime e AND wheel_mask (wheel_of x), rt := clk s w' + v\<rparr>)
          \<and> timers s' t = Some (x\<lparr>wheel_of := w', is_running := True\<rparr>)
          \<and> (\<forall>v. b \<in> set (root s' v) \<longleftrightarrow> v = w')))"

lemma wf_count_pos:
  assumes "tm_wf s" "b \<in> set (root s w)"
  shows "0 < unat (tmr_count s) \<and> w \<noteq> WAIT_TIMERS"
proof -
  have "0 < length (root s w)" using assms(2) by (rule length_pos_if_in_set)
  moreover have "w \<noteq> WAIT_TIMERS" using assms by (auto simp: tm_wf_def)
  ultimately have "0 < entries s" by (cases w) (simp_all add: entries_def)
  with assms(1) \<open>w \<noteq> WAIT_TIMERS\<close> show ?thesis unfolding tm_wf_def by linarith
qed

lemma entry_ok_upd:
  assumes "entry_ok s c" "apps s' c = apps s c" "timers s' = (timers s)(t \<mapsto> y)" "wheel_of y \<noteq> WAIT_TIMERS"
  shows "entry_ok s' c"
proof -
  from assms(1) obtain e u x where "apps s c = Some e" "at_timer e = Some u" "timers s u = Some x"
    "wheel_of x \<noteq> WAIT_TIMERS" by (auto simp: entry_ok_def)
  then show ?thesis unfolding entry_ok_def using assms(2-4)
    by (intro exI [of _ e] exI [of _ u] exI [of _ "if u = t then y else x"]) simp
qed

lemma tm_wfI:
  assumes "tm_wf s" "root s' WAIT_TIMERS = []" "\<And>v. distinct (root s' v)"
    and "\<And>v c. c \<noteq> b \<Longrightarrow> c \<in> set (root s' v) \<longleftrightarrow> c \<in> set (root s v)"
    and "\<And>v v'. b \<in> set (root s' v) \<Longrightarrow> b \<in> set (root s' v') \<Longrightarrow> v = v'"
    and "\<And>c. c \<noteq> b \<Longrightarrow> apps s' c = apps s c" "timers s' = (timers s)(t \<mapsto> y)" "wheel_of y \<noteq> WAIT_TIMERS"
    and "\<And>v. b \<in> set (root s' v) \<Longrightarrow> entry_ok s' b" "entries s' \<le> unat (tmr_count s')"
  shows "tm_wf s'"
  unfolding tm_wf_def
proof (intro conjI allI impI)
  fix w v c assume "c \<in> set (root s' w)" "c \<in> set (root s' v)"
  then show "w = v" using assms(1,4,5) unfolding tm_wf_def by (cases "c = b") metis+
next
  fix w c assume "c \<in> set (root s' w)"
  then show "entry_ok s' c"
    using assms(1,4,6-9) entry_ok_upd [of s c s' t y] unfolding tm_wf_def by (cases "c = b") metis+
qed (use assms in auto)

lemma expire_entry_step:
  assumes "tm_wf s" "b \<in> set (root s w)" "entry_timer b s = Some t"
  shows "\<exists>s'. expire_entry w b s = Some s' \<and> tm_wf s' \<and> others_kept {b} s s' \<and> moved_down b t s s'"
proof -
  from assms obtain e x where e: "apps s b = Some e" "at_timer e = Some t" "timers s t = Some x"
    "wheel_of x \<noteq> WAIT_TIMERS"
    unfolding tm_wf_def entry_ok_def entry_timer_def by (metis bind.bind_lunit option.inject)
  have d: "distinct (root s v)" "b \<in> set (root s v) \<longleftrightarrow> v = w" for v
    using assms(1,2) by (auto simp: tm_wf_def)
  have len: "length (remove1 b (root s w)) + 1 = length (root s w)"
    using assms(2) by (metis One_nat_def Suc_pred add.commute length_pos_if_in_set length_remove1 plus_1_eq_Suc)
  note pos = wf_count_pos [OF assms(1,2)]
  note eq = expire_entry_eq [OF e assms(2)]
  show ?thesis
  proof (cases "slot_of (ctime e AND wheel_mask (wheel_of x))")
    case None
    define s' where "s' = the (expire_entry w b s)"
    have s': "expire_entry w b s = Some s'" "s' = s\<lparr>root := (root s)(w := remove1 b (root s w)),
        apps := (apps s)(b \<mapsto> e\<lparr>ctime := ctime e AND wheel_mask (wheel_of x)\<rparr>),
        timers := (timers s)(t \<mapsto> x\<lparr>is_running := False\<rparr>),
        tmr_count := tmr_count s - 1, expd_tmrs := expd_tmrs s @ [b]\<rparr>"
      by (simp_all add: s'_def eq None)
    have "unat (tmr_count s') = unat (tmr_count s) - 1"
      using pos by (simp add: s'(2) unat_minus_one word_neq_0_conv [symmetric] unat_gt_0)
    moreover have "entries s' + 1 = entries s" using len pos by (cases w) (auto simp: entries_def s')
    moreover have "entries s \<le> unat (tmr_count s)" using assms(1) by (simp add: tm_wf_def)
    ultimately have c: "entries s' \<le> unat (tmr_count s')" by linarith
    have r: "distinct (root s' v)" "set (root s' v) = set (root s v) - {b}" for v
      using d by (auto simp: s'(2))
    have "root s' WAIT_TIMERS = []" using pos assms(1) by (simp add: s'(2) tm_wf_def)
    then have "tm_wf s'"
      by (intro tm_wfI [OF assms(1), where b = b and t = t and y = "x\<lparr>is_running := False\<rparr>"])
        (use r c e(4) in \<open>simp_all add: s'(2)\<close>)
    moreover have "others_kept {b} s s'" "moved_down b t s s'"
      using e d None by (auto simp: others_kept_def moved_down_def s'(2) entry_timer_def)
    ultimately show ?thesis using s' by blast
  next
    case (Some p)
    obtain w' v where p: "p = (w', v)" by (cases p)
    from slot_ticks Some p have w': "w' \<noteq> WAIT_TIMERS" by blast
    define r where "r = (root s)(w := remove1 b (root s w))"
    define s' where "s' = s\<lparr>root := r(w' := r w' @ [b]),
        apps := (apps s)(b \<mapsto> e\<lparr>ctime := ctime e AND wheel_mask (wheel_of x), rt := clk s w' + v\<rparr>),
        timers := (timers s)(t \<mapsto> x\<lparr>wheel_of := w', is_running := True\<rparr>)\<rparr>"
    have s': "expire_entry w b s = Some s'" by (simp add: eq Some p s'_def r_def)
    have r: "distinct (r v)" "b \<notin> set (r v)" "set (r v) = set (root s v) - {b}" for v
      using d by (auto simp: r_def)
    have "entries s' = entries s" using len pos w'
      by (cases w; cases w') (auto simp: entries_def s'_def r_def)
    then have c: "entries s' \<le> unat (tmr_count s')" using assms(1) by (simp add: tm_wf_def s'_def)
    have q: "distinct (root s' u)" "b \<in> set (root s' u) \<longleftrightarrow> u = w'"
      "c \<noteq> b \<Longrightarrow> c \<in> set (root s' u) \<longleftrightarrow> c \<in> set (root s u)" for u c
      using r by (auto simp: s'_def)
    have "entry_ok s' b" using e w' by (simp add: entry_ok_def s'_def)
    moreover have "root s' WAIT_TIMERS = []" using pos w' assms(1) by (simp add: s'_def r_def tm_wf_def)
    ultimately have "tm_wf s'"
      by (intro tm_wfI [OF assms(1), where b = b and t = t and y = "x\<lparr>wheel_of := w', is_running := True\<rparr>"])
        (use q c w' in \<open>simp_all add: s'_def\<close>)
    moreover have "others_kept {b} s s'" "moved_down b t s s'"
      using e d Some p r by (auto simp: others_kept_def moved_down_def s'_def entry_timer_def)
    ultimately show ?thesis using s' by blast
  qed
qed

section \<open>Processing the wheels\<close>

lemma others_kept_refl: "others_kept {} s s"
  by (simp add: others_kept_def)

lemma others_kept_trans:
  "others_kept A s s1 \<Longrightarrow> others_kept B s1 s2 \<Longrightarrow> others_kept (A \<union> B) s s2"
  unfolding others_kept_def by (elim conjE, intro conjI) (blast | simp)+

lemma others_kept_root:
  "others_kept A s s' \<Longrightarrow> c \<notin> A \<Longrightarrow> c \<in> set (root s' v) \<longleftrightarrow> c \<in> set (root s v)"
  by (simp add: others_kept_def)

lemma expire_entries:
  assumes "tm_wf s" "distinct bs" "set bs \<subseteq> set (root s w)"
  shows "\<exists>s'. run_events (expire_entry w) bs s = Some s' \<and> tm_wf s' \<and> others_kept (set bs) s s'"
  using assms
proof (induction bs arbitrary: s)
  case Nil
  then show ?case by (simp add: others_kept_refl)
next
  case (Cons b bs)
  then have "b \<in> set (root s w)" by simp
  then obtain t where "entry_timer b s = Some t"
    using Cons.prems(1) unfolding tm_wf_def entry_ok_def entry_timer_def by (metis bind.bind_lunit)
  with expire_entry_step [OF Cons.prems(1) \<open>b \<in> set (root s w)\<close>] obtain s1 where
    s1: "expire_entry w b s = Some s1" "tm_wf s1" "others_kept {b} s s1" by blast
  have "c \<in> set (root s1 w)" if "c \<in> set bs" for c
    using others_kept_root [OF s1(3), of c w] Cons.prems(2,3) that by auto
  then have "set bs \<subseteq> set (root s1 w)" by blast
  with Cons.IH [OF s1(2)] Cons.prems(2) obtain s2 where
    "run_events (expire_entry w) bs s1 = Some s2" "tm_wf s2" "others_kept (set bs) s1 s2" by auto
  with s1 show ?case using others_kept_trans [OF s1(3)] by force
qed

lemma due_subset: "set (due w s) \<subseteq> set (root s w)" "tm_wf s \<Longrightarrow> distinct (due w s)"
  by (auto simp: due_def tm_wf_def)

lemma process_timers_step:
  "tm_wf s \<Longrightarrow> \<exists>s'. process_timers w s = Some s' \<and> tm_wf s' \<and> others_kept (set (due w s)) s s'"
  unfolding process_timers_def by (intro expire_entries due_subset)

definition active_wheels :: "u32 \<Rightarrow> tmr_state \<Rightarrow> wheel list" where
  "active_wheels tps s = TICK_W # (if nxt_sec tps s then SEC_W # (if nxt_min s then MIN_W #
     (if nxt_hr s then [HRS_W] else []) else []) else [])"

lemma nxt_clk: "clk s' = clk s \<Longrightarrow> nxt_sec tps s' = nxt_sec tps s \<and> nxt_min s' = nxt_min s \<and> nxt_hr s' = nxt_hr s"
  by (simp add: nxt_sec_def nxt_min_def nxt_hr_def)

lemma process_wheels:
  assumes "tm_wf s"
  shows "tm_process_tick_and_update_timers tps s = run_events process_timers (active_wheels tps s) s"
proof -
  obtain s1 where s1: "process_timers TICK_W s = Some s1" "tm_wf s1" "clk s1 = clk s"
    using process_timers_step [OF assms, of TICK_W] by (auto simp: others_kept_def)
  obtain s2 where s2: "process_timers SEC_W s1 = Some s2" "tm_wf s2" "clk s2 = clk s"
    using process_timers_step [OF s1(2), of SEC_W] s1 by (auto simp: others_kept_def)
  obtain s3 where s3: "process_timers MIN_W s2 = Some s3" "clk s3 = clk s"
    using process_timers_step [OF s2(2), of MIN_W] s2 by (auto simp: others_kept_def)
  show ?thesis
    using nxt_clk [OF s1(3), of tps] nxt_clk [OF s2(3), of tps] nxt_clk [OF s3(2), of tps]
    by (simp add: tm_process_tick_and_update_timers_def active_wheels_def s1(1) s2(1) s3(1) run_events_single)
qed

text \<open>The tracked entry \<open>a\<close> is the only one of its timer \<open>t\<close>, and keeps its place.\<close>

definition lone :: "nat \<Rightarrow> nat \<Rightarrow> tmr_state \<Rightarrow> bool" where
  "lone a t s \<longleftrightarrow> (\<forall>b. b \<noteq> a \<longrightarrow> entry_timer b s \<noteq> Some t)"

definition kept :: "nat \<Rightarrow> nat \<Rightarrow> tmr_state \<Rightarrow> tmr_state \<Rightarrow> bool" where
  "kept a t s s' \<longleftrightarrow> clk s' = clk s \<and> set (expd_tmrs s) \<subseteq> set (expd_tmrs s')
     \<and> (\<forall>c. entry_timer c s' = entry_timer c s) \<and> apps s' a = apps s a \<and> timers s' t = timers s t
     \<and> (\<forall>v. a \<in> set (root s' v) \<longleftrightarrow> a \<in> set (root s v))"

lemma kept_refl: "kept a t s s"
  by (simp add: kept_def)

lemma kept_trans: "kept a t s s1 \<Longrightarrow> kept a t s1 s2 \<Longrightarrow> kept a t s s2"
  unfolding kept_def by auto

lemma kept_lone: "kept a t s s' \<Longrightarrow> lone a t s' = lone a t s"
  by (simp add: kept_def lone_def)

lemma others_kept_kept: "others_kept A s s' \<Longrightarrow> a \<notin> A \<Longrightarrow> lone a t s \<Longrightarrow> kept a t s s'"
  unfolding others_kept_def kept_def lone_def by metis

lemma kept_due: "kept a t s s' \<Longrightarrow> a \<in> set (due w s') \<longleftrightarrow> a \<in> set (due w s)"
  by (auto simp: kept_def due_def)

lemma process_wheels_kept:
  assumes "tm_wf s" "lone a t s" "\<And>w. w \<in> set ws \<Longrightarrow> a \<notin> set (due w s)"
  shows "\<exists>s'. run_events process_timers ws s = Some s' \<and> tm_wf s' \<and> kept a t s s'"
  using assms
proof (induction ws arbitrary: s)
  case Nil
  then show ?case by (simp add: kept_refl)
next
  case (Cons w ws)
  obtain s1 where s1: "process_timers w s = Some s1" "tm_wf s1" "others_kept (set (due w s)) s s1"
    using process_timers_step [OF Cons.prems(1)] by blast
  have k: "kept a t s s1" using others_kept_kept s1(3) Cons.prems by auto
  with Cons.IH [OF s1(2)] Cons.prems obtain s2 where
    "run_events process_timers ws s1 = Some s2" "tm_wf s2" "kept a t s1 s2"
    by (auto simp: kept_lone kept_due)
  with s1(1) k show ?case using kept_trans by fastforce
qed

lemma moved_down_kept:
  "kept a t s s1 \<Longrightarrow> moved_down a t s1 s2 \<Longrightarrow> kept a t s2 s3 \<Longrightarrow> moved_down a t s s3"
  unfolding kept_def moved_down_def by (auto split: option.splits)

lemma process_due:
  assumes "tm_wf s" "lone a t s" "a \<in> set (due w s)" "entry_timer a s = Some t"
  shows "\<exists>s'. process_timers w s = Some s' \<and> tm_wf s' \<and> moved_down a t s s' \<and> lone a t s'
    \<and> clk s' = clk s \<and> set (expd_tmrs s) \<subseteq> set (expd_tmrs s')"
proof -
  from assms(3) obtain ys zs where d: "due w s = ys @ a # zs" by (meson split_list)
  with due_subset(1) [of w s] due_subset(2) [of s w] assms(1) have ds: "distinct ys" "distinct zs" "a \<notin> set ys" "a \<notin> set zs"
    "set zs \<inter> set ys = {}" "set (ys @ a # zs) \<subseteq> set (root s w)" by auto
  obtain s1 where s1: "run_events (expire_entry w) ys s = Some s1" "tm_wf s1" "others_kept (set ys) s s1"
    using expire_entries [OF assms(1) ds(1), of w] ds(6) by auto
  have k1: "kept a t s s1" using others_kept_kept s1(3) ds(3) assms(2) by blast
  have a1: "a \<in> set (root s1 w)" "entry_timer a s1 = Some t"
    using ds(6) k1 assms(4) by (simp_all add: kept_def)
  obtain s2 where s2: "expire_entry w a s1 = Some s2" "tm_wf s2" "others_kept {a} s1 s2" "moved_down a t s1 s2"
    using expire_entry_step [OF s1(2) a1] by blast
  have l2: "lone a t s2" using s2(3) k1 assms(2) by (simp add: lone_def others_kept_def kept_def)
  have "c \<in> set (root s2 w)" if "c \<in> set zs" for c
    using others_kept_root [OF s1(3), of c w] others_kept_root [OF s2(3), of c w] ds that by auto
  then have "set zs \<subseteq> set (root s2 w)" by blast
  with expire_entries [OF s2(2) ds(2), of w] obtain s3 where
    s3: "run_events (expire_entry w) zs s2 = Some s3" "tm_wf s3" "others_kept (set zs) s2 s3" by auto
  have k3: "kept a t s2 s3" using others_kept_kept s3(3) ds(4) l2 by blast
  have "process_timers w s = Some s3"
    by (simp add: process_timers_def d run_events_append s1(1) s2(1) s3(1))
  moreover have "clk s3 = clk s" "set (expd_tmrs s) \<subseteq> set (expd_tmrs s3)"
    using s1(3) s2(3) s3(3) by (auto simp: others_kept_def)
  ultimately show ?thesis
    using s3(2) moved_down_kept [OF k1 s2(4) k3] l2 k3 by (auto simp: kept_lone)
qed

section \<open>The clock\<close>

definition clock_at :: "u32 \<Rightarrow> nat \<Rightarrow> tmr_state \<Rightarrow> bool" where
  "clock_at tps N s \<longleftrightarrow> (\<forall>w. w \<noteq> WAIT_TIMERS \<longrightarrow> unat (clk s w) = N div tick_unit tps w)"

lemma unat_inc: "Suc (unat (c :: u32)) < 2 ^ 32 \<Longrightarrow> unat (c + 1) = Suc (unat c)"
  by (simp add: unat_word_ariths)

lemma div_tick_units:
  "N div (60 * T) = N div T div 60" "N div (3600 * T) = N div T div 60 div (60 :: nat)"
  by (simp_all add: div_mult2_eq [symmetric] mult.commute)

lemma word_mod_0: "(w :: u32) mod m = 0 \<longleftrightarrow> unat m dvd unat w"
  by (simp add: unat_mod mod_eq_0_iff_dvd flip: unat_eq_0)

lemma clock_at_nxt:
  assumes "clock_at tps N s"
  shows "nxt_sec tps s \<longleftrightarrow> unat tps dvd N"
    "nxt_min s \<longleftrightarrow> N div unat tps \<noteq> 0 \<and> 60 dvd N div unat tps"
    "nxt_hr s \<longleftrightarrow> N div unat tps div 60 \<noteq> 0 \<and> 60 dvd N div unat tps div 60"
proof -
  have c: "unat (clk s TICK_W) = N" "unat (clk s SEC_W) = N div unat tps"
    "unat (clk s MIN_W) = N div unat tps div 60"
    using assms by (simp_all add: clock_at_def tick_unit_def div_tick_units)
  have z: "w = 0 \<longleftrightarrow> unat w = 0" "w mod 60 = 0 \<longleftrightarrow> 60 dvd unat w" "w mod tps = 0 \<longleftrightarrow> unat tps dvd unat w"
    for w :: u32
    by (simp_all add: word_mod_0 unat_eq_0)
  show "nxt_sec tps s \<longleftrightarrow> unat tps dvd N"
    "nxt_min s \<longleftrightarrow> N div unat tps \<noteq> 0 \<and> 60 dvd N div unat tps"
    "nxt_hr s \<longleftrightarrow> N div unat tps div 60 \<noteq> 0 \<and> 60 dvd N div unat tps div 60"
    unfolding nxt_sec_def nxt_min_def nxt_hr_def z(2,3) by (simp_all only: z(1) c)
qed

lemma div_Suc_dvd: "Suc N div d = (if d dvd Suc N then Suc (N div d) else N div d)"
  by (simp add: div_Suc dvd_eq_mod_eq_0)

lemma update_clk_clock:
  assumes "clock_at tps N s" "Suc N < 2 ^ 32" "0 < unat tps"
  shows "clock_at tps (Suc N) (update_clk tps s)"
proof -
  define n where "n = unat tps"
  have c: "unat (clk s TICK_W) = N" "unat (clk s SEC_W) = N div n"
    "unat (clk s MIN_W) = N div n div 60" "unat (clk s HRS_W) = N div n div 60 div 60"
    using assms(1) by (simp_all add: clock_at_def tick_unit_def div_tick_units n_def)
  have le: "N div n \<le> N" "N div n div 60 \<le> N" "N div n div 60 div 60 \<le> N"
    by (meson div_le_dividend le_trans)+
  have i: "unat (clk s TICK_W + 1) = Suc N" "unat (clk s SEC_W + 1) = Suc (N div n)"
    "unat (clk s MIN_W + 1) = Suc (N div n div 60)" "unat (clk s HRS_W + 1) = Suc (N div n div 60 div 60)"
    using unat_inc [of "clk s TICK_W"] unat_inc [of "clk s SEC_W"] unat_inc [of "clk s MIN_W"]
      unat_inc [of "clk s HRS_W"] assms(2) le unfolding c by linarith+
  have z: "w mod 60 = 0 \<longleftrightarrow> 60 dvd unat w" "w mod tps = 0 \<longleftrightarrow> n dvd unat w" for w :: u32
    by (simp_all add: word_mod_0 n_def)
  let ?c = "clk (update_clk tps s)"
  have "unat (?c TICK_W) = Suc N" "unat (?c SEC_W) = Suc N div n" "unat (?c MIN_W) = Suc N div n div 60"
    "unat (?c HRS_W) = Suc N div n div 60 div 60"
    by (simp_all add: update_clk_def Let_def z i c div_Suc_dvd [of N n] div_Suc_dvd [of "N div n" 60]
        div_Suc_dvd [of "N div n div 60" 60])
  then show ?thesis
    by (auto simp: clock_at_def tick_unit_def div_tick_units n_def split: wheel.split)
qed

lemma update_clk_fields [simp]:
  "root (update_clk tps s) = root s" "apps (update_clk tps s) = apps s"
  "timers (update_clk tps s) = timers s" "tmr_count (update_clk tps s) = tmr_count s"
  "expd_tmrs (update_clk tps s) = expd_tmrs s" "entry_timer c (update_clk tps s) = entry_timer c s"
  "tm_wf (update_clk tps s) = tm_wf s" "lone a t (update_clk tps s) = lone a t s"
  by (simp_all add: update_clk_def Let_def entry_timer_def tm_wf_def entry_ok_def entries_def lone_def)

lemma active_iff:
  assumes "clock_at tps N s" "0 < N" "0 < unat tps" "w \<noteq> WAIT_TIMERS"
  shows "w \<in> set (active_wheels tps s) \<longleftrightarrow> tick_unit tps w dvd N"
proof -
  define n where "n = unat tps"
  have d: "60 * n dvd N \<longleftrightarrow> n dvd N \<and> 60 dvd N div n" if "0 < n" for n N :: nat
    using that by (metis dvd_div_iff_mult dvd_mult_right dvd_refl mult.commute not_gr_zero)
  have p: "n dvd N \<Longrightarrow> N div n \<noteq> 0" "n dvd N \<Longrightarrow> 60 dvd N div n \<Longrightarrow> N div n div 60 \<noteq> 0"
    using assms(2,3) by (auto elim!: dvdE simp: n_def)
  have h: "3600 * n dvd N \<longleftrightarrow> n dvd N \<and> 60 dvd N div n \<and> 60 dvd N div n div 60"
    using d [of 60 "N div n"] d [of "n" N] assms(3) d [of "60 * n" N]
    by (auto simp: n_def div_mult2_eq mult.commute)
  show ?thesis
    using assms(4) p h d [of n N] assms(3)
    by (cases w) (auto simp: active_wheels_def clock_at_nxt [OF assms(1)] tick_unit_def n_def)
qed

section \<open>The deadline\<close>

text \<open>The entry \<open>a\<close> is on a wheel at time \<open>N\<close> and its timer will fire at time \<open>D\<close>.\<close>

definition armed :: "u32 \<Rightarrow> nat \<Rightarrow> nat \<Rightarrow> nat \<Rightarrow> nat \<Rightarrow> tmr_state \<Rightarrow> bool" where
  "armed tps a t D N s \<longleftrightarrow> (\<exists>e x v. apps s a = Some e \<and> at_timer e = Some t \<and> timers s t = Some x
     \<and> is_running x \<and> (\<forall>w. a \<in> set (root s w) \<longleftrightarrow> w = wheel_of x)
     \<and> slot_of (ctime e) = Some (wheel_of x, v) \<and> N < unat (rt e) * tick_unit tps (wheel_of x)
     \<and> D = unat (rt e) * tick_unit tps (wheel_of x) + ticks_of tps (ctime e AND wheel_mask (wheel_of x)))"

definition fired :: "nat \<Rightarrow> nat \<Rightarrow> tmr_state \<Rightarrow> bool" where
  "fired a t s \<longleftrightarrow> a \<in> set (expd_tmrs s) \<and> (\<forall>w. a \<notin> set (root s w))
     \<and> (\<exists>x. timers s t = Some x \<and> \<not> is_running x)"

lemma armed_before: "armed tps a t D N s \<Longrightarrow> N < D"
  by (auto simp: armed_def)

lemma active_sorted: "sorted_wrt (\<lambda>v w. wheel_rank v < wheel_rank w) (active_wheels tps s)"
  by (simp add: active_wheels_def wheel_rank_def)

lemma pending:
  assumes "tm_wf s" "a \<in> set (root s w)" "w \<in> set (active_wheels tps s)"
  shows "timers_pending_for_service tps s"
proof -
  have "tmr_count s \<noteq> 0" "root s w \<noteq> []" using wf_count_pos [OF assms(1,2)] assms(2) by auto
  with assms(3) show ?thesis
    by (auto simp: timers_pending_for_service_def active_wheels_def split: if_splits)
qed

lemma tick_due:
  assumes "tm_wf s" "lone a t s" "entry_timer a s = Some t" "timers s t = Some x" "apps s a = Some e"
    and "\<And>v. a \<in> set (root s v) \<longleftrightarrow> v = wheel_of x" "slot_of (ctime e) = Some (wheel_of x, v)"
    and "wheel_of x \<in> set (active_wheels tps s)" "rt e = clk s (wheel_of x)"
  shows "\<exists>s'. tm_process_tick_and_update_timers tps s = Some s' \<and> tm_wf s' \<and> lone a t s'
    \<and> clk s' = clk s \<and> moved_down a t s s'"
proof -
  define w where "w = wheel_of x"
  from assms(8) obtain pre post where ws: "active_wheels tps s = pre @ w # post"
    unfolding w_def by (meson split_list)
  have above: "wheel_rank w < wheel_rank u" if "u \<in> set post" for u
    using that active_sorted [of tps s] unfolding ws by (simp add: sorted_wrt_append)
  have "w \<notin> set pre" using active_sorted [of tps s] unfolding ws by (auto simp: sorted_wrt_append)
  then have "a \<notin> set (due u s)" if "u \<in> set pre" for u
    using that assms(6) due_subset(1) [of u s] unfolding w_def by fastforce
  then obtain s1 where s1: "run_events process_timers pre s = Some s1" "tm_wf s1" "kept a t s s1"
    using process_wheels_kept [OF assms(1,2)] by blast
  have "a \<in> set (due w s)" using assms(5,6,9) by (simp add: due_def w_def)
  then have "a \<in> set (due w s1)" "lone a t s1" "entry_timer a s1 = Some t"
    using s1(3) assms(2,3) by (simp_all add: kept_due kept_lone) (simp add: kept_def)
  from process_due [OF s1(2) this(2,1,3)] obtain s2 where s2: "process_timers w s1 = Some s2" "tm_wf s2"
    "moved_down a t s1 s2" "lone a t s2" "clk s2 = clk s1" by blast
  have m: "moved_down a t s s2" using moved_down_kept [OF s1(3) s2(3) kept_refl] .
  have "a \<notin> set (root s2 u)" if "u \<in> set post" for u
  proof (cases "slot_of (ctime e AND wheel_mask w)")
    case (Some p)
    then obtain w' v' where "p = (w', v')" by (cases p)
    with slot_next [OF assms(7) [folded w_def], of w' v' tps] Some m assms(4,5) above [OF that] show ?thesis
      by (auto simp: moved_down_def w_def)
  qed (use m assms(4,5) in \<open>auto simp: moved_down_def w_def\<close>)
  then have "a \<notin> set (due u s2)" if "u \<in> set post" for u using that due_subset(1) by fastforce
  then obtain s3 where s3: "run_events process_timers post s2 = Some s3" "tm_wf s3" "kept a t s2 s3"
    using process_wheels_kept [OF s2(2,4)] by blast
  have "tm_process_tick_and_update_timers tps s = Some s3"
    by (simp add: process_wheels [OF assms(1)] ws run_events_append s1(1) s2(1) s3(1))
  moreover have "moved_down a t s s3" using moved_down_kept [OF kept_refl m s3(3)] .
  moreover have "clk s3 = clk s" "lone a t s3"
    using s1(3) s2(4,5) s3(3) by (simp_all add: kept_lone) (simp add: kept_def)
  ultimately show ?thesis using s3(2) by blast
qed

lemma tick_step:
  assumes "tm_wf s" "lone a t s" "clock_at tps N s" "armed tps a t D N s" "D < 2 ^ 32" "0 < unat tps"
  shows "\<exists>s'. update_times tps s = Some s' \<and> tm_wf s' \<and> lone a t s' \<and> clock_at tps (Suc N) s'
    \<and> (if Suc N = D then fired a t s' else armed tps a t D (Suc N) s')"
proof -
  from assms(4) obtain e x v where e: "apps s a = Some e" "at_timer e = Some t" "timers s t = Some x"
    "is_running x" "\<And>w. a \<in> set (root s w) \<longleftrightarrow> w = wheel_of x" "slot_of (ctime e) = Some (wheel_of x, v)"
    "N < unat (rt e) * tick_unit tps (wheel_of x)"
    "D = unat (rt e) * tick_unit tps (wheel_of x) + ticks_of tps (ctime e AND wheel_mask (wheel_of x))"
    by (auto simp: armed_def)
  define w where "w = wheel_of x"
  define s1 where "s1 = update_clk tps s"
  have ND: "Suc N \<le> D" using e(7,8) by linarith
  have w: "w \<noteq> WAIT_TIMERS" using slot_ticks [OF e(6)] by (simp add: w_def)
  have U: "0 < tick_unit tps w" using assms(6) by (auto simp: tick_unit_def split: wheel.split)
  have c1: "clock_at tps (Suc N) s1" unfolding s1_def
    using update_clk_clock [OF assms(3) _ assms(6)] ND assms(5) by simp
  then have cw: "unat (clk s1 u) = Suc N div tick_unit tps u" if "u \<noteq> WAIT_TIMERS" for u
    using that by (simp add: clock_at_def)
  have l1: "tm_wf s1" "lone a t s1" "entry_timer a s1 = Some t"
    using assms(1,2) e(1,2) by (simp_all add: s1_def) (simp add: entry_timer_def)
  have act: "w \<in> set (active_wheels tps s1) \<longleftrightarrow> tick_unit tps w dvd Suc N"
    using active_iff [OF c1 _ assms(6) w] by simp
  show ?thesis
  proof (cases "Suc N = unat (rt e) * tick_unit tps w")
    case True
    then have "w \<in> set (active_wheels tps s1)" "unat (rt e) = unat (clk s1 w)"
      using act cw [OF w] U by simp_all
    then have "w \<in> set (active_wheels tps s1)" "rt e = clk s1 w" by (simp_all add: word_unat_eq_iff)
    moreover have "timers_pending_for_service tps s1"
      using pending [OF l1(1), of a w] e(5) calculation(1) by (simp add: s1_def w_def)
    ultimately obtain s' where s': "update_times tps s = Some s'" "tm_wf s'" "lone a t s'" "clk s' = clk s1"
      "moved_down a t s1 s'"
      using tick_due [OF l1, of x e v tps] e by (auto simp: update_times_def s1_def [symmetric] w_def) (auto simp: s1_def)
    have c': "clock_at tps (Suc N) s'" using c1 s'(4) by (simp add: clock_at_def)
    show ?thesis
    proof (cases "slot_of (ctime e AND wheel_mask w)")
      case None
      then have "Suc N = D" using True e(8) by (simp add: w_def ticks_of_def get_defs)
      moreover have "fired a t s'"
        using s'(5) None e(1,3) by (auto simp: moved_down_def fired_def s1_def w_def)
      ultimately show ?thesis using s' c' by auto
    next
      case (Some p)
      obtain w' v' where p: "p = (w', v')" by (cases p)
      have n: "tick_unit tps w' dvd tick_unit tps w" using slot_next e(6) Some p unfolding w_def by blast
      have t': "v' \<noteq> 0" "w' \<noteq> WAIT_TIMERS" "ticks_of tps (ctime e AND wheel_mask w) =
          unat v' * tick_unit tps w' + ticks_of tps ((ctime e AND wheel_mask w) AND wheel_mask w')"
        using slot_ticks [OF Some [unfolded p], of tps] by blast+
      have al: "unat (clk s1 w') * tick_unit tps w' = Suc N"
        using cw [OF t'(2)] True n by (simp add: dvd_mult)
      have "unat (clk s1 w') + unat v' \<le> (unat (clk s1 w') + unat v') * tick_unit tps w'"
        using al by (cases "tick_unit tps w'") simp_all
      also have sum: "\<dots> = Suc N + unat v' * tick_unit tps w'" by (simp only: add_mult_distrib al)
      also have "\<dots> \<le> D" using True t'(3) e(8) by (simp add: w_def)
      finally have r: "unat (clk s1 w' + v') = unat (clk s1 w') + unat v'"
        using assms(5) by (simp add: unat_word_ariths)
      have "0 < unat v' * tick_unit tps w'" using al t'(1) by (auto simp: unat_gt_0 intro: Nat.gr0I)
      then have "Suc N < unat (clk s1 w' + v') * tick_unit tps w'" unfolding r sum by linarith
      moreover have "D = unat (clk s1 w' + v') * tick_unit tps w'
          + ticks_of tps ((ctime e AND wheel_mask w) AND wheel_mask w')"
        unfolding r sum using True t'(3) e(8) by (simp add: w_def)
      ultimately have "armed tps a t D (Suc N) s'"
        using s'(5) Some p e(1-3) unfolding armed_def moved_down_def by (auto simp: s1_def w_def)
      moreover from armed_before [OF this] have "Suc N \<noteq> D" by simp
      ultimately show ?thesis using s' c' by auto
    qed
  next
    case False
    then have lt: "Suc N < unat (rt e) * tick_unit tps w" using e(7) by (simp add: w_def)
    have nd: "a \<notin> set (due u s1)" if "u \<in> set (active_wheels tps s1)" for u
    proof
      assume "a \<in> set (due u s1)"
      then have "u = w" "rt e = clk s1 w" using e(1,5) due_subset(1) [of u s1]
        by (auto simp: due_def s1_def w_def)
      then show False using that act cw [OF w] False by (simp add: dvd_mult_div_cancel)
    qed
    obtain s' where s': "update_times tps s = Some s'" "tm_wf s'" "kept a t s1 s'"
    proof (cases "timers_pending_for_service tps s1")
      case True
      with process_wheels_kept [OF l1(1,2) nd] process_wheels [OF l1(1)] that show ?thesis
        by (auto simp: update_times_def s1_def [symmetric])
    qed (use that l1 kept_refl in \<open>auto simp: update_times_def s1_def [symmetric]\<close>)
    have "armed tps a t D (Suc N) s'"
      using s'(3) e lt unfolding armed_def by (auto simp: kept_def s1_def w_def)
    moreover have "clock_at tps (Suc N) s'" "lone a t s'"
      using c1 s'(3) l1 by (auto simp: kept_lone clock_at_def) (simp add: kept_def)
    moreover from armed_before [OF calculation(1)] have "Suc N \<noteq> D" by simp
    ultimately show ?thesis using s'(1,2) by auto
  qed
qed

text \<open>\<open>n\<close> ticks of the clock.\<close>

definition run_ticks :: "u32 \<Rightarrow> nat \<Rightarrow> tmr_state \<Rightarrow> tmr_state option" where
  "run_ticks tps n s = run_events (\<lambda>_. update_times tps) (replicate n ()) s"

lemma run_ticks_simps [simp]:
  "run_ticks tps 0 s = Some s" "run_ticks tps (Suc n) s = Option.bind (update_times tps s) (run_ticks tps n)"
  by (simp_all add: run_ticks_def) (rule arg_cong [where f = "Option.bind _"], simp add: fun_eq_iff run_ticks_def)

lemma run_ticks_armed:
  assumes "tm_wf s" "lone a t s" "clock_at tps N s" "armed tps a t D N s" "D < 2 ^ 32" "0 < unat tps"
    and "N + n < D"
  shows "\<exists>s'. run_ticks tps n s = Some s' \<and> tm_wf s' \<and> lone a t s' \<and> clock_at tps (N + n) s'
    \<and> armed tps a t D (N + n) s'"
  using assms
proof (induction n arbitrary: N s)
  case (Suc n)
  from tick_step [OF Suc.prems(1-6)] Suc.prems(7) obtain s1 where
    s1: "update_times tps s = Some s1" "tm_wf s1" "lone a t s1" "clock_at tps (Suc N) s1"
      "armed tps a t D (Suc N) s1" by auto
  with Suc.IH [OF s1(2-5) assms(5,6)] Suc.prems(7) show ?case by auto
qed simp

lemma run_ticks_fires:
  assumes "tm_wf s" "lone a t s" "clock_at tps N s" "armed tps a t D N s" "D < 2 ^ 32" "0 < unat tps"
  shows "\<exists>s'. run_ticks tps (D - N) s = Some s' \<and> fired a t s'"
  using assms
proof (induction "D - N" arbitrary: N s)
  case 0
  then show ?case using armed_before by fastforce
next
  case (Suc k)
  from tick_step [OF Suc.prems] obtain s1 where s1: "update_times tps s = Some s1" "tm_wf s1" "lone a t s1"
    "clock_at tps (Suc N) s1" "if Suc N = D then fired a t s1 else armed tps a t D (Suc N) s1" by blast
  show ?case
  proof (cases "Suc N = D")
    case True
    with s1 show ?thesis by (intro exI [of _ s1]) auto
  next
    case False
    with s1 Suc.hyps(1) [of "Suc N" s1] Suc.hyps(2) assms(5,6) have
      "\<exists>s'. run_ticks tps (D - Suc N) s1 = Some s' \<and> fired a t s'" by auto
    moreover have "D - N = Suc (D - Suc N)" using armed_before [OF Suc.prems(4)] by simp
    ultimately show ?thesis using s1(1) by simp
  qed
qed

section \<open>Arming a timer\<close>

lemma mod_timer_eq:
  fixes tps secs :: u32 and a :: nat
  assumes "timers s t = Some x"
  defines "ct \<equiv> pack_time tps 0 (secs * tps)"
    and "y \<equiv> x\<lparr>rmt := secs * tps, apptimer := Some a, exp_at := secs * tps + clk s TICK_W\<rparr>"
  shows "mod_timer tps (Some a) t secs s = Some (0, case slot_of ct of
      None \<Rightarrow> s\<lparr>apps := (apps s)(a \<mapsto> \<lparr>at_timer = Some t, ctime = ct, rt = 0\<rparr>),
             timers := (timers s)(t \<mapsto> y), tmr_count := tmr_count s + 1\<rparr>
    | Some (w, v) \<Rightarrow> s\<lparr>apps := (apps s)(a \<mapsto> \<lparr>at_timer = Some t, ctime = ct, rt = clk s w + v\<rparr>),
             timers := (timers s)(t \<mapsto> y\<lparr>wheel_of := w, is_running := True\<rparr>),
             root := (root s)(w := root s w @ [a]), tmr_count := tmr_count s + 1\<rparr>)"
  using assms(1)
  by (cases s; cases "slot_of ct")
    (auto simp: mod_timer_def tm_upd_def app_new_def app_upd_def calc_time_def entry_timer_def
      find_tmr_slot_and_place_def timer_add_def inc_count_def ct_def y_def)

text \<open>The unit, in ticks, of the wheel that a timer of \<open>secs\<close> seconds is placed on.\<close>

definition start_unit :: "u32 \<Rightarrow> u32 \<Rightarrow> nat" where
  "start_unit tps secs = (if secs < 60 then 1 else if secs < 3600 then 60 else 3600) * unat tps"

lemma slot_of_secs:
  assumes "0 < tps" "tps \<le> 1024" "0 < secs" "unat secs < 1024 * 3600" "unat secs * unat tps < 2 ^ 32"
  shows "\<exists>w v. slot_of (pack_time tps 0 (secs * tps)) = Some (w, v) \<and> tick_unit tps w = start_unit tps secs"
    and "ticks_of tps (pack_time tps 0 (secs * tps)) = unat secs * unat tps"
proof -
  have T: "unat (secs * tps) = unat secs * unat tps" using assms(5) by (simp add: unat_word_ariths)
  have "unat tps \<noteq> 0" using assms(1) by (simp add: unat_gt_0)
  then have d: "unat (secs * tps div tps) = unat secs" by (simp add: unat_div T)
  then have q: "secs * tps div tps = secs" by (simp add: word_unat_eq_iff)
  have h: "secs div 60 div 60 < 1024"
    using assms(4) by (simp add: word_less_nat_alt unat_div div_mult2_eq [symmetric])
  note f = pack_fields [OF assms(1,2), of "secs * tps", unfolded q, OF h]
  have z: "secs div 60 mod 60 = 0 \<longleftrightarrow> 60 dvd unat secs div 60" by (simp add: word_mod_0 unat_div)
  have z3: "secs div 60 div 60 = 0 \<longleftrightarrow> secs < 3600"
    by (simp add: word_less_nat_alt unat_div div_mult2_eq [symmetric] div_eq_0_iff flip: unat_eq_0)
  have m: "60 dvd unat secs div 60 \<longleftrightarrow> secs < 60" if "secs < 3600"
  proof -
    have "unat secs div 60 < 60" using that by (simp add: word_less_nat_alt)
    then have "60 dvd unat secs div 60 \<longleftrightarrow> unat secs div 60 = 0" by (auto dest: dvd_imp_le)
    then show ?thesis by (simp add: div_eq_0_iff word_less_nat_alt)
  qed
  have s: "secs mod 60 = secs" if "secs < 60"
    using that by (simp add: word_unat_eq_iff unat_mod word_less_nat_alt)
  show "\<exists>w v. slot_of (pack_time tps 0 (secs * tps)) = Some (w, v) \<and> tick_unit tps w = start_unit tps secs"
    using assms(3) m s le_less_trans [of secs 60 3600]
    by (auto simp: slot_of_def f z z3 start_unit_def tick_unit_def)
  show "ticks_of tps (pack_time tps 0 (secs * tps)) = unat secs * unat tps"
    using ticks_of_pack [OF assms(1,2), of "secs * tps"] h by (simp add: q T)
qed

lemma mod_timer_armed:
  assumes "tm_wf s" "clock_at tps N s" "timers s t = Some x" "\<forall>b. entry_timer b s \<noteq> Some t"
    and "\<forall>w. a \<notin> set (root s w)" "unat (tmr_count s) < 2 ^ 32 - 1"
    and "0 < tps" "tps \<le> 1024" "0 < secs" "unat secs < 1024 * 3600" "N + unat secs * unat tps < 2 ^ 32"
  defines "D \<equiv> N - N mod start_unit tps secs + unat secs * unat tps"
  shows "\<exists>s'. mod_timer tps (Some a) t secs s = Some (0, s') \<and> tm_wf s' \<and> lone a t s'
    \<and> clock_at tps N s' \<and> armed tps a t D N s'"
proof -
  define ct where "ct = pack_time tps 0 (secs * tps)"
  define y where "y = x\<lparr>rmt := secs * tps, apptimer := Some a, exp_at := secs * tps + clk s TICK_W\<rparr>"
  have T: "unat secs * unat tps < 2 ^ 32" using assms(11) by simp
  from slot_of_secs(1) [OF assms(7-10) T] obtain w v where
    wv: "slot_of ct = Some (w, v)" "tick_unit tps w = start_unit tps secs" unfolding ct_def by blast
  have tk: "unat v * tick_unit tps w + ticks_of tps (ct AND wheel_mask w) = unat secs * unat tps"
    and w: "w \<noteq> WAIT_TIMERS" "v \<noteq> 0"
    using slot_ticks [OF wv(1), of tps] slot_of_secs(2) [OF assms(7-10) T] by (simp_all add: ct_def)
  define s' where "s' = s\<lparr>apps := (apps s)(a \<mapsto> \<lparr>at_timer = Some t, ctime = ct, rt = clk s w + v\<rparr>),
             timers := (timers s)(t \<mapsto> y\<lparr>wheel_of := w, is_running := True\<rparr>),
             root := (root s)(w := root s w @ [a]), tmr_count := tmr_count s + 1\<rparr>"
  have m: "mod_timer tps (Some a) t secs s = Some (0, s')"
    by (simp add: mod_timer_eq [OF assms(3)] wv(1) [unfolded ct_def] s'_def ct_def y_def)
  have U: "0 < tick_unit tps w" using assms(7) by (auto simp: wv(2) start_unit_def unat_gt_0)
  have cw: "unat (clk s w) * tick_unit tps w = N - N mod start_unit tps secs"
    using assms(2) w(1) by (simp add: clock_at_def minus_mod_eq_div_mult wv(2))
  have "unat (clk s w) + unat v \<le> (unat (clk s w) + unat v) * tick_unit tps w" using U by simp
  also have "\<dots> = N - N mod start_unit tps secs + unat v * tick_unit tps w" by (simp only: add_mult_distrib cw)
  also have "\<dots> < 2 ^ 32" using tk assms(11) by linarith
  finally have r: "unat (clk s w + v) = unat (clk s w) + unat v" by (simp add: unat_word_ariths)
  have rD: "D = unat (clk s w + v) * tick_unit tps w + ticks_of tps (ct AND wheel_mask w)"
    unfolding r add_mult_distrib cw D_def using tk by linarith
  have "unat v * tick_unit tps w \<ge> tick_unit tps w" using w(2) by (simp add: Suc_le_eq unat_gt_0)
  moreover have "N mod start_unit tps secs < tick_unit tps w" using U by (simp add: wv(2))
  ultimately have "N < unat (clk s w + v) * tick_unit tps w" unfolding r add_mult_distrib cw by linarith
  then have "armed tps a t D N s'"
    using wv(1) assms(5) rD by (auto simp: armed_def s'_def)
  moreover have "clock_at tps N s'" using assms(2) by (simp add: clock_at_def s'_def)
  moreover have "lone a t s'" using assms(4) by (simp add: lone_def s'_def entry_timer_def)
  moreover have "tm_wf s'"
  proof (rule tm_wfI [OF assms(1), where b = a and t = t and y = "y\<lparr>wheel_of := w, is_running := True\<rparr>"])
    have "entries s' = Suc (entries s)" using w(1) by (cases w) (simp_all add: entries_def s'_def)
    moreover have "unat (tmr_count s') = Suc (unat (tmr_count s))"
      using assms(6) by (simp add: s'_def unat_inc)
    ultimately show "entries s' \<le> unat (tmr_count s')" using assms(1) by (simp add: tm_wf_def)
  qed (use assms(1,5) w(1) in \<open>auto simp: s'_def tm_wf_def entry_ok_def split: if_splits\<close>)
  ultimately show ?thesis using m by blast
qed

text \<open>
  C11. When a timer fires. A timer of \<open>secs\<close> seconds, armed \<open>N\<close> ticks after start-up, is running until
  the deadline and its entry is handed to the handler task exactly \<open>secs * tps - N mod U\<close> ticks later,
  where \<open>U\<close> is the unit (second, minute or hour) of the wheel it starts on: it fires early by the part
  of that unit that has already passed.
\<close>

theorem timer_fires_at_deadline:
  assumes "tm_wf s" "clock_at tps N s" "timers s t = Some x" "\<forall>b. entry_timer b s \<noteq> Some t"
    and "\<forall>w. a \<notin> set (root s w)" "unat (tmr_count s) < 2 ^ 32 - 1"
    and "0 < tps" "tps \<le> 1024" "0 < secs" "unat secs < 1024 * 3600" "N + unat secs * unat tps < 2 ^ 32"
  shows "\<exists>s1. mod_timer tps (Some a) t secs s = Some (0, s1)
    \<and> (\<forall>n < unat secs * unat tps - N mod start_unit tps secs.
         \<exists>s'. run_ticks tps n s1 = Some s' \<and> timer_pending t s' = Some True)
    \<and> (\<exists>s'. run_ticks tps (unat secs * unat tps - N mod start_unit tps secs) s1 = Some s' \<and> fired a t s')"
proof -
  define D where "D = N - N mod start_unit tps secs + unat secs * unat tps"
  from mod_timer_armed [OF assms] obtain s1 where s1: "mod_timer tps (Some a) t secs s = Some (0, s1)"
    "tm_wf s1" "lone a t s1" "clock_at tps N s1" "armed tps a t D N s1" unfolding D_def by blast
  have tps: "0 < unat tps" using assms(7) by (simp add: unat_gt_0)
  have D: "D < 2 ^ 32" "D - N = unat secs * unat tps - N mod start_unit tps secs"
    using assms(11) mod_less_eq_dividend [of N "start_unit tps secs"] by (simp_all add: D_def)
  have "\<exists>s'. run_ticks tps n s1 = Some s' \<and> timer_pending t s' = Some True" if "n < D - N" for n
  proof -
    have "N + n < D" using that by simp
    with run_ticks_armed [OF s1(2-5) D(1) tps] obtain s' where "run_ticks tps n s1 = Some s'"
      "armed tps a t D (N + n) s'" by blast
    then show ?thesis by (auto simp: armed_def timer_pending_def)
  qed
  then show ?thesis
    using run_ticks_fires [OF s1(2-5) D(1) tps] s1(1) unfolding D(2) by blast
qed

text \<open>One idle timer at address 0, 59.99 seconds after start-up, with 100 ticks per second.\<close>

definition example_tmr :: tmr_state where
  "example_tmr = snd (setup_timer (Some 0) \<lparr>clk = (\<lambda>w. case w of TICK_W \<Rightarrow> 5999 | SEC_W \<Rightarrow> 59 | _ \<Rightarrow> 0),
     root = (\<lambda>_. []), tmr_count = 0, timers = (\<lambda>_. None), apps = (\<lambda>_. None), expd_tmrs = []\<rparr>)"

lemma example_tmr_ok:
  "tm_wf example_tmr" "clock_at 100 5999 example_tmr" "timers example_tmr 0 \<noteq> None"
  "entry_timer b example_tmr = None" "root example_tmr w = []" "tmr_count example_tmr = 0"
  by (simp_all add: example_tmr_def setup_timer_def tm_wf_def entries_def clock_at_def tick_unit_def
      entry_timer_def split: wheel.split)

theorem timer_fires_at_deadline_witness:
  "\<exists>s1 s'. mod_timer 100 (Some 1) 0 60 example_tmr = Some (0, s1) \<and> run_ticks 100 1 s1 = Some s' \<and> fired 1 0 s'"
proof -
  from example_tmr_ok(3) obtain x where "timers example_tmr 0 = Some x" by blast
  from timer_fires_at_deadline [OF example_tmr_ok(1,2) this, of 1 60] show ?thesis
    by (auto simp: example_tmr_ok start_unit_def)
qed



section \<open>Misuse that the interface allows\<close>

text \<open>
  A timer that its own handler arms again cannot be cancelled: after the handler has returned,
  \<open>process_expd_timers\<close> clears the timer's reference to its entry, so the timer is pending, its entry
  is on a wheel, and \<open>del_timer\<close> does nothing.
\<close>

theorem rearmed_timer_not_cancelled:
  assumes "apps s a = Some e" "at_timer e = Some t" "timers s t = Some x" "tm_flags x = TIMER_FOREVER"
    and "a \<noteq> b" "slot_of (pack_time tps 0 (secs * tps)) \<noteq> None"
  shows "\<exists>s'. run_expired (\<lambda>t s. map_option snd (mod_timer tps (Some b) t secs s)) tps m a s = Some s'
    \<and> timer_pending t s' = Some True \<and> entry_timer b s' = Some t \<and> (\<exists>w. b \<in> set (root s' w))
    \<and> del_timer t s' = Some s'"
proof -
  from assms(6) obtain w v where "slot_of (pack_time tps 0 (secs * tps)) = Some (w, v)" by fastforce
  then show ?thesis using assms(1-5)
    by (auto simp: run_expired_def entry_timer_def mod_timer_eq [OF assms(3)] tm_upd_def flag_on_def
        timer_pending_def del_timer_def)
qed

theorem rearmed_timer_not_cancelled_witness:
  "\<exists>s'. run_expired (\<lambda>t s. map_option snd (mod_timer 100 (Some 2) t 1 s)) 100 (\<lambda>_. None) 1
      (example_tmr\<lparr>apps := [1 \<mapsto> \<lparr>at_timer = Some 0, ctime = 0, rt = 0\<rparr>]\<rparr>) = Some s'
    \<and> timer_pending 0 s' = Some True \<and> del_timer 0 s' = Some s'"
proof -
  let ?s = "example_tmr\<lparr>apps := [1 \<mapsto> \<lparr>at_timer = Some 0, ctime = 0, rt = 0\<rparr>]\<rparr>"
  obtain x where x: "timers ?s 0 = Some x" "tm_flags x = TIMER_FOREVER"
    by (auto simp: example_tmr_def setup_timer_def)
  have "slot_of (pack_time 100 0 (1 * 100)) \<noteq> None" by (simp add: pack_time_def)
  then show ?thesis
    using rearmed_timer_not_cancelled [of ?s 1 _ 0 x 2 100 1 "\<lambda>_. None", OF _ _ x] by auto
qed

text \<open>
  Arming a timer that is already armed leaves its first entry behind: a cancellation afterwards
  takes only the second entry off the wheels, and the first one is still there to fire.
\<close>

theorem armed_twice_not_cancelled:
  assumes "mod_timer tps (Some a) t secs s = Some (0, s1)" "mod_timer tps (Some b) t secs' s1 = Some (0, s2)"
    and "slot_of (pack_time tps 0 (secs * tps)) \<noteq> None" "slot_of (pack_time tps 0 (secs' * tps)) \<noteq> None"
    and "a \<noteq> b"
  shows "\<exists>s3 w. del_timer t s2 = Some s3 \<and> timer_pending t s3 = Some False \<and> entry_timer a s3 = Some t
    \<and> a \<in> set (root s3 w)"
proof -
  from assms(1) obtain x where x: "timers s t = Some x"
    by (auto simp: mod_timer_def tm_upd_def app_new_def split: bind_splits)
  from assms(3,4) obtain w v w' v' where "slot_of (pack_time tps 0 (secs * tps)) = Some (w, v)"
    "slot_of (pack_time tps 0 (secs' * tps)) = Some (w', v')" by fastforce
  moreover from this(1) assms(1) x have s1: "timers s1 t \<noteq> None" "a \<in> set (root s1 w)" "entry_timer a s1 = Some t"
    by (auto simp: mod_timer_eq [OF x] entry_timer_def)
  ultimately show ?thesis using assms(2,5)
    by (auto simp: mod_timer_eq del_timer_def stop_timer_def timer_del_def tm_upd_def timer_pending_def
        entry_timer_def intro!: exI [of _ w])
qed

theorem armed_twice_not_cancelled_witness:
  "\<exists>s1 s2 s3 w. mod_timer 100 (Some 1) 0 5 example_tmr = Some (0, s1) \<and> mod_timer 100 (Some 2) 0 9 s1 = Some (0, s2)
    \<and> del_timer 0 s2 = Some s3 \<and> timer_pending 0 s3 = Some False \<and> 1 \<in> set (root s3 w)"
proof -
  obtain x where x: "timers example_tmr 0 = Some x" using example_tmr_ok(3) by blast
  obtain s1 where s1: "mod_timer 100 (Some 1) 0 5 example_tmr = Some (0, s1)" by (simp add: mod_timer_eq [OF x])
  then have "timers s1 0 \<noteq> None" by (auto simp: mod_timer_eq [OF x] split: option.splits)
  then obtain y where "timers s1 0 = Some y" by blast
  then obtain s2 where s2: "mod_timer 100 (Some 2) 0 9 s1 = Some (0, s2)" by (simp add: mod_timer_eq)
  have "slot_of (pack_time 100 0 (5 * 100)) \<noteq> None" "slot_of (pack_time 100 0 (9 * 100)) \<noteq> None"
    by (simp_all add: pack_time_def)
  then show ?thesis using armed_twice_not_cancelled [OF s1 s2] s1 s2 by fastforce
qed

text \<open>
  A repeated timer faults when it expires: \<open>timer_restart\<close> computes the time of a fresh entry
  before anything connects the entry to its timer.
\<close>

theorem repeated_timer_faults:
  assumes "expd_tmrs s = a # as" "entry_timer a s = Some t" "h t s = Some s2" "timers s2 t = Some x"
    and "\<not> flag_on TIMER_ONCE (tm_flags x)" "flag_on TIMER_REPEAT (tm_flags x)" "m a = Some b"
  shows "btm_hlf h tps m s = None"
  using assms
  by (simp add: btm_hlf_def process_expd_timers_def run_expired_def tm_upd_def timer_restart_def app_new_def
      calc_time_def entry_timer_def)

theorem repeated_timer_faults_witness:
  "btm_hlf (\<lambda>_. Some) 100 (\<lambda>_. Some 7) (example_tmr\<lparr>
      timers := [0 \<mapsto> timer_zero\<lparr>tm_flags := TIMER_REPEAT\<rparr>],
      apps := [1 \<mapsto> \<lparr>at_timer = Some 0, ctime = 0, rt = 0\<rparr>], expd_tmrs := [1]\<rparr>) = None"
proof -
  let ?x = "timer_zero\<lparr>tm_flags := TIMER_REPEAT\<rparr>"
  let ?s = "example_tmr\<lparr>timers := [0 \<mapsto> ?x],
      apps := [1 \<mapsto> \<lparr>at_timer = Some 0, ctime = 0, rt = 0\<rparr>], expd_tmrs := [1]\<rparr>"
  show ?thesis
    using repeated_timer_faults [of ?s 1 "[]" 0 "\<lambda>_. Some" ?s ?x "\<lambda>_. Some 7" 7 100]
    by (simp add: entry_timer_def flag_on_def)
qed

end
