(* ===== verification/Timer_View.thy ===== *)
theory Timer_View
  imports Timer_Run
begin

unbundle bit_operations_syntax

text \<open>
  A timer as its owner sees it. The spanning tree code reads a timer only through \<open>timer_pending\<close>
  and \<open>timer_get_remaining_time\<close>, and changes it through \<open>mod_timer\<close> and \<open>del_timer\<close>; what these
  do to a \<open>TIMER_T\<close> is given here on three of its fields, and the operations of the timer service
  refine it.
\<close>

record tmr_view =
  tv_running :: bool
  tv_exp :: u32
  tv_entry :: bool

definition view_of :: "tm_timer \<Rightarrow> tmr_view" where
  "view_of x = \<lparr>tv_running = is_running x, tv_exp = exp_at x, tv_entry = apptimer x \<noteq> None\<rparr>"

definition tv_new :: tmr_view where
  "tv_new = \<lparr>tv_running = False, tv_exp = 0, tv_entry = False\<rparr>"

definition tv_mod :: "u32 \<Rightarrow> u32 \<Rightarrow> u32 \<Rightarrow> tmr_view \<Rightarrow> tmr_view" where
  "tv_mod tps now secs v = \<lparr>tv_running = (tv_running v \<or> pack_time tps 0 (secs * tps) \<noteq> 0),
     tv_exp = secs * tps + now, tv_entry = True\<rparr>"

definition tv_del :: "tmr_view \<Rightarrow> tmr_view" where
  "tv_del v = (if tv_entry v \<and> tv_running v then v\<lparr>tv_running := False\<rparr> else v)"

definition tv_remaining :: "u32 \<Rightarrow> tmr_view \<Rightarrow> u32" where
  "tv_remaining now v = (if \<not> tv_running v then 0
     else let d = tv_exp v - now in if sint d < 0 then 0 else d)"

text \<open>The timer's entry is taken off the wheels, and later its handler has run.\<close>

definition tv_elapsed :: "tmr_view \<Rightarrow> tmr_view" where
  "tv_elapsed v = v\<lparr>tv_running := False\<rparr>"

definition tv_served :: "tmr_view \<Rightarrow> tmr_view" where
  "tv_served v = v\<lparr>tv_entry := False\<rparr>"

text \<open>The view of the timer at \<open>t\<close>, \<open>None\<close> when it has been released.\<close>

definition tm_view :: "nat \<Rightarrow> tmr_state \<Rightarrow> tmr_view option" where
  "tm_view t s = map_option view_of (timers s t)"

text \<open>
  C22. The timer service refines the owner's view of a timer: arming, cancelling, the remaining time
  and the test for a pending timer compute on the view, and leave the views of all other timers
  alone.
\<close>

theorem timer_service_refines_view:
  assumes "tm_view t s = Some v"
  shows "(\<forall>a secs s'. mod_timer tps (Some a) t secs s = Some (0, s') \<longrightarrow>
      tm_view t s' = Some (tv_mod tps (clk s TICK_W) secs v) \<and> (\<forall>u. u \<noteq> t \<longrightarrow> tm_view u s' = tm_view u s))
    \<and> (\<forall>s'. del_timer t s = Some s' \<longrightarrow>
      tm_view t s' = Some (tv_del v) \<and> (\<forall>u. u \<noteq> t \<longrightarrow> tm_view u s' = tm_view u s))
    \<and> timer_pending t s = Some (tv_running v)
    \<and> timer_get_remaining_time t s = Some (tv_remaining (clk s TICK_W) v)"
proof -
  from assms obtain x where x: "timers s t = Some x" and v: "v = view_of x" by (auto simp: tm_view_def)
  have "tm_view t s' = Some (tv_mod tps (clk s TICK_W) secs v) \<and> (\<forall>u. u \<noteq> t \<longrightarrow> tm_view u s' = tm_view u s)"
    if "mod_timer tps (Some a) t secs s = Some (0, s')" for a secs s'
    using that by (auto simp: mod_timer_eq [OF x] tm_view_def tv_mod_def view_of_def v split: option.splits)
  moreover have "tm_view t s' = Some (tv_del v) \<and> (\<forall>u. u \<noteq> t \<longrightarrow> tm_view u s' = tm_view u s)"
    if "del_timer t s = Some s'" for s'
    using that x by (auto simp: del_timer_def stop_timer_def timer_del_def tm_upd_def tm_view_def tv_del_def
        view_of_def v split: option.splits if_splits)
  moreover have "timer_pending t s = Some (tv_running v)"
    "timer_get_remaining_time t s = Some (tv_remaining (clk s TICK_W) v)"
    using x by (simp_all add: timer_pending_def timer_get_remaining_time_def tv_remaining_def view_of_def v)
  ultimately show ?thesis by blast
qed

theorem timer_service_refines_view_witness:
  "\<exists>s'. mod_timer 100 (Some 1) 0 60 example_tmr = Some (0, s')
    \<and> tm_view 0 s' = Some \<lparr>tv_running = True, tv_exp = 11999, tv_entry = True\<rparr>"
proof -
  obtain x where x: "timers example_tmr 0 = Some x" "view_of x = tv_new"
    by (auto simp: example_tmr_def setup_timer_def view_of_def timer_zero_def tv_new_def)
  then have v: "tm_view 0 example_tmr = Some tv_new" by (simp add: tm_view_def)
  obtain s' where s': "mod_timer 100 (Some 1) 0 60 example_tmr = Some (0, s')" by (simp add: mod_timer_eq [OF x(1)])
  have "clk example_tmr TICK_W = 5999" by (simp add: example_tmr_def setup_timer_def)
  with timer_service_refines_view [OF v, of 100] s' show ?thesis
    by (auto simp: tv_mod_def pack_time_def)
qed

end
