(* ===== verification/Stp_Model.thy ===== *)
theory Stp_Model
  imports Timer_View
begin

unbundle bit_operations_syntax

text \<open>
  The spanning tree protocol of \<open>src/src/bridge/stp\<close>: \<open>stp_main.c\<close>, \<open>stp_if.c\<close>, \<open>stp_timer.c\<close> and
  \<open>llc.c\<close>. One instance is a record with its ports, which the code reaches through the list
  \<open>port_list\<close>; a timer of a port or of the instance is its owner's view of it (theory \<open>Timer_View\<close>).
  A function that may dereference the null result of a port lookup returns an option.

  The fields that the code writes and never reads (\<open>tolpolgy_changes\<close>, \<open>protocol_spec\<close>, \<open>priority\<close>,
  \<open>timesinceTC\<close> and \<open>hold_time\<close> of an instance, \<open>fwdtransitions\<close> of a port) are left out.
\<close>

section \<open>Data\<close>

datatype stp_state = DISABLED | LISTENING | LEARNING | FORWARDING | BLOCKING

text \<open>\<open>BRIDGEID\<close>, and its bytes in memory.\<close>

datatype bid = BID (bid_prio: u16) (bid_addr: macaddress)

definition bid_bytes :: "bid \<Rightarrow> u8 list" where
  "bid_bytes b = [byte_of 0 (bid_prio b), byte_of 1 (bid_prio b)] @ mac_bytes (bid_addr b)"

definition bid_cmp :: "bid \<Rightarrow> bid \<Rightarrow> int" where
  "bid_cmp a b = memcmp (bid_bytes a) (bid_bytes b)"

record stp_port_entry =
  sp_priority :: int
  sp_state :: stp_state
  sp_designated_cost :: u32
  sp_path_cost :: u32
  sp_designated_root :: bid
  sp_designated_bridge :: bid
  sp_forward_delay_timer :: tmr_view
  sp_hold_timer :: tmr_view
  sp_message_age_timer :: tmr_view
  sp_designated_port :: u16
  sp_port_id :: u16
  sp_port_no :: u32
  sp_topology_change_ack :: u8
  sp_config_pending :: bool
  sp_is_own_bpdu :: bool
  sp_enabled :: bool

record stp_instance =
  br_stp_enabled :: int
  br_designated_root :: bid
  br_bridge_id :: bid
  br_max_age :: u32
  br_hello_time :: u32
  br_forward_delay :: u32
  br_bridge_max_age :: u32
  br_bridge_hello_time :: u32
  br_bridge_forward_delay :: u32
  br_hello_timer :: tmr_view
  br_tcn_timer :: tmr_view
  br_topology_change_timer :: tmr_view
  br_root_path_cost :: u32
  br_root_port :: u32
  br_vlan_id :: u16
  br_topology_change :: u8
  br_topology_change_detected :: bool
  br_ports :: "nat \<Rightarrow> stp_port_entry"
  br_port_list :: "nat list"
  br_freed :: "nat list"
  br_ifinfo :: "u32 \<Rightarrow> nat option"
  br_sent :: "(u32 \<times> u8 list) list"

record stp_bpdu =
  bpdu_type :: u8
  bpdu_flags :: u8
  bpdu_root_id :: bid
  bpdu_root_path_cost :: u32
  bpdu_bridge_id :: bid
  bpdu_port_id :: u16
  bpdu_message_age :: u16
  bpdu_max_age :: u16
  bpdu_hello_time :: u16
  bpdu_forward_delay :: u16

text \<open>
  What the surroundings provide during a call: the clock and the ticks per second, whether memory for
  a timer entry and for a packet could be had, the content of the uninitialised \<open>bpdu.flags\<close> of
  \<open>stp_transmit_config\<close>, the state and the address of the interfaces, and the address of the bridge.
\<close>

record stp_env =
  se_now :: u32
  se_tps :: u32
  se_timer_mem :: bool
  se_pkt_mem :: bool
  se_flags :: u8
  se_oper_state :: "u32 \<Rightarrow> int"
  se_port_mac :: "u32 \<Rightarrow> macaddress"
  se_bridge_addr :: macaddress

abbreviation (input) "STP_ENABLED \<equiv> 1 :: int"
abbreviation (input) "TC_BIT \<equiv> 0x01 :: u8"
abbreviation (input) "TC_ACK_BIT \<equiv> 0x80 :: u8"
abbreviation (input) "BPDU_TC_TYPE \<equiv> 0x80 :: u8"
abbreviation (input) "BPDU_CONFIG_TYPE \<equiv> 0x00 :: u8"

definition supd :: "nat \<Rightarrow> (stp_port_entry \<Rightarrow> stp_port_entry) \<Rightarrow> stp_instance \<Rightarrow> stp_instance" where
  "supd i f br = br\<lparr>br_ports := (br_ports br)(i := f (br_ports br i))\<rparr>"

definition stp_mod :: "stp_env \<Rightarrow> u32 \<Rightarrow> tmr_view \<Rightarrow> tmr_view" where
  "stp_mod env secs v = (if se_timer_mem env then tv_mod (se_tps env) (se_now env) secs v else v)"

section \<open>Frames\<close>

text \<open>\<open>llc_mac_hdr_init\<close>, \<open>llc_pdu_header_init\<close> and \<open>llc_pdu_init_as_ui_cmd\<close> as \<open>stp_send_bpdu\<close> calls them.\<close>

definition llc_mac_hdr_init :: "macaddress \<Rightarrow> macaddress \<Rightarrow> u16 \<Rightarrow> u16 \<Rightarrow> u8 list" where
  "llc_mac_hdr_init daddr saddr ty len =
    (let t = htons (if ty \<noteq> 0x0001 \<and> ty \<noteq> 0x0004 then ty else len)
     in mac_bytes daddr @ mac_bytes saddr @ [byte_of 0 t, byte_of 1 t])"

definition llc_pdu_header_init :: "u8 \<Rightarrow> u8 \<Rightarrow> u8 \<Rightarrow> u8 list" where
  "llc_pdu_header_init ssap dsap cr = [dsap, ssap OR cr]"

definition llc_pdu_init_as_ui_cmd :: "u8 list" where
  "llc_pdu_init_as_ui_cmd = [0x03 OR 0x00]"

definition br_group_address :: macaddress where
  "br_group_address = MAC 0x01 0x80 0xc2 0x00 0x00 0x00"

definition stp_send_bpdu :: "stp_env \<Rightarrow> nat \<Rightarrow> u8 list \<Rightarrow> stp_instance \<Rightarrow> stp_instance" where
  "stp_send_bpdu env i data br =
    (let port_no = sp_port_no (br_ports br i);
         pkt = llc_mac_hdr_init br_group_address (se_port_mac env port_no) 0x4 (of_nat (length data) + 3)
             @ llc_pdu_header_init 0x42 0x42 0x00 @ llc_pdu_init_as_ui_cmd @ data
     in if se_pkt_mem env then br\<lparr>br_sent := br_sent br @ [(port_no, pkt)]\<rparr> else br)"

definition stp_encode_bpdu :: "stp_bpdu \<Rightarrow> stp_bpdu" where
  "stp_encode_bpdu c = c\<lparr>
     bpdu_root_id := BID (htons (bid_prio (bpdu_root_id c))) (bid_addr (bpdu_root_id c)),
     bpdu_bridge_id := BID (htons (bid_prio (bpdu_bridge_id c))) (bid_addr (bpdu_bridge_id c)),
     bpdu_root_path_cost := htonl (bpdu_root_path_cost c), bpdu_message_age := htons (bpdu_message_age c),
     bpdu_max_age := htons (bpdu_max_age c), bpdu_hello_time := htons (bpdu_hello_time c),
     bpdu_forward_delay := htons (bpdu_forward_delay c)\<rparr>"

definition stp_decode_bpdu :: "stp_bpdu \<Rightarrow> stp_bpdu" where
  "stp_decode_bpdu c = c\<lparr>
     bpdu_root_id := BID (ntohs (bid_prio (bpdu_root_id c))) (bid_addr (bpdu_root_id c)),
     bpdu_bridge_id := BID (ntohs (bid_prio (bpdu_bridge_id c))) (bid_addr (bpdu_bridge_id c)),
     bpdu_root_path_cost := ntohl (bpdu_root_path_cost c), bpdu_message_age := ntohs (bpdu_message_age c),
     bpdu_max_age := ntohs (bpdu_max_age c), bpdu_hello_time := ntohs (bpdu_hello_time c),
     bpdu_forward_delay := ntohs (bpdu_forward_delay c), bpdu_port_id := ntohs (bpdu_port_id c)\<rparr>"

text \<open>The 35 bytes that \<open>stp_send_config_bpdu\<close> writes: \<open>memcpy\<close> of a field, or its bytes by shifts.\<close>

definition config_bytes :: "stp_bpdu \<Rightarrow> u8 list" where
  "config_bytes c = [0, 0, 0, BPDU_CONFIG_TYPE, bpdu_flags c]
     @ [byte_of 0 (bid_prio (bpdu_root_id c)), byte_of 1 (bid_prio (bpdu_root_id c))]
     @ mac_bytes (bid_addr (bpdu_root_id c))
     @ [byte_of 3 (bpdu_root_path_cost c), byte_of 2 (bpdu_root_path_cost c),
        byte_of 1 (bpdu_root_path_cost c), byte_of 0 (bpdu_root_path_cost c)]
     @ [byte_of 0 (bid_prio (bpdu_bridge_id c)), byte_of 1 (bid_prio (bpdu_bridge_id c))]
     @ mac_bytes (bid_addr (bpdu_bridge_id c))
     @ [byte_of 1 (bpdu_port_id c), byte_of 0 (bpdu_port_id c)]
     @ [byte_of 0 (bpdu_message_age c), byte_of 1 (bpdu_message_age c)]
     @ [byte_of 0 (bpdu_max_age c), byte_of 1 (bpdu_max_age c)]
     @ [byte_of 0 (bpdu_hello_time c), byte_of 1 (bpdu_hello_time c)]
     @ [byte_of 0 (bpdu_forward_delay c), byte_of 1 (bpdu_forward_delay c)]"

definition stp_send_config_bpdu :: "stp_env \<Rightarrow> nat \<Rightarrow> stp_bpdu \<Rightarrow> stp_instance \<Rightarrow> stp_instance" where
  "stp_send_config_bpdu env i c br =
    (if br_stp_enabled br \<noteq> STP_ENABLED then br else stp_send_bpdu env i (config_bytes c) br)"

definition stp_send_tcn_bpdu :: "stp_env \<Rightarrow> nat option \<Rightarrow> stp_instance \<Rightarrow> stp_instance" where
  "stp_send_tcn_bpdu env p br =
    (case p of
       None \<Rightarrow> br
     | Some i \<Rightarrow> if br_stp_enabled br \<noteq> STP_ENABLED then br
                 else stp_send_bpdu env i [0, 0, 0, BPDU_TC_TYPE] br)"

section \<open>Comparisons\<close>

definition stp_is_root_bridge :: "stp_instance \<Rightarrow> bool" where
  "stp_is_root_bridge br \<longleftrightarrow> bid_cmp (br_bridge_id br) (br_designated_root br) = 0"

definition stp_is_designated_port :: "stp_instance \<Rightarrow> stp_port_entry \<Rightarrow> bool" where
  "stp_is_designated_port br p \<longleftrightarrow> bid_cmp (sp_designated_bridge p) (br_bridge_id br) = 0
     \<and> sp_designated_port p = sp_port_id p"

definition stp_get_port :: "stp_instance \<Rightarrow> u16 \<Rightarrow> nat option" where
  "stp_get_port br port_no = find (\<lambda>i. sp_port_no (br_ports br i) = ucast port_no) (br_port_list br)"

definition stp_get_port_info :: "stp_instance \<Rightarrow> u32 \<Rightarrow> nat option" where
  "stp_get_port_info br port = find (\<lambda>i. sp_port_no (br_ports br i) = port) (br_port_list br)"

definition path_cost_via :: "stp_port_entry \<Rightarrow> int" where
  "path_cost_via p = sint (sp_designated_cost p + sp_path_cost p)"

text \<open>The comparison of a port with the best one so far, from the root identifiers on.\<close>

definition better_root_port :: "stp_port_entry \<Rightarrow> stp_port_entry \<Rightarrow> bool" where
  "better_root_port p rp =
    (let t = bid_cmp (sp_designated_root p) (sp_designated_root rp) in
     if t < 0 then True else if t > 0 then False
     else if path_cost_via p < path_cost_via rp then True
     else if path_cost_via p > path_cost_via rp then False
     else let t = bid_cmp (sp_designated_bridge p) (sp_designated_bridge rp) in
     if t < 0 then True else if t > 0 then False
     else if sp_designated_port p < sp_designated_port rp then True
     else if sp_designated_port p > sp_designated_port rp then False
     else sp_port_id p < sp_port_id rp)"

definition stp_should_become_root_port :: "stp_instance \<Rightarrow> stp_port_entry \<Rightarrow> u16 \<Rightarrow> bool option" where
  "stp_should_become_root_port br p root_port =
    (if sp_state p = DISABLED \<or> stp_is_designated_port br p then Some False
     else if bid_cmp (br_bridge_id br) (sp_designated_root p) \<le> 0 then Some False
     else if root_port = 0 then Some True
     else map_option (\<lambda>r. better_root_port p (br_ports br r)) (stp_get_port br root_port))"

fun select_root :: "stp_instance \<Rightarrow> nat list \<Rightarrow> u16 \<Rightarrow> u16 option" where
  "select_root br [] root_port = Some root_port"
| "select_root br (i # is) root_port =
    (if sp_is_own_bpdu (br_ports br i) then select_root br is root_port
     else do {
       b \<leftarrow> stp_should_become_root_port br (br_ports br i) root_port;
       select_root br is (if b then ucast (sp_port_no (br_ports br i)) else root_port)
     })"

definition stp_root_selection :: "stp_instance \<Rightarrow> stp_instance option" where
  "stp_root_selection br = do {
     root_port \<leftarrow> select_root br (br_port_list br) 0;
     let br = br\<lparr>br_root_port := ucast root_port\<rparr>;
     if root_port = 0
     then Some (br\<lparr>br_designated_root := br_bridge_id br, br_root_path_cost := 0\<rparr>)
     else do {
       i \<leftarrow> stp_get_port br root_port;
       let p = br_ports br i;
       Some (br\<lparr>br_designated_root := sp_designated_root p,
                br_root_path_cost := sp_designated_cost p + sp_path_cost p\<rparr>)
     }
   }"

definition stp_become_designated_port :: "nat \<Rightarrow> stp_instance \<Rightarrow> stp_instance" where
  "stp_become_designated_port i br = supd i (\<lambda>p. p\<lparr>sp_designated_root := br_designated_root br,
     sp_designated_cost := br_root_path_cost br, sp_designated_bridge := br_bridge_id br,
     sp_designated_port := sp_port_id p\<rparr>) br"

definition stp_should_become_designated_port :: "stp_instance \<Rightarrow> stp_port_entry \<Rightarrow> bool" where
  "stp_should_become_designated_port br p =
    (if stp_is_designated_port br p then True
     else if bid_cmp (sp_designated_root p) (br_designated_root br) \<noteq> 0 then True
     else if sint (br_root_path_cost br) < sint (sp_designated_cost p) then True
     else if sint (br_root_path_cost br) > sint (sp_designated_cost p) then False
     else let t = bid_cmp (br_bridge_id br) (sp_designated_bridge p) in
     if t < 0 then True else if t > 0 then False
     else sp_port_id p < sp_designated_port p)"

definition designate :: "nat \<Rightarrow> stp_instance \<Rightarrow> stp_instance" where
  "designate i br =
    (if sp_state (br_ports br i) \<noteq> DISABLED \<and> stp_should_become_designated_port br (br_ports br i)
     then stp_become_designated_port i br else br)"

definition stp_designated_port_selection :: "stp_instance \<Rightarrow> stp_instance" where
  "stp_designated_port_selection br = fold designate (br_port_list br) br"

definition stp_configuration_update :: "stp_instance \<Rightarrow> stp_instance option" where
  "stp_configuration_update br = map_option stp_designated_port_selection (stp_root_selection br)"

section \<open>Transmission and topology changes\<close>

definition config_of :: "stp_env \<Rightarrow> nat \<Rightarrow> u16 \<Rightarrow> stp_instance \<Rightarrow> stp_bpdu" where
  "config_of env i age br = \<lparr>bpdu_type = 0,
     bpdu_flags = se_flags env OR br_topology_change br OR sp_topology_change_ack (br_ports br i),
     bpdu_root_id = br_designated_root br, bpdu_root_path_cost = br_root_path_cost br,
     bpdu_bridge_id = br_bridge_id br, bpdu_port_id = sp_port_id (br_ports br i), bpdu_message_age = age,
     bpdu_max_age = ucast (br_max_age br), bpdu_hello_time = ucast (br_hello_time br),
     bpdu_forward_delay = ucast (br_forward_delay br)\<rparr>"

definition stp_transmit_config :: "stp_env \<Rightarrow> nat \<Rightarrow> stp_instance \<Rightarrow> stp_instance option" where
  "stp_transmit_config env i br =
    (if tv_running (sp_hold_timer (br_ports br i))
     then Some (supd i (\<lambda>p. p\<lparr>sp_config_pending := True\<rparr>) br)
     else do {
       age \<leftarrow> (if stp_is_root_bridge br then Some (0 :: u16)
               else map_option (\<lambda>r. ucast (br_max_age br
                      - tv_remaining (se_now env) (sp_message_age_timer (br_ports br r)) div se_tps env + 1))
                 (stp_get_port br (ucast (br_root_port br))));
       Some (if ucast age < br_max_age br
             then supd i (\<lambda>p. p\<lparr>sp_topology_change_ack := 0, sp_config_pending := False,
                      sp_hold_timer := stp_mod env 1 (sp_hold_timer p)\<rparr>)
                    (stp_send_config_bpdu env i (stp_encode_bpdu (config_of env i age br)) br)
             else br)
     })"

definition stp_transmit_tcn :: "stp_env \<Rightarrow> stp_instance \<Rightarrow> stp_instance" where
  "stp_transmit_tcn env br = stp_send_tcn_bpdu env (stp_get_port br (ucast (br_root_port br))) br"

definition stp_topology_change_detection :: "stp_env \<Rightarrow> stp_instance \<Rightarrow> stp_instance" where
  "stp_topology_change_detection env br =
    (if br_stp_enabled br \<noteq> STP_ENABLED then br
     else
       (if stp_is_root_bridge br
        then br\<lparr>br_topology_change := 1, br_topology_change_timer := stp_mod env
               (br_bridge_forward_delay br + br_bridge_max_age br) (br_topology_change_timer br)\<rparr>
        else if \<not> br_topology_change_detected br
        then (stp_transmit_tcn env br)\<lparr>br_tcn_timer := stp_mod env (br_bridge_hello_time br) (br_tcn_timer br)\<rparr>
        else br)\<lparr>br_topology_change_detected := True\<rparr>)"

definition generate :: "stp_env \<Rightarrow> nat \<Rightarrow> stp_instance \<Rightarrow> stp_instance option" where
  "generate env i br =
    (if sp_state (br_ports br i) \<noteq> DISABLED \<and> stp_is_designated_port br (br_ports br i)
     then stp_transmit_config env i br else Some br)"

definition stp_config_bpdu_generation :: "stp_env \<Rightarrow> stp_instance \<Rightarrow> stp_instance option" where
  "stp_config_bpdu_generation env br = run_events (generate env) (br_port_list br) br"

definition stp_become_root_bridge :: "stp_env \<Rightarrow> stp_instance \<Rightarrow> stp_instance option" where
  "stp_become_root_bridge env br = do {
     let br = br\<lparr>br_max_age := br_bridge_max_age br, br_hello_time := br_bridge_hello_time br,
                 br_forward_delay := br_bridge_forward_delay br\<rparr>;
     let br = stp_topology_change_detection env br;
     let br = br\<lparr>br_tcn_timer := tv_del (br_tcn_timer br)\<rparr>;
     br \<leftarrow> stp_config_bpdu_generation env br;
     Some (br\<lparr>br_hello_timer := stp_mod env (br_hello_time br) (br_hello_timer br)\<rparr>)
   }"

section \<open>Port states\<close>

definition stp_make_blocking :: "stp_env \<Rightarrow> nat \<Rightarrow> stp_instance \<Rightarrow> stp_instance" where
  "stp_make_blocking env i br =
    (let st = sp_state (br_ports br i) in
     if st \<noteq> DISABLED \<and> st \<noteq> BLOCKING
     then supd i (\<lambda>p. p\<lparr>sp_state := BLOCKING, sp_forward_delay_timer := tv_del (sp_forward_delay_timer p)\<rparr>)
            (if st = FORWARDING \<or> st = LEARNING then stp_topology_change_detection env br else br)
     else br)"

definition stp_make_forwarding :: "stp_env \<Rightarrow> nat \<Rightarrow> stp_instance \<Rightarrow> stp_instance" where
  "stp_make_forwarding env i br =
    (if sp_state (br_ports br i) \<noteq> BLOCKING then br
     else if br_forward_delay br = 0
     then supd i (\<lambda>p. p\<lparr>sp_forward_delay_timer := tv_del (sp_forward_delay_timer p)\<rparr>)
            (stp_topology_change_detection env (supd i (\<lambda>p. p\<lparr>sp_state := FORWARDING\<rparr>) br))
     else supd i (\<lambda>p. p\<lparr>sp_state := (if br_stp_enabled br = STP_ENABLED then LISTENING else LEARNING),
                sp_forward_delay_timer := stp_mod env (br_forward_delay br) (sp_forward_delay_timer p)\<rparr>) br)"

definition select_state :: "stp_env \<Rightarrow> nat \<Rightarrow> stp_instance \<Rightarrow> stp_instance" where
  "select_state env i br =
    (let p = br_ports br i in
     if sp_state p = DISABLED then br
     else if sp_port_no p = br_root_port br
     then stp_make_forwarding env i
            (supd i (\<lambda>p. p\<lparr>sp_config_pending := False, sp_topology_change_ack := 0\<rparr>) br)
     else if \<not> sp_is_own_bpdu p \<and> stp_is_designated_port br p
     then stp_make_forwarding env i
            (supd i (\<lambda>p. p\<lparr>sp_message_age_timer := tv_del (sp_message_age_timer p)\<rparr>) br)
     else stp_make_blocking env i
            (supd i (\<lambda>p. p\<lparr>sp_config_pending := False, sp_topology_change_ack := 0\<rparr>) br))"

definition stp_port_state_selection :: "stp_env \<Rightarrow> stp_instance \<Rightarrow> stp_instance" where
  "stp_port_state_selection env br = fold (select_state env) (br_port_list br) br"

text \<open>\<open>stp_configuration_update\<close>, \<open>stp_port_state_selection\<close> and the test whether the bridge became the root.\<close>

definition reconfigure :: "stp_env \<Rightarrow> bool \<Rightarrow> stp_instance \<Rightarrow> stp_instance option" where
  "reconfigure env was_root br = do {
     br \<leftarrow> stp_configuration_update br;
     let br = stp_port_state_selection env br;
     if stp_is_root_bridge br \<and> \<not> was_root then stp_become_root_bridge env br else Some br
   }"

section \<open>Received messages\<close>

definition stp_supersedes_port_info :: "stp_instance \<Rightarrow> stp_port_entry \<Rightarrow> stp_bpdu \<Rightarrow> bool" where
  "stp_supersedes_port_info br p c =
    (let t = bid_cmp (bpdu_root_id c) (sp_designated_root p) in
     if t < 0 then True else if t > 0 then False
     else if sint (bpdu_root_path_cost c) < sint (sp_designated_cost p) then True
     else if sint (bpdu_root_path_cost c) > sint (sp_designated_cost p) then False
     else let t = bid_cmp (bpdu_bridge_id c) (sp_designated_bridge p) in
     if t < 0 then True else if t > 0 then False
     else if bid_cmp (bpdu_bridge_id c) (br_bridge_id br) \<noteq> 0 then True
     else bpdu_port_id c \<le> sp_designated_port p)"

definition stp_record_config_information :: "stp_env \<Rightarrow> nat \<Rightarrow> stp_bpdu \<Rightarrow> stp_instance \<Rightarrow> stp_instance" where
  "stp_record_config_information env i c br = supd i (\<lambda>p. p\<lparr>sp_designated_root := bpdu_root_id c,
     sp_designated_cost := bpdu_root_path_cost c, sp_designated_bridge := bpdu_bridge_id c,
     sp_designated_port := bpdu_port_id c, sp_message_age_timer := stp_mod env
       (br_max_age br - ucast (bpdu_message_age c)) (sp_message_age_timer p)\<rparr>) br"

definition stp_record_config_timeout_values :: "stp_bpdu \<Rightarrow> stp_instance \<Rightarrow> stp_instance" where
  "stp_record_config_timeout_values c br = br\<lparr>br_max_age := ucast (bpdu_max_age c),
     br_hello_time := ucast (bpdu_hello_time c), br_forward_delay := ucast (bpdu_forward_delay c),
     br_topology_change := (if bpdu_flags c AND TC_BIT = TC_BIT then 1 else 0)\<rparr>"

definition stp_topology_change_acknowledged :: "stp_instance \<Rightarrow> stp_instance" where
  "stp_topology_change_acknowledged br = br\<lparr>br_topology_change_detected := False,
     br_tcn_timer := tv_del (br_tcn_timer br)\<rparr>"

definition root_lost :: "stp_env \<Rightarrow> stp_instance \<Rightarrow> stp_instance" where
  "root_lost env br =
    (let br = br\<lparr>br_hello_timer := tv_del (br_hello_timer br)\<rparr> in
     if br_topology_change_detected br
     then (stp_transmit_tcn env (br\<lparr>br_topology_change_timer := tv_del (br_topology_change_timer br)\<rparr>))
            \<lparr>br_tcn_timer := stp_mod env (br_bridge_hello_time br) (br_tcn_timer br)\<rparr>
     else br)"

definition stp_reply :: "stp_env \<Rightarrow> nat \<Rightarrow> stp_instance \<Rightarrow> stp_instance option" where
  "stp_reply env i br = stp_transmit_config env i br"

definition stp_received_config_bpdu :: "stp_env \<Rightarrow> nat \<Rightarrow> stp_bpdu \<Rightarrow> stp_instance \<Rightarrow> stp_instance option" where
  "stp_received_config_bpdu env i c br = do {
     let was_root = stp_is_root_bridge br;
     let br = supd i (\<lambda>p. p\<lparr>sp_is_own_bpdu := False\<rparr>) br;
     if stp_supersedes_port_info br (br_ports br i) c
     then do {
       br \<leftarrow> stp_configuration_update (stp_record_config_information env i c br);
       let br = stp_port_state_selection env br;
       let br = (if \<not> stp_is_root_bridge br \<and> was_root then root_lost env br else br);
       if sp_port_no (br_ports br i) = br_root_port br
       then do {
         br \<leftarrow> stp_config_bpdu_generation env (stp_record_config_timeout_values c br);
         Some (if bpdu_flags c AND TC_ACK_BIT \<noteq> 0 then stp_topology_change_acknowledged br else br)
       }
       else Some br
     }
     else if stp_is_designated_port br (br_ports br i) then stp_reply env i br
     else Some br
   }"

definition stp_topology_change_acknowledge :: "stp_env \<Rightarrow> nat \<Rightarrow> stp_instance \<Rightarrow> stp_instance option" where
  "stp_topology_change_acknowledge env i br =
     stp_transmit_config env i (supd i (\<lambda>p. p\<lparr>sp_topology_change_ack := 1\<rparr>) br)"

definition stp_received_tcn_bpdu :: "stp_env \<Rightarrow> nat \<Rightarrow> stp_instance \<Rightarrow> stp_instance option" where
  "stp_received_tcn_bpdu env i br =
    (if stp_is_designated_port br (br_ports br i)
     then stp_topology_change_acknowledge env i (stp_topology_change_detection env br)
     else Some br)"

text \<open>\<open>stp_process_bpdu\<close> after the lookup of the port.\<close>

definition process_bpdu_on :: "stp_env \<Rightarrow> nat \<Rightarrow> stp_bpdu \<Rightarrow> stp_instance \<Rightarrow> (int \<times> stp_instance) option" where
  "process_bpdu_on env i c br =
    (let p = br_ports br i in
     if \<not> sp_enabled p then Some (-1, br)
     else if sp_state p = DISABLED then Some (-1, br)
     else if bpdu_type c = BPDU_CONFIG_TYPE
     then map_option (Pair 0) (stp_received_config_bpdu env i (stp_decode_bpdu c) br)
     else if bpdu_type c = BPDU_TC_TYPE then map_option (Pair 0) (stp_received_tcn_bpdu env i br)
     else Some (0, br))"

end
