(* ===== verification/Stp_Ops.thy ===== *)
theory Stp_Ops
  imports Stp_Model Rstp_Mgmt
begin

unbundle bit_operations_syntax

text \<open>
  The operations of one spanning tree instance that the rest of the switch calls: creation, ports,
  enabling and disabling (\<open>stp_if.c\<close>), the handlers of its timers (\<open>stp_timer.c\<close>), and the setters
  of one bridge. A port that \<open>stp_disable\<close> has released stays recorded in \<open>br_freed\<close>; a handler or a
  lookup that still reaches it is a fault.
\<close>

section \<open>Creation\<close>

definition stp_init_stp_instance :: "stp_env \<Rightarrow> u16 \<Rightarrow> stp_instance \<Rightarrow> stp_instance" where
  "stp_init_stp_instance env vlan_id new = new\<lparr>br_port_list := [], br_vlan_id := vlan_id, br_stp_enabled := 0,
     br_designated_root := BID 32768 (se_bridge_addr env), br_bridge_id := BID 32768 (se_bridge_addr env),
     br_root_path_cost := 0, br_root_port := 0, br_max_age := 20, br_hello_time := 2, br_forward_delay := 15,
     br_bridge_max_age := 20, br_bridge_hello_time := 2, br_bridge_forward_delay := 15,
     br_topology_change := 0, br_topology_change_detected := True,
     br_hello_timer := tv_new, br_tcn_timer := tv_new, br_topology_change_timer := tv_new\<rparr>"

definition stp_port_new :: "stp_env \<Rightarrow> int \<Rightarrow> stp_port_entry" where
  "stp_port_new env port = \<lparr>sp_priority = 128, sp_state = DISABLED, sp_designated_cost = 20000,
     sp_path_cost = 20000, sp_designated_root = BID 0 (se_bridge_addr env),
     sp_designated_bridge = BID 0 (se_bridge_addr env), sp_forward_delay_timer = tv_new,
     sp_hold_timer = tv_new, sp_message_age_timer = tv_new, sp_designated_port = 0, sp_port_id = 0,
     sp_port_no = word_of_int port, sp_topology_change_ack = 0, sp_config_pending = False,
     sp_is_own_bpdu = False, sp_enabled = False\<rparr>"

text \<open>The argument \<open>m\<close> is what \<open>tm_malloc\<close> returned.\<close>

definition stp_create_port :: "stp_env \<Rightarrow> nat option \<Rightarrow> int \<Rightarrow> stp_instance \<Rightarrow> int \<times> stp_instance" where
  "stp_create_port env m port br =
    (case m of
       None \<Rightarrow> (-1, br)
     | Some i \<Rightarrow> (0, br\<lparr>br_ports := (br_ports br)(i := stp_port_new env port),
                        br_freed := removeAll i (br_freed br), br_port_list := br_port_list br @ [i]\<rparr>))"

definition stp_delete_port :: "u32 \<Rightarrow> stp_instance \<Rightarrow> stp_instance" where
  "stp_delete_port port br =
    (case stp_get_port_info br port of
       None \<Rightarrow> br
     | Some i \<Rightarrow> br\<lparr>br_port_list := remove1 i (br_port_list br)\<rparr>)"

section \<open>Ports\<close>

definition stp_make_port_id :: "u8 \<Rightarrow> u16 \<Rightarrow> u16" where
  "stp_make_port_id priority port_no = push_bit 10 (ucast priority) OR (port_no AND 0x3ff)"

definition stp_init_port :: "nat \<Rightarrow> stp_instance \<Rightarrow> stp_instance" where
  "stp_init_port i br =
    (let br = supd i (\<lambda>p. p\<lparr>sp_port_id := stp_make_port_id (word_of_int (sp_priority p)) (ucast (sp_port_no p))\<rparr>) br;
         br = stp_become_designated_port i br;
         br = supd i (\<lambda>p. p\<lparr>sp_state := BLOCKING, sp_topology_change_ack := 0, sp_config_pending := False,
                sp_is_own_bpdu := False, sp_enabled := True\<rparr>) br
     in br\<lparr>br_ifinfo := (br_ifinfo br)(sp_port_no (br_ports br i) \<mapsto> i)\<rparr>)"

definition stp_enable_port :: "stp_env \<Rightarrow> nat \<Rightarrow> stp_instance \<Rightarrow> stp_instance" where
  "stp_enable_port env i br =
    (if se_oper_state env (sp_port_no (br_ports br i)) = 2 then br
     else stp_port_state_selection env (stp_init_port i br))"

definition stp_disable_port :: "stp_env \<Rightarrow> nat \<Rightarrow> stp_instance \<Rightarrow> stp_instance option" where
  "stp_disable_port env i br =
    (let wasroot = stp_is_root_bridge br;
         br = stp_become_designated_port i br;
         br = supd i (\<lambda>p. p\<lparr>sp_state := DISABLED, sp_topology_change_ack := 0, sp_config_pending := False,
                sp_is_own_bpdu := False, sp_message_age_timer := tv_del (sp_message_age_timer p),
                sp_forward_delay_timer := tv_del (sp_forward_delay_timer p),
                sp_hold_timer := tv_del (sp_hold_timer p)\<rparr>) br
     in reconfigure env wasroot br)"

definition stp_enable :: "stp_env \<Rightarrow> stp_instance \<Rightarrow> stp_instance option" where
  "stp_enable env br = do {
     let br = br\<lparr>br_stp_enabled := STP_ENABLED, br_hello_timer := stp_mod env (br_hello_time br) (br_hello_timer br)\<rparr>;
     br \<leftarrow> stp_config_bpdu_generation env br;
     Some (fold (stp_enable_port env) (br_port_list br) br)
   }"

definition disable_one :: "stp_env \<Rightarrow> nat \<Rightarrow> stp_instance \<Rightarrow> stp_instance option" where
  "disable_one env i br = do {
     br \<leftarrow> (if sp_state (br_ports br i) \<noteq> DISABLED then stp_disable_port env i br else Some br);
     Some (br\<lparr>br_port_list := remove1 i (br_port_list br), br_freed := i # br_freed br\<rparr>)
   }"

definition stp_disable :: "stp_env \<Rightarrow> stp_instance \<Rightarrow> stp_instance option" where
  "stp_disable env br = do {
     br \<leftarrow> run_events (disable_one env) (br_port_list br) br;
     Some (br\<lparr>br_topology_change := 0, br_topology_change_detected := False,
              br_hello_timer := tv_del (br_hello_timer br),
              br_topology_change_timer := tv_del (br_topology_change_timer br),
              br_tcn_timer := tv_del (br_tcn_timer br)\<rparr>)
   }"

definition stp_set_state :: "stp_env \<Rightarrow> int \<Rightarrow> stp_instance \<Rightarrow> stp_instance option" where
  "stp_set_state env st br = map_option (\<lambda>br. br\<lparr>br_stp_enabled := st\<rparr>)
     (if st \<noteq> 0 then stp_enable env br else stp_disable env br)"

text \<open>The interface's reference to its spanning tree port: a released port behind it is a fault.\<close>

definition stp_is_mac_learning_allowed :: "u32 \<Rightarrow> stp_instance \<Rightarrow> bool option" where
  "stp_is_mac_learning_allowed port br =
    (case br_ifinfo br port of
       None \<Rightarrow> Some True
     | Some i \<Rightarrow> if i \<in> set (br_freed br) then None
                 else Some (sp_state (br_ports br i) = LEARNING \<or> sp_state (br_ports br i) = FORWARDING))"

section \<open>Configuration of one bridge\<close>

definition readdress :: "macaddress \<Rightarrow> macaddress \<Rightarrow> bid \<Rightarrow> bid" where
  "readdress old new b = (if bid_addr b = old then BID (bid_prio b) new else b)"

definition stp_change_bridge_id :: "stp_env \<Rightarrow> macaddress \<Rightarrow> stp_instance \<Rightarrow> stp_instance option" where
  "stp_change_bridge_id env addr br =
    (let wasroot = stp_is_root_bridge br;
         old = bid_addr (br_bridge_id br);
         br = br\<lparr>br_bridge_id := BID (bid_prio (br_bridge_id br)) addr\<rparr>;
         br = fold (\<lambda>i. supd i (\<lambda>p. p\<lparr>sp_designated_bridge := readdress old addr (sp_designated_bridge p),
                sp_designated_root := readdress old addr (sp_designated_root p)\<rparr>)) (br_port_list br) br
     in reconfigure env wasroot br)"

definition renumber :: "u16 \<Rightarrow> nat \<Rightarrow> stp_instance \<Rightarrow> stp_instance" where
  "renumber newprio i br =
    (if sp_state (br_ports br i) \<noteq> DISABLED \<and> stp_is_designated_port br (br_ports br i)
     then supd i (\<lambda>p. p\<lparr>sp_designated_bridge := BID newprio (bid_addr (sp_designated_bridge p))\<rparr>) br
     else br)"

definition set_bridge_priority_on :: "stp_env \<Rightarrow> u16 \<Rightarrow> stp_instance \<Rightarrow> stp_instance option" where
  "set_bridge_priority_on env newprio br =
    (let wasroot = stp_is_root_bridge br;
         br = fold (renumber newprio) (br_port_list br) br;
         br = br\<lparr>br_bridge_id := BID newprio (bid_addr (br_bridge_id br))\<rparr>
     in reconfigure env wasroot br)"

definition stp_set_port_priority :: "stp_env \<Rightarrow> nat \<Rightarrow> u8 \<Rightarrow> stp_instance \<Rightarrow> stp_instance" where
  "stp_set_port_priority env i newprio br =
    (let p = br_ports br i;
         new_port_id = stp_make_port_id newprio (ucast (sp_port_no p));
         br = (if stp_is_designated_port br p
               then supd i (\<lambda>p. p\<lparr>sp_designated_port := new_port_id\<rparr>) br else br);
         br = supd i (\<lambda>p. p\<lparr>sp_port_id := new_port_id, sp_priority := uint newprio\<rparr>) br;
         p = br_ports br i
     in if bid_cmp (br_bridge_id br) (sp_designated_bridge p) = 0 \<and> sp_port_id p < sp_designated_port p
        then stp_port_state_selection env (stp_become_designated_port i br)
        else br)"

definition stp_set_path_cost :: "stp_env \<Rightarrow> nat \<Rightarrow> u32 \<Rightarrow> stp_instance \<Rightarrow> stp_instance option" where
  "stp_set_path_cost env i path_cost br =
     map_option (stp_port_state_selection env)
       (stp_configuration_update (supd i (\<lambda>p. p\<lparr>sp_path_cost := path_cost\<rparr>) br))"

text \<open>
  The configured times of one bridge: \<open>stp_set_bridge_hello_time\<close>, \<open>stp_set_bridge_forward_delay\<close>,
  \<open>stp_set_bridge_max_age\<close> and \<open>stp_set_bridge_times\<close> after the lookup of the instance. The root
  bridge uses its own times at once.
\<close>

definition hello_time_on :: "int \<Rightarrow> stp_instance \<Rightarrow> int \<times> stp_instance" where
  "hello_time_on hello br =
    (if hello < 1 \<or> hello > 10 then (-1, br)
     else if bridge_timer_relation (sint (br_bridge_forward_delay br)) (sint (br_bridge_max_age br)) hello \<noteq> 0
     then (-1, br)
     else let br = br\<lparr>br_bridge_hello_time := word_of_int hello\<rparr>
          in (0, if stp_is_root_bridge br then br\<lparr>br_hello_time := br_bridge_hello_time br\<rparr> else br))"

definition forward_delay_on :: "int \<Rightarrow> stp_instance \<Rightarrow> int \<times> stp_instance" where
  "forward_delay_on fwd_dly br =
    (if fwd_dly < 2 \<or> fwd_dly > 30 then (-1, br)
     else if bridge_timer_relation fwd_dly (sint (br_bridge_max_age br)) (sint (br_bridge_hello_time br)) \<noteq> 0
     then (-1, br)
     else let br = br\<lparr>br_bridge_forward_delay := word_of_int fwd_dly\<rparr>
          in (0, if stp_is_root_bridge br then br\<lparr>br_forward_delay := word_of_int fwd_dly\<rparr> else br))"

definition max_age_on :: "int \<Rightarrow> stp_instance \<Rightarrow> int \<times> stp_instance" where
  "max_age_on max_age br =
    (if max_age < 6 \<or> max_age > 40 then (-1, br)
     else if bridge_timer_relation (sint (br_bridge_forward_delay br)) max_age (sint (br_bridge_hello_time br)) \<noteq> 0
     then (-1, br)
     else let br = br\<lparr>br_bridge_max_age := word_of_int max_age\<rparr>
          in (0, if stp_is_root_bridge br then br\<lparr>br_max_age := word_of_int max_age\<rparr> else br))"

definition times_on :: "int \<Rightarrow> int \<Rightarrow> int \<Rightarrow> stp_instance \<Rightarrow> int \<times> stp_instance" where
  "times_on fdly maxage htime br =
    (let htime = (if htime < 0 then sint (br_bridge_hello_time br) else htime);
         fdly = (if fdly < 0 then sint (br_bridge_forward_delay br) else fdly);
         maxage = (if maxage < 0 then sint (br_bridge_max_age br) else maxage)
     in if bridge_timer_relation fdly maxage htime \<noteq> 0 then (-1, br)
        else let br = br\<lparr>br_bridge_forward_delay := word_of_int fdly, br_bridge_max_age := word_of_int maxage,
                    br_bridge_hello_time := word_of_int htime\<rparr>
             in (0, if stp_is_root_bridge br
                    then br\<lparr>br_max_age := word_of_int maxage, br_forward_delay := word_of_int fdly,
                            br_hello_time := word_of_int htime\<rparr>
                    else br))"

section \<open>Timers\<close>

definition stp_is_designated_for_some_port :: "stp_instance \<Rightarrow> bool" where
  "stp_is_designated_for_some_port br \<longleftrightarrow> list_ex (\<lambda>i. sp_state (br_ports br i) \<noteq> DISABLED
     \<and> bid_cmp (sp_designated_bridge (br_ports br i)) (br_bridge_id br) = 0) (br_port_list br)"

definition stp_hello_timer_expired :: "stp_env \<Rightarrow> stp_instance \<Rightarrow> stp_instance option" where
  "stp_hello_timer_expired env br = map_option
     (\<lambda>br. br\<lparr>br_hello_timer := stp_mod env (br_hello_time br) (br_hello_timer br)\<rparr>)
     (stp_config_bpdu_generation env br)"

definition stp_message_age_timer_expired :: "stp_env \<Rightarrow> nat \<Rightarrow> stp_instance \<Rightarrow> stp_instance option" where
  "stp_message_age_timer_expired env i br =
    (if sp_state (br_ports br i) = DISABLED then Some br
     else reconfigure env (stp_is_root_bridge br)
            (stp_become_designated_port i (supd i (\<lambda>p. p\<lparr>sp_is_own_bpdu := False\<rparr>) br)))"

definition stp_forward_delay_timer_expired :: "stp_env \<Rightarrow> nat \<Rightarrow> stp_instance \<Rightarrow> stp_instance" where
  "stp_forward_delay_timer_expired env i br =
    (if sp_state (br_ports br i) = LISTENING
     then supd i (\<lambda>p. p\<lparr>sp_state := LEARNING, sp_forward_delay_timer := stp_mod env (br_forward_delay br)
            (sp_forward_delay_timer p)\<rparr>) br
     else if sp_state (br_ports br i) = LEARNING
     then (let br = supd i (\<lambda>p. p\<lparr>sp_state := FORWARDING\<rparr>) br in
           if stp_is_designated_for_some_port br then stp_topology_change_detection env br else br)
     else br)"

definition stp_tcn_timer_expired :: "stp_env \<Rightarrow> stp_instance \<Rightarrow> stp_instance" where
  "stp_tcn_timer_expired env br =
    (stp_transmit_tcn env br)\<lparr>br_tcn_timer := stp_mod env (br_bridge_hello_time br) (br_tcn_timer br)\<rparr>"

definition stp_topology_change_timer_expired :: "stp_instance \<Rightarrow> stp_instance" where
  "stp_topology_change_timer_expired br = br\<lparr>br_topology_change_detected := False, br_topology_change := 0\<rparr>"

definition stp_hold_timer_expired :: "stp_env \<Rightarrow> nat \<Rightarrow> stp_instance \<Rightarrow> stp_instance option" where
  "stp_hold_timer_expired env i br =
    (if sp_config_pending (br_ports br i) then stp_transmit_config env i br else Some br)"

text \<open>
  The expiry of a timer in two steps, as the timer service performs it: its entry leaves the wheels,
  and later the handler task runs the handler and clears the reference to the entry.
\<close>

datatype stp_tmr = THello | TTcn | TTopology | TAge nat | TForward nat | THold nat

definition tmr_upd :: "stp_tmr \<Rightarrow> (tmr_view \<Rightarrow> tmr_view) \<Rightarrow> stp_instance \<Rightarrow> stp_instance" where
  "tmr_upd k f br =
    (case k of
       THello \<Rightarrow> br\<lparr>br_hello_timer := f (br_hello_timer br)\<rparr>
     | TTcn \<Rightarrow> br\<lparr>br_tcn_timer := f (br_tcn_timer br)\<rparr>
     | TTopology \<Rightarrow> br\<lparr>br_topology_change_timer := f (br_topology_change_timer br)\<rparr>
     | TAge i \<Rightarrow> supd i (\<lambda>p. p\<lparr>sp_message_age_timer := f (sp_message_age_timer p)\<rparr>) br
     | TForward i \<Rightarrow> supd i (\<lambda>p. p\<lparr>sp_forward_delay_timer := f (sp_forward_delay_timer p)\<rparr>) br
     | THold i \<Rightarrow> supd i (\<lambda>p. p\<lparr>sp_hold_timer := f (sp_hold_timer p)\<rparr>) br)"

definition stp_time_out :: "stp_env \<Rightarrow> stp_tmr \<Rightarrow> stp_instance \<Rightarrow> stp_instance option" where
  "stp_time_out env k br =
    (case k of
       THello \<Rightarrow> stp_hello_timer_expired env br
     | TTcn \<Rightarrow> Some (stp_tcn_timer_expired env br)
     | TTopology \<Rightarrow> Some (stp_topology_change_timer_expired br)
     | TAge i \<Rightarrow> if i \<in> set (br_freed br) then None else stp_message_age_timer_expired env i br
     | TForward i \<Rightarrow> if i \<in> set (br_freed br) then None else Some (stp_forward_delay_timer_expired env i br)
     | THold i \<Rightarrow> if i \<in> set (br_freed br) then None else stp_hold_timer_expired env i br)"

definition stp_serve_timer :: "stp_env \<Rightarrow> stp_tmr \<Rightarrow> stp_instance \<Rightarrow> stp_instance option" where
  "stp_serve_timer env k br = map_option (tmr_upd k tv_served) (stp_time_out env k br)"

end
