(* ===== verification/Stp_Inv.thy ===== *)
theory Stp_Inv
  imports Stp_Ops
begin

text \<open>
  The invariant of a spanning tree instance and its preservation: a port that listens, learns or
  forwards is the root port or a designated port, the root port of a bridge that is not the root is
  an enabled port of the list, and no port is marked as having received its own message. The lemmas
  are grouped by what an operation may change: nothing of the core, only states, or everything,
  followed by the recomputation of roles and states.
\<close>

section \<open>The invariant\<close>

definition active :: "stp_port_entry \<Rightarrow> bool" where
  "active p \<longleftrightarrow> sp_state p \<in> {LISTENING, LEARNING, FORWARDING}"

definition port_good :: "stp_instance \<Rightarrow> nat \<Rightarrow> bool" where
  "port_good br i \<longleftrightarrow> (active (br_ports br i) \<longrightarrow>
     sp_port_no (br_ports br i) = br_root_port br \<or> stp_is_designated_port br (br_ports br i))"

definition stp_base :: "stp_instance \<Rightarrow> bool" where
  "stp_base br \<longleftrightarrow> distinct (br_port_list br) \<and> (\<forall>i \<in> set (br_port_list br). unat (sp_port_no (br_ports br i)) < 2 ^ 16
     \<and> \<not> sp_is_own_bpdu (br_ports br i) \<and> i \<notin> set (br_freed br))"

definition root_known :: "stp_instance \<Rightarrow> bool" where
  "root_known br \<longleftrightarrow> stp_is_root_bridge br \<or> (\<exists>i \<in> set (br_port_list br).
     sp_port_no (br_ports br i) = br_root_port br \<and> sp_state (br_ports br i) \<noteq> DISABLED)"

text \<open>The part that holds of every instance, and the whole, which deleting the root port breaks.\<close>

definition stp_safe :: "stp_instance \<Rightarrow> bool" where
  "stp_safe br \<longleftrightarrow> stp_base br \<and> (\<forall>i \<in> set (br_port_list br). port_good br i)"

definition stp_inv :: "stp_instance \<Rightarrow> bool" where
  "stp_inv br \<longleftrightarrow> stp_base br \<and> root_known br \<and> (\<forall>i \<in> set (br_port_list br). port_good br i)"

text \<open>The part of an instance that the invariant reads.\<close>

definition pcore :: "stp_port_entry \<Rightarrow> u32 \<times> stp_state \<times> bool \<times> bid \<times> u16 \<times> u16" where
  "pcore p = (sp_port_no p, sp_state p, sp_is_own_bpdu p, sp_designated_bridge p, sp_designated_port p, sp_port_id p)"

definition core :: "stp_instance \<Rightarrow> nat list \<times> nat list \<times> bid \<times> bid \<times> u32
    \<times> (nat \<Rightarrow> u32 \<times> stp_state \<times> bool \<times> bid \<times> u16 \<times> u16)" where
  "core br = (br_port_list br, br_freed br, br_bridge_id br, br_designated_root br, br_root_port br,
     \<lambda>i. pcore (br_ports br i))"

named_theorems core_simps \<open>operations that leave the core of an instance alone\<close>

lemma core_fields:
  assumes "core br' = core br"
  shows "br_port_list br' = br_port_list br" "br_freed br' = br_freed br" "br_bridge_id br' = br_bridge_id br"
    "br_designated_root br' = br_designated_root br" "br_root_port br' = br_root_port br"
    "sp_port_no (br_ports br' i) = sp_port_no (br_ports br i)" "sp_state (br_ports br' i) = sp_state (br_ports br i)"
    "sp_is_own_bpdu (br_ports br' i) = sp_is_own_bpdu (br_ports br i)"
    "stp_is_designated_port br' (br_ports br' i) = stp_is_designated_port br (br_ports br i)"
proof -
  have "pcore (br_ports br' i) = pcore (br_ports br i)" using assms unfolding core_def by (metis prod.inject)
  then show "sp_port_no (br_ports br' i) = sp_port_no (br_ports br i)" "sp_state (br_ports br' i) = sp_state (br_ports br i)"
    "sp_is_own_bpdu (br_ports br' i) = sp_is_own_bpdu (br_ports br i)"
    "stp_is_designated_port br' (br_ports br' i) = stp_is_designated_port br (br_ports br i)"
    using assms by (auto simp: core_def pcore_def stp_is_designated_port_def)
qed (use assms in \<open>auto simp: core_def\<close>)

lemma core_same:
  assumes "core br' = core br"
  shows core_inv: "stp_inv br' = stp_inv br" and core_safe: "stp_safe br' = stp_safe br" and core_base: "stp_base br' = stp_base br"
    and core_root_known: "root_known br' = root_known br"
  by (simp_all add: stp_inv_def stp_safe_def stp_base_def root_known_def port_good_def active_def stp_is_root_bridge_def
      core_fields [OF assms])

lemma core_supd [core_simps]: "(\<And>p. pcore (f p) = pcore p) \<Longrightarrow> core (supd i f br) = core br"
  by (auto simp: core_def supd_def)

lemma core_send [core_simps]: "core (stp_send_bpdu env i d br) = core br"
  "core (stp_send_config_bpdu env i c br) = core br" "core (stp_send_tcn_bpdu env m br) = core br"
  by (auto simp: stp_send_bpdu_def stp_send_config_bpdu_def stp_send_tcn_bpdu_def core_def Let_def split: option.split)

lemma core_glob [core_simps]:
  "core (br\<lparr>br_hello_timer := v\<rparr>) = core br" "core (br\<lparr>br_tcn_timer := v\<rparr>) = core br"
  "core (br\<lparr>br_topology_change_timer := v\<rparr>) = core br" "core (br\<lparr>br_topology_change := x\<rparr>) = core br"
  "core (br\<lparr>br_topology_change_detected := y\<rparr>) = core br" "core (br\<lparr>br_max_age := z\<rparr>) = core br"
  "core (br\<lparr>br_hello_time := z\<rparr>) = core br" "core (br\<lparr>br_forward_delay := z\<rparr>) = core br"
  "core (br\<lparr>br_bridge_max_age := z\<rparr>) = core br" "core (br\<lparr>br_bridge_hello_time := z\<rparr>) = core br"
  "core (br\<lparr>br_bridge_forward_delay := z\<rparr>) = core br" "core (br\<lparr>br_stp_enabled := s\<rparr>) = core br"
  "core (br\<lparr>br_ifinfo := g\<rparr>) = core br" "core (br\<lparr>br_root_path_cost := z\<rparr>) = core br"
  by (simp_all add: core_def)

lemma core_tcn [core_simps]: "core (stp_transmit_tcn env br) = core br"
  by (simp add: stp_transmit_tcn_def core_simps)

lemma core_tc_detection [core_simps]: "core (stp_topology_change_detection env br) = core br"
  by (simp add: stp_topology_change_detection_def core_simps)

lemma core_root_lost [core_simps]: "core (root_lost env br) = core br"
  by (simp add: root_lost_def core_simps Let_def)

lemma core_timeouts [core_simps]: "core (stp_record_config_timeout_values c br) = core br"
  by (simp add: stp_record_config_timeout_values_def core_simps)

lemma core_acknowledged [core_simps]: "core (stp_topology_change_acknowledged br) = core br"
  by (simp add: stp_topology_change_acknowledged_def core_simps)

lemma core_tmr_upd [core_simps]: "core (tmr_upd k f br) = core br"
  by (cases k) (simp_all add: tmr_upd_def core_simps pcore_def)

section \<open>Sending configuration messages\<close>

lemma find_some: "i \<in> set xs \<Longrightarrow> P i \<Longrightarrow> \<exists>j. find P xs = Some j"
  by (metis find_None_iff not_None_eq)

lemma ucast_16: "unat (n :: u32) < 2 ^ 16 \<Longrightarrow> (ucast (ucast n :: u16) :: u32) = n"
  by (simp add: word_unat_eq_iff unsigned_ucast_eq unsigned_take_bit_eq take_bit_nat_eq_self)

lemma root_port_found:
  assumes "stp_base br" "root_known br" "\<not> stp_is_root_bridge br"
  shows "\<exists>r. stp_get_port br (ucast (br_root_port br)) = Some r"
proof -
  from assms(2,3) obtain i where i: "i \<in> set (br_port_list br)" "sp_port_no (br_ports br i) = br_root_port br"
    by (auto simp: root_known_def)
  with assms(1) have "unat (br_root_port br) < 2 ^ 16" by (auto simp: stp_base_def)
  then show ?thesis unfolding stp_get_port_def using i by (intro find_some) (simp_all add: ucast_16)
qed

lemma transmit_config:
  assumes "stp_base br" "root_known br"
  shows "\<exists>br'. stp_transmit_config env i br = Some br' \<and> core br' = core br"
proof -
  have "stp_transmit_config env i br = Some br' \<Longrightarrow> core br' = core br" for br'
    by (auto simp: stp_transmit_config_def core_simps pcore_def split: if_splits bind_splits)
  moreover have "stp_transmit_config env i br \<noteq> None"
    using root_port_found [OF assms] by (auto simp: stp_transmit_config_def)
  ultimately show ?thesis by blast
qed

lemma generation:
  assumes "stp_base br" "root_known br"
  shows "\<exists>br'. stp_config_bpdu_generation env br = Some br' \<and> core br' = core br"
proof -
  have "\<exists>br'. run_events (generate env) xs br = Some br' \<and> core br' = core br"
    if "stp_base br" "root_known br" for xs br
    using that
  proof (induction xs arbitrary: br)
    case (Cons i xs)
    obtain b where b: "generate env i br = Some b" "core b = core br"
      using transmit_config [OF Cons.prems, of env i] unfolding generate_def by (metis (full_types))
    with Cons.IH [of b] Cons.prems show ?case by (simp add: core_base [OF b(2)] core_root_known [OF b(2)])
  qed simp
  with assms show ?thesis by (simp add: stp_config_bpdu_generation_def)
qed

lemma become_root_bridge:
  assumes "stp_base br" "root_known br"
  shows "\<exists>br'. stp_become_root_bridge env br = Some br' \<and> core br' = core br"
proof -
  define b where "b = (stp_topology_change_detection env (br\<lparr>br_max_age := br_bridge_max_age br,
      br_hello_time := br_bridge_hello_time br, br_forward_delay := br_bridge_forward_delay br\<rparr>))"
  have c: "core (b\<lparr>br_tcn_timer := tv_del (br_tcn_timer b)\<rparr>) = core br" by (simp add: b_def core_simps)
  obtain b' where "stp_config_bpdu_generation env (b\<lparr>br_tcn_timer := tv_del (br_tcn_timer b)\<rparr>) = Some b'"
    "core b' = core br"
    using generation [of "b\<lparr>br_tcn_timer := tv_del (br_tcn_timer b)\<rparr>" env] assms c
    by (auto simp: core_base [OF c] core_root_known [OF c])
  then show ?thesis by (simp add: stp_become_root_bridge_def b_def [symmetric] core_simps)
qed

section \<open>Selecting the states of the ports\<close>

definition pshape :: "stp_port_entry \<Rightarrow> u32 \<times> bool \<times> bool \<times> bid \<times> u16 \<times> u16" where
  "pshape p = (sp_port_no p, sp_state p = DISABLED, sp_is_own_bpdu p, sp_designated_bridge p,
     sp_designated_port p, sp_port_id p)"

definition shape :: "stp_instance \<Rightarrow> nat list \<times> nat list \<times> bid \<times> bid \<times> u32
    \<times> (nat \<Rightarrow> u32 \<times> bool \<times> bool \<times> bid \<times> u16 \<times> u16)" where
  "shape br = (br_port_list br, br_freed br, br_bridge_id br, br_designated_root br, br_root_port br,
     \<lambda>i. pshape (br_ports br i))"

lemma core_shape: "core br' = core br \<Longrightarrow> shape br' = shape br"
  unfolding core_def shape_def by (auto simp: fun_eq_iff pcore_def pshape_def)

lemma shape_fields:
  assumes "shape br' = shape br"
  shows "br_port_list br' = br_port_list br" "br_freed br' = br_freed br" "br_bridge_id br' = br_bridge_id br"
    "br_designated_root br' = br_designated_root br" "br_root_port br' = br_root_port br"
    "sp_port_no (br_ports br' i) = sp_port_no (br_ports br i)"
    "sp_state (br_ports br' i) = DISABLED \<longleftrightarrow> sp_state (br_ports br i) = DISABLED"
    "sp_is_own_bpdu (br_ports br' i) = sp_is_own_bpdu (br_ports br i)"
    "stp_is_designated_port br' (br_ports br' i) = stp_is_designated_port br (br_ports br i)"
proof -
  have "pshape (br_ports br' i) = pshape (br_ports br i)" using assms unfolding shape_def by (metis prod.inject)
  then show "sp_port_no (br_ports br' i) = sp_port_no (br_ports br i)"
    "sp_state (br_ports br' i) = DISABLED \<longleftrightarrow> sp_state (br_ports br i) = DISABLED"
    "sp_is_own_bpdu (br_ports br' i) = sp_is_own_bpdu (br_ports br i)"
    "stp_is_designated_port br' (br_ports br' i) = stp_is_designated_port br (br_ports br i)"
    using assms by (auto simp: shape_def pshape_def stp_is_designated_port_def)
qed (use assms in \<open>auto simp: shape_def\<close>)

lemma shape_same:
  assumes "shape br' = shape br"
  shows shape_base: "stp_base br' = stp_base br" and shape_root_known: "root_known br' = root_known br"
  by (simp_all add: stp_base_def root_known_def stp_is_root_bridge_def shape_fields [OF assms])

text \<open>A state-selecting step on port \<open>i\<close>: the shape and the states of the other ports stay.\<close>

definition state_step :: "nat \<Rightarrow> stp_instance \<Rightarrow> stp_instance \<Rightarrow> bool" where
  "state_step i br br' \<longleftrightarrow> shape br' = shape br \<and>
     (\<forall>j. j \<noteq> i \<longrightarrow> sp_state (br_ports br' j) = sp_state (br_ports br j))"

lemma state_step_core: "core br' = core br \<Longrightarrow> state_step i br br'"
  unfolding state_step_def using core_shape core_fields(7) by blast

lemma state_step_trans: "state_step i a b \<Longrightarrow> state_step i b c \<Longrightarrow> state_step i a c"
  by (simp add: state_step_def)

lemma state_step_supd:
  assumes "\<And>p. pshape (f p) = pshape (p\<lparr>sp_state := sp_state (f p)\<rparr>)"
    and "sp_state (f (br_ports br i)) = DISABLED \<longleftrightarrow> sp_state (br_ports br i) = DISABLED"
  shows "state_step i br (supd i f br)"
proof -
  have "pshape (f (br_ports br i)) = pshape (br_ports br i)"
    using assms(1) [of "br_ports br i"] assms(2) by (simp add: pshape_def)
  then show ?thesis by (auto simp: state_step_def shape_def supd_def fun_eq_iff)
qed

lemma make_forwarding: "state_step i br (stp_make_forwarding env i br)"
proof (cases "sp_state (br_ports br i) = BLOCKING")
  case True
  let ?b = "supd i (\<lambda>p. p\<lparr>sp_state := FORWARDING\<rparr>) br"
  have "state_step i br ?b" using True by (intro state_step_supd) (simp_all add: pshape_def)
  moreover have "state_step i ?b (supd i (\<lambda>p. p\<lparr>sp_forward_delay_timer := v p\<rparr>)
      (stp_topology_change_detection env ?b))" for v
    by (intro state_step_core) (simp add: core_simps pcore_def)
  ultimately have f: "state_step i br (supd i (\<lambda>p. p\<lparr>sp_forward_delay_timer := v p\<rparr>)
      (stp_topology_change_detection env ?b))" for v using state_step_trans by blast
  have "state_step i br (supd i (\<lambda>p. p\<lparr>sp_state := if c then LISTENING else LEARNING,
      sp_forward_delay_timer := v p\<rparr>) br)" for c v
    using True by (intro state_step_supd) (simp_all add: pshape_def)
  with f True show ?thesis by (simp add: stp_make_forwarding_def)
qed (simp add: stp_make_forwarding_def state_step_def)

lemma make_blocking:
  "state_step i br (stp_make_blocking env i br)" "\<not> active (br_ports (stp_make_blocking env i br) i)"
proof -
  let ?b = "if sp_state (br_ports br i) = FORWARDING \<or> sp_state (br_ports br i) = LEARNING
    then stp_topology_change_detection env br else br"
  have c: "core ?b = core br" by (simp add: core_simps)
  have "state_step i ?b (supd i (\<lambda>p. p\<lparr>sp_state := BLOCKING, sp_forward_delay_timer := v p\<rparr>) ?b)"
    if "sp_state (br_ports br i) \<noteq> DISABLED" for v
    using that core_fields(7) [OF c] by (intro state_step_supd) (simp_all add: pshape_def)
  then show "state_step i br (stp_make_blocking env i br)"
    using state_step_trans [OF state_step_core [OF c]] unfolding stp_make_blocking_def Let_def
    by (simp add: state_step_core)
  show "\<not> active (br_ports (stp_make_blocking env i br) i)"
    by (auto simp: stp_make_blocking_def Let_def active_def supd_def)
qed

lemma select_state:
  assumes "\<not> sp_is_own_bpdu (br_ports br i)"
  shows "state_step i br (select_state env i br)" "port_good (select_state env i br) i"
proof -
  have s: "state_step i br (supd i (\<lambda>p. p\<lparr>sp_config_pending := False, sp_topology_change_ack := 0\<rparr>) br)"
    "state_step i br (supd i (\<lambda>p. p\<lparr>sp_message_age_timer := v p\<rparr>) br)" for v
    by (intro state_step_core, simp add: core_simps pcore_def)+
  show st: "state_step i br (select_state env i br)"
    unfolding select_state_def Let_def
    using state_step_trans [OF s(1) make_forwarding] state_step_trans [OF s(1) make_blocking(1)]
      state_step_trans [OF s(2) make_forwarding] by (simp add: state_step_core)
  then have sh: "shape (select_state env i br) = shape br" by (simp add: state_step_def)
  show "port_good (select_state env i br) i"
  proof (cases "sp_port_no (br_ports br i) = br_root_port br \<or> stp_is_designated_port br (br_ports br i)")
    case True
    then show ?thesis by (simp add: port_good_def shape_fields [OF sh])
  next
    case False
    then have "\<not> active (br_ports (select_state env i br) i)"
      using assms make_blocking(2) by (auto simp: select_state_def Let_def active_def)
    then show ?thesis by (simp add: port_good_def)
  qed
qed

lemma state_selection:
  assumes "stp_base br"
  shows "shape (stp_port_state_selection env br) = shape br"
    "i \<in> set (br_port_list br) \<Longrightarrow> port_good (stp_port_state_selection env br) i"
proof -
  have "shape (fold (select_state env) xs b) = shape b \<and>
      (\<forall>i \<in> set xs \<union> A. port_good (fold (select_state env) xs b) i)"
    if "stp_base b" "set xs \<subseteq> set (br_port_list b)" "\<forall>i \<in> A. port_good b i" for xs A b
    using that
  proof (induction xs arbitrary: A b)
    case (Cons j xs)
    then have j: "\<not> sp_is_own_bpdu (br_ports b j)" by (auto simp: stp_base_def)
    let ?b = "select_state env j b"
    have st: "state_step j b ?b" and g: "port_good ?b j" using select_state [OF j] by blast+
    then have sh: "shape ?b = shape b" by (simp add: state_step_def)
    have "port_good ?b i" if "i \<in> insert j A" for i
    proof (cases "i = j")
      case False
      with st that Cons.prems(3) show ?thesis
        by (auto simp: port_good_def state_step_def active_def shape_fields [OF sh])
    qed (use g in simp)
    with Cons.IH [of ?b "insert j A"] Cons.prems(1,2) sh show ?case
      by (simp add: shape_base [OF sh] shape_fields [OF sh])
  qed simp
  from this [of br "br_port_list br" "{}"] assms
  show "shape (stp_port_state_selection env br) = shape br"
    "i \<in> set (br_port_list br) \<Longrightarrow> port_good (stp_port_state_selection env br) i"
    by (auto simp: stp_port_state_selection_def)
qed

lemma state_selection_inv:
  assumes "stp_base br" "root_known br"
  shows "stp_inv (stp_port_state_selection env br)"
  using assms state_selection [OF assms(1)]
  by (simp add: stp_inv_def shape_base [OF state_selection(1) [OF assms(1)]]
      shape_root_known [OF state_selection(1) [OF assms(1)]] shape_fields(1) [OF state_selection(1) [OF assms(1)]])

section \<open>Recomputing the configuration\<close>

text \<open>What the configuration update leaves alone.\<close>

definition spine :: "stp_instance \<Rightarrow> nat list \<times> nat list \<times> bid \<times> (nat \<Rightarrow> u32 \<times> stp_state \<times> bool)" where
  "spine br = (br_port_list br, br_freed br, br_bridge_id br,
     \<lambda>i. (sp_port_no (br_ports br i), sp_state (br_ports br i), sp_is_own_bpdu (br_ports br i)))"

lemma spine_fields:
  assumes "spine br' = spine br"
  shows "br_port_list br' = br_port_list br" "br_freed br' = br_freed br" "br_bridge_id br' = br_bridge_id br"
    "sp_port_no (br_ports br' i) = sp_port_no (br_ports br i)" "sp_state (br_ports br' i) = sp_state (br_ports br i)"
    "sp_is_own_bpdu (br_ports br' i) = sp_is_own_bpdu (br_ports br i)"
  using assms unfolding spine_def by (auto dest: fun_cong [of _ _ i])

lemma spine_base: assumes "spine br' = spine br" shows "stp_base br' = stp_base br"
  by (simp add: stp_base_def spine_fields [OF assms])

lemma bid_cmp_refl [simp]: "bid_cmp b b = 0"
  by (simp add: bid_cmp_def memcmp_eq_0)

definition root_cand :: "stp_instance \<Rightarrow> u16 \<Rightarrow> bool" where
  "root_cand br r \<longleftrightarrow> r = 0 \<or> (\<exists>j \<in> set (br_port_list br).
     sp_port_no (br_ports br j) = ucast r \<and> sp_state (br_ports br j) \<noteq> DISABLED)"

lemma root_cand_found:
  assumes "root_cand br r" "r \<noteq> 0"
  shows "\<exists>j. stp_get_port br r = Some j"
proof -
  from assms obtain i where "i \<in> set (br_port_list br)" "sp_port_no (br_ports br i) = ucast r"
    by (auto simp: root_cand_def)
  then show ?thesis unfolding stp_get_port_def by (rule find_some)
qed

lemma select_root:
  assumes "stp_base br" "set is \<subseteq> set (br_port_list br)" "root_cand br r"
  shows "\<exists>r'. select_root br is r = Some r' \<and> root_cand br r'"
  using assms(2,3)
proof (induction "is" arbitrary: r)
  case (Cons i "is")
  have own: "\<not> sp_is_own_bpdu (br_ports br i)" and no: "unat (sp_port_no (br_ports br i)) < 2 ^ 16"
    using Cons.prems(1) assms(1) by (auto simp: stp_base_def)
  have "\<exists>b. stp_should_become_root_port br (br_ports br i) r = Some b
      \<and> (b \<longrightarrow> sp_state (br_ports br i) \<noteq> DISABLED)"
    using root_cand_found [OF Cons.prems(2)] by (cases "r = 0") (auto simp: stp_should_become_root_port_def)
  then obtain b where b: "stp_should_become_root_port br (br_ports br i) r = Some b"
    "b \<Longrightarrow> sp_state (br_ports br i) \<noteq> DISABLED" by blast
  have "root_cand br (if b then ucast (sp_port_no (br_ports br i)) else r)"
    using Cons.prems b(2) no by (auto simp: root_cand_def ucast_16)
  from Cons.IH [OF _ this] Cons.prems(1) own b(1) show ?case by simp
qed simp

lemma root_selection:
  assumes "stp_base br"
  shows "\<exists>br'. stp_root_selection br = Some br' \<and> spine br' = spine br \<and> root_known br'"
proof -
  obtain r where r: "select_root br (br_port_list br) 0 = Some r" "root_cand br r"
    using select_root [OF assms subset_refl, of 0] by (auto simp: root_cand_def)
  show ?thesis
  proof (cases "r = 0")
    case True
    then show ?thesis using r
      by (simp add: stp_root_selection_def spine_def root_known_def stp_is_root_bridge_def)
  next
    case False
    from root_cand_found [OF r(2) False] obtain j where "stp_get_port br r = Some j" by blast
    then have j: "stp_get_port (br\<lparr>br_root_port := ucast r\<rparr>) r = Some j" by (simp add: stp_get_port_def)
    from r(2) False have k: "\<exists>i \<in> set (br_port_list br).
        sp_port_no (br_ports br i) = ucast r \<and> sp_state (br_ports br i) \<noteq> DISABLED"
      by (simp add: root_cand_def)
    show ?thesis using r(1) j k False
      by (simp add: stp_root_selection_def spine_def root_known_def Let_def)
  qed
qed

lemma designate_frame:
  "spine (designate i br) = spine br" "br_root_port (designate i br) = br_root_port br"
  "br_designated_root (designate i br) = br_designated_root br"
  by (auto simp: designate_def stp_become_designated_port_def supd_def spine_def fun_eq_iff)

lemma designated_selection_frame:
  "spine (stp_designated_port_selection br) = spine br
   \<and> br_root_port (stp_designated_port_selection br) = br_root_port br
   \<and> br_designated_root (stp_designated_port_selection br) = br_designated_root br"
proof -
  have "spine (fold designate xs b) = spine b \<and> br_root_port (fold designate xs b) = br_root_port b
    \<and> br_designated_root (fold designate xs b) = br_designated_root b" for xs b
    by (induction xs arbitrary: b) (simp_all add: designate_frame)
  then show ?thesis by (simp add: stp_designated_port_selection_def)
qed

lemma configuration_update:
  assumes "stp_base br"
  shows "\<exists>br'. stp_configuration_update br = Some br' \<and> spine br' = spine br \<and> stp_base br' \<and> root_known br'"
proof -
  obtain b where b: "stp_root_selection br = Some b" "spine b = spine br" "root_known b"
    using root_selection [OF assms] by blast
  define c where "c = stp_designated_port_selection b"
  note f = designated_selection_frame [of b, folded c_def]
  have s: "spine c = spine b" using f by simp
  have "root_known c" using b(3) f
    by (simp add: root_known_def stp_is_root_bridge_def spine_fields [OF s])
  then show ?thesis using b s assms
    by (simp add: stp_configuration_update_def c_def [symmetric] spine_base [of c br])
qed

lemma shape_spine:
  assumes "shape b = shape a"
  shows "br_port_list b = br_port_list a" "br_freed b = br_freed a"
    "sp_state (br_ports b i) = DISABLED \<longleftrightarrow> sp_state (br_ports a i) = DISABLED"
  using shape_fields [OF assms] by auto

text \<open>After a recomputation the invariant holds, whatever held before of roles and states.\<close>

definition same_ports :: "stp_instance \<Rightarrow> stp_instance \<Rightarrow> bool" where
  "same_ports br br' \<longleftrightarrow> br_port_list br' = br_port_list br \<and> br_freed br' = br_freed br
     \<and> (\<forall>i. sp_state (br_ports br' i) = DISABLED \<longleftrightarrow> sp_state (br_ports br i) = DISABLED)"

lemma same_ports_trans: "same_ports a b \<Longrightarrow> same_ports b c \<Longrightarrow> same_ports a c"
  by (simp add: same_ports_def)

lemma same_ports_core: "core b = core a \<Longrightarrow> same_ports a b"
  unfolding same_ports_def using core_fields by metis

lemma same_ports_shape: "shape b = shape a \<Longrightarrow> same_ports a b"
  unfolding same_ports_def using shape_spine by blast

lemma same_ports_spine: "spine b = spine a \<Longrightarrow> same_ports a b"
  unfolding same_ports_def using spine_fields by metis

lemma update_and_select:
  assumes "stp_base br"
  shows "\<exists>b. stp_configuration_update br = Some b \<and> stp_inv (stp_port_state_selection env b)
    \<and> same_ports br (stp_port_state_selection env b)"
proof -
  obtain b where b: "stp_configuration_update br = Some b" "spine b = spine br" "stp_base b" "root_known b"
    using configuration_update [OF assms] by blast
  have "same_ports br (stp_port_state_selection env b)"
    using same_ports_trans [OF same_ports_spine [OF b(2)] same_ports_shape [OF state_selection(1) [OF b(3)]]] .
  with state_selection_inv [OF b(3,4)] b(1) show ?thesis by blast
qed

lemma reconfigure:
  assumes "stp_base br"
  shows "\<exists>br'. reconfigure env w br = Some br' \<and> stp_inv br' \<and> same_ports br br'"
proof -
  from update_and_select [OF assms] obtain b where b: "stp_configuration_update br = Some b"
    "stp_inv (stp_port_state_selection env b)" "same_ports br (stp_port_state_selection env b)" by blast
  then obtain c where c: "stp_become_root_bridge env (stp_port_state_selection env b) = Some c"
    "core c = core (stp_port_state_selection env b)"
    using become_root_bridge [of "stp_port_state_selection env b" env] by (auto simp: stp_inv_def)
  then have "stp_inv c" "same_ports br c"
    using b core_inv [OF c(2)] same_ports_trans [OF b(3) same_ports_core [OF c(2)]] by auto
  with b c show ?thesis by (auto simp: reconfigure_def Let_def)
qed

section \<open>The operations\<close>

text \<open>
  What an operation keeps: the safe part whenever it returns, and the whole invariant, under which it
  does return.
\<close>

definition keeps :: "stp_instance \<Rightarrow> stp_instance option \<Rightarrow> bool" where
  "keeps br r \<longleftrightarrow> (\<forall>br'. r = Some br' \<longrightarrow> stp_safe br \<longrightarrow> stp_safe br') \<and>
     (stp_inv br \<longrightarrow> (\<exists>br'. r = Some br' \<and> stp_inv br'))"

lemma inv_safe: "stp_inv br \<longleftrightarrow> stp_safe br \<and> root_known br"
  by (auto simp: stp_inv_def stp_safe_def)

lemma safe_base: "stp_safe br \<Longrightarrow> stp_base br"
  by (simp add: stp_safe_def)

lemma keeps_all: "(stp_safe br \<Longrightarrow> \<exists>br'. r = Some br' \<and> stp_inv br') \<Longrightarrow> keeps br r"
  by (auto simp: keeps_def inv_safe)

lemma keeps_core:
  assumes "\<And>br'. r = Some br' \<Longrightarrow> core br' = core br" "stp_inv br \<Longrightarrow> r \<noteq> None"
  shows "keeps br r"
  unfolding keeps_def
proof (intro conjI allI impI)
  show "stp_safe br'" if "r = Some br'" "stp_safe br" for br'
    using that core_safe [OF assms(1) [OF that(1)]] by simp
  show "\<exists>br'. r = Some br' \<and> stp_inv br'" if "stp_inv br"
    using that assms(2) core_inv [OF assms(1)] by blast
qed

lemma keeps_same: "core br' = core br \<Longrightarrow> keeps br (Some br')"
  by (rule keeps_core) simp_all

lemma keeps_some:
  "(stp_safe br \<Longrightarrow> stp_safe br') \<Longrightarrow> (stp_inv br \<Longrightarrow> root_known br') \<Longrightarrow> keeps br (Some br')"
  by (auto simp: keeps_def inv_safe)

lemma keeps_then:
  assumes "keeps br r" "\<And>b. core (f b) = core b"
  shows "keeps br (map_option f r)"
  using assms(1) unfolding keeps_def by (auto simp: core_safe [OF assms(2)] core_inv [OF assms(2)])

lemma transmit_keeps: "keeps br (stp_transmit_config env i br)"
proof (rule keeps_core)
  show "core br' = core br" if "stp_transmit_config env i br = Some br'" for br'
    using that by (auto simp: stp_transmit_config_def core_simps pcore_def split: if_splits bind_splits)
  show "stp_transmit_config env i br \<noteq> None" if "stp_inv br"
    using transmit_config [of br env i] that by (auto simp: stp_inv_def)
qed

lemma generation_core: "stp_config_bpdu_generation env br = Some br' \<Longrightarrow> core br' = core br"
proof -
  have "run_events (generate env) xs b = Some br' \<Longrightarrow> core br' = core b" for xs b
  proof (induction xs arbitrary: b)
    case (Cons i xs)
    then obtain c where c: "generate env i b = Some c" "core br' = core c" by (auto split: bind_splits)
    then have "core c = core b"
      by (auto simp: generate_def stp_transmit_config_def core_simps pcore_def split: if_splits bind_splits)
    with c show ?case by simp
  qed simp
  then show "stp_config_bpdu_generation env br = Some br' \<Longrightarrow> core br' = core br"
    by (simp add: stp_config_bpdu_generation_def)
qed

lemma generation_keeps: "keeps br (stp_config_bpdu_generation env br)"
  using generation [of br env] by (intro keeps_core) (auto simp: generation_core stp_inv_def)

lemma base_supd:
  assumes "stp_base br" "\<And>p. sp_port_no (f p) = sp_port_no p" "\<And>p. \<not> sp_is_own_bpdu p \<Longrightarrow> \<not> sp_is_own_bpdu (f p)"
  shows "stp_base (supd i f br)"
  using assms by (auto simp: stp_base_def supd_def)

lemma base_become_designated: "stp_base br \<Longrightarrow> stp_base (stp_become_designated_port i br)"
  by (simp add: stp_become_designated_port_def base_supd)

lemma keeps_reconfigure: "(stp_safe br \<Longrightarrow> stp_base b) \<Longrightarrow> keeps br (reconfigure env w b)"
  using reconfigure by (intro keeps_all) blast

lemma keeps_update: "(stp_safe br \<Longrightarrow> stp_base b) \<Longrightarrow>
    keeps br (map_option (stp_port_state_selection env) (stp_configuration_update b))"
  using update_and_select by (intro keeps_all) fastforce

end
