(* ===== verification/Stp_Run.thy ===== *)
theory Stp_Run
  imports Stp_Inv
begin

text \<open>
  Runs of one spanning tree instance: what every operation keeps of the invariant, and the machine
  whose events are the calls the rest of the switch makes (\<open>vlan_stp.c\<close>, \<open>stpmgr_main.c\<close>,
  \<open>stp_cli.c\<close>) and the steps of its timers. The machine is an interpretation of the interfaces of
  the prelude twice: with the safe part of the invariant, kept by every event, and with the whole
  invariant, under which an event that meets its guard is handled without a fault.
\<close>

section \<open>Received messages\<close>

lemma not_own: "stp_safe br \<Longrightarrow> i \<in> set (br_port_list br) \<Longrightarrow> \<not> sp_is_own_bpdu (br_ports br i)"
  by (simp add: stp_safe_def stp_base_def)

lemma core_own:
  "\<not> sp_is_own_bpdu (br_ports br i) \<Longrightarrow> core (supd i (\<lambda>p. p\<lparr>sp_is_own_bpdu := False\<rparr>) br) = core br"
  by (auto simp: core_def supd_def pcore_def fun_eq_iff)

lemma keeps_from: "core b = core br \<Longrightarrow> keeps b r \<Longrightarrow> keeps br r"
  by (simp add: keeps_def core_safe [of b br] core_inv [of b br])

lemma keeps_bind_core:
  assumes "keeps br r" "\<And>b. keeps b (f b)"
  shows "keeps br (r \<bind> f)"
  using assms unfolding keeps_def by (cases r) auto

lemma keeps_id: "keeps br (Some br)"
  by (simp add: keeps_same)

lemma superseding_config:
  assumes "stp_base br"
  shows "\<exists>br'. do {
      br \<leftarrow> stp_configuration_update (stp_record_config_information env i c br);
      let br = stp_port_state_selection env br;
      let br = (if \<not> stp_is_root_bridge br \<and> was_root then root_lost env br else br);
      if sp_port_no (br_ports br i) = br_root_port br
      then do {
        br \<leftarrow> stp_config_bpdu_generation env (stp_record_config_timeout_values c br);
        Some (if bpdu_flags c AND TC_ACK_BIT \<noteq> 0 then stp_topology_change_acknowledged br else br)
      }
      else Some br
    } = Some br' \<and> stp_inv br'"
proof -
  have "stp_base (stp_record_config_information env i c br)"
    by (simp add: stp_record_config_information_def base_supd assms)
  from update_and_select [OF this, of env] obtain b where
    b: "stp_configuration_update (stp_record_config_information env i c br) = Some b"
      "stp_inv (stp_port_state_selection env b)" by blast
  define a where "a = stp_port_state_selection env b"
  define l where "l = (if \<not> stp_is_root_bridge a \<and> was_root then root_lost env a else a)"
  have "core l = core a" by (simp add: l_def core_simps)
  then have l: "stp_inv l" using b(2) core_inv [of l a] by (simp add: a_def)
  define g where "g = stp_record_config_timeout_values c l"
  have "stp_inv g" using l core_inv [OF core_timeouts, of c l] by (simp add: g_def)
  then obtain h where h: "stp_config_bpdu_generation env g = Some h" "stp_inv h"
    using generation_keeps [of g env] by (auto simp: keeps_def)
  have "stp_inv (stp_topology_change_acknowledged h)" using h(2) core_inv [OF core_acknowledged] by blast
  with l h show ?thesis
    unfolding b(1) bind.bind_lunit Let_def a_def [symmetric] l_def [symmetric] g_def [symmetric] by simp
qed

lemma received_config_keeps:
  assumes "stp_safe br \<Longrightarrow> i \<in> set (br_port_list br)"
  shows "keeps br (stp_received_config_bpdu env i c br)"
proof (cases "stp_safe br")
  case True
  define b where "b = supd i (\<lambda>p. p\<lparr>sp_is_own_bpdu := False\<rparr>) br"
  have b: "core b = core br" unfolding b_def by (rule core_own [OF not_own [OF True assms [OF True]]])
  have base: "stp_base b" using safe_base [OF True] core_base [OF b] by simp
  show ?thesis
  proof (cases "stp_supersedes_port_info b (br_ports b i) c")
    case sup: True
    show ?thesis using superseding_config [OF base, of env i c "stp_is_root_bridge br"] sup
      by (intro keeps_all) (simp add: stp_received_config_bpdu_def Let_def b_def [symmetric])
  next
    case False
    then have "stp_received_config_bpdu env i c br =
        (if stp_is_designated_port b (br_ports b i) then stp_transmit_config env i b else Some b)"
      by (simp add: stp_received_config_bpdu_def Let_def b_def [symmetric] stp_reply_def)
    then show ?thesis using keeps_from [OF b transmit_keeps] keeps_from [OF b keeps_id] by simp
  qed
qed (simp add: keeps_def inv_safe)

lemma received_tcn_keeps: "keeps br (stp_received_tcn_bpdu env i br)"
proof -
  define b where "b = supd i (\<lambda>p. p\<lparr>sp_topology_change_ack := 1\<rparr>) (stp_topology_change_detection env br)"
  have "core b = core br" by (simp add: b_def core_simps pcore_def)
  from keeps_from [OF this transmit_keeps] show ?thesis
    by (auto simp: stp_received_tcn_bpdu_def stp_topology_change_acknowledge_def b_def keeps_id)
qed

lemma process_bpdu_keeps:
  assumes "stp_safe br \<Longrightarrow> i \<in> set (br_port_list br)"
  shows "keeps br (map_option snd (process_bpdu_on env i c br))"
  using received_config_keeps [OF assms] received_tcn_keeps
  by (simp add: process_bpdu_on_def Let_def keeps_id option.map_comp comp_def option.map_ident)

section \<open>Ports\<close>

lemma ucast_below_16: "unat (ucast (n :: u16) :: u32) < 2 ^ 16"
  using uint_lt2p [of n] by (simp add: unsigned_ucast_eq take_bit_int_eq_self nat_less_iff flip: nat_uint_eq)

lemma create_keeps:
  assumes "i \<notin> set (br_port_list br)"
  shows "keeps br (Some (snd (stp_create_port env (Some i) (uint (port :: u16)) br)))"
proof -
  define b where "b = snd (stp_create_port env (Some i) (uint port) br)"
  have f: "br_port_list b = br_port_list br @ [i]" "set (br_freed b) = set (br_freed br) - {i}"
    "br_bridge_id b = br_bridge_id br" "br_designated_root b = br_designated_root br" "br_root_port b = br_root_port br"
    "\<And>j. j \<in> set (br_port_list br) \<Longrightarrow> br_ports b j = br_ports br j"
    "br_ports b i = stp_port_new env (uint port)"
    using assms by (auto simp: b_def stp_create_port_def)
  have n: "unat (word_of_int (uint port) :: u32) < 2 ^ 16"
    using ucast_below_16 [of port] by simp
  show ?thesis unfolding b_def [symmetric]
  proof (rule keeps_some)
    assume "stp_safe br"
    then show "stp_safe b" using assms n
      by (auto simp: stp_safe_def stp_base_def port_good_def stp_is_designated_port_def active_def f stp_port_new_def)
  next
    assume "stp_inv br"
    then show "root_known b" by (auto simp: stp_inv_def root_known_def stp_is_root_bridge_def f)
  qed
qed

lemma delete_safe: "stp_safe br \<Longrightarrow> stp_safe (stp_delete_port port br)"
  by (auto simp: stp_delete_port_def stp_safe_def stp_base_def port_good_def stp_is_designated_port_def
      split: option.split)

lemma delete_inv:
  assumes "stp_inv br" "port \<noteq> br_root_port br"
  shows "stp_inv (stp_delete_port port br)"
proof -
  have "root_known (stp_delete_port port br)"
  proof (cases "stp_get_port_info br port")
    case (Some i)
    then have "sp_port_no (br_ports br i) = port" by (auto simp: stp_get_port_info_def find_Some_iff)
    moreover have "distinct (br_port_list br)" using assms(1) by (simp add: stp_inv_def stp_base_def)
    ultimately show ?thesis using Some assms
      by (auto simp: stp_delete_port_def inv_safe root_known_def stp_is_root_bridge_def)
  qed (use assms in \<open>simp add: stp_delete_port_def inv_safe\<close>)
  with assms(1) delete_safe show ?thesis by (simp add: inv_safe)
qed

lemma init_port_base: "stp_base br \<Longrightarrow> stp_base (stp_init_port i br)"
  by (auto simp: stp_init_port_def Let_def stp_base_def supd_def stp_become_designated_port_def)

lemma init_port_root_known: "root_known br \<Longrightarrow> root_known (stp_init_port i br)"
  by (auto simp: stp_init_port_def Let_def root_known_def stp_is_root_bridge_def supd_def stp_become_designated_port_def)

lemma init_port_frame: "br_port_list (stp_init_port i br) = br_port_list br"
  "br_freed (stp_init_port i br) = br_freed br"
  by (simp_all add: stp_init_port_def Let_def supd_def stp_become_designated_port_def)

lemma state_selection_safe: "stp_base br \<Longrightarrow> stp_safe (stp_port_state_selection env br)"
  using state_selection(2) [of br _ env] shape_base [OF state_selection(1) [of br env]]
    shape_fields(1) [OF state_selection(1) [of br env]]
  by (simp add: stp_safe_def)

lemma state_selection_root_known:
  "stp_base br \<Longrightarrow> root_known br \<Longrightarrow> root_known (stp_port_state_selection env br)"
  using state_selection_inv [of br env] by (simp add: inv_safe)

lemma enable_port_keeps: "keeps br (Some (stp_enable_port env i br))"
proof (rule keeps_some)
  show "stp_safe (stp_enable_port env i br)" if "stp_safe br"
    using that by (simp add: stp_enable_port_def state_selection_safe init_port_base safe_base)
  show "root_known (stp_enable_port env i br)" if "stp_inv br"
    using that by (simp add: stp_enable_port_def state_selection_root_known init_port_base init_port_root_known
        inv_safe safe_base)
qed

lemma fold_keeps: "(\<And>i b. keeps b (Some (f i b))) \<Longrightarrow> keeps br (Some (fold f xs br))"
proof (induction xs arbitrary: br)
  case (Cons i xs)
  from Cons.IH [OF Cons.prems, of "f i br"] Cons.prems [of br i] show ?case by (simp add: keeps_def)
qed (simp add: keeps_id)

lemma enable_keeps: "keeps br (stp_enable env br)"
proof -
  define b where "b = br\<lparr>br_stp_enabled := STP_ENABLED,
    br_hello_timer := stp_mod env (br_hello_time br) (br_hello_timer br)\<rparr>"
  have b: "core b = core br" by (simp add: b_def core_def)
  have "keeps b (stp_config_bpdu_generation env b \<bind> (\<lambda>b. Some (fold (stp_enable_port env) (br_port_list b) b)))"
    by (intro keeps_bind_core generation_keeps fold_keeps enable_port_keeps)
  from keeps_from [OF b this] show ?thesis by (simp add: stp_enable_def b_def)
qed

lemma disable_port_base:
  assumes "stp_base br"
  shows "stp_base (supd i (\<lambda>p. p\<lparr>sp_state := DISABLED, sp_topology_change_ack := 0, sp_config_pending := False,
                sp_is_own_bpdu := False, sp_message_age_timer := tv_del (sp_message_age_timer p),
                sp_forward_delay_timer := tv_del (sp_forward_delay_timer p),
                sp_hold_timer := tv_del (sp_hold_timer p)\<rparr>) (stp_become_designated_port i br))"
  by (intro base_supd base_become_designated assms) simp_all

lemma disable_port:
  assumes "stp_base br"
  shows "\<exists>br'. stp_disable_port env i br = Some br' \<and> stp_inv br' \<and> sp_state (br_ports br' i) = DISABLED"
  using reconfigure [OF disable_port_base [OF assms, of i], of env "stp_is_root_bridge br"]
  unfolding stp_disable_port_def Let_def same_ports_def by (fastforce simp: supd_def)

lemma remove_disabled:
  assumes "stp_inv br" "sp_state (br_ports br i) = DISABLED"
  shows "stp_inv (br\<lparr>br_port_list := remove1 i (br_port_list br), br_freed := i # br_freed br\<rparr>)"
  using assms
  by (auto simp: stp_inv_def stp_base_def root_known_def port_good_def stp_is_designated_port_def stp_is_root_bridge_def)

lemma remove_safe:
  "stp_safe br \<Longrightarrow> stp_safe (br\<lparr>br_port_list := remove1 i (br_port_list br), br_freed := i # br_freed br\<rparr>)"
  by (auto simp: stp_safe_def stp_base_def port_good_def stp_is_designated_port_def)

lemma disable_one_keeps: "keeps br (disable_one env i br)"
proof (cases "sp_state (br_ports br i) = DISABLED")
  case True
  then show ?thesis by (auto simp: disable_one_def keeps_def remove_safe remove_disabled)
next
  case False
  show ?thesis
  proof (rule keeps_all)
    assume "stp_safe br"
    with disable_port [OF safe_base, of br env i] False remove_disabled
    show "\<exists>br'. disable_one env i br = Some br' \<and> stp_inv br'" by (auto simp: disable_one_def)
  qed
qed

lemma run_keeps: "(\<And>i b. keeps b (f i b)) \<Longrightarrow> keeps br (run_events f xs br)"
  by (induction xs arbitrary: br) (simp_all add: keeps_id keeps_bind_core)

lemma disable_keeps: "keeps br (stp_disable env br)"
  unfolding stp_disable_def
  by (intro keeps_bind_core run_keeps disable_one_keeps keeps_same) (simp add: core_def)

lemma set_state_keeps: "keeps br (stp_set_state env st br)"
  by (simp add: stp_set_state_def keeps_then enable_keeps disable_keeps core_simps)

section \<open>Configuration\<close>

lemma fold_supd_base:
  assumes "stp_base br" "\<And>p. sp_port_no (f p) = sp_port_no p" "\<And>p. \<not> sp_is_own_bpdu p \<Longrightarrow> \<not> sp_is_own_bpdu (f p)"
  shows "stp_base (fold (\<lambda>i. supd i f) xs br)"
  using assms by (induction xs arbitrary: br) (simp_all add: base_supd)

lemma change_bridge_id_keeps: "keeps br (stp_change_bridge_id env addr br)"
  unfolding stp_change_bridge_id_def Let_def
  by (intro keeps_reconfigure fold_supd_base) (simp_all add: stp_safe_def stp_base_def)

lemma renumber_base: "stp_base br \<Longrightarrow> stp_base (fold (renumber newprio) xs br)"
  by (induction xs arbitrary: br) (simp_all add: renumber_def base_supd)

lemma set_bridge_priority_keeps: "keeps br (set_bridge_priority_on env newprio br)"
  unfolding set_bridge_priority_on_def Let_def
  using renumber_base [OF safe_base, of br newprio "br_port_list br"]
  by (intro keeps_reconfigure) (simp add: stp_base_def)

lemma set_path_cost_keeps: "keeps br (stp_set_path_cost env i path_cost br)"
  unfolding stp_set_path_cost_def by (intro keeps_update base_supd) (simp_all add: safe_base)

lemma set_port_priority_keeps: "keeps br (Some (stp_set_port_priority env i newprio br))"
proof -
  define q where "q = stp_make_port_id newprio (ucast (sp_port_no (br_ports br i)))"
  define a where "a = (if stp_is_designated_port br (br_ports br i)
    then supd i (\<lambda>p. p\<lparr>sp_designated_port := q\<rparr>) br else br)"
  define b where "b = supd i (\<lambda>p. p\<lparr>sp_port_id := q, sp_priority := uint newprio\<rparr>) a"
  define c where "c = stp_become_designated_port i b"
  have r: "stp_set_port_priority env i newprio br = (if bid_cmp (br_bridge_id b) (sp_designated_bridge (br_ports b i)) = 0
      \<and> sp_port_id (br_ports b i) < sp_designated_port (br_ports b i) then stp_port_state_selection env c else b)"
    by (simp only: stp_set_port_priority_def Let_def a_def b_def c_def q_def)
  have base: "stp_safe br \<Longrightarrow> stp_base b" by (simp add: b_def a_def base_supd safe_base)
  have safe: "stp_safe br \<Longrightarrow> stp_safe b" using base
    by (auto simp: stp_safe_def b_def a_def supd_def port_good_def active_def stp_is_designated_port_def split: if_splits)
  have basec: "stp_safe br \<Longrightarrow> stp_base c" unfolding c_def by (intro base_become_designated base)
  have known: "root_known br \<Longrightarrow> root_known b" "root_known br \<Longrightarrow> root_known c"
    by (auto simp: b_def c_def a_def supd_def root_known_def stp_is_root_bridge_def stp_become_designated_port_def)
  show ?thesis unfolding r
    by (rule keeps_some) (simp_all add: safe known inv_safe state_selection_safe state_selection_root_known basec)
qed

lemma times_core:
  "core (snd (hello_time_on h br)) = core br" "core (snd (forward_delay_on f br)) = core br"
  "core (snd (max_age_on m br)) = core br" "core (snd (times_on f m h br)) = core br"
  by (simp_all add: hello_time_on_def forward_delay_on_def max_age_on_def times_on_def Let_def core_simps core_def)

section \<open>Timers\<close>

lemma message_age_keeps: "keeps br (stp_message_age_timer_expired env i br)"
  by (auto simp: stp_message_age_timer_expired_def keeps_id safe_base
      intro!: keeps_reconfigure base_become_designated base_supd)

lemma root_known_supd:
  assumes "root_known br" "\<And>p. sp_port_no (f p) = sp_port_no p" "\<And>p. sp_state (f p) \<noteq> DISABLED"
  shows "root_known (supd i f br)"
proof (cases "stp_is_root_bridge br")
  case False
  with assms(1) obtain j where j: "j \<in> set (br_port_list br)" "sp_port_no (br_ports br j) = br_root_port br"
    "sp_state (br_ports br j) \<noteq> DISABLED" by (auto simp: root_known_def)
  with assms(2,3) show ?thesis unfolding root_known_def by (intro disjI2 bexI [of _ j]) (auto simp: supd_def)
qed (simp add: root_known_def stp_is_root_bridge_def supd_def)

lemma raise_state_keeps:
  assumes "active (br_ports br i)" "\<And>p. sp_port_no (f p) = sp_port_no p" "\<And>p. sp_is_own_bpdu (f p) = sp_is_own_bpdu p"
    "\<And>p. sp_state (f p) \<noteq> DISABLED" "\<And>b p. stp_is_designated_port b (f p) = stp_is_designated_port b p"
  shows "keeps br (Some (supd i f br))"
proof (rule keeps_some)
  have d: "stp_is_designated_port (supd i f br) p = stp_is_designated_port br p" for p
    by (simp add: stp_is_designated_port_def supd_def)
  assume "stp_safe br"
  then show "stp_safe (supd i f br)" using assms
    by (auto simp: stp_safe_def base_supd port_good_def d) (auto simp: supd_def split: if_splits)
next
  assume "stp_inv br"
  then show "root_known (supd i f br)" using assms by (intro root_known_supd) (simp_all add: inv_safe)
qed

lemma forward_delay_keeps: "keeps br (Some (stp_forward_delay_timer_expired env i br))"
proof -
  have up: "keeps br (Some (supd i f br))"
    if "active (br_ports br i)" "\<And>p. pcore (f p) = pcore (p\<lparr>sp_state := s\<rparr>)" "s \<noteq> DISABLED" for f s
    using that by (intro raise_state_keeps) (auto simp: pcore_def stp_is_designated_port_def)
  consider "sp_state (br_ports br i) = LISTENING" | "sp_state (br_ports br i) = LEARNING"
    | "sp_state (br_ports br i) \<noteq> LISTENING" "sp_state (br_ports br i) \<noteq> LEARNING" by blast
  then show ?thesis
  proof cases
    case 1
    then show ?thesis unfolding stp_forward_delay_timer_expired_def
      by (simp add: up [where s = LEARNING] active_def pcore_def)
  next
    case 2
    have "keeps br (Some (supd i (\<lambda>p. p\<lparr>sp_state := FORWARDING\<rparr>) br))"
      using 2 by (intro up [where s = FORWARDING]) (simp_all add: active_def)
    from this keeps_then [OF this core_tc_detection [of env]] 2 show ?thesis
      by (simp add: stp_forward_delay_timer_expired_def Let_def)
  next
    case 3
    then show ?thesis by (simp add: stp_forward_delay_timer_expired_def keeps_id)
  qed
qed

lemma hold_keeps: "keeps br (stp_hold_timer_expired env i br)"
  by (simp add: stp_hold_timer_expired_def transmit_keeps keeps_id)

lemma hello_keeps: "keeps br (stp_hello_timer_expired env br)"
  unfolding stp_hello_timer_expired_def by (intro keeps_then generation_keeps) (simp add: core_simps)

definition tmr_port :: "stp_tmr \<Rightarrow> nat option" where
  "tmr_port k = (case k of TAge i \<Rightarrow> Some i | TForward i \<Rightarrow> Some i | THold i \<Rightarrow> Some i | _ \<Rightarrow> None)"

definition tmr_owned :: "stp_tmr \<Rightarrow> stp_instance \<Rightarrow> bool" where
  "tmr_owned k br = (case tmr_port k of None \<Rightarrow> True | Some i \<Rightarrow> i \<notin> set (br_freed br))"

lemma time_out_keeps: "tmr_owned k br \<Longrightarrow> keeps br (stp_time_out env k br)"
  by (cases k) (simp_all add: stp_time_out_def tmr_owned_def tmr_port_def hello_keeps message_age_keeps
      forward_delay_keeps hold_keeps keeps_same stp_tcn_timer_expired_def stp_topology_change_timer_expired_def core_simps)

lemma time_out_freed: "\<not> tmr_owned k br \<Longrightarrow> stp_time_out env k br = None"
  by (cases k) (simp_all add: tmr_owned_def tmr_port_def stp_time_out_def)

lemma serve_keeps: "tmr_owned k br \<Longrightarrow> keeps br (stp_serve_timer env k br)"
  unfolding stp_serve_timer_def by (intro keeps_then time_out_keeps) (simp_all add: core_simps)

section \<open>The machine\<close>

datatype stp_event = SvCreate nat u16 | SvDelete u32 | SvState int | SvLink u16 int | SvBpdu u16 stp_bpdu
  | SvPriority u16 | SvAddress macaddress | SvPortPriority u32 u8 | SvPathCost u32 u32
  | SvHello int | SvFdelay int | SvMaxage int | SvTimes int int int | SvElapse stp_tmr | SvServe stp_tmr

text \<open>\<open>stp_enable_or_disable_port\<close> and \<open>stp_process_bpdu\<close> where the port is looked up in one instance.\<close>

definition stp_link_change :: "stp_env \<Rightarrow> u16 \<Rightarrow> int \<Rightarrow> stp_instance \<Rightarrow> stp_instance option" where
  "stp_link_change env port st br =
    (if st = IF_UP then map_option (\<lambda>i. stp_enable_port env i br) (stp_get_port br port)
     else if st = IF_DOWN then stp_get_port br port \<bind> (\<lambda>i. stp_disable_port env i br)
     else Some br)"

definition stp_receive :: "stp_env \<Rightarrow> u16 \<Rightarrow> stp_bpdu \<Rightarrow> stp_instance \<Rightarrow> (int \<times> stp_instance) option" where
  "stp_receive env port c br =
    (case stp_get_port br port of None \<Rightarrow> Some (-1, br) | Some i \<Rightarrow> process_bpdu_on env i c br)"

definition with_port :: "u32 \<Rightarrow> (nat \<Rightarrow> stp_instance \<Rightarrow> stp_instance option) \<Rightarrow> stp_instance \<Rightarrow> stp_instance option" where
  "with_port port f br = (case stp_get_port_info br port of None \<Rightarrow> Some br | Some i \<Rightarrow> f i br)"

fun stp_step :: "stp_env \<times> stp_event \<Rightarrow> stp_instance \<Rightarrow> stp_instance option" where
  "stp_step (env, SvCreate i port) br =
     Some (if i \<in> set (br_port_list br) then br else snd (stp_create_port env (Some i) (uint port) br))"
| "stp_step (env, SvDelete port) br = Some (stp_delete_port port br)"
| "stp_step (env, SvState st) br = stp_set_state env st br"
| "stp_step (env, SvLink port st) br = stp_link_change env port st br"
| "stp_step (env, SvBpdu port c) br = map_option snd (stp_receive env port c br)"
| "stp_step (env, SvPriority p) br = set_bridge_priority_on env p br"
| "stp_step (env, SvAddress a) br = stp_change_bridge_id env a br"
| "stp_step (env, SvPortPriority port p) br = with_port port (\<lambda>i br. Some (stp_set_port_priority env i p br)) br"
| "stp_step (env, SvPathCost port c) br = with_port port (\<lambda>i. stp_set_path_cost env i c) br"
| "stp_step (env, SvHello v) br = Some (snd (hello_time_on v br))"
| "stp_step (env, SvFdelay v) br = Some (snd (forward_delay_on v br))"
| "stp_step (env, SvMaxage v) br = Some (snd (max_age_on v br))"
| "stp_step (env, SvTimes f m h) br = Some (snd (times_on f m h br))"
| "stp_step (env, SvElapse k) br = Some (tmr_upd k tv_elapsed br)"
| "stp_step (env, SvServe k) br = stp_serve_timer env k br"

text \<open>
  Where the code does not fault: the port that is deleted is not the root port, a link event names a
  port of the instance, and the port of an expired timer has not been released.
\<close>

fun stp_guard :: "stp_env \<times> stp_event \<Rightarrow> stp_instance \<Rightarrow> bool" where
  "stp_guard (env, SvDelete port) br = (port \<noteq> br_root_port br)"
| "stp_guard (env, SvLink port st) br = (st \<noteq> IF_UP \<and> st \<noteq> IF_DOWN \<or> stp_get_port br port \<noteq> None)"
| "stp_guard (env, SvServe k) br = tmr_owned k br"
| "stp_guard _ br = True"

lemma get_port_in: "stp_get_port br port = Some i \<Longrightarrow> i \<in> set (br_port_list br)"
  by (auto simp: stp_get_port_def find_Some_iff)

lemma disable_port_keeps: "keeps br (stp_disable_port env i br)"
  using disable_port [OF safe_base] by (intro keeps_all) blast

lemma link_change_keeps:
  assumes "st \<noteq> IF_UP \<and> st \<noteq> IF_DOWN \<or> stp_get_port br port \<noteq> None"
  shows "keeps br (stp_link_change env port st br)"
  using assms by (auto simp: stp_link_change_def keeps_id enable_port_keeps disable_port_keeps)

lemma receive_keeps: "keeps br (map_option snd (stp_receive env port c br))"
  by (auto simp: stp_receive_def keeps_id split: option.split intro!: process_bpdu_keeps dest: get_port_in)

lemma with_port_keeps: "(\<And>i. keeps br (f i br)) \<Longrightarrow> keeps br (with_port port f br)"
  by (auto simp: with_port_def keeps_id split: option.split)

lemma stp_step_keeps:
  assumes "stp_guard e br" "\<And>env port. e \<noteq> (env, SvDelete port)"
  shows "keeps br (stp_step e br)"
  using assms
  by (cases "(e, br)" rule: stp_step.cases)
    (auto simp: keeps_id create_keeps set_state_keeps link_change_keeps receive_keeps set_bridge_priority_keeps
      change_bridge_id_keeps set_port_priority_keeps set_path_cost_keeps serve_keeps times_core core_simps
      intro!: with_port_keeps intro: keeps_same)

lemma stp_step_safe: "stp_safe br \<Longrightarrow> stp_step e br = Some br' \<Longrightarrow> stp_safe br'"
proof (cases "stp_guard e br \<and> (\<forall>env port. e \<noteq> (env, SvDelete port))")
  case True
  then show "stp_safe br \<Longrightarrow> stp_step e br = Some br' \<Longrightarrow> stp_safe br'"
    using stp_step_keeps [of e br] by (auto simp: keeps_def)
next
  case False
  then show "stp_safe br \<Longrightarrow> stp_step e br = Some br' \<Longrightarrow> stp_safe br'"
    by (cases "(e, br)" rule: stp_guard.cases)
      (auto simp: delete_safe stp_link_change_def stp_serve_timer_def time_out_freed)
qed

lemma stp_step_inv: "stp_inv br \<Longrightarrow> stp_guard e br \<Longrightarrow> \<exists>br'. stp_step e br = Some br' \<and> stp_inv br'"
  using stp_step_keeps [of e br] delete_inv by (cases "\<exists>env port. e = (env, SvDelete port)") (auto simp: keeps_def)

interpretation stp: event_machine stp_step stp_safe
  by unfold_locales (rule stp_step_safe)

interpretation stp_guarded: guarded_machine stp_step stp_inv stp_guard
  by unfold_locales (rule stp_step_inv)

lemma init_inv: "br_freed new = [] \<Longrightarrow> stp_inv (stp_init_stp_instance env vlan new)"
  by (simp add: stp_inv_def stp_base_def root_known_def stp_is_root_bridge_def stp_init_stp_instance_def)

end
