(* ===== verification/Stp_Props.thy ===== *)
theory Stp_Props
  imports Stp_Run
begin

unbundle bit_operations_syntax

text \<open>
  Properties of the spanning tree: the order of bridge identifiers and of root port candidates, the
  election of the root and of the designated ports, the safety of port states over whole runs, the
  absence of faults and where it ends, and the messages on the wire.
\<close>

section \<open>The order of bridge identifiers\<close>

definition bid_val :: "bid \<Rightarrow> nat" where
  "bid_val b = be_val (bid_bytes b)"

lemma length_bid_bytes [simp]: "length (bid_bytes b) = 8"
  by (simp add: bid_bytes_def)

lemma bid_val_eq: "bid_val a = bid_val b \<longleftrightarrow> bid_bytes a = bid_bytes b"
  by (auto simp: bid_val_def be_val_inject)

lemma bid_cmp_eq: "bid_cmp a b = 0 \<longleftrightarrow> bid_val a = bid_val b"
  by (simp add: bid_cmp_def memcmp_eq_0 bid_val_eq)

lemma bid_cmp_less: "bid_cmp a b < 0 \<longleftrightarrow> bid_val a < bid_val b"
  by (simp add: bid_cmp_def memcmp_less_0 bid_val_def)

lemma bid_cmp_greater: "0 < bid_cmp a b \<longleftrightarrow> bid_val b < bid_val a"
  using bid_cmp_eq [of a b] bid_cmp_less [of a b] by linarith

lemma bid_cmp_le: "bid_cmp a b \<le> 0 \<longleftrightarrow> bid_val a \<le> bid_val b"
  using bid_cmp_greater [of a b] by linarith

lemmas bid_order = bid_cmp_eq bid_cmp_less bid_cmp_greater bid_cmp_le

lemma byte_pair_inject: "byte_of 0 p = byte_of 0 q \<Longrightarrow> byte_of (Suc 0) p = byte_of (Suc 0) q \<Longrightarrow> p = (q :: u16)"
  by (metis le16_bytes)

lemma bid_val_inject: "bid_val a = bid_val b \<longleftrightarrow> a = b"
  by (cases a; cases b) (auto simp: bid_val_eq bid_bytes_def intro: byte_pair_inject)

lemma be_val_append: "be_val (xs @ ys) = be_val xs * 256 ^ length ys + be_val ys"
  by (induction xs) (simp_all add: power_add algebra_simps)

lemma unat_le16: "unat (le16 a b) = unat b * 256 + unat a"
proof -
  have "le16 a b = ucast a + push_bit 8 (ucast b)"
    unfolding le16_def by (rule disjunctive_add [symmetric]) (auto simp: bit_simps)
  then show ?thesis
    using unsigned_less [of a, where 'a = nat] unsigned_less [of b, where 'a = nat] 
    by (simp add: unat_word_ariths push_bit_eq_mult unsigned_ucast_eq take_bit_nat_eq_self)
qed

lemma bid_val_split: "bid_val b = unat (bswap16 (bid_prio b)) * 256 ^ 6 + be_val (mac_bytes (bid_addr b))"
  by (simp add: bid_val_def bid_bytes_def be_val_append bswap16_def unat_le16)

text \<open>
  \<open>memcmp\<close> on bridge identifiers compares the stored priority with its bytes exchanged, then the
  address: of two bridges the one with the smaller priority is the better one only when the
  exchanged values order them the same way.
\<close>

theorem bid_cmp_swapped_priority:
  "bid_cmp a b < 0 \<longleftrightarrow> bswap16 (bid_prio a) < bswap16 (bid_prio b) \<or>
     bid_prio a = bid_prio b \<and> be_val (mac_bytes (bid_addr a)) < be_val (mac_bytes (bid_addr b))"
proof -
  define x y m n where "x = unat (bswap16 (bid_prio a))" "y = unat (bswap16 (bid_prio b))"
    "m = be_val (mac_bytes (bid_addr a))" "n = be_val (mac_bytes (bid_addr b))"
  note d = x_y_m_n_def
  have b: "m < 256 ^ 6" "n < 256 ^ 6" using be_val_bound [of "mac_bytes _"] by (simp_all add: d)
  have "bid_prio a = bid_prio b \<longleftrightarrow> x = y" by (metis d(1,2) bswap16_bswap16 word_unat_eq_iff)
  moreover have "x * 256 ^ 6 + m < y * 256 ^ 6 + n \<longleftrightarrow> x < y \<or> x = y \<and> m < n"
    using b by (cases x y rule: linorder_cases) (auto simp: nat_neq_iff dest!: less_imp_add_positive simp: algebra_simps)
  ultimately show ?thesis by (simp add: bid_order bid_val_split d word_less_nat_alt)
qed

section \<open>The election\<close>

text \<open>The key by which the code ranks the ports that could become the root port.\<close>

definition root_key :: "stp_port_entry \<Rightarrow> nat \<times> int \<times> nat \<times> u16 \<times> u16" where
  "root_key p = (bid_val (sp_designated_root p), path_cost_via p, bid_val (sp_designated_bridge p),
     sp_designated_port p, sp_port_id p)"

lemma better_root_key: "better_root_port p q \<longleftrightarrow> root_key p < root_key q"
  by (auto simp: better_root_port_def Let_def bid_order root_key_def less_prod_def)

interpretation root_order: priority_order better_root_port
  by unfold_locales (auto simp: better_root_key)

definition root_eligible :: "stp_instance \<Rightarrow> stp_port_entry \<Rightarrow> bool" where
  "root_eligible br p \<longleftrightarrow> sp_state p \<noteq> DISABLED \<and> \<not> stp_is_designated_port br p
     \<and> bid_val (sp_designated_root p) < bid_val (br_bridge_id br)"

definition numbered :: "stp_instance \<Rightarrow> bool" where
  "numbered br \<longleftrightarrow> distinct (map (\<lambda>i. sp_port_no (br_ports br i)) (br_port_list br))
     \<and> (\<forall>i \<in> set (br_port_list br). sp_port_no (br_ports br i) \<noteq> 0)"

definition num_of :: "stp_instance \<Rightarrow> nat option \<Rightarrow> u16" where
  "num_of br a = (case a of None \<Rightarrow> 0 | Some j \<Rightarrow> ucast (sp_port_no (br_ports br j)))"

lemma get_port_number:
  assumes "stp_base br" "numbered br" "j \<in> set (br_port_list br)"
  shows "stp_get_port br (ucast (sp_port_no (br_ports br j))) = Some j"
proof -
  have n: "(ucast (ucast (sp_port_no (br_ports br j)) :: u16) :: u32) = sp_port_no (br_ports br j)"
    using assms by (intro ucast_16) (auto simp: stp_base_def)
  obtain k where k: "find (\<lambda>i. sp_port_no (br_ports br i) = sp_port_no (br_ports br j)) (br_port_list br) = Some k"
    using find_some [OF assms(3), of "\<lambda>i. sp_port_no (br_ports br i) = sp_port_no (br_ports br j)"] by auto
  then have "k \<in> set (br_port_list br)" "sp_port_no (br_ports br k) = sp_port_no (br_ports br j)"
    by (auto simp: find_Some_iff)
  with assms(2,3) have "k = j" by (auto simp: numbered_def distinct_map inj_on_def)
  with k n show ?thesis by (simp add: stp_get_port_def)
qed

lemma num_of_zero:
  assumes "stp_base br" "numbered br" "\<And>j. a = Some j \<Longrightarrow> j \<in> set (br_port_list br)"
  shows "num_of br a = 0 \<longleftrightarrow> a = None"
proof (cases a)
  case (Some j)
  then have j: "j \<in> set (br_port_list br)" using assms(3) by simp
  have "(ucast (ucast (sp_port_no (br_ports br j)) :: u16) :: u32) \<noteq> 0"
    using assms(1,2) j by (subst ucast_16) (auto simp: stp_base_def numbered_def)
  then show ?thesis using Some by (auto simp: num_of_def)
qed (simp add: num_of_def)

lemma should_become_root:
  assumes "stp_base br" "numbered br" "\<And>j. a = Some j \<Longrightarrow> j \<in> set (br_port_list br)"
  shows "stp_should_become_root_port br p (num_of br a) = Some (root_eligible br p
    \<and> (case a of None \<Rightarrow> True | Some j \<Rightarrow> better_root_port p (br_ports br j)))"
  using num_of_zero [OF assms] get_port_number [OF assms(1,2)] assms(3)
  by (auto simp: stp_should_become_root_port_def root_eligible_def bid_order num_of_def split: option.split)

lemma select_root_pick:
  assumes "stp_base br" "numbered br" "set is \<subseteq> set (br_port_list br)" "\<And>j. a = Some j \<Longrightarrow> j \<in> set (br_port_list br)"
  shows "\<exists>b. select_root br is (num_of br a) = Some (num_of br b) \<and> (\<forall>j. b = Some j \<longrightarrow> j \<in> set (br_port_list br))
    \<and> map_option (br_ports br) b = pick_best better_root_port (map_option (br_ports br) a)
        (filter (root_eligible br) (map (br_ports br) is))"
  using assms(3,4)
proof (induction "is" arbitrary: a)
  case (Cons i "is")
  define b where "b = (if root_eligible br (br_ports br i)
    \<and> (case a of None \<Rightarrow> True | Some j \<Rightarrow> better_root_port (br_ports br i) (br_ports br j)) then Some i else a)"
  have own: "\<not> sp_is_own_bpdu (br_ports br i)" using Cons.prems(1) assms(1) by (simp add: stp_base_def)
  have s: "select_root br (i # is) (num_of br a) = select_root br is (num_of br b)"
    using own should_become_root [OF assms(1,2) Cons.prems(2), where p = "br_ports br i"]
    by (simp add: b_def num_of_def)
  have p: "pick_best better_root_port (map_option (br_ports br) a)
      (filter (root_eligible br) (map (br_ports br) (i # is))) =
      pick_best better_root_port (map_option (br_ports br) b) (filter (root_eligible br) (map (br_ports br) is))"
    by (cases a) (auto simp: b_def)
  have "j \<in> set (br_port_list br)" if "b = Some j" for j
    using that Cons.prems by (auto simp: b_def split: if_splits)
  with Cons.IH [of b] Cons.prems(1) show ?case unfolding s p by simp
qed auto

text \<open>
  C4. Root selection always returns and elects the best: when no enabled port has heard of a better
  root than this bridge, the bridge itself is the root at cost zero; otherwise the root port is a
  port with the least key of root identifier, cost through the port, designated bridge, designated
  port and port identifier, and the bridge adopts that port's root and the cost through it.
\<close>

theorem stp_root_selection_elects_best:
  assumes "stp_base br" "numbered br"
  shows "\<exists>br'. stp_root_selection br = Some br' \<and>
    (if \<exists>j \<in> set (br_port_list br). root_eligible br (br_ports br j)
     then \<exists>i \<in> set (br_port_list br). root_eligible br (br_ports br i)
       \<and> br_root_port br' = sp_port_no (br_ports br i)
       \<and> br_designated_root br' = sp_designated_root (br_ports br i)
       \<and> br_root_path_cost br' = sp_designated_cost (br_ports br i) + sp_path_cost (br_ports br i)
       \<and> (\<forall>j \<in> set (br_port_list br). root_eligible br (br_ports br j) \<longrightarrow>
            root_key (br_ports br i) \<le> root_key (br_ports br j))
     else br_root_port br' = 0 \<and> br_designated_root br' = br_bridge_id br \<and> br_root_path_cost br' = 0)"
proof -
  define cs where "cs = filter (root_eligible br) (map (br_ports br) (br_port_list br))"
  obtain b where b: "select_root br (br_port_list br) 0 = Some (num_of br b)" "\<forall>j. b = Some j \<longrightarrow> j \<in> set (br_port_list br)"
      "map_option (br_ports br) b = pick_best better_root_port None cs"
    using select_root_pick [OF assms subset_refl, of None] by (auto simp: num_of_def cs_def)
  have cs: "cs = [] \<longleftrightarrow> \<not> (\<exists>j \<in> set (br_port_list br). root_eligible br (br_ports br j))"
    by (auto simp: cs_def filter_empty_conv)
  show ?thesis
  proof (cases b)
    case None
    with b have "cs = []" using root_order.pick_best_None_iff by (metis option.simps(8))
    with b(1) None cs show ?thesis by (simp add: stp_root_selection_def num_of_def)
  next
    case (Some i)
    then have i: "i \<in> set (br_port_list br)" using b(2) by simp
    have p: "pick_best better_root_port None cs = Some (br_ports br i)" using b(3) Some by simp
    have e: "root_eligible br (br_ports br i)" using root_order.pick_best_member [OF p] by (auto simp: cs_def)
    have best: "root_key (br_ports br i) \<le> root_key (br_ports br j)"
      if "j \<in> set (br_port_list br)" "root_eligible br (br_ports br j)" for j
      using root_order.pick_best_least [OF p, of "br_ports br j"] that by (auto simp: cs_def better_root_key)
    have z: "num_of br b \<noteq> 0" using num_of_zero [OF assms] b(2) Some by auto
    have g: "stp_get_port (br\<lparr>br_root_port := v\<rparr>) (num_of br b) = Some i" for v
      using get_port_number [OF assms i] Some by (simp add: num_of_def stp_get_port_def)
    have n: "(ucast (num_of br b) :: u32) = sp_port_no (br_ports br i)"
      using assms(1) i Some by (auto simp: num_of_def stp_base_def intro: ucast_16)
    have "stp_root_selection br = Some (br\<lparr>br_root_port := sp_port_no (br_ports br i),
        br_designated_root := sp_designated_root (br_ports br i),
        br_root_path_cost := sp_designated_cost (br_ports br i) + sp_path_cost (br_ports br i)\<rparr>)"
      using b(1) z by (simp add: stp_root_selection_def Let_def g n)
    with i e best show ?thesis by auto
  qed
qed

section \<open>Designated ports\<close>

definition designated_entry :: "stp_instance \<Rightarrow> stp_port_entry \<Rightarrow> stp_port_entry" where
  "designated_entry br p =
    (if sp_state p \<noteq> DISABLED \<and> stp_should_become_designated_port br p
     then p\<lparr>sp_designated_root := br_designated_root br, sp_designated_cost := br_root_path_cost br,
            sp_designated_bridge := br_bridge_id br, sp_designated_port := sp_port_id p\<rparr>
     else p)"

lemma designate_entry: "br_ports (designate i br) = (br_ports br)(i := designated_entry br (br_ports br i))"
  by (auto simp: designate_def stp_become_designated_port_def supd_def designated_entry_def)

lemma designate_cost: "br_root_path_cost (designate i br) = br_root_path_cost br"
  by (simp add: designate_def stp_become_designated_port_def supd_def)

lemma designated_entry_same: "designated_entry (designate i br) p = designated_entry br p"
  by (simp add: designated_entry_def stp_should_become_designated_port_def stp_is_designated_port_def designate_frame
      designate_cost spine_fields [OF designate_frame(1)])

lemma designated_ports:
  assumes "distinct xs"
  shows "i \<in> set xs \<Longrightarrow> br_ports (fold designate xs br) i = designated_entry br (br_ports br i)"
    "i \<notin> set xs \<Longrightarrow> br_ports (fold designate xs br) i = br_ports br i"
    "br_root_path_cost (fold designate xs br) = br_root_path_cost br"
  using assms
  by (induction xs arbitrary: br) (auto simp: designate_entry designated_entry_same designate_cost)

text \<open>The rank of what a port has recorded, and of what this bridge would send on it.\<close>

definition info_key :: "stp_port_entry \<Rightarrow> int \<times> nat \<times> u16" where
  "info_key p = (sint (sp_designated_cost p), bid_val (sp_designated_bridge p), sp_designated_port p)"

definition own_key :: "stp_instance \<Rightarrow> stp_port_entry \<Rightarrow> int \<times> nat \<times> u16" where
  "own_key br p = (sint (br_root_path_cost br), bid_val (br_bridge_id br), sp_port_id p)"

lemma designated_entry_cases:
  fixes br
  assumes "sp_state p \<noteq> DISABLED"
  defines "q \<equiv> designated_entry br p"
  shows "stp_is_designated_port br q \<and> sp_designated_root q = br_designated_root br
      \<and> sp_designated_cost q = br_root_path_cost br
    \<or> sp_designated_root q = br_designated_root br \<and> info_key q < own_key br q"
  using assms(1) unfolding q_def designated_entry_def stp_should_become_designated_port_def
  by (auto simp: stp_is_designated_port_def info_key_def own_key_def less_prod_def Let_def bid_order bid_val_inject
      split: if_splits)

text \<open>
  C9. The configuration update always returns, and after it every enabled port agrees with the
  bridge on the root: either the port is designated and carries the bridge's own cost and
  identifier, or what it has recorded from the segment is strictly better than what the bridge
  would send there.
\<close>

theorem stp_configuration_update_designates:
  assumes "stp_base br"
  shows "\<exists>br'. stp_configuration_update br = Some br' \<and>
    (\<forall>i \<in> set (br_port_list br). sp_state (br_ports br i) \<noteq> DISABLED \<longrightarrow>
      sp_designated_root (br_ports br' i) = br_designated_root br' \<and>
      (stp_is_designated_port br' (br_ports br' i) \<and> sp_designated_cost (br_ports br' i) = br_root_path_cost br'
       \<or> info_key (br_ports br' i) < own_key br' (br_ports br' i)))"
proof -
  obtain b where b: "stp_root_selection br = Some b" "spine b = spine br"
    using root_selection [OF assms] by blast
  define c where "c = stp_designated_port_selection b"
  have d: "distinct (br_port_list b)" using assms spine_fields(1) [OF b(2)] by (simp add: stp_base_def)
  note f = designated_selection_frame [of b, folded c_def]
  have s: "spine c = spine b" using f by simp
  have same: "stp_is_designated_port c p = stp_is_designated_port b p" "own_key c p = own_key b p"
    "br_designated_root c = br_designated_root b" "br_root_path_cost c = br_root_path_cost b" for p
    using f designated_ports(3) [OF d, of b] spine_fields(3) [OF s]
    by (simp_all add: stp_is_designated_port_def own_key_def c_def stp_designated_port_selection_def)
  have e: "br_ports c i = designated_entry b (br_ports b i)" if "i \<in> set (br_port_list br)" for i
    using designated_ports(1) [OF d] that spine_fields(1) [OF b(2)]
    by (simp add: c_def stp_designated_port_selection_def)
  have "stp_configuration_update br = Some c" by (simp add: stp_configuration_update_def b(1) c_def)
  then show ?thesis using designated_entry_cases [of "br_ports b _" b] spine_fields(5) [OF b(2)]
    by (auto simp: e same)
qed

section \<open>Runs\<close>

text \<open>
  C6. In every state that an instance can reach, a port that listens, learns or forwards is the
  root port or the designated port of its segment: a port that lost the election never leaves the
  blocking state.
\<close>

theorem stp_only_elected_ports_active:
  assumes "br_freed new = []"
    and "run_events stp_step es (stp_init_stp_instance env vlan new) = Some br"
    and "i \<in> set (br_port_list br)"
    and "sp_state (br_ports br i) \<in> {LISTENING, LEARNING, FORWARDING}"
  shows "sp_port_no (br_ports br i) = br_root_port br \<or> stp_is_designated_port br (br_ports br i)"
proof -
  have "stp_safe (stp_init_stp_instance env vlan new)" using init_inv [OF assms(1)] by (simp add: inv_safe)
  from stp.run_inv [OF this assms(2)] assms(3,4) show ?thesis
    by (auto simp: stp_safe_def port_good_def active_def)
qed


section \<open>Faults\<close>

lemma root_port_gone:
  assumes "stp_inv br" "numbered br" "\<not> stp_is_root_bridge br"
    and d: "core b = core (stp_delete_port (br_root_port br) br)"
  shows "stp_get_port b (ucast (br_root_port b)) = None"
proof -
  from assms(1,3) obtain k where k: "k \<in> set (br_port_list br)" "sp_port_no (br_ports br k) = br_root_port br"
    by (auto simp: stp_inv_def root_known_def)
  have base: "stp_base br" using assms(1) by (simp add: stp_inv_def)
  have u: "(ucast (ucast (br_root_port br) :: u16) :: u32) = br_root_port br"
    using base k by (intro ucast_16) (auto simp: stp_base_def)
  have "stp_get_port br (ucast (br_root_port br)) = Some k"
    using get_port_number [OF base assms(2) k(1)] k(2) by simp
  then have i: "stp_get_port_info br (br_root_port br) = Some k"
    by (simp add: stp_get_port_def stp_get_port_info_def u)
  note f = core_fields [OF d, unfolded stp_delete_port_def i option.case stp_instance.simps]
  have "sp_port_no (br_ports br j) \<noteq> br_root_port br" if "j \<in> set (remove1 k (br_port_list br))" for j
    using that k assms(2) base by (auto simp: numbered_def distinct_map inj_on_def stp_base_def)
  then show ?thesis by (auto simp: stp_get_port_def find_None_iff f u)
qed

text \<open>
  Deleting the root port leaves the bridge pointing at it: the next topology change
  notification on a designated port whose hold timer is idle looks the root port up, finds none and
  reads its message age timer through the null pointer.
\<close>

theorem stp_root_port_deleted_faults:
  assumes "stp_inv br" "numbered br" "\<not> stp_is_root_bridge br"
    and "stp_is_designated_port br (br_ports br i)" "\<not> tv_running (sp_hold_timer (br_ports br i))"
  shows "stp_received_tcn_bpdu env i (stp_delete_port (br_root_port br) br) = None"
proof -
  define d where "d = stp_delete_port (br_root_port br) br"
  define b where "b = supd i (\<lambda>p. p\<lparr>sp_topology_change_ack := 1\<rparr>) (stp_topology_change_detection env d)"
  have same: "br_ports d = br_ports br" "br_bridge_id d = br_bridge_id br" "br_designated_root d = br_designated_root br"
    by (auto simp: d_def stp_delete_port_def split: option.split)
  have c: "core b = core d" by (simp add: b_def core_simps pcore_def)
  have "br_ports (stp_topology_change_detection env d) = br_ports d"
    by (simp add: stp_topology_change_detection_def stp_transmit_tcn_def stp_send_tcn_bpdu_def stp_send_bpdu_def
        Let_def split: option.split)
  then have "\<not> tv_running (sp_hold_timer (br_ports b i))" using assms(5) same(1) by (simp add: b_def supd_def)
  moreover have "\<not> stp_is_root_bridge b" using assms(3) core_fields(3,4) [OF c] same by (simp add: stp_is_root_bridge_def)
  ultimately have "stp_transmit_config env i b = None"
    using root_port_gone [OF assms(1-3) c [unfolded d_def]] by (simp add: stp_transmit_config_def)
  then show ?thesis using assms(4) same
    by (simp add: stp_received_tcn_bpdu_def stp_topology_change_acknowledge_def b_def d_def [symmetric]
        stp_is_designated_port_def)
qed

text \<open>The references of the interfaces and the released ports, which the protocol never changes.\<close>

definition refs :: "stp_instance \<Rightarrow> (u32 \<Rightarrow> nat option) \<times> nat list" where
  "refs br = (br_ifinfo br, br_freed br)"

lemma refs_send [simp]: "refs (supd i f br) = refs br" "refs (stp_send_config_bpdu env i c br) = refs br"
  "refs (stp_send_tcn_bpdu env m br) = refs br"
  by (simp_all add: refs_def supd_def stp_send_config_bpdu_def stp_send_bpdu_def stp_send_tcn_bpdu_def Let_def
      split: option.split)

lemma refs_fields [simp]: "refs (br\<lparr>br_hello_timer := v\<rparr>) = refs br" "refs (br\<lparr>br_tcn_timer := v\<rparr>) = refs br"
  "refs (br\<lparr>br_topology_change_timer := v\<rparr>) = refs br" "refs (br\<lparr>br_topology_change := x\<rparr>) = refs br"
  "refs (br\<lparr>br_topology_change_detected := y\<rparr>) = refs br" "refs (br\<lparr>br_max_age := z\<rparr>) = refs br"
  "refs (br\<lparr>br_hello_time := z\<rparr>) = refs br" "refs (br\<lparr>br_forward_delay := z\<rparr>) = refs br"
  "refs (br\<lparr>br_root_port := z\<rparr>) = refs br" "refs (br\<lparr>br_designated_root := d\<rparr>) = refs br"
  "refs (br\<lparr>br_root_path_cost := z\<rparr>) = refs br"
  by (simp_all add: refs_def)

lemma refs_detection [simp]: "refs (stp_topology_change_detection env br) = refs br"
  by (simp add: stp_topology_change_detection_def stp_transmit_tcn_def)

lemma refs_fold: "(\<And>i b. refs (f i b) = refs b) \<Longrightarrow> refs (fold f xs br) = refs br"
  by (induction xs arbitrary: br) simp_all

lemma refs_selection [simp]: "refs (stp_port_state_selection env br) = refs br"
  unfolding stp_port_state_selection_def
  by (rule refs_fold) (simp add: select_state_def stp_make_forwarding_def stp_make_blocking_def Let_def)

lemma refs_generation: "stp_config_bpdu_generation env br = Some br' \<Longrightarrow> refs br' = refs br"
proof -
  have "run_events (generate env) xs b = Some br' \<Longrightarrow> refs br' = refs b" for xs b
    by (induction xs arbitrary: b)
      (auto simp: generate_def stp_transmit_config_def split: bind_splits if_splits)
  then show "stp_config_bpdu_generation env br = Some br' \<Longrightarrow> refs br' = refs br"
    by (simp add: stp_config_bpdu_generation_def)
qed

lemma refs_update: "stp_configuration_update br = Some br' \<Longrightarrow> refs br' = refs br"
proof -
  have "refs (stp_designated_port_selection b) = refs b" for b
    unfolding stp_designated_port_selection_def
    by (rule refs_fold) (simp add: designate_def stp_become_designated_port_def)
  then show "stp_configuration_update br = Some br' \<Longrightarrow> refs br' = refs br"
    by (auto simp: stp_configuration_update_def stp_root_selection_def Let_def split: bind_splits if_splits)
qed

lemma refs_reconfigure: "reconfigure env w br = Some br' \<Longrightarrow> refs br' = refs br"
  by (auto simp: reconfigure_def stp_become_root_bridge_def Let_def split: bind_splits if_splits
      dest!: refs_update refs_generation)

lemma refs_disable_one:
  "disable_one env i br = Some br' \<Longrightarrow> br_ifinfo br' = br_ifinfo br \<and> br_freed br' = i # br_freed br"
  by (auto simp: disable_one_def stp_disable_port_def stp_become_designated_port_def Let_def split: bind_splits if_splits
      dest!: refs_reconfigure) (simp_all add: refs_def)

lemma refs_disable_all:
  "run_events (disable_one env) xs br = Some br' \<Longrightarrow>
    br_ifinfo br' = br_ifinfo br \<and> set (br_freed br') = set xs \<union> set (br_freed br)"
  by (induction xs arbitrary: br) (auto split: bind_splits dest!: refs_disable_one)

text \<open>
  Disabling the spanning tree always returns, but the interfaces keep their references to the
  ports it has released: the next frame on such an interface that asks whether its source address
  may be learnt reads released memory.
\<close>

theorem stp_disable_leaves_references:
  assumes "stp_inv br" "br_ifinfo br port = Some i" "i \<in> set (br_port_list br)"
  shows "\<exists>br'. stp_set_state env 0 br = Some br' \<and> stp_is_mac_learning_allowed port br' = None"
proof -
  obtain b where b: "run_events (disable_one env) (br_port_list br) br = Some b"
    using run_keeps [where f = "disable_one env" and xs = "br_port_list br", OF disable_one_keeps] assms(1)
    by (auto simp: keeps_def)
  from refs_disable_all [OF b] assms(2,3) show ?thesis
    by (simp add: stp_set_state_def stp_disable_def b stp_is_mac_learning_allowed_def)
qed

lemma ports_detection [simp]:
  "br_ports (stp_topology_change_detection env br) = br_ports br"
  "br_port_list (stp_topology_change_detection env br) = br_port_list br"
  by (simp_all add: stp_topology_change_detection_def stp_transmit_tcn_def stp_send_tcn_bpdu_def stp_send_bpdu_def
      Let_def split: option.split)

lemma reconfigure_lone_disabled:
  assumes "br_port_list br = [i]" "sp_state (br_ports br i) = DISABLED" "reconfigure env w br = Some br'"
  shows "br_ports br' = br_ports br"
  using assms
  by (auto simp: reconfigure_def stp_configuration_update_def stp_root_selection_def stp_should_become_root_port_def
      stp_designated_port_selection_def designate_def stp_port_state_selection_def select_state_def Let_def
      stp_become_root_bridge_def stp_config_bpdu_generation_def generate_def split: bind_splits if_splits)

text \<open>
  A forward delay timer that has been armed again by its own handler cannot be cancelled: when
  the spanning tree is disabled after the port went from listening to learning, the timer of the
  released port is still running, and its next expiry reads released memory.
\<close>

theorem stp_forward_delay_use_after_free:
  assumes "stp_inv br" "br_port_list br = [i]" "sp_state (br_ports br i) = LISTENING"
    and "se_timer_mem env" "pack_time (se_tps env) 0 (br_forward_delay br * se_tps env) \<noteq> 0"
  shows "\<exists>br'. run_events stp_step [(env, SvElapse (TForward i)), (env, SvServe (TForward i)), (env', SvState 0)] br = Some br'
    \<and> tv_running (sp_forward_delay_timer (br_ports br' i))
    \<and> stp_step (env'', SvServe (TForward i)) br' = None"
proof -
  have free: "i \<notin> set (br_freed br)" using assms(1,2) by (simp add: stp_inv_def stp_base_def)
  define e where "e = tmr_upd (TForward i) tv_elapsed br"
  have e: "stp_inv e" using core_inv [OF core_tmr_upd] assms(1) by (simp add: e_def)
  have ef: "br_port_list e = [i]" "sp_state (br_ports e i) = LISTENING" "br_forward_delay e = br_forward_delay br"
    "br_freed e = br_freed br"
    using assms(2,3) by (simp_all add: e_def tmr_upd_def supd_def)
  obtain s where s: "stp_serve_timer env (TForward i) e = Some s" "stp_inv s"
    using serve_keeps [of "TForward i" e env] e free ef(4) by (auto simp: keeps_def tmr_owned_def tmr_port_def)
  then have sf: "br_port_list s = [i]" "sp_state (br_ports s i) = LEARNING"
    "tv_running (sp_forward_delay_timer (br_ports s i))" "\<not> tv_entry (sp_forward_delay_timer (br_ports s i))"
    using assms(4,5) free ef
    by (auto simp: stp_serve_timer_def stp_time_out_def stp_forward_delay_timer_expired_def tmr_upd_def supd_def
        tv_served_def stp_mod_def tv_mod_def)
  have "\<exists>b. run_events (disable_one env') [i] s = Some b"
    using run_keeps [where f = "disable_one env'" and xs = "[i]", OF disable_one_keeps] s(2) by (auto simp: keeps_def)
  then obtain b where b: "disable_one env' i s = Some b" by (auto split: bind_splits)
  then have "tv_running (sp_forward_delay_timer (br_ports b i))"
    using sf
    by (auto simp: disable_one_def stp_disable_port_def Let_def stp_become_designated_port_def supd_def tv_del_def
        split: bind_splits dest!: reconfigure_lone_disabled [rotated 2])
  moreover have "i \<in> set (br_freed b)" using refs_disable_one [OF b] by simp
  moreover obtain c where c: "stp_set_state env' 0 s = Some c" "br_ports c = br_ports b" "br_freed c = br_freed b"
    by (simp add: stp_set_state_def stp_disable_def sf(1) b)
  ultimately have "tv_running (sp_forward_delay_timer (br_ports c i))" "stp_step (env'', SvServe (TForward i)) c = None"
    by (simp_all add: stp_serve_timer_def time_out_freed tmr_owned_def tmr_port_def)
  then show ?thesis by (simp add: e_def [symmetric] s(1) c(1))
qed

text \<open>
  A listening port whose forward delay timer expires twice forwards: the first expiry makes it
  learn and arms the timer for another forward delay, the second makes it forward.
\<close>

theorem stp_two_forward_delays:
  assumes "sp_state (br_ports br i) = LISTENING" "i \<notin> set (br_freed br)" "se_timer_mem env"
    and "pack_time (se_tps env) 0 (br_forward_delay br * se_tps env) \<noteq> 0"
  shows "\<exists>br' br''. stp_serve_timer env (TForward i) br = Some br' \<and> sp_state (br_ports br' i) = LEARNING
    \<and> tv_running (sp_forward_delay_timer (br_ports br' i))
    \<and> tv_exp (sp_forward_delay_timer (br_ports br' i)) = br_forward_delay br * se_tps env + se_now env
    \<and> stp_serve_timer env' (TForward i) br' = Some br'' \<and> sp_state (br_ports br'' i) = FORWARDING"
  using assms
  by (auto simp: stp_serve_timer_def stp_time_out_def stp_forward_delay_timer_expired_def tmr_upd_def supd_def
        tv_served_def stp_mod_def tv_mod_def Let_def)

end
