(* ===== verification/Stp_Wire.thy ===== *)
theory Stp_Wire
  imports Stp_Props
begin

unbundle bit_operations_syntax

text \<open>
  The spanning tree's messages from one bridge to the next: the frame that \<open>stp_send_bpdu\<close> builds,
  the packed structure \<open>STP_BPDU_T\<close> through which the receiver reads it, and what arrives of each
  field; and the port identifier that the messages carry.
\<close>

section \<open>Reading a frame\<close>

text \<open>\<open>STP_BPDU_T\<close> laid over a received frame: 14 bytes of \<open>MACHDR\<close> and 3 of \<open>ETHHDR\<close> come first.\<close>

definition bpdu_at :: "u8 list \<Rightarrow> stp_bpdu" where
  "bpdu_at d = \<lparr>bpdu_type = d ! 3, bpdu_flags = d ! 4,
     bpdu_root_id = BID (le16 (d ! 5) (d ! 6)) (MAC (d ! 7) (d ! 8) (d ! 9) (d ! 10) (d ! 11) (d ! 12)),
     bpdu_root_path_cost = le32 (d ! 13) (d ! 14) (d ! 15) (d ! 16),
     bpdu_bridge_id = BID (le16 (d ! 17) (d ! 18)) (MAC (d ! 19) (d ! 20) (d ! 21) (d ! 22) (d ! 23) (d ! 24)),
     bpdu_port_id = le16 (d ! 25) (d ! 26), bpdu_message_age = le16 (d ! 27) (d ! 28),
     bpdu_max_age = le16 (d ! 29) (d ! 30), bpdu_hello_time = le16 (d ! 31) (d ! 32),
     bpdu_forward_delay = le16 (d ! 33) (d ! 34)\<rparr>"

definition bpdu_of_frame :: "u8 list \<Rightarrow> stp_bpdu" where
  "bpdu_of_frame pkt = bpdu_at (drop 17 pkt)"

lemma mac_bytes_nth: "MAC (mac_bytes m ! 0) (mac_bytes m ! 1) (mac_bytes m ! 2) (mac_bytes m ! 3)
    (mac_bytes m ! 4) (mac_bytes m ! 5) = m"
  by (cases m) simp

lemma config_bytes_decode:
  "stp_decode_bpdu (bpdu_at (config_bytes (stp_encode_bpdu c))) =
     c\<lparr>bpdu_type := BPDU_CONFIG_TYPE, bpdu_root_path_cost := bswap32 (bpdu_root_path_cost c)\<rparr>"
proof -
  obtain a1 a2 a3 a4 a5 a6 where a: "bid_addr (bpdu_root_id c) = MAC a1 a2 a3 a4 a5 a6" by (cases "bid_addr (bpdu_root_id c)")
  obtain b1 b2 b3 b4 b5 b6 where b: "bid_addr (bpdu_bridge_id c) = MAC b1 b2 b3 b4 b5 b6" by (cases "bid_addr (bpdu_bridge_id c)")
  have r: "BID (bid_prio x) y = x" if "bid_addr x = y" for x y using that by (cases x) simp
  show ?thesis
    by (simp add: stp_decode_bpdu_def bpdu_at_def config_bytes_def stp_encode_bpdu_def a b
        r [OF a] r [OF b] bswap16_def bswap32_def)
qed

lemma length_config_bytes: "length (config_bytes c) = 35"
  by (simp add: config_bytes_def)

lemma frame_decode: "length h = 17 \<Longrightarrow> stp_decode_bpdu (bpdu_of_frame (h @ config_bytes (stp_encode_bpdu c))) =
     c\<lparr>bpdu_type := BPDU_CONFIG_TYPE, bpdu_root_path_cost := bswap32 (bpdu_root_path_cost c)\<rparr>"
  by (simp add: bpdu_of_frame_def config_bytes_decode)

lemma send_config_frame:
  assumes "br_stp_enabled br = STP_ENABLED" "se_pkt_mem env"
  shows "\<exists>h. length h = 17 \<and> stp_send_config_bpdu env i c br =
      br\<lparr>br_sent := br_sent br @ [(sp_port_no (br_ports br i), h @ config_bytes c)]\<rparr>"
proof -
  define h where "h = llc_mac_hdr_init br_group_address (se_port_mac env (sp_port_no (br_ports br i))) 4 38
    @ llc_pdu_header_init 66 66 0 @ llc_pdu_init_as_ui_cmd"
  have "length h = 17"
    by (simp add: h_def llc_mac_hdr_init_def llc_pdu_header_init_def llc_pdu_init_as_ui_cmd_def Let_def)
  with assms show ?thesis
    by (intro exI [of _ h]) (simp add: stp_send_config_bpdu_def stp_send_bpdu_def Let_def h_def length_config_bytes)
qed

text \<open>
  C24. A configuration message survives the wire in every field but one: the receiver of the frame that
  \<open>stp_send_config_bpdu\<close> builds decodes the sender's message with the root path cost byte-swapped,
  because the sender exchanges its bytes twice and the receiver once.
\<close>

theorem stp_config_bpdu_wire:
  assumes "br_stp_enabled br = STP_ENABLED" "se_pkt_mem env"
  shows "\<exists>pkt. stp_send_config_bpdu env i (stp_encode_bpdu c) br =
      br\<lparr>br_sent := br_sent br @ [(sp_port_no (br_ports br i), pkt)]\<rparr>
    \<and> length pkt = 52
    \<and> stp_decode_bpdu (bpdu_of_frame pkt) =
        c\<lparr>bpdu_type := BPDU_CONFIG_TYPE, bpdu_root_path_cost := bswap32 (bpdu_root_path_cost c)\<rparr>"
proof -
  obtain h where h: "length h = 17" "stp_send_config_bpdu env i (stp_encode_bpdu c) br =
      br\<lparr>br_sent := br_sent br @ [(sp_port_no (br_ports br i), h @ config_bytes (stp_encode_bpdu c))]\<rparr>"
    using send_config_frame [OF assms] by blast
  then show ?thesis
    by (intro exI [of _ "h @ config_bytes (stp_encode_bpdu c)"]) (simp add: length_config_bytes frame_decode)
qed

text \<open>
  The answer to a topology change notification does not acknowledge it: the root bridge answers on
  the designated port with the topology change bit only, so that the sender of the notification never
  sees the acknowledgement bit for which it looks.
\<close>

theorem stp_tcn_answer_lacks_ack:
  assumes "stp_is_root_bridge br" "stp_is_designated_port br (br_ports br i)"
    "\<not> tv_running (sp_hold_timer (br_ports br i))" "br_stp_enabled br = STP_ENABLED" "0 < br_max_age br"
    "se_pkt_mem env" "se_flags env = 0"
  shows "\<exists>br' pkt. stp_received_tcn_bpdu env i br = Some br'
    \<and> br_sent br' = br_sent br @ [(sp_port_no (br_ports br i), pkt)]
    \<and> bpdu_flags (stp_decode_bpdu (bpdu_of_frame pkt)) = TC_BIT
    \<and> bpdu_flags (stp_decode_bpdu (bpdu_of_frame pkt)) AND TC_ACK_BIT = 0"
proof -
  define b where "b = supd i (\<lambda>p. p\<lparr>sp_topology_change_ack := 1\<rparr>) (stp_topology_change_detection env br)"
  have b: "br_topology_change b = 1" "br_stp_enabled b = STP_ENABLED" "stp_is_root_bridge b" "br_max_age b = br_max_age br"
    "\<not> tv_running (sp_hold_timer (br_ports b i))" "br_sent b = br_sent br"
    "sp_port_no (br_ports b i) = sp_port_no (br_ports br i)" "sp_topology_change_ack (br_ports b i) = 1"
    using assms by (simp_all add: b_def supd_def stp_topology_change_detection_def stp_is_root_bridge_def)
  define c where "c = config_of env i 0 b"
  obtain h where h: "length h = 17" "stp_send_config_bpdu env i (stp_encode_bpdu c) b =
      b\<lparr>br_sent := br_sent b @ [(sp_port_no (br_ports b i), h @ config_bytes (stp_encode_bpdu c))]\<rparr>"
    using send_config_frame [OF b(2) assms(6)] by blast
  define pkt where "pkt = h @ config_bytes (stp_encode_bpdu c)"
  note p = h(2) [folded pkt_def] frame_decode [OF h(1), of c, folded pkt_def]
  have "bpdu_flags c = 1" using assms(7) b by (simp add: c_def config_of_def)
  moreover have "\<exists>br'. stp_transmit_config env i b = Some br' \<and> br_sent br' = br_sent br @ [(sp_port_no (br_ports br i), pkt)]"
    using b assms(5) p(1) by (simp add: stp_transmit_config_def c_def supd_def)
  ultimately show ?thesis using assms(2) p(2)
    by (auto simp: stp_received_tcn_bpdu_def stp_topology_change_acknowledge_def b_def)
qed

section \<open>Port identifiers\<close>

text \<open>
  The identifier of a port keeps only the low six bits of its priority, above ten bits of port
  number: priorities that differ by a multiple of 64, such as the default 128 and 0, give the same
  identifier, and the higher ones of the range 0 to 240 do not rank behind the lower ones.
\<close>

theorem stp_make_port_id_truncates:
  "stp_make_port_id priority port_no = stp_make_port_id (priority AND 0x3F) port_no
   \<and> unat (stp_make_port_id priority port_no) = unat priority mod 64 * 1024 + unat port_no mod 1024"
proof -
  have low: "p AND (0x3ff :: u16) = take_bit 10 p" "q AND (0x3f :: u8) = take_bit 6 q" for p q
    by (simp_all add: take_bit_eq_mask mask_eq_exp_minus_1)
  have id: "stp_make_port_id p port_no = push_bit 10 (ucast p) + take_bit 10 port_no" for p
    unfolding stp_make_port_id_def low by (rule disjunctive_add [symmetric]) (auto simp: bit_simps)
  have "push_bit 10 (ucast p :: u16) = push_bit 10 (ucast (take_bit 6 p))" for p :: u8
    by (rule bit_word_eqI) (auto simp: bit_simps)
  then have eq: "stp_make_port_id priority port_no = stp_make_port_id (priority AND 0x3f) port_no"
    unfolding id low by simp
  have "unat (take_bit 6 priority) = unat priority mod 64" "unat (take_bit 10 port_no) = unat port_no mod 1024"
    by (simp_all add: unsigned_take_bit_eq take_bit_nat_def)
  moreover have "unat priority mod 64 < 64" "unat port_no mod 1024 < 1024" by simp_all
  ultimately have "unat (stp_make_port_id (priority AND 0x3f) port_no) =
      unat priority mod 64 * 1024 + unat port_no mod 1024"
    unfolding id low by (simp add: unat_word_ariths push_bit_eq_mult unsigned_ucast_eq take_bit_nat_eq_self)
  with eq show ?thesis by simp
qed

end
