(* ===== verification/Stp_Examples.thy ===== *)
theory Stp_Examples
  imports Stp_Wire
begin

unbundle bit_operations_syntax

text \<open>
  Concrete bridges at which the properties of the spanning tree apply: one with a single port that is
  the root, and one with a root port and a designated port below another root.
\<close>

definition ex_env :: stp_env where
  "ex_env = \<lparr>se_now = 1000, se_tps = 100, se_timer_mem = True, se_pkt_mem = True, se_flags = 0,
     se_oper_state = (\<lambda>_. 1), se_port_mac = (\<lambda>_. MAC 2 0 0 0 0 9), se_bridge_addr = MAC 2 0 0 0 0 1\<rparr>"

definition ex_port :: "u32 \<Rightarrow> u16 \<Rightarrow> stp_state \<Rightarrow> bid \<Rightarrow> bid \<Rightarrow> u32 \<Rightarrow> u16 \<Rightarrow> stp_port_entry" where
  "ex_port no pid st rid bridge cost dport = \<lparr>sp_priority = 128, sp_state = st, sp_designated_cost = cost,
     sp_path_cost = 20000, sp_designated_root = rid, sp_designated_bridge = bridge,
     sp_forward_delay_timer = tv_new, sp_hold_timer = tv_new, sp_message_age_timer = tv_new,
     sp_designated_port = dport, sp_port_id = pid, sp_port_no = no, sp_topology_change_ack = 0,
     sp_config_pending = False, sp_is_own_bpdu = False, sp_enabled = True\<rparr>"

abbreviation (input) "ex_own \<equiv> BID 32768 (MAC 2 0 0 0 0 1)"
abbreviation (input) "ex_root \<equiv> BID 4096 (MAC 2 0 0 0 0 7)"

definition ex_bridge :: "bid \<Rightarrow> u32 \<Rightarrow> u32 \<Rightarrow> (nat \<Rightarrow> stp_port_entry) \<Rightarrow> nat list \<Rightarrow> stp_instance" where
  "ex_bridge rid port cost ports ps = \<lparr>br_stp_enabled = 1, br_designated_root = rid, br_bridge_id = ex_own,
     br_max_age = 20, br_hello_time = 2, br_forward_delay = 15, br_bridge_max_age = 20, br_bridge_hello_time = 2,
     br_bridge_forward_delay = 15, br_hello_timer = tv_new, br_tcn_timer = tv_new, br_topology_change_timer = tv_new,
     br_root_path_cost = cost, br_root_port = port, br_vlan_id = 1, br_topology_change = 0,
     br_topology_change_detected = False, br_ports = ports, br_port_list = ps, br_freed = [],
     br_ifinfo = (\<lambda>n. if n = 1 then Some 1 else None), br_sent = []\<rparr>"

definition lone_bridge :: stp_instance where
  "lone_bridge = ex_bridge ex_own 0 0 (\<lambda>_. ex_port 1 1 LISTENING ex_own ex_own 0 1) [1]"

definition leaf_bridge :: stp_instance where
  "leaf_bridge = ex_bridge ex_root 1 20000 (\<lambda>i. if i = 1 then ex_port 1 1 FORWARDING ex_root ex_root 0 5
     else ex_port 2 2 LISTENING ex_root ex_own 20000 2) [1, 2]"

lemmas ex_defs = lone_bridge_def leaf_bridge_def ex_bridge_def ex_port_def

lemmas bid_eval = bid_cmp_def bid_bytes_def byte_of_def

lemma lone_inv: "stp_inv lone_bridge"
  by (simp add: stp_inv_def stp_base_def root_known_def port_good_def stp_is_designated_port_def stp_is_root_bridge_def
      ex_defs)

lemma leaf_known: "stp_inv leaf_bridge" "numbered leaf_bridge" "\<not> stp_is_root_bridge leaf_bridge"
  by (simp_all add: stp_inv_def stp_base_def root_known_def port_good_def stp_is_designated_port_def stp_is_root_bridge_def
      numbered_def ex_defs bid_eval)

theorem stp_root_selection_elects_best_witness:
  "stp_base leaf_bridge \<and> numbered leaf_bridge \<and>
   (\<exists>br'. stp_root_selection leaf_bridge = Some br' \<and> br_root_port br' = 1 \<and> br_designated_root br' = ex_root
     \<and> br_root_path_cost br' = 20000)"
proof -
  have b: "stp_base leaf_bridge" using leaf_known(1) by (simp add: stp_inv_def)
  have l: "br_port_list leaf_bridge = [1, 2]" "sp_port_no (br_ports leaf_bridge 1) = 1"
    "sp_designated_root (br_ports leaf_bridge 1) = ex_root"
    "sp_designated_cost (br_ports leaf_bridge 1) + sp_path_cost (br_ports leaf_bridge 1) = 20000"
    by (simp_all add: ex_defs)
  have e: "root_eligible leaf_bridge (br_ports leaf_bridge 1)" "\<not> root_eligible leaf_bridge (br_ports leaf_bridge 2)"
    by (simp_all add: root_eligible_def stp_is_designated_port_def bid_val_def bid_eval ex_defs)
  obtain br' where "stp_root_selection leaf_bridge = Some br'" "br_root_port br' = 1"
    "br_designated_root br' = ex_root" "br_root_path_cost br' = 20000"
    using stp_root_selection_elects_best [OF b leaf_known(2)] e l by auto
  with b leaf_known(2) show ?thesis by blast
qed

theorem stp_configuration_update_designates_witness:
  "stp_base leaf_bridge \<and> (\<exists>br'. stp_configuration_update leaf_bridge = Some br'
     \<and> sp_designated_root (br_ports br' 2) = br_designated_root br')"
proof -
  have b: "stp_base leaf_bridge" using leaf_known(1) by (simp add: stp_inv_def)
  have "2 \<in> set (br_port_list leaf_bridge)" "sp_state (br_ports leaf_bridge 2) \<noteq> DISABLED" by (simp_all add: ex_defs)
  with stp_configuration_update_designates [OF b] b show ?thesis by blast
qed

definition ex_events :: "(stp_env \<times> stp_event) list" where
  "ex_events = [(ex_env, SvCreate 1 1), (ex_env, SvState 1), (ex_env, SvServe (TForward 1))]"

definition ex_start :: stp_instance where
  "ex_start = stp_init_stp_instance ex_env 1 lone_bridge"

lemma ex_run:
  "map_option (\<lambda>br. (br_port_list br, sp_state (br_ports br 1))) (run_events stp_step ex_events ex_start) = Some ([1], LEARNING)"
  "all_ok stp_step stp_guard ex_events ex_start"
  by code_simp+

lemma ex_fresh: "br_freed lone_bridge = []"
  by (simp add: ex_defs)

theorem stp_only_elected_ports_active_witness:
  "\<exists>br. run_events stp_step ex_events ex_start = Some br \<and> sp_state (br_ports br 1) = LEARNING
    \<and> (sp_port_no (br_ports br 1) = br_root_port br \<or> stp_is_designated_port br (br_ports br 1))"
proof -
  obtain br where br: "run_events stp_step ex_events ex_start = Some br" "br_port_list br = [1]"
    "sp_state (br_ports br 1) = LEARNING" using ex_run(1) by auto
  from stp_only_elected_ports_active [OF ex_fresh br(1) [unfolded ex_start_def], of 1] br show ?thesis by auto
qed


theorem stp_root_port_deleted_faults_witness:
  "stp_inv leaf_bridge \<and> stp_received_tcn_bpdu ex_env 2 (stp_delete_port (br_root_port leaf_bridge) leaf_bridge) = None"
proof -
  have "stp_is_designated_port leaf_bridge (br_ports leaf_bridge 2)"
    "\<not> tv_running (sp_hold_timer (br_ports leaf_bridge 2))"
    by (simp_all add: stp_is_designated_port_def ex_defs tv_new_def)
  from stp_root_port_deleted_faults [OF leaf_known this] leaf_known(1) show ?thesis by blast
qed

theorem stp_disable_leaves_references_witness:
  "stp_inv lone_bridge \<and> (\<exists>br'. stp_set_state ex_env 0 lone_bridge = Some br' \<and> stp_is_mac_learning_allowed 1 br' = None)"
  using stp_disable_leaves_references [OF lone_inv, of 1 1 ex_env] lone_inv by (simp add: ex_defs)

lemma ex_timer: "se_timer_mem ex_env" "pack_time (se_tps ex_env) 0 (br_forward_delay lone_bridge * se_tps ex_env) \<noteq> 0"
  by (simp_all add: ex_env_def ex_defs pack_time_def)

theorem stp_forward_delay_use_after_free_witness:
  "\<exists>br'. run_events stp_step [(ex_env, SvElapse (TForward 1)), (ex_env, SvServe (TForward 1)), (ex_env, SvState 0)]
      lone_bridge = Some br'
    \<and> tv_running (sp_forward_delay_timer (br_ports br' 1)) \<and> stp_step (ex_env, SvServe (TForward 1)) br' = None"
  by (rule stp_forward_delay_use_after_free [OF lone_inv _ _ ex_timer]) (simp_all add: ex_defs)

theorem stp_two_forward_delays_witness:
  "\<exists>br' br''. stp_serve_timer ex_env (TForward 1) lone_bridge = Some br' \<and> sp_state (br_ports br' 1) = LEARNING
    \<and> tv_exp (sp_forward_delay_timer (br_ports br' 1)) = 2500
    \<and> stp_serve_timer ex_env (TForward 1) br' = Some br'' \<and> sp_state (br_ports br'' 1) = FORWARDING"
proof -
  have "sp_state (br_ports lone_bridge 1) = LISTENING" "1 \<notin> set (br_freed lone_bridge)"
    "br_forward_delay lone_bridge * se_tps ex_env + se_now ex_env = 2500" by (simp_all add: ex_defs ex_env_def)
  with stp_two_forward_delays [OF _ _ ex_timer, of 1 ex_env] show ?thesis by auto
qed

theorem stp_config_bpdu_wire_witness:
  "\<exists>pkt. br_sent (stp_send_config_bpdu ex_env 1 (stp_encode_bpdu (config_of ex_env 1 0 leaf_bridge)) leaf_bridge) = [(1, pkt)]
    \<and> bpdu_root_path_cost (stp_decode_bpdu (bpdu_of_frame pkt)) = 0x204E0000 \<and> br_root_path_cost leaf_bridge = 0x4E20"
proof -
  have "br_stp_enabled leaf_bridge = STP_ENABLED" "se_pkt_mem ex_env" by (simp_all add: ex_defs ex_env_def)
  from stp_config_bpdu_wire [OF this, of 1 "config_of ex_env 1 0 leaf_bridge"] obtain pkt where
    p: "stp_send_config_bpdu ex_env 1 (stp_encode_bpdu (config_of ex_env 1 0 leaf_bridge)) leaf_bridge =
      leaf_bridge\<lparr>br_sent := br_sent leaf_bridge @ [(sp_port_no (br_ports leaf_bridge 1), pkt)]\<rparr>"
      "bpdu_root_path_cost (stp_decode_bpdu (bpdu_of_frame pkt)) =
        bswap32 (bpdu_root_path_cost (config_of ex_env 1 0 leaf_bridge))" by auto
  have "bpdu_root_path_cost (config_of ex_env 1 0 leaf_bridge) = 0x4E20" "br_root_path_cost leaf_bridge = 0x4E20"
    "br_sent leaf_bridge = []" "sp_port_no (br_ports leaf_bridge 1) = 1"
    by (simp_all add: config_of_def ex_defs)
  with p show ?thesis by (simp add: bswap32_def byte_of_def le32_def)
qed

theorem stp_tcn_answer_lacks_ack_witness:
  "\<exists>br' pkt. stp_received_tcn_bpdu ex_env 1 lone_bridge = Some br' \<and> br_sent br' = [(1, pkt)]
    \<and> bpdu_flags (stp_decode_bpdu (bpdu_of_frame pkt)) = TC_BIT"
proof -
  have "stp_is_root_bridge lone_bridge" "stp_is_designated_port lone_bridge (br_ports lone_bridge 1)"
    "\<not> tv_running (sp_hold_timer (br_ports lone_bridge 1))" "br_stp_enabled lone_bridge = STP_ENABLED"
    "0 < br_max_age lone_bridge" "se_pkt_mem ex_env" "se_flags ex_env = 0"
    "br_sent lone_bridge = []" "sp_port_no (br_ports lone_bridge 1) = 1"
    by (simp_all add: stp_is_root_bridge_def stp_is_designated_port_def ex_defs ex_env_def tv_new_def)
  with stp_tcn_answer_lacks_ack [OF this(1-7)] show ?thesis by auto
qed

end
