(* ===== verification/Jhash.thy ===== *)
theory Jhash
  imports Switch_Prelude
begin

unbundle bit_operations_syntax

text \<open>
  The hash functions of \<open>src/src/inc/jhash.h\<close>: the general one over bytes, the one over 32-bit words
  and the ones for one, two and three words. A loop over the input is recursion on the rest of it; the
  switch that falls through its cases adds the bytes that are left.
\<close>

text \<open>The macro \<open>__jhash_mix\<close>: its three rounds, each on \<open>a\<close>, \<open>b\<close> and \<open>c\<close> in turn.\<close>

definition mix_round :: "nat \<Rightarrow> nat \<Rightarrow> nat \<Rightarrow> u32 \<times> u32 \<times> u32 \<Rightarrow> u32 \<times> u32 \<times> u32" where
  "mix_round i j k x =
    (case x of (a, b, c) \<Rightarrow>
       let a = (a - b - c) XOR drop_bit i c;
           b = (b - c - a) XOR push_bit j a;
           c = (c - a - b) XOR drop_bit k b
       in (a, b, c))"

definition jhash_mix :: "u32 \<times> u32 \<times> u32 \<Rightarrow> u32 \<times> u32 \<times> u32" where
  "jhash_mix x = mix_round 3 10 15 (mix_round 12 16 5 (mix_round 13 8 13 x))"

abbreviation (input) "JHASH_GOLDEN_RATIO \<equiv> 0x9e3779b9 :: u32"

text \<open>Byte \<open>i\<close> of what is left, shifted to its place; the switch adds only the bytes that exist.\<close>

definition byte_at :: "u8 list \<Rightarrow> nat \<Rightarrow> nat \<Rightarrow> u32" where
  "byte_at k i sh = (if i < length k then push_bit sh (ucast (k ! i)) else 0)"

definition word_at :: "u8 list \<Rightarrow> nat \<Rightarrow> u32" where
  "word_at k i = byte_at k i 0 + byte_at k (i + 1) 8 + byte_at k (i + 2) 16 + byte_at k (i + 3) 24"

function jhash_loop :: "u8 list \<Rightarrow> u32 \<times> u32 \<times> u32 \<Rightarrow> u8 list \<times> u32 \<times> u32 \<times> u32" where
  "jhash_loop k x =
    (if 12 \<le> length k
     then (case x of (a, b, c) \<Rightarrow>
             jhash_loop (drop 12 k) (jhash_mix (a + word_at k 0, b + word_at k 4, c + word_at k 8)))
     else (k, x))"
  by pat_completeness auto
termination by (relation "measure (\<lambda>(k, x). length k)") auto

declare jhash_loop.simps [simp del]

definition jhash :: "u8 list \<Rightarrow> u32 \<Rightarrow> u32" where
  "jhash key initval =
    (case jhash_loop key (JHASH_GOLDEN_RATIO, JHASH_GOLDEN_RATIO, initval) of (k, a, b, c) \<Rightarrow>
       let c = c + of_nat (length key);
           c = c + (byte_at k 10 24 + byte_at k 9 16 + byte_at k 8 8)
       in case jhash_mix (a + word_at k 0, b + word_at k 4, c) of (a, b, c) \<Rightarrow> c)"

fun jhash2_loop :: "u32 list \<Rightarrow> u32 \<times> u32 \<times> u32 \<Rightarrow> u32 list \<times> u32 \<times> u32 \<times> u32" where
  "jhash2_loop (k0 # k1 # k2 # k) (a, b, c) = jhash2_loop k (jhash_mix (a + k0, b + k1, c + k2))"
| "jhash2_loop k x = (k, x)"

definition jhash2 :: "u32 list \<Rightarrow> u32 \<Rightarrow> u32" where
  "jhash2 key initval =
    (case jhash2_loop key (JHASH_GOLDEN_RATIO, JHASH_GOLDEN_RATIO, initval) of (k, a, b, c) \<Rightarrow>
       let c = c + of_nat (length key) * 4;
           b = b + (if 2 \<le> length k then k ! 1 else 0);
           a = a + (if 1 \<le> length k then k ! 0 else 0)
       in case jhash_mix (a, b, c) of (a, b, c) \<Rightarrow> c)"

definition jhash_3words :: "u32 \<Rightarrow> u32 \<Rightarrow> u32 \<Rightarrow> u32 \<Rightarrow> u32" where
  "jhash_3words a b c initval =
    (case jhash_mix (a + JHASH_GOLDEN_RATIO, b + JHASH_GOLDEN_RATIO, c + initval) of (a, b, c) \<Rightarrow> c)"

definition jhash_2words :: "u32 \<Rightarrow> u32 \<Rightarrow> u32 \<Rightarrow> u32" where
  "jhash_2words a b initval = jhash_3words a b 0 initval"

definition jhash_1word :: "u32 \<Rightarrow> u32 \<Rightarrow> u32" where
  "jhash_1word a initval = jhash_3words a 0 0 initval"

section \<open>The word version is the byte version\<close>

definition le_bytes :: "u32 list \<Rightarrow> u8 list" where
  "le_bytes ws = concat (map (\<lambda>w. [byte_of 0 w, byte_of 1 w, byte_of 2 w, byte_of 3 w]) ws)"

lemma length_le_bytes [simp]: "length (le_bytes ws) = 4 * length ws"
  by (induction ws) (simp_all add: le_bytes_def)

lemma le_bytes_simps [simp]: "le_bytes [] = []"
  "le_bytes (w # ws) = byte_of 0 w # byte_of 1 w # byte_of 2 w # byte_of 3 w # le_bytes ws"
  by (simp_all add: le_bytes_def)

lemma word_sum: "(ucast (byte_of 0 w) :: u32) + push_bit 8 (ucast (byte_of 1 w)) + push_bit 16 (ucast (byte_of 2 w))
    + push_bit 24 (ucast (byte_of 3 w)) = w"
proof -
  have "(ucast (byte_of 0 w) :: u32) + push_bit 8 (ucast (byte_of 1 w)) =
      ucast (byte_of 0 w) OR push_bit 8 (ucast (byte_of 1 w))"
    by (rule disjunctive_add) (auto simp: bit_simps)
  moreover have "(ucast (byte_of 0 w) OR push_bit 8 (ucast (byte_of 1 w))) + (push_bit 16 (ucast (byte_of 2 w)) :: u32) =
      (ucast (byte_of 0 w) OR push_bit 8 (ucast (byte_of 1 w))) OR push_bit 16 (ucast (byte_of 2 w))"
    by (rule disjunctive_add) (auto simp: bit_simps)
  moreover have "((ucast (byte_of 0 w) OR push_bit 8 (ucast (byte_of 1 w))) OR push_bit 16 (ucast (byte_of 2 w)))
      + (push_bit 24 (ucast (byte_of 3 w)) :: u32) =
      ((ucast (byte_of 0 w) OR push_bit 8 (ucast (byte_of 1 w))) OR push_bit 16 (ucast (byte_of 2 w)))
      OR push_bit 24 (ucast (byte_of 3 w))"
    by (rule disjunctive_add) (auto simp: bit_simps)
  ultimately show ?thesis
    using le32_bytes [of w] by (simp add: le32_def or.assoc)
qed

lemma jhash_loop_words:
  "jhash_loop (le_bytes ws) x = (case jhash2_loop ws x of (k, y) \<Rightarrow> (le_bytes k, y))"
proof (induction ws x rule: jhash2_loop.induct)
  case (1 k0 k1 k2 k a b c)
  have w: "word_at (le_bytes (k0 # k1 # k2 # k)) 0 = k0" "word_at (le_bytes (k0 # k1 # k2 # k)) 4 = k1"
    "word_at (le_bytes (k0 # k1 # k2 # k)) 8 = k2"
    using word_sum by (simp_all add: word_at_def byte_at_def)
  show ?case
    by (subst jhash_loop.simps) (use 1 w in \<open>simp add: numeral_eq_Suc\<close>)
qed (subst jhash_loop.simps; simp)+

text \<open>
  C30. The hash over words is the hash over their bytes on a little-endian machine: for every sequence
  of 32-bit words the version that reads whole words returns what the general version returns on the
  bytes of the words in memory order.
\<close>

theorem jhash2_is_jhash: "jhash2 ws initval = jhash (le_bytes ws) initval"
proof -
  define x where "x = (JHASH_GOLDEN_RATIO, JHASH_GOLDEN_RATIO, initval)"
  obtain k a b c where k: "jhash2_loop ws x = (k, a, b, c)" by (cases "jhash2_loop ws x")
  have "length k < 3" using k by (induction ws x rule: jhash2_loop.induct) auto
  then consider "k = []" | k0 where "k = [k0]" | k0 k1 where "k = [k0, k1]"
    by (cases k; cases "tl k") auto
  then show ?thesis
    using k word_sum jhash_loop_words [of ws x]
    by cases (simp_all add: jhash_def jhash2_def x_def [symmetric] word_at_def byte_at_def Let_def mult.commute)
qed

end
