(* ===== verification/Stp_System.thy ===== *)
theory Stp_System
  imports Stp_Run
begin

unbundle bit_operations_syntax

text \<open>
  The instances of the spanning tree as \<open>stp_main.c\<close>, \<open>stp_if.c\<close> and \<open>stp_cli.c\<close> keep them: the list
  \<open>stp_instance_head\<close>, one instance per vlan, the lookups over all instances, and the commands. An
  instance is an address; address 0 is the static \<open>stp_global_instance\<close>, whose lists can be walked
  only after it was created. A released instance stays recorded in \<open>sy_freed\<close>.

  The interfaces refer to spanning tree ports through one global table, here \<open>sy_ifinfo\<close>: an entry is an
  instance and a port of it. An operation of one instance runs with an empty table of its own, and what
  it enters there is entered in the global one.
\<close>

section \<open>State\<close>

record stp_sys =
  sy_inst :: "nat \<Rightarrow> stp_instance"
  sy_list :: "nat list"
  sy_freed :: "nat list"
  sy_ifinfo :: "u32 \<Rightarrow> (nat \<times> nat) option"

abbreviation (input) stp_global_instance :: nat where
  "stp_global_instance \<equiv> 0"

text \<open>Memory that \<open>tm_malloc\<close> returned, and static memory, is zero.\<close>

definition stp_port_zero :: stp_port_entry where
  "stp_port_zero = \<lparr>sp_priority = 0, sp_state = DISABLED, sp_designated_cost = 0, sp_path_cost = 0,
     sp_designated_root = BID 0 (MAC 0 0 0 0 0 0), sp_designated_bridge = BID 0 (MAC 0 0 0 0 0 0),
     sp_forward_delay_timer = tv_new, sp_hold_timer = tv_new, sp_message_age_timer = tv_new,
     sp_designated_port = 0, sp_port_id = 0, sp_port_no = 0, sp_topology_change_ack = 0,
     sp_config_pending = False, sp_is_own_bpdu = False, sp_enabled = False\<rparr>"

definition stp_instance_zero :: stp_instance where
  "stp_instance_zero = \<lparr>br_stp_enabled = 0, br_designated_root = BID 0 (MAC 0 0 0 0 0 0),
     br_bridge_id = BID 0 (MAC 0 0 0 0 0 0), br_max_age = 0, br_hello_time = 0, br_forward_delay = 0,
     br_bridge_max_age = 0, br_bridge_hello_time = 0, br_bridge_forward_delay = 0, br_hello_timer = tv_new,
     br_tcn_timer = tv_new, br_topology_change_timer = tv_new, br_root_path_cost = 0, br_root_port = 0,
     br_vlan_id = 0, br_topology_change = 0, br_topology_change_detected = False, br_ports = (\<lambda>_. stp_port_zero),
     br_port_list = [], br_freed = [], br_ifinfo = (\<lambda>_. None), br_sent = []\<rparr>"

definition stp_init :: stp_sys where
  "stp_init = \<lparr>sy_inst = (\<lambda>_. stp_instance_zero), sy_list = [], sy_freed = [], sy_ifinfo = (\<lambda>_. None)\<rparr>"

section \<open>Instances\<close>

definition put_inst :: "nat \<Rightarrow> stp_instance \<Rightarrow> stp_sys \<Rightarrow> stp_sys" where
  "put_inst a br sy = sy\<lparr>sy_inst := (sy_inst sy)(a := br\<lparr>br_ifinfo := (\<lambda>_. None)\<rparr>),
     sy_ifinfo := (\<lambda>n. case br_ifinfo br n of Some i \<Rightarrow> Some (a, i) | None \<Rightarrow> sy_ifinfo sy n)\<rparr>"

text \<open>
  An operation on the instance at an address. One that answers an error has only read fields; any other
  walks the list of ports, which faults unless the instance is in the list of instances.
\<close>

definition on_stp :: "nat \<Rightarrow> (stp_instance \<Rightarrow> (int \<times> stp_instance) option) \<Rightarrow> stp_sys \<Rightarrow> (int \<times> stp_sys) option" where
  "on_stp a f sy = do {
     (r, br) \<leftarrow> f (sy_inst sy a);
     if r \<noteq> 0 then Some (r, sy)
     else if a \<notin> set (sy_list sy) then None
     else Some (0, put_inst a br sy) }"

definition find_stp :: "u16 \<Rightarrow> stp_sys \<Rightarrow> nat option" where
  "find_stp vlan_id sy = find (\<lambda>a. br_vlan_id (sy_inst sy a) = vlan_id) (sy_list sy)"

definition get_this_bridge_entry :: "u16 \<Rightarrow> stp_sys \<Rightarrow> nat option" where
  "get_this_bridge_entry vlan_id sy =
    (if vlan_id = VLAN_INVALID_ID then Some stp_global_instance else find_stp vlan_id sy)"

text \<open>\<open>m\<close> is what \<open>tm_malloc\<close> returned; the result has the return code and the instance.\<close>

definition stp_create_stp_instance :: "stp_env \<Rightarrow> u16 \<Rightarrow> nat option \<Rightarrow> stp_sys \<Rightarrow> int \<times> nat option \<times> stp_sys" where
  "stp_create_stp_instance env vlan_id m sy =
    (case find_stp vlan_id sy of
       Some a \<Rightarrow> (0, Some a, sy)
     | None \<Rightarrow>
         (case (if vlan_id = VLAN_INVALID_ID then Some stp_global_instance else m) of
            None \<Rightarrow> (-1, None, sy)
          | Some a \<Rightarrow>
              (0, Some a, sy\<lparr>sy_inst := (sy_inst sy)(a := stp_init_stp_instance env vlan_id
                   (if vlan_id = VLAN_INVALID_ID then sy_inst sy a else stp_instance_zero)),
                 sy_list := sy_list sy @ [a], sy_freed := removeAll a (sy_freed sy)\<rparr>)))"

text \<open>The instance and its ports are released; its timers are not cancelled.\<close>

definition stp_delete_stp_instance :: "nat option \<Rightarrow> stp_sys \<Rightarrow> (int \<times> stp_sys) option" where
  "stp_delete_stp_instance p sy = do {
     a \<leftarrow> p;
     if a \<in> set (sy_freed sy) \<or> a = stp_global_instance then None
     else Some (0, sy\<lparr>sy_list := remove1 a (sy_list sy), sy_freed := a # sy_freed sy\<rparr>) }"

section \<open>Ports of an instance, and ports of any instance\<close>

definition stp_create_port_sys :: "stp_env \<Rightarrow> nat option \<Rightarrow> nat option \<Rightarrow> int \<Rightarrow> stp_sys \<Rightarrow> (int \<times> stp_sys) option" where
  "stp_create_port_sys env m p port sy =
    (case m of
       None \<Rightarrow> Some (-1, sy)
     | Some i \<Rightarrow> p \<bind> (\<lambda>a. on_stp a (\<lambda>br. Some (stp_create_port env (Some i) port br)) sy))"

definition stp_delete_port_sys :: "nat option \<Rightarrow> u32 \<Rightarrow> stp_sys \<Rightarrow> (int \<times> stp_sys) option" where
  "stp_delete_port_sys p port sy = p \<bind> (\<lambda>a. on_stp a (\<lambda>br. Some (0, stp_delete_port port br)) sy)"

definition stp_set_state_sys :: "stp_env \<Rightarrow> nat option \<Rightarrow> int \<Rightarrow> stp_sys \<Rightarrow> (int \<times> stp_sys) option" where
  "stp_set_state_sys env p st sy = p \<bind> (\<lambda>a. on_stp a (\<lambda>br. map_option (Pair 0) (stp_set_state env st br)) sy)"

fun port_entry :: "(nat \<Rightarrow> stp_instance) \<Rightarrow> u16 \<Rightarrow> nat list \<Rightarrow> (nat \<times> nat) option" where
  "port_entry inst port [] = None"
| "port_entry inst port (a # as) =
    (case stp_get_port (inst a) port of Some i \<Rightarrow> Some (a, i) | None \<Rightarrow> port_entry inst port as)"

definition stp_get_port_entry :: "u16 \<Rightarrow> stp_sys \<Rightarrow> (nat \<times> nat) option" where
  "stp_get_port_entry port sy = port_entry (sy_inst sy) port (sy_list sy)"

definition stp_process_bpdu :: "stp_env \<Rightarrow> stp_bpdu \<Rightarrow> u16 \<Rightarrow> stp_sys \<Rightarrow> (int \<times> stp_sys) option" where
  "stp_process_bpdu env c port sy =
    (case stp_get_port_entry port sy of
       None \<Rightarrow> Some (-1, sy)
     | Some (a, i) \<Rightarrow> on_stp a (process_bpdu_on env i c) sy)"

definition stp_enable_or_disable_port :: "stp_env \<Rightarrow> u16 \<Rightarrow> int \<Rightarrow> stp_sys \<Rightarrow> (int \<times> stp_sys) option" where
  "stp_enable_or_disable_port env port st sy =
    (if st = IF_UP
     then stp_get_port_entry port sy \<bind> (\<lambda>(a, i). on_stp a (\<lambda>br. Some (0, stp_enable_port env i br)) sy)
     else if st = IF_DOWN
     then stp_get_port_entry port sy \<bind> (\<lambda>(a, i). on_stp a (\<lambda>br. map_option (Pair 0) (stp_disable_port env i br)) sy)
     else Some (0, sy))"

text \<open>\<open>stp_is_mac_learning_allowed\<close> through the global table of the interfaces.\<close>

definition mac_learning_allowed :: "stp_sys \<Rightarrow> u32 \<Rightarrow> bool option" where
  "mac_learning_allowed sy port =
    (case sy_ifinfo sy port of
       None \<Rightarrow> Some True
     | Some (a, i) \<Rightarrow>
         if a \<in> set (sy_freed sy) \<or> i \<in> set (br_freed (sy_inst sy a)) then None
         else Some (sp_state (br_ports (sy_inst sy a) i) = LEARNING \<or> sp_state (br_ports (sy_inst sy a) i) = FORWARDING))"

text \<open>A timer of an instance expires: its handler runs on the instance that the timer was made for.\<close>

definition stp_expire :: "stp_env \<Rightarrow> nat \<Rightarrow> stp_tmr \<Rightarrow> stp_sys \<Rightarrow> (int \<times> stp_sys) option" where
  "stp_expire env a k sy =
    (if a \<in> set (sy_freed sy) then None else on_stp a (\<lambda>br. map_option (Pair 0) (stp_serve_timer env k br)) sy)"

section \<open>Management functions\<close>

definition on_vlan :: "u16 \<Rightarrow> (stp_instance \<Rightarrow> (int \<times> stp_instance) option) \<Rightarrow> stp_sys \<Rightarrow> (int \<times> stp_sys) option" where
  "on_vlan vlan f sy = (case get_this_bridge_entry vlan sy of None \<Rightarrow> Some (-1, sy) | Some a \<Rightarrow> on_stp a f sy)"

definition stp_set_bridge_priority :: "stp_env \<Rightarrow> u16 \<Rightarrow> u16 \<Rightarrow> stp_sys \<Rightarrow> (int \<times> stp_sys) option" where
  "stp_set_bridge_priority env newprio vlan = on_vlan vlan (\<lambda>br. map_option (Pair 0) (set_bridge_priority_on env newprio br))"

definition stp_set_bridge_hello_time :: "int \<Rightarrow> u16 \<Rightarrow> stp_sys \<Rightarrow> (int \<times> stp_sys) option" where
  "stp_set_bridge_hello_time hello vlan = on_vlan vlan (\<lambda>br. Some (hello_time_on hello br))"

definition stp_set_bridge_forward_delay :: "int \<Rightarrow> u16 \<Rightarrow> stp_sys \<Rightarrow> (int \<times> stp_sys) option" where
  "stp_set_bridge_forward_delay fwd_dly vlan = on_vlan vlan (\<lambda>br. Some (forward_delay_on fwd_dly br))"

definition stp_set_bridge_max_age :: "int \<Rightarrow> u16 \<Rightarrow> stp_sys \<Rightarrow> (int \<times> stp_sys) option" where
  "stp_set_bridge_max_age max_age vlan = on_vlan vlan (\<lambda>br. Some (max_age_on max_age br))"

definition stp_set_bridge_times :: "int \<Rightarrow> int \<Rightarrow> int \<Rightarrow> u16 \<Rightarrow> stp_sys \<Rightarrow> (int \<times> stp_sys) option" where
  "stp_set_bridge_times fdly maxage htime vlan = on_vlan vlan (\<lambda>br. Some (times_on fdly maxage htime br))"

section \<open>Commands\<close>

text \<open>
  The commands of \<open>stp_cli.c\<close> in the vlan of the session. Those that set several times answer
  \<open>CPARSER_NOT_OK\<close> whatever \<open>stp_set_bridge_times\<close> returned.
\<close>

definition answer :: "(int \<times> stp_sys) option \<Rightarrow> (cparser_result \<times> stp_sys) option" where
  "answer x = map_option (\<lambda>(r, sy). (res_of r, sy)) x"

definition stp_cmd_priority :: "stp_env \<Rightarrow> int \<Rightarrow> u16 \<Rightarrow> stp_sys \<Rightarrow> (cparser_result \<times> stp_sys) option" where
  "stp_cmd_priority env pri vlan sy = answer (stp_set_bridge_priority env (word_of_int pri) vlan sy)"

definition stp_cmd_hello_time :: "int \<Rightarrow> int option \<Rightarrow> int option \<Rightarrow> u16 \<Rightarrow> stp_sys \<Rightarrow> (cparser_result \<times> stp_sys) option" where
  "stp_cmd_hello_time htime fdly maxage vlan sy =
    (if fdly = None \<and> maxage = None then answer (stp_set_bridge_hello_time htime vlan sy)
     else if htime < 1 \<or> htime > 10 then Some (CPARSER_NOT_OK, sy)
     else if out_of 2 30 fdly then Some (CPARSER_NOT_OK, sy)
     else if out_of 6 40 maxage then Some (CPARSER_NOT_OK, sy)
     else map_option (\<lambda>(r, sy). (CPARSER_NOT_OK, sy))
            (stp_set_bridge_times (or_minus1 fdly) (or_minus1 maxage) htime vlan sy))"

definition stp_cmd_forward_delay :: "int \<Rightarrow> int option \<Rightarrow> int option \<Rightarrow> u16 \<Rightarrow> stp_sys \<Rightarrow> (cparser_result \<times> stp_sys) option" where
  "stp_cmd_forward_delay fdly maxage htime vlan sy =
    (if htime = None \<and> maxage = None then answer (stp_set_bridge_forward_delay fdly vlan sy)
     else if fdly < 2 \<or> fdly > 30 then Some (CPARSER_NOT_OK, sy)
     else if out_of 1 10 htime then Some (CPARSER_NOT_OK, sy)
     else if out_of 6 40 maxage then Some (CPARSER_NOT_OK, sy)
     else map_option (\<lambda>(r, sy). (CPARSER_NOT_OK, sy))
            (stp_set_bridge_times fdly (or_minus1 maxage) (or_minus1 htime) vlan sy))"

definition stp_cmd_max_age :: "int \<Rightarrow> int option \<Rightarrow> int option \<Rightarrow> u16 \<Rightarrow> stp_sys \<Rightarrow> (cparser_result \<times> stp_sys) option" where
  "stp_cmd_max_age maxage fdly htime vlan sy =
    (if fdly = None \<and> htime = None then answer (stp_set_bridge_max_age maxage vlan sy)
     else if maxage < 6 \<or> maxage > 40 then Some (CPARSER_NOT_OK, sy)
     else if out_of 2 30 fdly then Some (CPARSER_NOT_OK, sy)
     else if out_of 1 10 htime then Some (CPARSER_NOT_OK, sy)
     else map_option (\<lambda>(r, sy). (CPARSER_NOT_OK, sy))
            (stp_set_bridge_times (or_minus1 fdly) maxage (or_minus1 htime) vlan sy))"

text \<open>A command on a port: the instance and the port must exist, and the value must be in its range.\<close>

definition on_vlan_port :: "u32 \<Rightarrow> bool \<Rightarrow> (nat \<Rightarrow> stp_instance \<Rightarrow> stp_instance option) \<Rightarrow> u16 \<Rightarrow> stp_sys
    \<Rightarrow> (int \<times> stp_sys) option" where
  "on_vlan_port portnum valid f vlan sy =
    (case get_this_bridge_entry vlan sy of
       None \<Rightarrow> Some (-1, sy)
     | Some a \<Rightarrow>
         if a \<notin> set (sy_list sy) then None
         else (case stp_get_port_info (sy_inst sy a) portnum of
             None \<Rightarrow> Some (-1, sy)
           | Some i \<Rightarrow> if \<not> valid then Some (-1, sy) else on_stp a (\<lambda>br. map_option (Pair 0) (f i br)) sy))"

definition set_spanning_bridge_port_path_cost :: "stp_env \<Rightarrow> u32 \<Rightarrow> u32 \<Rightarrow> u16 \<Rightarrow> stp_sys \<Rightarrow> (int \<times> stp_sys) option" where
  "set_spanning_bridge_port_path_cost env path_cost portnum =
     on_vlan_port portnum (1 \<le> path_cost \<and> path_cost \<le> 200000000) (\<lambda>i. stp_set_path_cost env i path_cost)"

definition set_spanning_bridge_port_prio :: "stp_env \<Rightarrow> u32 \<Rightarrow> u32 \<Rightarrow> u16 \<Rightarrow> stp_sys \<Rightarrow> (int \<times> stp_sys) option" where
  "set_spanning_bridge_port_prio env prio portnum =
     on_vlan_port portnum (prio \<le> 240) (\<lambda>i br. Some (stp_set_port_priority env i (ucast prio) br))"

end
