(* ===== verification/Stp_Anchor.thy ===== *)
theory Stp_Anchor
  imports Stp_Run
begin

unbundle bit_operations_syntax

text \<open>
  What the protocol leaves alone: no received message, timer, link event or management command
  changes the list of ports of an instance, the numbers of its ports, the ports that were released or the
  vlan, and only enabling a port enters it in the table of the interfaces. The switch's theories rest on
  these facts when they compose the instance with the rest.
\<close>

definition anchor :: "stp_instance \<Rightarrow> nat list \<times> nat list \<times> u16 \<times> (nat \<Rightarrow> u32) \<times> (u32 \<Rightarrow> nat option)" where
  "anchor br = (br_port_list br, br_freed br, br_vlan_id br, \<lambda>i. sp_port_no (br_ports br i), br_ifinfo br)"

named_theorems anchor_simps \<open>operations that leave the anchor of an instance alone\<close>

lemma anchor_fields:
  assumes "anchor b = anchor a"
  shows "br_port_list b = br_port_list a" "br_freed b = br_freed a" "br_vlan_id b = br_vlan_id a"
    "sp_port_no (br_ports b i) = sp_port_no (br_ports a i)" "br_ifinfo b = br_ifinfo a"
  using assms unfolding anchor_def by (auto dest: fun_cong [of _ _ i])

definition anchored :: "stp_instance \<Rightarrow> stp_instance option \<Rightarrow> bool" where
  "anchored br r \<longleftrightarrow> (\<forall>b. r = Some b \<longrightarrow> anchor b = anchor br)"

lemma anchored_Some [simp]: "anchored br (Some b) \<longleftrightarrow> anchor b = anchor br"
  by (simp add: anchored_def)

lemma anchored_map: "anchored br r \<Longrightarrow> (\<And>b. anchor (f b) = anchor b) \<Longrightarrow> anchored br (map_option f r)"
  by (auto simp: anchored_def)

lemma anchored_bind:
  assumes "anchored br r" "\<And>b. anchored b (f b)"
  shows "anchored br (r \<bind> f)"
proof (cases r)
  case (Some b)
  with assms(1) have "anchor b = anchor br" by simp
  with assms(2) [of b] Some show ?thesis by (simp add: anchored_def)
qed (simp add: anchored_def)

lemma anchored_from: "anchor b = anchor br \<Longrightarrow> anchored b r \<Longrightarrow> anchored br r"
  by (simp add: anchored_def)

lemma anchor_supd [anchor_simps]: "(\<And>p. sp_port_no (f p) = sp_port_no p) \<Longrightarrow> anchor (supd i f br) = anchor br"
  by (auto simp: anchor_def supd_def)

lemma anchor_glob [anchor_simps]:
  "anchor (br\<lparr>br_root_port := v1\<rparr>) = anchor br" "anchor (br\<lparr>br_designated_root := v2\<rparr>) = anchor br"
  "anchor (br\<lparr>br_root_path_cost := v3\<rparr>) = anchor br" "anchor (br\<lparr>br_topology_change := v4\<rparr>) = anchor br"
  "anchor (br\<lparr>br_topology_change_timer := v5\<rparr>) = anchor br" "anchor (br\<lparr>br_tcn_timer := v6\<rparr>) = anchor br"
  "anchor (br\<lparr>br_hello_timer := v7\<rparr>) = anchor br" "anchor (br\<lparr>br_topology_change_detected := v8\<rparr>) = anchor br"
  "anchor (br\<lparr>br_max_age := v9\<rparr>) = anchor br" "anchor (br\<lparr>br_hello_time := v10\<rparr>) = anchor br"
  "anchor (br\<lparr>br_forward_delay := v11\<rparr>) = anchor br" "anchor (br\<lparr>br_bridge_id := v12\<rparr>) = anchor br"
  "anchor (br\<lparr>br_stp_enabled := v13\<rparr>) = anchor br" "anchor (br\<lparr>br_sent := v14\<rparr>) = anchor br"
  "anchor (br\<lparr>br_bridge_max_age := v15\<rparr>) = anchor br" "anchor (br\<lparr>br_bridge_hello_time := v16\<rparr>) = anchor br"
  "anchor (br\<lparr>br_bridge_forward_delay := v17\<rparr>) = anchor br"
  by (simp_all add: anchor_def)

lemma anchor_fold: "(\<And>i b. anchor (f i b) = anchor b) \<Longrightarrow> anchor (fold f is br) = anchor br"
  by (induction "is" arbitrary: br) simp_all

lemma anchored_run: "(\<And>i b. anchored b (f i b)) \<Longrightarrow> anchored br (run_events f is br)"
proof (induction "is" arbitrary: br)
  case (Cons i "is")
  then show ?case by (auto intro: anchored_bind)
qed simp

lemma anchor_send [anchor_simps]: "anchor (stp_send_bpdu env i d br) = anchor br"
  "anchor (stp_send_config_bpdu env i c br) = anchor br" "anchor (stp_send_tcn_bpdu env p br) = anchor br"
  "anchor (stp_transmit_tcn env br) = anchor br"
  by (simp_all add: stp_send_bpdu_def stp_send_config_bpdu_def stp_send_tcn_bpdu_def stp_transmit_tcn_def Let_def
      anchor_simps split: option.split)

lemma anchor_designate [anchor_simps]: "anchor (stp_become_designated_port i br) = anchor br"
  "anchor (designate i br) = anchor br" "anchor (stp_designated_port_selection br) = anchor br"
  by (simp_all add: stp_become_designated_port_def designate_def stp_designated_port_selection_def anchor_simps anchor_fold)

lemma anchor_root_selection: "anchored br (stp_root_selection br)"
  by (auto simp: stp_root_selection_def anchored_def anchor_simps Let_def split: if_splits bind_splits)

lemma anchor_update: "anchored br (stp_configuration_update br)"
  unfolding stp_configuration_update_def by (intro anchored_map anchor_root_selection) (simp add: anchor_simps)

lemma anchor_transmit: "anchored br (stp_transmit_config env i br)"
  by (auto simp: stp_transmit_config_def anchored_def anchor_simps split: if_splits bind_splits)

lemma anchor_detection [anchor_simps]: "anchor (stp_topology_change_detection env br) = anchor br"
  by (simp add: stp_topology_change_detection_def anchor_simps)

lemma anchor_generation: "anchored br (stp_config_bpdu_generation env br)"
  unfolding stp_config_bpdu_generation_def
  by (intro anchored_run) (simp add: generate_def anchor_transmit)

lemma anchor_become_root: "anchored br (stp_become_root_bridge env br)"
  unfolding stp_become_root_bridge_def Let_def
  by (rule anchored_from [OF _ anchored_bind [OF anchor_generation]]) (simp_all add: anchor_simps)

lemma anchor_states [anchor_simps]: "anchor (stp_make_blocking env i br) = anchor br"
  "anchor (stp_make_forwarding env i br) = anchor br" "anchor (select_state env i br) = anchor br"
  "anchor (stp_port_state_selection env br) = anchor br"
proof -
  show b: "anchor (stp_make_blocking env i br) = anchor br" for i br by (simp add: stp_make_blocking_def anchor_simps Let_def)
  show f: "anchor (stp_make_forwarding env i br) = anchor br" for i br by (simp add: stp_make_forwarding_def anchor_simps)
  show s: "anchor (select_state env i br) = anchor br" for i br by (simp add: select_state_def b f anchor_simps Let_def)
  show "anchor (stp_port_state_selection env br) = anchor br" by (simp add: stp_port_state_selection_def anchor_fold s)
qed

lemma anchor_reconfigure: "anchored br (reconfigure env w br)"
  unfolding reconfigure_def Let_def
  by (intro anchored_bind anchor_update) (auto simp: anchor_simps intro: anchored_from [OF _ anchor_become_root])

lemma anchor_reconfigure_from: "anchor b = anchor br \<Longrightarrow> anchored br (reconfigure env w b)"
  by (rule anchored_from [OF _ anchor_reconfigure])

section \<open>Received messages\<close>

lemma anchor_records [anchor_simps]: "anchor (stp_record_config_information env i c br) = anchor br"
  "anchor (stp_record_config_timeout_values c br) = anchor br" "anchor (stp_topology_change_acknowledged br) = anchor br"
  "anchor (root_lost env br) = anchor br"
  by (simp_all add: stp_record_config_information_def stp_record_config_timeout_values_def
      stp_topology_change_acknowledged_def root_lost_def anchor_simps Let_def)

lemma anchor_timeouts_generation: "anchored br (do {
    b \<leftarrow> stp_config_bpdu_generation env (stp_record_config_timeout_values c br);
    Some (if k then stp_topology_change_acknowledged b else b) })"
  by (rule anchored_from [OF _ anchored_bind [OF anchor_generation]]) (simp_all add: anchor_simps)

lemma anchor_received_config: "anchored br (stp_received_config_bpdu env i c br)"
proof -
  define b where "b = supd i (\<lambda>p. p\<lparr>sp_is_own_bpdu := False\<rparr>) br"
  have b: "anchor b = anchor br" by (simp add: b_def anchor_simps)
  have "anchored b (do {
      br \<leftarrow> stp_configuration_update (stp_record_config_information env i c b);
      let br = stp_port_state_selection env br;
      let br = (if \<not> stp_is_root_bridge br \<and> w then root_lost env br else br);
      if sp_port_no (br_ports br i) = br_root_port br
      then do {
        br \<leftarrow> stp_config_bpdu_generation env (stp_record_config_timeout_values c br);
        Some (if bpdu_flags c AND TC_ACK_BIT \<noteq> 0 then stp_topology_change_acknowledged br else br)
      }
      else Some br })" for w
    unfolding Let_def
    by (rule anchored_from [OF _ anchored_bind [OF anchor_update]])
       (auto simp: anchor_simps intro: anchored_from [OF _ anchor_timeouts_generation])
  then show ?thesis using b anchor_transmit [of b env i]
    by (auto simp: stp_received_config_bpdu_def Let_def b_def [symmetric] stp_reply_def intro: anchored_from [OF b])
qed

lemma anchor_received_tcn: "anchored br (stp_received_tcn_bpdu env i br)"
  by (auto simp: stp_received_tcn_bpdu_def stp_topology_change_acknowledge_def anchor_simps
      intro!: anchored_from [OF _ anchor_transmit])

lemma anchor_process_bpdu: "process_bpdu_on env i c br = Some (r, b) \<Longrightarrow> anchor b = anchor br"
  using anchor_received_config [of br env i "stp_decode_bpdu c"] anchor_received_tcn [of br env i]
  by (auto simp: process_bpdu_on_def Let_def anchored_def split: if_splits)

section \<open>Ports and timers\<close>

lemma anchor_disable_port: "anchored br (stp_disable_port env i br)"
  unfolding stp_disable_port_def Let_def by (rule anchor_reconfigure_from) (simp add: anchor_simps)

lemma anchor_expiry: "anchored br (stp_time_out env k br)" "anchored br (stp_serve_timer env k br)"
proof -
  have "anchor (tmr_upd k f b) = anchor b" for f b by (cases k) (simp_all add: tmr_upd_def anchor_simps)
  moreover have "anchored br (stp_hello_timer_expired env br)"
    unfolding stp_hello_timer_expired_def by (intro anchored_map anchor_generation) (simp add: anchor_simps)
  moreover have "anchored br (stp_message_age_timer_expired env i br)" for i
    by (auto simp: stp_message_age_timer_expired_def anchor_simps intro!: anchor_reconfigure_from)
  moreover have "anchor (stp_forward_delay_timer_expired env i br) = anchor br" for i
    by (simp add: stp_forward_delay_timer_expired_def anchor_simps Let_def)
  moreover have "anchored br (stp_hold_timer_expired env i br)" for i
    by (simp add: stp_hold_timer_expired_def anchor_transmit)
  moreover have "anchor (stp_tcn_timer_expired env br) = anchor br" "anchor (stp_topology_change_timer_expired br) = anchor br"
    by (simp_all add: stp_tcn_timer_expired_def stp_topology_change_timer_expired_def anchor_simps)
  ultimately show t: "anchored br (stp_time_out env k br)"
    and "anchored br (stp_serve_timer env k br)"
    by (cases k; auto simp: stp_time_out_def anchored_def stp_serve_timer_def)+
qed

lemma anchor_setters: "anchor (snd (hello_time_on v br)) = anchor br" "anchor (snd (forward_delay_on v br)) = anchor br"
  "anchor (snd (max_age_on v br)) = anchor br" "anchor (snd (times_on f m h br)) = anchor br"
  by (simp_all add: hello_time_on_def forward_delay_on_def max_age_on_def times_on_def Let_def anchor_simps)

lemma anchor_priority: "anchored br (set_bridge_priority_on env p br)"
  unfolding set_bridge_priority_on_def Let_def
  by (rule anchor_reconfigure_from) (simp add: anchor_simps anchor_fold renumber_def)

lemma anchor_path_cost: "anchored br (stp_set_path_cost env i c br)"
  unfolding stp_set_path_cost_def
  by (rule anchored_map [OF anchored_from [OF _ anchor_update]]) (simp_all add: anchor_simps)

lemma anchor_port_priority: "anchor (stp_set_port_priority env i p br) = anchor br"
  by (simp add: stp_set_port_priority_def Let_def anchor_simps)

text \<open>Enabling a port enters it, and nothing else, in the table of the interfaces.\<close>

definition entered :: "nat list \<Rightarrow> stp_instance \<Rightarrow> stp_instance \<Rightarrow> bool" where
  "entered is br b \<longleftrightarrow> br_port_list b = br_port_list br \<and> br_freed b = br_freed br \<and> br_vlan_id b = br_vlan_id br
     \<and> (\<forall>j. sp_port_no (br_ports b j) = sp_port_no (br_ports br j))
     \<and> (\<forall>n i. br_ifinfo b n = Some i \<longrightarrow> br_ifinfo br n = Some i \<or> i \<in> set is)"

lemma entered_anchor: "anchor b = anchor br \<Longrightarrow> entered is br b"
  unfolding entered_def using anchor_fields [of b br] by simp

lemma entered_trans: "entered is a b \<Longrightarrow> entered js b c \<Longrightarrow> set is \<subseteq> set ks \<Longrightarrow> set js \<subseteq> set ks \<Longrightarrow> entered ks a c"
  unfolding entered_def by (simp, blast)

lemma enable_port_entered: "entered [i] br (stp_enable_port env i br)"
proof (cases "se_oper_state env (sp_port_no (br_ports br i)) = 2")
  case False
  define b where "b = stp_init_port i br"
  define c where "c = stp_port_state_selection env b"
  have "entered [i] br b"
    by (auto simp: entered_def b_def stp_init_port_def Let_def stp_become_designated_port_def supd_def split: if_splits)
  moreover have "entered [i] b c" by (rule entered_anchor) (simp add: c_def anchor_simps)
  ultimately have "entered [i] br c" by (rule entered_trans) simp_all
  with False show ?thesis by (simp add: stp_enable_port_def b_def c_def)
qed (simp add: stp_enable_port_def entered_def)

lemma enable_entered:
  assumes "stp_enable env br = Some b"
  shows "entered (br_port_list br) br b"
proof -
  define b0 where "b0 = br\<lparr>br_stp_enabled := STP_ENABLED, br_hello_timer := stp_mod env (br_hello_time br) (br_hello_timer br)\<rparr>"
  from assms obtain b1 where b1: "stp_config_bpdu_generation env b0 = Some b1"
    "b = fold (stp_enable_port env) (br_port_list b1) b1"
    by (auto simp: stp_enable_def b0_def Let_def split: bind_splits)
  have "anchor b0 = anchor br" by (simp add: b0_def anchor_simps)
  with b1(1) anchor_generation [of b0 env] have a: "anchor b1 = anchor br" by (simp add: anchored_def)
  have f: "entered is x (fold (stp_enable_port env) is x)" for "is" x
  proof (induction "is" arbitrary: x)
    case Nil
    then show ?case by (simp add: entered_def)
  next
    case (Cons i "is")
    have "entered (i # is) x (fold (stp_enable_port env) is (stp_enable_port env i x))"
      by (rule entered_trans [OF enable_port_entered Cons.IH]) auto
    then show ?case by simp
  qed
  have "entered [] br b1" by (rule entered_anchor [OF a])
  moreover have "entered (br_port_list br) b1 b"
    using f [of "br_port_list b1" b1] b1(2) anchor_fields(1) [OF a] by simp
  ultimately show ?thesis by (rule entered_trans) simp_all
qed

end
