(* ===== verification/Mem_Pool.thy ===== *)
theory Mem_Pool
  imports Switch_Prelude
begin

text \<open>
  The block allocator of \<open>src/src/lib/mem_main.c\<close>. A pool is a \<open>mem_info\<close> control block: one
  contiguous area, cut into \<open>nblks\<close> blocks of \<open>size\<close> bytes, and an array that holds the address
  of every free block and \<open>NULL\<close> for every block in use. The control blocks form the list
  \<open>hd_mcb\<close>. \<open>mem_pool_delete\<close> releases a control block and leaves it on that list; the field
  \<open>released\<close> records it, and walking over a released control block is a fault.

  The lemmas show that blocks handed out are disjoint and inside the area, that a pool never
  hands out more than \<open>nblks\<close> blocks, that \<open>free_blk\<close> undoes \<open>alloc_block\<close> and that it refuses
  every address that is not a block in use.
\<close>

section \<open>Control blocks\<close>

record mem_info =
  pool_name :: string
  saddr :: int
  eaddr :: int
  addr_blks :: "int option list option"
  memid :: int
  nblks :: int
  useblks :: int
  fblks :: int
  blk_size :: int
  released :: bool

record mem_state =
  hd_mcb :: "mem_info list"
  mcb_count :: int

definition mem_init :: "mem_state" where
  "mem_init = \<lparr>hd_mcb = [], mcb_count = 0\<rparr>"

section \<open>Operations\<close>

text \<open>\<open>get_mem_info\<close>: \<open>None\<close> when the walk meets a released control block, \<open>Some None\<close> for the
  null result.\<close>

fun find_mcb :: "int \<Rightarrow> mem_info list \<Rightarrow> mem_info option option" where
  "find_mcb i [] = Some None"
| "find_mcb i (m # ms) =
     (if released m then None else if memid m = i then Some (Some m) else find_mcb i ms)"

definition get_mem_info :: "int \<Rightarrow> mem_state \<Rightarrow> mem_info option option" where
  "get_mem_info i s = find_mcb i (hd_mcb s)"

text \<open>Writing through the pointer that \<open>get_mem_info\<close> returned.\<close>

fun upd_mcb :: "int \<Rightarrow> (mem_info \<Rightarrow> mem_info) \<Rightarrow> mem_info list \<Rightarrow> mem_info list" where
  "upd_mcb i f [] = []"
| "upd_mcb i f (m # ms) = (if memid m = i then f m # ms else m # upd_mcb i f ms)"

text \<open>\<open>build_free_mem_blk_list\<close>; when its allocation fails the array stays null.\<close>

definition build_free_mem_blk_list :: "bool \<Rightarrow> mem_info \<Rightarrow> mem_info" where
  "build_free_mem_blk_list got m =
     (if got
      then m\<lparr>addr_blks := Some (map (\<lambda>i. Some (saddr m + int i * blk_size m)) [0..<nat (nblks m)])\<rparr>
      else m)"

text \<open>The size in bytes of the area, an \<open>unsigned int\<close>, with the alignment adjustment.\<close>

definition pool_bytes :: "nat \<Rightarrow> int \<Rightarrow> u32" where
  "pool_bytes sz n_blks =
     (let bytes = word_of_int (int sz * n_blks);
          align = uint bytes mod 8
      in if align \<noteq> 0 then bytes + word_of_int (align + (8 - align)) else bytes)"

text \<open>
  \<open>mem_pool_create\<close>. What the C allocator returns is an argument: whether the control block
  and the pointer array were obtained, and the address of the area.
\<close>

definition mem_pool_create ::
  "string \<Rightarrow> nat \<Rightarrow> int \<Rightarrow> bool \<Rightarrow> int option \<Rightarrow> bool \<Rightarrow> mem_state \<Rightarrow> int \<times> mem_state" where
  "mem_pool_create name sz n_blks got_mcb got_mem got_blks s =
     (if \<not> got_mcb then (-1, s)
      else
        let i = mcb_count s + 1; s = s\<lparr>mcb_count := i\<rparr>
        in case got_mem of
             None \<Rightarrow> (-1, s)
           | Some a \<Rightarrow>
               let m = build_free_mem_blk_list got_blks
                     \<lparr>pool_name = [], saddr = a, eaddr = a + uint (pool_bytes sz n_blks),
                      addr_blks = None, memid = i, nblks = n_blks, useblks = 0, fblks = n_blks,
                      blk_size = c_int (int sz), released = False\<rparr>
               in (i, s\<lparr>hd_mcb := hd_mcb s @ [m]\<rparr>))"

definition mem_pool_delete :: "int \<Rightarrow> mem_state \<Rightarrow> (int \<times> mem_state) option" where
  "mem_pool_delete i s = do {
     r \<leftarrow> get_mem_info i s;
     case r of
       None \<Rightarrow> Some (-1, s)
     | Some p \<Rightarrow> Some (0, s\<lparr>hd_mcb := upd_mcb i (\<lambda>m. m\<lparr>released := True\<rparr>) (hd_mcb s)\<rparr>) }"

text \<open>The search loop of \<open>alloc_block\<close>: the first entry that is not null, with its index.\<close>

fun first_blk :: "nat \<Rightarrow> int option list \<Rightarrow> (nat \<times> int) option" where
  "first_blk i [] = None"
| "first_blk i (None # bs) = first_blk (Suc i) bs"
| "first_blk i (Some a # bs) = Some (i, a)"

definition alloc_block :: "int \<Rightarrow> mem_state \<Rightarrow> (int option \<times> mem_state) option" where
  "alloc_block i s = do {
     r \<leftarrow> get_mem_info i s;
     p \<leftarrow> r;
     if fblks p = 0 then Some (None, s)
     else do {
       bs \<leftarrow> addr_blks p;
       case first_blk 0 bs of
         None \<Rightarrow> Some (None, s)
       | Some (k, a) \<Rightarrow>
           Some (Some a, s\<lparr>hd_mcb := upd_mcb i
             (\<lambda>m. m\<lparr>addr_blks := Some (bs[k := None]), fblks := fblks m - 1,
                    useblks := useblks m + 1\<rparr>) (hd_mcb s)\<rparr>) } }"

definition free_blk :: "int \<Rightarrow> int \<Rightarrow> mem_state \<Rightarrow> (int \<times> mem_state) option" where
  "free_blk i addr s = do {
     r \<leftarrow> get_mem_info i s;
     case r of
       None \<Rightarrow> Some (-1, s)
     | Some p \<Rightarrow>
         if \<not> (saddr p \<le> addr \<and> addr + blk_size p \<le> eaddr p) then Some (-1, s)
         else if blk_size p = 0 then None
         else
           let offset = c_int (addr - saddr p)
           in if offset mod blk_size p \<noteq> 0 then Some (-1, s)
              else
                let idx = offset div blk_size p
                in do {
                  bs \<leftarrow> addr_blks p;
                  if \<not> (0 \<le> idx \<and> nat idx < length bs) then None
                  else if bs ! nat idx = None
                  then Some (0, s\<lparr>hd_mcb := upd_mcb i
                         (\<lambda>m. m\<lparr>addr_blks := Some (bs[nat idx := Some addr]),
                                fblks := fblks m + 1, useblks := useblks m - 1\<rparr>) (hd_mcb s)\<rparr>)
                  else Some (-1, s) } }"

section \<open>Well-formed pools\<close>

definition free_count :: "int option list \<Rightarrow> nat" where
  "free_count bs = length (filter (\<lambda>b. b \<noteq> None) bs)"

definition pool_wf :: "mem_info \<Rightarrow> bool" where
  "pool_wf p \<longleftrightarrow>
     \<not> released p \<and> 0 < blk_size p \<and> 0 \<le> nblks p \<and>
     (\<exists>bs. addr_blks p = Some bs \<and> int (length bs) = nblks p \<and>
        (\<forall>k < length bs. bs ! k = None \<or> bs ! k = Some (saddr p + int k * blk_size p)) \<and>
        fblks p = int (free_count bs)) \<and>
     useblks p = nblks p - fblks p \<and>
     saddr p + nblks p * blk_size p \<le> eaddr p \<and>
     eaddr p < saddr p + nblks p * blk_size p + blk_size p \<and>
     eaddr p - saddr p < 2 ^ 31"

definition mem_wf :: "mem_state \<Rightarrow> bool" where
  "mem_wf s \<longleftrightarrow> (\<forall>p \<in> set (hd_mcb s). pool_wf p \<and> memid p \<le> mcb_count s)
     \<and> distinct (map memid (hd_mcb s))"

text \<open>The addresses of the blocks of a pool that are in use.\<close>

definition pool_used :: "mem_info \<Rightarrow> int set" where
  "pool_used p =
     {saddr p + int k * blk_size p | k.
        k < length (the (addr_blks p)) \<and> the (addr_blks p) ! k = None}"

definition pool_of :: "int \<Rightarrow> mem_state \<Rightarrow> mem_info option" where
  "pool_of i s = find (\<lambda>m. memid m = i) (hd_mcb s)"

definition used_blks :: "int \<Rightarrow> mem_state \<Rightarrow> int set" where
  "used_blks i s = (case pool_of i s of None \<Rightarrow> {} | Some p \<Rightarrow> pool_used p)"

definition pool_cap :: "int \<Rightarrow> mem_state \<Rightarrow> nat" where
  "pool_cap i s = (case pool_of i s of None \<Rightarrow> 0 | Some p \<Rightarrow> nat (nblks p))"

lemma used_blks_cong: "pool_of i m = pool_of i s \<Longrightarrow> used_blks i m = used_blks i s \<and> pool_cap i m = pool_cap i s"
  by (simp add: used_blks_def pool_cap_def)

section \<open>Lemmas on the pool array\<close>

lemma first_blk_Some:
  "first_blk i bs = Some (k, a) \<Longrightarrow> i \<le> k \<and> k - i < length bs \<and> bs ! (k - i) = Some a"
proof (induction i bs rule: first_blk.induct)
  case (2 i bs)
  then show ?case by (auto simp: nth_Cons' Suc_le_eq)
qed auto

lemma first_blk_None: "first_blk i bs = None \<longleftrightarrow> free_count bs = 0"
  by (induction i bs rule: first_blk.induct) (auto simp: free_count_def)

lemma free_count_take:
  "k < length bs \<Longrightarrow> bs ! k \<noteq> None \<Longrightarrow> Suc (free_count (bs[k := None])) = free_count bs"
proof (induction bs arbitrary: k)
  case (Cons b bs)
  then show ?case by (cases k) (auto simp: free_count_def)
qed simp

lemma free_count_put:
  "k < length bs \<Longrightarrow> bs ! k = None \<Longrightarrow> free_count (bs[k := Some a]) = Suc (free_count bs)"
proof (induction bs arbitrary: k)
  case (Cons b bs)
  then show ?case by (cases k) (auto simp: free_count_def)
qed simp

lemma card_None_free_count: "card {k. k < length bs \<and> bs ! k = None} + free_count bs = length bs"
proof -
  have "free_count bs = card {k. k < length bs \<and> bs ! k \<noteq> None}"
    by (simp add: free_count_def length_filter_conv_card)
  moreover have "{k. k < length bs \<and> bs ! k = None} \<union> {k. k < length bs \<and> bs ! k \<noteq> None} = {..<length bs}"
    by auto
  moreover have "card ({k. k < length bs \<and> bs ! k = None} \<union> {k. k < length bs \<and> bs ! k \<noteq> None})
      = card {k. k < length bs \<and> bs ! k = None} + card {k. k < length bs \<and> bs ! k \<noteq> None}"
    by (rule card_Un_disjoint) auto
  ultimately show ?thesis by simp
qed

lemma block_index_unique:
  "0 < (n::int) \<Longrightarrow> a + int j * n = a + int k * n \<longleftrightarrow> j = k"
  by simp

lemma pool_wfE:
  assumes "pool_wf p"
  obtains bs where "addr_blks p = Some bs" "int (length bs) = nblks p"
    "\<And>k. k < length bs \<Longrightarrow> bs ! k = None \<or> bs ! k = Some (saddr p + int k * blk_size p)"
    "fblks p = int (free_count bs)" "useblks p = nblks p - fblks p" "0 < blk_size p"
    "saddr p + nblks p * blk_size p \<le> eaddr p"
    "eaddr p < saddr p + nblks p * blk_size p + blk_size p"
    "eaddr p - saddr p < 2 ^ 31" "\<not> released p" "0 \<le> nblks p"
  using assms by (auto simp: pool_wf_def)

lemma card_pool_used: "pool_wf p \<Longrightarrow> card (pool_used p) + nat (fblks p) = nat (nblks p)"
proof -
  assume "pool_wf p"
  then obtain bs where bs: "addr_blks p = Some bs" "int (length bs) = nblks p"
    "fblks p = int (free_count bs)" "0 < blk_size p" by (rule pool_wfE)
  have "pool_used p = (\<lambda>k. saddr p + int k * blk_size p) ` {k. k < length bs \<and> bs ! k = None}"
    by (auto simp: pool_used_def bs)
  moreover have "inj_on (\<lambda>k. saddr p + int k * blk_size p) {k. k < length bs \<and> bs ! k = None}"
    using bs(4) by (auto intro: inj_onI)
  ultimately have "card (pool_used p) = card {k. k < length bs \<and> bs ! k = None}"
    by (simp add: card_image)
  with card_None_free_count [of bs] bs show ?thesis by simp
qed

text \<open>Taking the block of entry \<open>k\<close> out of the array, and putting it back.\<close>

abbreviation pool_take :: "nat \<Rightarrow> int option list \<Rightarrow> mem_info \<Rightarrow> mem_info" where
  "pool_take k bs m \<equiv>
     m\<lparr>addr_blks := Some (bs[k := None]), fblks := fblks m - 1, useblks := useblks m + 1\<rparr>"

abbreviation pool_put :: "nat \<Rightarrow> int \<Rightarrow> int option list \<Rightarrow> mem_info \<Rightarrow> mem_info" where
  "pool_put k a bs m \<equiv>
     m\<lparr>addr_blks := Some (bs[k := Some a]), fblks := fblks m + 1, useblks := useblks m - 1\<rparr>"

lemma pool_wf_take:
  assumes "pool_wf p" "addr_blks p = Some bs" "k < length bs" "bs ! k \<noteq> None"
  shows "pool_wf (pool_take k bs p)"
  using assms free_count_take [of k bs]
  by (auto simp: pool_wf_def nth_list_update)

lemma pool_wf_put:
  assumes "pool_wf p" "addr_blks p = Some bs" "k < length bs" "bs ! k = None"
  shows "pool_wf (pool_put k (saddr p + int k * blk_size p) bs p)"
  using assms free_count_put [of k bs]
  by (auto simp: pool_wf_def nth_list_update)

lemma pool_used_take:
  assumes "pool_wf p" "addr_blks p = Some bs" "k < length bs"
  shows "pool_used (pool_take k bs p) = insert (saddr p + int k * blk_size p) (pool_used p)"
  using assms by (auto simp: pool_used_def nth_list_update split: if_splits)

lemma pool_used_put:
  assumes "pool_wf p" "addr_blks p = Some bs" "k < length bs"
  shows "pool_used (pool_put k a bs p) = pool_used p - {saddr p + int k * blk_size p}"
  using assms by (auto simp: pool_used_def pool_wf_def nth_list_update split: if_splits)

section \<open>Lemmas on the list of control blocks\<close>

lemma find_mcb_find:
  "\<forall>m \<in> set ms. \<not> released m \<Longrightarrow> find_mcb i ms = Some (find (\<lambda>m. memid m = i) ms)"
  by (induction ms) auto

lemma get_mem_info_wf: "mem_wf s \<Longrightarrow> get_mem_info i s = Some (pool_of i s)"
  unfolding get_mem_info_def pool_of_def
  by (rule find_mcb_find) (auto simp: mem_wf_def pool_wf_def)

lemma find_upd_mcb:
  "(\<And>m. memid (f m) = memid m) \<Longrightarrow>
   find (\<lambda>m. memid m = j) (upd_mcb i f ms) =
     (if j = i then map_option f (find (\<lambda>m. memid m = i) ms) else find (\<lambda>m. memid m = j) ms)"
  by (induction ms) auto

lemma upd_mcb_memids: "(\<And>m. memid (f m) = memid m) \<Longrightarrow> map memid (upd_mcb i f ms) = map memid ms"
  by (induction ms) auto

lemma upd_mcb_member:
  "distinct (map memid ms) \<Longrightarrow> m \<in> set (upd_mcb i f ms) \<Longrightarrow>
   (\<exists>m' \<in> set ms. memid m' = i \<and> m = f m') \<or> m \<in> set ms"
  by (induction ms) (auto split: if_splits)

lemma pool_of_wf: "mem_wf s \<Longrightarrow> pool_of i s = Some p \<Longrightarrow> pool_wf p \<and> memid p = i"
  by (auto simp: mem_wf_def pool_of_def find_Some_iff)

lemma pool_of_member:
  "mem_wf s \<Longrightarrow> pool_of i s = Some p \<Longrightarrow> m \<in> set (hd_mcb s) \<Longrightarrow> memid m = i \<Longrightarrow> m = p"
  unfolding mem_wf_def pool_of_def find_Some_iff
  by (metis (mono_tags, lifting) distinct_map inj_onD nth_mem)

lemma mem_wf_upd:
  assumes s: "mem_wf s" and p: "pool_of i s = Some p" and f: "\<And>m. memid (f m) = memid m"
    and fp: "pool_wf (f p)"
  shows "mem_wf (s\<lparr>hd_mcb := upd_mcb i f (hd_mcb s)\<rparr>)"
proof -
  have d: "distinct (map memid (hd_mcb s))" using s by (simp add: mem_wf_def)
  { fix m assume "m \<in> set (upd_mcb i f (hd_mcb s))"
    with upd_mcb_member [OF d] consider m' where "m = f m'" "m' \<in> set (hd_mcb s)" "memid m' = i"
      | "m \<in> set (hd_mcb s)" by blast
    then have "pool_wf m \<and> memid m \<le> mcb_count s"
    proof cases
      case 1
      with pool_of_member [OF s p] have "m' = p" by blast
      with 1 fp s show ?thesis by (auto simp: mem_wf_def f)
    next
      case 2
      with s show ?thesis by (auto simp: mem_wf_def)
    qed }
  with d show ?thesis by (auto simp: mem_wf_def upd_mcb_memids f)
qed

lemma pool_of_upd:
  "(\<And>m. memid (f m) = memid m) \<Longrightarrow>
   pool_of j (s\<lparr>hd_mcb := upd_mcb i f (hd_mcb s)\<rparr>) =
     (if j = i then map_option f (pool_of i s) else pool_of j s)"
  by (simp add: pool_of_def find_upd_mcb)

section \<open>What the operations do on well-formed pools\<close>

definition pool_ok :: "int \<Rightarrow> mem_state \<Rightarrow> bool" where
  "pool_ok i s \<longleftrightarrow> mem_wf s \<and> pool_of i s \<noteq> None"

lemma pool_okE:
  assumes "pool_ok i s"
  obtains p where "mem_wf s" "pool_of i s = Some p" "pool_wf p" "memid p = i"
  using assms pool_of_wf by (auto simp: pool_ok_def)

lemma alloc_block_full:
  assumes "pool_ok i s" and "card (used_blks i s) = pool_cap i s"
  shows "alloc_block i s = Some (None, s)"
proof -
  from assms(1) obtain p where p: "mem_wf s" "pool_of i s = Some p" "pool_wf p" by (rule pool_okE)
  with assms(2) card_pool_used [OF p(3)] have "nat (fblks p) = 0"
    by (simp add: used_blks_def pool_cap_def)
  moreover from p(3) have "0 \<le> fblks p" by (auto elim!: pool_wfE)
  ultimately show ?thesis using p by (simp add: alloc_block_def get_mem_info_wf)
qed

lemma alloc_block_room:
  assumes "pool_ok i s" and "card (used_blks i s) < pool_cap i s"
  shows "\<exists>a t. alloc_block i s = Some (Some a, t) \<and> pool_ok i t \<and> a \<notin> used_blks i s
    \<and> used_blks i t = insert a (used_blks i s) \<and> pool_cap i t = pool_cap i s
    \<and> (\<forall>j. j \<noteq> i \<longrightarrow> pool_of j t = pool_of j s)"
proof -
  from assms(1) obtain p where p: "mem_wf s" "pool_of i s = Some p" "pool_wf p" "memid p = i"
    by (rule pool_okE)
  from p(3) obtain bs where bs: "addr_blks p = Some bs" "0 < blk_size p"
    "\<And>k. k < length bs \<Longrightarrow> bs ! k = None \<or> bs ! k = Some (saddr p + int k * blk_size p)"
    "fblks p = int (free_count bs)" by (elim pool_wfE) blast
  from assms(2) card_pool_used [OF p(3)] p(2) have f: "fblks p \<noteq> 0" "free_count bs \<noteq> 0"
    by (auto simp: used_blks_def pool_cap_def bs(4))
  then obtain k a where ka: "first_blk 0 bs = Some (k, a)"
    by (metis first_blk_None option.exhaust prod.exhaust)
  with first_blk_Some [OF ka] bs(3) [of k]
  have k: "k < length bs" "bs ! k = Some a" "a = saddr p + int k * blk_size p" by auto
  let ?t = "s\<lparr>hd_mcb := upd_mcb i (pool_take k bs) (hd_mcb s)\<rparr>"
  have "alloc_block i s = Some (Some a, ?t)"
    using p bs(1) f ka by (simp add: alloc_block_def get_mem_info_wf)
  moreover have "mem_wf ?t"
    by (rule mem_wf_upd [OF p(1,2)]) (use pool_wf_take [OF p(3) bs(1) k(1)] k(2) in auto)
  moreover have "pool_of i ?t = Some (pool_take k bs p)" using p(2) by (simp add: pool_of_upd)
  moreover have "a \<notin> pool_used p" using k bs(1,2) by (auto simp: pool_used_def)
  ultimately show ?thesis
    using p(2) pool_used_take [OF p(3) bs(1) k(1)] k(3)
    by (auto simp: pool_ok_def used_blks_def pool_cap_def pool_of_upd)
qed

text \<open>The index that \<open>free_blk\<close> computes for an address inside the area.\<close>

lemma free_blk_index:
  assumes wf: "pool_wf p" and lo: "saddr p \<le> a" and hi: "a + blk_size p \<le> eaddr p"
  shows "c_int (a - saddr p) = a - saddr p" and "0 \<le> (a - saddr p) div blk_size p"
    and "addr_blks p = Some bs \<Longrightarrow> nat ((a - saddr p) div blk_size p) < length bs"
proof -
  from wf obtain bs' where b: "addr_blks p = Some bs'" "int (length bs') = nblks p" "0 < blk_size p"
    "eaddr p < saddr p + nblks p * blk_size p + blk_size p" "eaddr p - saddr p < 2 ^ 31"
    by (rule pool_wfE)
  show "c_int (a - saddr p) = a - saddr p" using lo hi b by (intro c_int_id) auto
  show nn: "0 \<le> (a - saddr p) div blk_size p" using lo b by (simp add: pos_imp_zdiv_nonneg_iff)
  have "a - saddr p < nblks p * blk_size p" using hi b by linarith
  moreover have "(a - saddr p) div blk_size p * blk_size p \<le> a - saddr p"
    using b(3) div_mult_mod_eq [of "a - saddr p" "blk_size p"] pos_mod_sign [of "blk_size p" "a - saddr p"] by linarith
  ultimately have "(a - saddr p) div blk_size p * blk_size p < nblks p * blk_size p" by linarith
  then have "(a - saddr p) div blk_size p < nblks p" using b(3) by simp
  then show "addr_blks p = Some bs \<Longrightarrow> nat ((a - saddr p) div blk_size p) < length bs"
    using b nn by (simp add: nat_less_iff)
qed

lemma free_blk_used:
  assumes "pool_ok i s" and "a \<in> used_blks i s"
  shows "\<exists>t. free_blk i a s = Some (0, t) \<and> pool_ok i t \<and> used_blks i t = used_blks i s - {a}
    \<and> pool_cap i t = pool_cap i s \<and> (\<forall>j. j \<noteq> i \<longrightarrow> pool_of j t = pool_of j s)"
proof -
  from assms(1) obtain p where p: "mem_wf s" "pool_of i s = Some p" "pool_wf p" "memid p = i"
    by (rule pool_okE)
  from p(3) obtain bs where bs: "addr_blks p = Some bs" "0 < blk_size p"
    "int (length bs) = nblks p" "saddr p + nblks p * blk_size p \<le> eaddr p"
    "eaddr p - saddr p < 2 ^ 31" by (rule pool_wfE)
  from assms(2) p(2) bs(1) obtain k where k: "k < length bs" "bs ! k = None"
    "a = saddr p + int k * blk_size p" by (auto simp: used_blks_def pool_used_def)
  have "(int k + 1) * blk_size p \<le> nblks p * blk_size p"
    using k(1) bs by (intro mult_right_mono) auto
  then have rng: "saddr p \<le> a" "a + blk_size p \<le> eaddr p" using k(3) bs
    by (auto simp: algebra_simps)
  have "c_int (a - saddr p) = int k * blk_size p"
    using free_blk_index(1) [OF p(3) rng] k(3) by simp
  then have "free_blk i a s = Some (0, s\<lparr>hd_mcb := upd_mcb i (pool_put k a bs) (hd_mcb s)\<rparr>)"
    using p bs k rng by (simp add: free_blk_def get_mem_info_wf Let_def)
  moreover have "mem_wf (s\<lparr>hd_mcb := upd_mcb i (pool_put k a bs) (hd_mcb s)\<rparr>)"
    by (rule mem_wf_upd [OF p(1,2)]) (use pool_wf_put [OF p(3) bs(1) k(1,2)] k(3) in auto)
  ultimately show ?thesis
    using p(2) pool_used_put [OF p(3) bs(1) k(1)] k(3)
    by (auto simp: pool_ok_def used_blks_def pool_cap_def pool_of_upd)
qed

lemma free_blk_unused:
  assumes "pool_ok i s" and "a \<notin> used_blks i s"
  shows "free_blk i a s = Some (-1, s)"
proof -
  from assms(1) obtain p where p: "mem_wf s" "pool_of i s = Some p" "pool_wf p" by (rule pool_okE)
  from p(3) obtain bs where bs: "addr_blks p = Some bs" "0 < blk_size p" by (rule pool_wfE)
  show ?thesis
  proof (cases "saddr p \<le> a \<and> a + blk_size p \<le> eaddr p \<and> (a - saddr p) mod blk_size p = 0")
    case False
    then show ?thesis
      using p bs free_blk_index(1) [OF p(3), of a] by (auto simp: free_blk_def get_mem_info_wf Let_def)
  next
    case True
    let ?k = "nat ((a - saddr p) div blk_size p)"
    note idx = free_blk_index [OF p(3), of a]
    from True have "a = saddr p + int ?k * blk_size p" using idx(2) bs(2)
      by (metis True add.commute add_diff_cancel_left' add_0 diff_add_cancel int_nat_eq mult.commute
          mult_div_mod_eq)
    with assms(2) True idx(3) [OF _ _ bs(1)] p(2) bs(1) have "bs ! ?k \<noteq> None"
      by (auto simp: used_blks_def pool_used_def)
    then show ?thesis
      using True p bs idx by (simp add: free_blk_def get_mem_info_wf Let_def)
  qed
qed

section \<open>The interface of a block pool\<close>

text \<open>Several allocations in a row: the addresses, in the order they were handed out.\<close>

fun alloc_many :: "('s \<Rightarrow> (int option \<times> 's) option) \<Rightarrow> nat \<Rightarrow> 's \<Rightarrow> (int list \<times> 's) option" where
  "alloc_many alloc 0 s = Some ([], s)"
| "alloc_many alloc (Suc n) s = do {
     (r, t) \<leftarrow> alloc s;
     a \<leftarrow> r;
     (as, u) \<leftarrow> alloc_many alloc n t;
     Some (a # as, u) }"

text \<open>
  What the message queues, the hash tables and the forwarding database rely on: \<open>used\<close> is the
  set of blocks handed out, \<open>cap\<close> the number of blocks of the pool.
\<close>

locale block_pool =
  fixes alloc :: "'s \<Rightarrow> (int option \<times> 's) option"
    and free :: "int \<Rightarrow> 's \<Rightarrow> (int \<times> 's) option"
    and inv :: "'s \<Rightarrow> bool"
    and used :: "'s \<Rightarrow> int set"
    and cap :: "'s \<Rightarrow> nat"
  assumes alloc_full: "inv s \<Longrightarrow> card (used s) = cap s \<Longrightarrow> alloc s = Some (None, s)"
    and alloc_room: "inv s \<Longrightarrow> card (used s) < cap s \<Longrightarrow>
      \<exists>a t. alloc s = Some (Some a, t) \<and> inv t \<and> a \<notin> used s \<and> used t = insert a (used s) \<and> cap t = cap s"
    and free_used: "inv s \<Longrightarrow> a \<in> used s \<Longrightarrow>
      \<exists>t. free a s = Some (0, t) \<and> inv t \<and> used t = used s - {a} \<and> cap t = cap s"
    and free_unused: "inv s \<Longrightarrow> a \<notin> used s \<Longrightarrow> free a s = Some (-1, s)"
    and used_bounded: "inv s \<Longrightarrow> finite (used s) \<and> card (used s) \<le> cap s"
begin

lemma alloc_cases:
  assumes "inv s"
  obtains (full) "alloc s = Some (None, s)" "card (used s) = cap s"
    | (room) a t where "alloc s = Some (Some a, t)" "inv t" "a \<notin> used s"
        "used t = insert a (used s)" "cap t = cap s" "card (used s) < cap s"
  using assms alloc_full alloc_room used_bounded by (meson le_neq_implies_less)

lemma double_free:
  assumes "inv s" and "free a s = Some (0, t)"
  shows "free a t = Some (-1, t)"
proof (cases "a \<in> used s")
  case True
  with free_used [OF assms(1)] assms(2) have "inv t" and "a \<notin> used t" by force+
  then show ?thesis by (rule free_unused)
next
  case False
  with free_unused assms show ?thesis by fastforce
qed

lemma alloc_many_distinct:
  assumes "inv s" and "n + card (used s) \<le> cap s"
  shows "\<exists>as t. alloc_many alloc n s = Some (as, t) \<and> length as = n \<and> distinct as \<and> inv t
    \<and> set as \<inter> used s = {} \<and> used t = used s \<union> set as \<and> cap t = cap s"
  using assms
proof (induction n arbitrary: s)
  case (Suc n)
  from Suc.prems have "card (used s) < cap s" by simp
  with alloc_room Suc.prems obtain a t where a: "alloc s = Some (Some a, t)" "inv t" "a \<notin> used s"
    "used t = insert a (used s)" "cap t = cap s" by blast
  then have "n + card (used t) \<le> cap t" using Suc.prems used_bounded by simp
  from Suc.IH [OF a(2) this] obtain as u where "alloc_many alloc n t = Some (as, u)"
    "length as = n" "distinct as" "inv u" "set as \<inter> used t = {}" "used u = used t \<union> set as"
    "cap u = cap t" by blast
  with a show ?case by (auto simp: Un_insert_left)
qed simp

end

interpretation pool: block_pool "alloc_block i" "free_blk i" "pool_ok i" "used_blks i" "pool_cap i"
  for i
proof
  fix s a
  assume ok: "pool_ok i s"
  show "card (used_blks i s) = pool_cap i s \<Longrightarrow> alloc_block i s = Some (None, s)"
    by (rule alloc_block_full [OF ok])
  show "card (used_blks i s) < pool_cap i s \<Longrightarrow>
      \<exists>a t. alloc_block i s = Some (Some a, t) \<and> pool_ok i t \<and> a \<notin> used_blks i s
        \<and> used_blks i t = insert a (used_blks i s) \<and> pool_cap i t = pool_cap i s"
    using alloc_block_room [OF ok] by blast
  show "a \<in> used_blks i s \<Longrightarrow> \<exists>t. free_blk i a s = Some (0, t) \<and> pool_ok i t
      \<and> used_blks i t = used_blks i s - {a} \<and> pool_cap i t = pool_cap i s"
    using free_blk_used [OF ok] by blast
  show "a \<notin> used_blks i s \<Longrightarrow> free_blk i a s = Some (-1, s)"
    by (rule free_blk_unused [OF ok])
  from ok obtain p where p: "pool_of i s = Some p" "pool_wf p" by (auto elim!: pool_okE)
  have "finite (pool_used p)"
    unfolding pool_used_def by (rule finite_image_set) simp
  with card_pool_used [OF p(2)] p(1) show "finite (used_blks i s) \<and> card (used_blks i s) \<le> pool_cap i s"
    by (simp add: used_blks_def pool_cap_def)
qed

lemma alloc_block_frame:
  assumes "pool_ok i s" "alloc_block i s = Some (r, t)" "j \<noteq> i"
  shows "pool_of j t = pool_of j s"
  using alloc_block_full [OF assms(1)] alloc_block_room [OF assms(1)] pool.used_bounded [OF assms(1)]
    assms(2,3) by (metis Pair_inject le_neq_implies_less option.inject)

lemma free_blk_frame:
  assumes "pool_ok i s" "free_blk i a s = Some (r, t)" "j \<noteq> i"
  shows "pool_of j t = pool_of j s"
  using free_blk_used [OF assms(1)] free_blk_unused [OF assms(1)] assms(2,3)
  by (metis Pair_inject option.inject)

section \<open>Creating a pool\<close>

lemma pool_bytes_bounds:
  assumes "0 < sz" "0 \<le> n" "int sz * n < 2 ^ 31 - 8" "int sz * n mod 8 = 0 \<or> 8 < sz"
  shows "int sz * n \<le> uint (pool_bytes sz n)" "uint (pool_bytes sz n) < int sz * n + int sz"
    "uint (pool_bytes sz n) < 2 ^ 31"
proof -
  define b where "b = int sz * n"
  have b: "0 \<le> b" "b < 2 ^ 31 - 8" using assms by (simp_all add: b_def)
  have u: "uint (word_of_int b :: u32) = b" using b by (intro uint_of_int_small) auto
  have "pool_bytes sz n = (if b mod 8 \<noteq> 0 then word_of_int b + 8 else word_of_int b)"
    using u unfolding pool_bytes_def b_def [symmetric] by (simp add: Let_def)
  then have "uint (pool_bytes sz n) = (if b mod 8 = 0 then b else b + 8)"
    using b u by (simp add: uint_word_ariths)
  with assms b show "int sz * n \<le> uint (pool_bytes sz n)"
    "uint (pool_bytes sz n) < int sz * n + int sz" "uint (pool_bytes sz n) < 2 ^ 31"
    unfolding b_def by (auto split: if_splits)
qed

lemma free_count_all: "free_count (map (\<lambda>i. Some (f i)) xs) = length xs"
  by (induction xs) (auto simp: free_count_def)

lemma mem_pool_create_wf:
  assumes "mem_wf s" "0 < sz" "0 \<le> n" "int sz * n < 2 ^ 31 - 8" "int sz * n mod 8 = 0 \<or> 8 < sz"
    "sz < 2 ^ 31" and t: "t = snd (mem_pool_create nm sz n True (Some a) True s)"
  shows "fst (mem_pool_create nm sz n True (Some a) True s) = mcb_count s + 1"
    "mcb_count t = mcb_count s + 1"
    "pool_ok (mcb_count s + 1) t" "used_blks (mcb_count s + 1) t = {}"
    "pool_cap (mcb_count s + 1) t = nat n" "j \<noteq> mcb_count s + 1 \<Longrightarrow> pool_of j t = pool_of j s"
proof -
  let ?i = "mcb_count s + 1"
  define m where "m = build_free_mem_blk_list True
     \<lparr>pool_name = [], saddr = a, eaddr = a + uint (pool_bytes sz n), addr_blks = None, memid = ?i,
      nblks = n, useblks = 0, fblks = n, blk_size = c_int (int sz), released = False\<rparr>"
  have eq: "mem_pool_create nm sz n True (Some a) True s =
      (?i, s\<lparr>mcb_count := ?i, hd_mcb := hd_mcb s @ [m]\<rparr>)"
    by (simp add: mem_pool_create_def Let_def m_def)
  then have t': "t = s\<lparr>mcb_count := ?i, hd_mcb := hd_mcb s @ [m]\<rparr>" using t by simp
  have csz: "c_int (int sz) = int sz" using assms(6) by (intro c_int_id) simp_all
  have m: "pool_wf m" "memid m = ?i" "pool_used m = {}" "nblks m = n"
    using assms(2,3) pool_bytes_bounds [OF assms(2-5)]
    by (auto simp: m_def build_free_mem_blk_list_def pool_wf_def pool_used_def csz free_count_all
        mult.commute)
  have none: "pool_of ?i s = None"
    using assms(1) by (auto simp: pool_of_def find_None_iff mem_wf_def)
  have wf: "mem_wf t" using assms(1) m by (fastforce simp: t' mem_wf_def)
  have find_app: "pool_of j t = (case pool_of j s of None \<Rightarrow> if j = ?i then Some m else None
      | Some p \<Rightarrow> Some p)" for j
    using m(2) by (simp add: t' pool_of_def find_append split: option.split)
  show "fst (mem_pool_create nm sz n True (Some a) True s) = ?i" using eq by simp
  show "mcb_count t = ?i" by (simp add: t')
  show "pool_ok ?i t" "used_blks ?i t = {}" "pool_cap ?i t = nat n"
    using wf none m by (simp_all add: pool_ok_def used_blks_def pool_cap_def find_app)
  show "j \<noteq> ?i \<Longrightarrow> pool_of j t = pool_of j s" by (simp add: find_app split: option.split)
qed

lemma mem_wf_init: "mem_wf mem_init"
  by (simp add: mem_wf_def mem_init_def)

text \<open>An example: one pool of four blocks of sixteen bytes, and a second pool behind it.\<close>

definition example_mem :: mem_state where
  "example_mem = snd (mem_pool_create ''A'' 16 4 True (Some 4096) True mem_init)"

lemma example_mem_ok:
  "pool_ok 1 example_mem" "used_blks 1 example_mem = {}" "pool_cap 1 example_mem = 4"
  using mem_pool_create_wf [OF mem_wf_init, where sz = 16 and n = 4 and nm = "''A''" and a = 4096]
  by (simp_all add: mem_init_def example_mem_def)

section \<open>Properties\<close>

lemma upd_mcb_upd_mcb:
  "(\<And>m. memid (f m) = memid m) \<Longrightarrow> upd_mcb i g (upd_mcb i f ms) = upd_mcb i (\<lambda>m. g (f m)) ms"
  by (induction ms) auto

lemma upd_mcb_id: "find (\<lambda>m. memid m = i) ms = Some p \<Longrightarrow> f p = p \<Longrightarrow> upd_mcb i f ms = ms"
  by (induction ms) (auto split: if_splits)

text \<open>
  C20. Allocation is exact and exclusive: from a well-formed pool one can allocate precisely as
  many blocks as are not in use; the addresses are pairwise distinct and none was in use before;
  the next request is refused with a null result and changes nothing.
\<close>

theorem alloc_block_exhausts:
  assumes "pool_ok i s"
  shows "\<exists>as t. alloc_many (alloc_block i) (pool_cap i s - card (used_blks i s)) s = Some (as, t)
    \<and> distinct as \<and> length as = pool_cap i s - card (used_blks i s)
    \<and> set as \<inter> used_blks i s = {} \<and> used_blks i t = used_blks i s \<union> set as
    \<and> alloc_block i t = Some (None, t)"
proof -
  let ?n = "pool_cap i s - card (used_blks i s)"
  note b = pool.used_bounded [OF assms]
  then have "?n + card (used_blks i s) \<le> pool_cap i s" by simp
  from pool.alloc_many_distinct [OF assms this] obtain as t where
    r: "alloc_many (alloc_block i) ?n s = Some (as, t)" "length as = ?n" "distinct as" "pool_ok i t"
      "set as \<inter> used_blks i s = {}" "used_blks i t = used_blks i s \<union> set as"
      "pool_cap i t = pool_cap i s" by blast
  then have "card (used_blks i t) = pool_cap i t"
    using b by (simp add: card_Un_disjoint distinct_card Int_commute)
  with r pool.alloc_full show ?thesis by blast
qed

theorem alloc_block_exhausts_witness:
  "pool_ok 1 example_mem \<and>
   (\<exists>as t. alloc_many (alloc_block 1) 4 example_mem = Some (as, t) \<and> distinct as \<and> length as = 4
     \<and> alloc_block 1 t = Some (None, t))"
  using alloc_block_exhausts [OF example_mem_ok(1)] example_mem_ok by auto

lemma free_blk_after_alloc:
  assumes ok: "pool_ok i s" and al: "alloc_block i s = Some (Some a, t)"
  shows "free_blk i a t = Some (0, s)" and "free_blk i a s = Some (-1, s)"
    and "b \<notin> used_blks i t \<Longrightarrow> free_blk i b t = Some (-1, t)"
proof -
  from ok obtain p where p: "mem_wf s" "pool_of i s = Some p" "pool_wf p" by (auto elim!: pool_okE)
  from p(3) obtain bs where bs: "addr_blks p = Some bs" "0 < blk_size p" "int (length bs) = nblks p"
    "\<And>k. k < length bs \<Longrightarrow> bs ! k = None \<or> bs ! k = Some (saddr p + int k * blk_size p)"
    "saddr p + nblks p * blk_size p \<le> eaddr p" by (elim pool_wfE) blast
  from al p bs(1) obtain k where k: "first_blk 0 bs = Some (k, a)"
    and t: "t = s\<lparr>hd_mcb := upd_mcb i (pool_take k bs) (hd_mcb s)\<rparr>"
    by (auto simp: alloc_block_def get_mem_info_wf split: if_splits option.splits prod.splits)
  from first_blk_Some [OF k] bs(4) [of k]
  have kk: "k < length bs" "bs ! k = Some a" "a = saddr p + int k * blk_size p" by auto
  from pool.alloc_cases [OF ok] al have tt: "pool_ok i t" "a \<notin> used_blks i s" "a \<in> used_blks i t"
    by (metis Pair_inject insertI1 option.distinct(1) option.inject)+
  have pt: "pool_of i t = Some (pool_take k bs p)" using p(2) by (simp add: t pool_of_upd)
  have wt: "pool_wf (pool_take k bs p)" using pool_wf_take [OF p(3) bs(1) kk(1)] kk(2) by simp
  have "(int k + 1) * blk_size p \<le> nblks p * blk_size p"
    using kk(1) bs by (intro mult_right_mono) auto
  then have rng: "saddr p \<le> a" "a + blk_size p \<le> eaddr p" using kk(3) bs by (auto simp: algebra_simps)
  have off: "c_int (a - saddr p) = int k * blk_size p"
    using free_blk_index(1) [OF p(3) rng] kk(3) by simp
  have "upd_mcb i (\<lambda>m. pool_put k a (bs[k := None]) (pool_take k bs m)) (hd_mcb s) = hd_mcb s"
    by (rule upd_mcb_id [of i _ p])
      (use p(2) bs(1) kk(1,2) in \<open>simp_all add: pool_of_def list_update_same_conv\<close>)
  then have "s\<lparr>hd_mcb := upd_mcb i (pool_put k a (bs[k := None])) (hd_mcb t)\<rparr> = s"
    by (simp add: t upd_mcb_upd_mcb)
  then show "free_blk i a t = Some (0, s)"
    using pt rng off bs kk tt(1) by (simp add: free_blk_def get_mem_info_wf pool_ok_def Let_def t)
  show "free_blk i a s = Some (-1, s)" by (rule pool.free_unused [OF ok tt(2)])
  show "b \<notin> used_blks i t \<Longrightarrow> free_blk i b t = Some (-1, t)" by (rule pool.free_unused [OF tt(1)])
qed

text \<open>
  \<open>free_blk\<close> undoes \<open>alloc_block\<close>: giving back the block just obtained restores the very
  state before the allocation, and giving it back a second time is refused with \<open>-1\<close> and
  changes nothing, as is any address that is not a block in use.
\<close>

theorem free_blk_undoes_alloc:
  assumes "pool_ok i s" and "alloc_block i s = Some (Some a, t)"
  shows "free_blk i a t = Some (0, s) \<and> free_blk i a s = Some (-1, s)
    \<and> (\<forall>b. b \<notin> used_blks i t \<longrightarrow> free_blk i b t = Some (-1, t))"
  using free_blk_after_alloc [OF assms] by blast

theorem free_blk_undoes_alloc_witness:
  "\<exists>a t. alloc_block 1 example_mem = Some (Some a, t) \<and> free_blk 1 a t = Some (0, example_mem)
     \<and> free_blk 1 a example_mem = Some (-1, example_mem)"
proof -
  from pool.alloc_cases [OF example_mem_ok(1)] example_mem_ok(2,3) obtain a t
    where "alloc_block 1 example_mem = Some (Some a, t)" by fastforce
  with free_blk_undoes_alloc [OF example_mem_ok(1) this] show ?thesis by blast
qed

text \<open>
  \<open>mem_pool_delete\<close> releases the control block without taking it off the list: from then
  on every operation on that pool, and on every pool created after it, walks over released memory.
\<close>

theorem mem_pool_delete_dangling:
  assumes "mem_wf s" and "hd_mcb s = ms @ p # ms'" and "j = memid p \<or> j \<in> memid ` set ms'"
  shows "\<exists>t. mem_pool_delete (memid p) s = Some (0, t) \<and> alloc_block j t = None
    \<and> free_blk j a t = None"
proof -
  let ?f = "\<lambda>m. m\<lparr>released := True\<rparr>"
  have d: "distinct (map memid (hd_mcb s))" and nr: "\<forall>m \<in> set (hd_mcb s). \<not> released m"
    using assms(1) by (auto simp: mem_wf_def pool_wf_def)
  have j: "j \<notin> memid ` set ms" using d assms(2,3) by (auto simp: image_iff)
  have upd: "upd_mcb (memid p) ?f (ms @ p # ms') = ms @ ?f p # ms'"
    using d unfolding assms(2) by (induction ms) auto
  have walk: "find_mcb j (ms @ ?f p # ms') = None"
    using nr j assms(3) unfolding assms(2) by (induction ms) auto
  let ?t = "s\<lparr>hd_mcb := ms @ ?f p # ms'\<rparr>"
  have "pool_of (memid p) s \<noteq> None" using assms(2) by (auto simp: pool_of_def find_None_iff)
  then have "mem_pool_delete (memid p) s = Some (0, ?t)"
    using assms(1,2) upd by (auto simp: mem_pool_delete_def get_mem_info_wf)
  moreover have "get_mem_info j ?t = None" using walk by (simp add: get_mem_info_def)
  ultimately show ?thesis by (auto simp: alloc_block_def free_blk_def)
qed

theorem mem_pool_delete_dangling_witness:
  "\<exists>t. mem_pool_delete 1 example_mem = Some (0, t) \<and> alloc_block 1 t = None \<and> free_blk 1 4096 t = None"
proof -
  obtain p where "hd_mcb example_mem = [] @ p # []" "memid p = 1"
    by (simp add: example_mem_def mem_pool_create_def mem_init_def Let_def build_free_mem_blk_list_def)
  moreover have "mem_wf example_mem" using example_mem_ok(1) by (simp add: pool_ok_def)
  ultimately show ?thesis using mem_pool_delete_dangling [of example_mem "[]" p "[]" 1 4096] by simp
qed

end
