(* ===== verification/Vlan.thy ===== *)
theory Vlan
  imports Stp_System Stp_Anchor Mem_Pool
begin

unbundle bit_operations_syntax

text \<open>
  The vlans of \<open>src/src/vlan\<close>: \<open>vlan_main.c\<close>, \<open>vlan_stp.c\<close> and \<open>vlan_cli.c\<close> over the macros of \<open>vlan.h\<close>.
  A vlan is a block of a memory pool, reached through the list \<open>vlan_db\<close>; \<open>vl_ent\<close> is the content
  of the blocks, which the pool hands out zeroed and never gets back. A vlan refers to its spanning
  tree instance and to its rapid spanning tree instance.

  A port list is one byte although the switch has twelve ports: a port above eight is kept in the byte
  after the list, which is the next field of the structure. The fields from \<open>egress_ports\<close> on are
  therefore addressed by their offset, and a list that leaves the six bytes is a fault.
\<close>

section \<open>Data\<close>

record vlan_entry =
  ve_vlan_id :: u16
  ve_name :: string
  ve_egress :: u8
  ve_forbidden :: u8
  ve_untagged :: u8
  ve_row_status :: u8
  ve_stp_enabled :: u8
  ve_stp_mode :: u8
  ve_stp :: "nat option"
  ve_rstp :: "nat option"

definition vlan_zero :: vlan_entry where
  "vlan_zero = \<lparr>ve_vlan_id = 0, ve_name = [], ve_egress = 0, ve_forbidden = 0, ve_untagged = 0, ve_row_status = 0,
     ve_stp_enabled = 0, ve_stp_mode = 0, ve_stp = None, ve_rstp = None\<rparr>"

record vlan_sys =
  vl_db :: "int list"
  vl_ent :: "int \<Rightarrow> vlan_entry"
  vlan_mem_id :: int
  vl_mem :: mem_state
  vl_stp :: stp_sys
  vl_rstp :: rstp_sys

text \<open>What the surroundings provide: the spanning tree environments and what the allocator returns.\<close>

record vlan_env =
  vn_stp :: stp_env
  vn_rstp :: rstp_env
  vn_inst :: "nat option"
  vn_rinst :: "nat option"
  vn_port :: "int \<Rightarrow> nat option"
  vn_rport :: "int \<Rightarrow> nat option"

abbreviation (input) "MODE_STP \<equiv> 1 :: int"
abbreviation (input) "MODE_RSTP \<equiv> 2 :: int"
abbreviation (input) "TAGGED \<equiv> 1 :: int"
abbreviation (input) "UNTAGGED \<equiv> 2 :: int"
abbreviation (input) "FORBIDDEN \<equiv> 3 :: int"
abbreviation (input) "MAX_PORTS \<equiv> 12 :: int"
abbreviation (input) "ROW_STATE_CREATE_WAIT \<equiv> 5 :: u8"
abbreviation (input) "VLAN_DEFAULT_VLAN_ID \<equiv> 1 :: u16"

section \<open>Port lists\<close>

abbreviation (input) "EGRESS \<equiv> 0 :: nat"
abbreviation (input) "UNTAGGED_PORTS \<equiv> 2 :: nat"

definition vl_bytes :: "vlan_entry \<Rightarrow> u8 list" where
  "vl_bytes e = [ve_egress e, ve_forbidden e, ve_untagged e, ve_row_status e, ve_stp_enabled e, ve_stp_mode e]"

definition vl_with_bytes :: "u8 list \<Rightarrow> vlan_entry \<Rightarrow> vlan_entry" where
  "vl_with_bytes bs e = e\<lparr>ve_egress := bs ! 0, ve_forbidden := bs ! 1, ve_untagged := bs ! 2,
     ve_row_status := bs ! 3, ve_stp_enabled := bs ! 4, ve_stp_mode := bs ! 5\<rparr>"

text \<open>The offset and the bit of a port in a list; port numbers start at one.\<close>

definition port_at :: "nat \<Rightarrow> int \<Rightarrow> (nat \<times> nat) option" where
  "port_at plist portno =
    (if portno < 1 \<or> plist + nat ((portno - 1) div 8) \<ge> 6 then None
     else Some (plist + nat ((portno - 1) div 8), nat ((portno - 1) mod 8)))"

definition SET_PORT_LIST :: "nat \<Rightarrow> int \<Rightarrow> vlan_entry \<Rightarrow> vlan_entry option" where
  "SET_PORT_LIST plist portno e = map_option (\<lambda>(byte, bit).
     vl_with_bytes ((vl_bytes e)[byte := (vl_bytes e ! byte) OR push_bit bit 1]) e) (port_at plist portno)"

definition IS_PORT_SET_PORT_LIST :: "nat \<Rightarrow> int \<Rightarrow> vlan_entry \<Rightarrow> bool option" where
  "IS_PORT_SET_PORT_LIST plist portno e = map_option (\<lambda>(byte, bit).
     (vl_bytes e ! byte) AND push_bit bit 1 \<noteq> 0) (port_at plist portno)"

definition RESET_PORT_LIST :: "nat \<Rightarrow> int \<Rightarrow> vlan_entry \<Rightarrow> vlan_entry option" where
  "RESET_PORT_LIST plist portno e = map_option (\<lambda>(byte, bit).
     vl_with_bytes ((vl_bytes e)[byte := (vl_bytes e ! byte) AND NOT (push_bit bit 1)]) e) (port_at plist portno)"

section \<open>Vlans\<close>

definition get_vlan_entry :: "u16 \<Rightarrow> vlan_sys \<Rightarrow> int option" where
  "get_vlan_entry vlan_id s = find (\<lambda>a. ve_vlan_id (vl_ent s a) = vlan_id) (vl_db s)"

text \<open>The decimal digits that \<open>sprintf\<close> writes.\<close>

fun digits :: "nat \<Rightarrow> string" where
  "digits n = (if n < 10 then [char_of (48 + n)] else digits (n div 10) @ [char_of (48 + n mod 10)])"

declare digits.simps [simp del]

definition vlan_create_vlan :: "u16 \<Rightarrow> vlan_sys \<Rightarrow> (int \<times> vlan_sys) option" where
  "vlan_create_vlan vlan_id s =
    (if vlan_id = 0 \<or> vlan_id > 4096 then Some (-1, s)
     else if get_vlan_entry vlan_id s \<noteq> None then Some (0, s)
     else do {
       (r, mem) \<leftarrow> alloc_block (vlan_mem_id s) (vl_mem s);
       let s = s\<lparr>vl_mem := mem\<rparr>;
       case r of
         None \<Rightarrow> Some (-1, s)
       | Some a \<Rightarrow> Some (0, s\<lparr>vl_ent := (vl_ent s)(a := (vl_ent s a)\<lparr>ve_vlan_id := vlan_id,
               ve_name := ''vlan'' @ digits (unat vlan_id), ve_egress := 0, ve_forbidden := 0, ve_untagged := 0,
               ve_row_status := ROW_STATE_CREATE_WAIT\<rparr>), vl_db := vl_db s @ [a]\<rparr>) })"

definition vlan_create_stp_port :: "vlan_env \<Rightarrow> int \<Rightarrow> int \<Rightarrow> vlan_sys \<Rightarrow> (int \<times> vlan_sys) option" where
  "vlan_create_stp_port env a port_no s =
    (let p = vl_ent s a in
     if uint (ve_stp_mode p) = MODE_STP
     then do {
       (r, sy) \<leftarrow> stp_create_port_sys (vn_stp env) (vn_port env port_no) (ve_stp p) port_no (vl_stp s);
       Some (if r < 0 then (-1, s) else (0, s\<lparr>vl_stp := sy\<rparr>)) }
     else Some (0, s))"

definition upd_ent :: "int \<Rightarrow> (vlan_entry \<Rightarrow> vlan_entry option) \<Rightarrow> vlan_sys \<Rightarrow> vlan_sys option" where
  "upd_ent a f s = map_option (\<lambda>e. s\<lparr>vl_ent := (vl_ent s)(a := e)\<rparr>) (f (vl_ent s a))"

definition vlan_add_port :: "vlan_env \<Rightarrow> int \<Rightarrow> int \<Rightarrow> int \<Rightarrow> vlan_sys \<Rightarrow> (int \<times> vlan_sys) option" where
  "vlan_add_port env vlan_id port_no ty s =
    (case get_vlan_entry (word_of_int vlan_id) s of
       None \<Rightarrow> Some (-1, s)
     | Some a \<Rightarrow> do {
         s \<leftarrow> (if ty = TAGGED then upd_ent a (SET_PORT_LIST EGRESS port_no) s
              else if ty = UNTAGGED then upd_ent a (SET_PORT_LIST UNTAGGED_PORTS port_no) s
              else Some s);
         (r, s) \<leftarrow> vlan_create_stp_port env a port_no s;
         Some (0, s) })"

definition vlan_del_port :: "int \<Rightarrow> int \<Rightarrow> int \<Rightarrow> vlan_sys \<Rightarrow> (int \<times> vlan_sys) option" where
  "vlan_del_port vlan_id port_no ty s =
    (case get_vlan_entry (word_of_int vlan_id) s of
       None \<Rightarrow> Some (-1, s)
     | Some a \<Rightarrow> map_option (Pair 0)
         (if ty = TAGGED then upd_ent a (RESET_PORT_LIST EGRESS port_no) s
          else if ty = UNTAGGED then upd_ent a (RESET_PORT_LIST UNTAGGED_PORTS port_no) s
          else Some s))"

section \<open>Spanning tree of a vlan\<close>

text \<open>The loop over the ports of the switch that creates those of the vlan in an instance.\<close>

fun create_ports :: "vlan_env \<Rightarrow> vlan_entry \<Rightarrow> nat option \<Rightarrow> int list \<Rightarrow> stp_sys \<Rightarrow> stp_sys option" where
  "create_ports env e p [] sy = Some sy"
| "create_ports env e p (i # is) sy = do {
     res \<leftarrow> IS_PORT_SET_PORT_LIST EGRESS i e;
     sy \<leftarrow> (if res then map_option snd (stp_create_port_sys (vn_stp env) (vn_port env i) p i sy) else Some sy);
     create_ports env e p is sy }"

fun create_rports :: "vlan_env \<Rightarrow> vlan_entry \<Rightarrow> nat \<Rightarrow> int list \<Rightarrow> rstp_sys \<Rightarrow> rstp_sys option" where
  "create_rports env e a [] sys = Some sys"
| "create_rports env e a (i # is) sys = do {
     res \<leftarrow> IS_PORT_SET_PORT_LIST EGRESS i e;
     create_rports env e a is
       (if res then snd (rstp_create_port (vn_rstp env) a (word_of_int i) (vn_rport env i) sys) else sys) }"

definition all_ports :: "int list" where
  "all_ports = [1..MAX_PORTS]"

definition enable_stp :: "vlan_env \<Rightarrow> u16 \<Rightarrow> int \<Rightarrow> vlan_sys \<Rightarrow> (int \<times> vlan_sys) option" where
  "enable_stp env vlan_id a s =
    (case stp_create_stp_instance (vn_stp env) vlan_id (vn_inst env) (vl_stp s) of (r, pi, sy) \<Rightarrow>
       if r < 0 then Some (-1, s)
       else do {
         s \<leftarrow> upd_ent a (\<lambda>e. Some (e\<lparr>ve_stp := pi\<rparr>)) s;
         sy \<leftarrow> create_ports env (vl_ent s a) pi all_ports sy;
         (r, sy) \<leftarrow> stp_set_state_sys (vn_stp env) pi 1 sy;
         Some (0, s\<lparr>vl_stp := sy\<rparr>) })"

definition enable_rstp :: "vlan_env \<Rightarrow> u16 \<Rightarrow> int \<Rightarrow> vlan_sys \<Rightarrow> (int \<times> vlan_sys) option" where
  "enable_rstp env vlan_id a s =
    (case rstp_create_instance vlan_id (vn_rinst env) (vl_rstp s) of (r, pi, sys) \<Rightarrow>
       case (if r < 0 then None else pi) of
         None \<Rightarrow> Some (-1, s)
       | Some b \<Rightarrow> do {
           s \<leftarrow> upd_ent a (\<lambda>e. Some (e\<lparr>ve_rstp := Some b\<rparr>)) s;
           sys \<leftarrow> create_rports env (vl_ent s a) b all_ports sys;
           let s = s\<lparr>vl_rstp := sys\<lparr>rs_inst := (rs_inst sys)(b := bstp_init (vn_rstp env) (rs_inst sys b))\<rparr>\<rparr>;
           (r, sy) \<leftarrow> (if ve_stp (vl_ent s a) \<noteq> None then stp_set_state_sys (vn_stp env) (ve_stp (vl_ent s a)) 0 (vl_stp s)
                      else Some (0, vl_stp s));
           Some (0, s\<lparr>vl_stp := sy\<rparr>) })"

definition vlan_spanning_tree_enable_on_vlan :: "vlan_env \<Rightarrow> int \<Rightarrow> int \<Rightarrow> vlan_sys \<Rightarrow> (int \<times> vlan_sys) option" where
  "vlan_spanning_tree_enable_on_vlan env vlan_id mode s =
    (case get_vlan_entry (word_of_int vlan_id) s of
       None \<Rightarrow> Some (-1, s)
     | Some a \<Rightarrow>
         if ve_stp_enabled (vl_ent s a) \<noteq> 0 \<and> uint (ve_stp_mode (vl_ent s a)) = mode then Some (0, s)
         else do {
           (r, s) \<leftarrow> (if mode = MODE_STP then enable_stp env (word_of_int vlan_id) a s
                     else if mode = MODE_RSTP then enable_rstp env (word_of_int vlan_id) a s
                     else Some (0, s));
           if r < 0 then Some (-1, s)
           else map_option (Pair 0)
                  (upd_ent a (\<lambda>e. Some (e\<lparr>ve_stp_enabled := 1, ve_stp_mode := word_of_int mode\<rparr>)) s) })"

definition vlan_spanning_tree_disable_on_vlan :: "vlan_env \<Rightarrow> int \<Rightarrow> int \<Rightarrow> vlan_sys \<Rightarrow> (int \<times> vlan_sys) option" where
  "vlan_spanning_tree_disable_on_vlan env vlan_id mode s =
    (case get_vlan_entry (word_of_int vlan_id) s of
       None \<Rightarrow> Some (-1, s)
     | Some a \<Rightarrow>
         if ve_stp_enabled (vl_ent s a) = 0 then Some (0, s)
         else do {
           s \<leftarrow> upd_ent a (\<lambda>e. Some (e\<lparr>ve_stp_enabled := 0\<rparr>)) s;
           if mode = MODE_STP
           then do {
             (r, sy) \<leftarrow> stp_delete_stp_instance (ve_stp (vl_ent s a)) (vl_stp s);
             map_option (Pair 0) (upd_ent a (\<lambda>e. Some (e\<lparr>ve_stp := None\<rparr>)) (s\<lparr>vl_stp := sy\<rparr>)) }
           else if mode = MODE_RSTP
           then do {
             s \<leftarrow> upd_ent a (\<lambda>e. Some (e\<lparr>ve_rstp := None\<rparr>)) s;
             if ve_stp (vl_ent s a) = None then Some (0, s)
             else do {
               s \<leftarrow> upd_ent a (\<lambda>e. Some (e\<lparr>ve_stp_enabled := 1, ve_stp_mode := 1\<rparr>)) s;
               sy \<leftarrow> create_ports env (vl_ent s a) (ve_stp (vl_ent s a)) all_ports (vl_stp s);
               (r, sy) \<leftarrow> stp_set_state_sys (vn_stp env) (ve_stp (vl_ent s a)) 1 sy;
               Some (0, s\<lparr>vl_stp := sy\<rparr>) } }
           else Some (0, s) })"

definition vlan_delete_stp_port :: "nat option \<Rightarrow> int \<Rightarrow> vlan_sys \<Rightarrow> (int \<times> vlan_sys) option" where
  "vlan_delete_stp_port stp_inst port_no s = do {
     (r, sy) \<leftarrow> stp_delete_port_sys stp_inst (word_of_int port_no) (vl_stp s);
     Some (if r < 0 then -1 else 0, s\<lparr>vl_stp := sy\<rparr>) }"

definition vlan_get_this_bridge_stp_mode :: "int \<Rightarrow> vlan_sys \<Rightarrow> int" where
  "vlan_get_this_bridge_stp_mode vlanid s =
    (case get_vlan_entry (word_of_int vlanid) s of Some a \<Rightarrow> uint (ve_stp_mode (vl_ent s a)) | None \<Rightarrow> -1)"

definition vlan_get_spanning_tree_instance :: "int \<Rightarrow> int \<Rightarrow> vlan_sys \<Rightarrow> nat option" where
  "vlan_get_spanning_tree_instance vlan_id mode s =
    (case get_vlan_entry (word_of_int vlan_id) s of
       None \<Rightarrow> None
     | Some a \<Rightarrow>
         if ve_stp_enabled (vl_ent s a) = 0 then None
         else if mode = MODE_STP then ve_stp (vl_ent s a)
         else if mode = MODE_RSTP then ve_rstp (vl_ent s a)
         else None)"

section \<open>Start and commands\<close>

fun add_ports :: "vlan_env \<Rightarrow> int \<Rightarrow> int list \<Rightarrow> vlan_sys \<Rightarrow> vlan_sys option" where
  "add_ports env vlan_id [] s = Some s"
| "add_ports env vlan_id (i # is) s = do {
     (r, s) \<leftarrow> vlan_add_port env vlan_id i TAGGED s;
     add_ports env vlan_id is s }"

definition vlan_create_default_vlan :: "vlan_env \<Rightarrow> int \<Rightarrow> vlan_sys \<Rightarrow> (int \<times> vlan_sys) option" where
  "vlan_create_default_vlan env vlan_id s = do {
     (r, s) \<leftarrow> vlan_create_vlan (word_of_int vlan_id) s;
     if r < 0 then Some (-1, s)
     else do {
       s \<leftarrow> add_ports env vlan_id all_ports s;
       (r, s) \<leftarrow> vlan_spanning_tree_enable_on_vlan env vlan_id MODE_STP s;
       Some (0, s) } }"

text \<open>\<open>vlan_init\<close>, with what the allocator gave for the pool; a \<open>vlan_static_entry\<close> has 64 bytes.\<close>

definition vlan_init :: "vlan_env \<Rightarrow> bool \<Rightarrow> int option \<Rightarrow> bool \<Rightarrow> vlan_sys \<Rightarrow> (int \<times> vlan_sys) option" where
  "vlan_init env got_mcb got_mem got_blks s =
    (case mem_pool_create ''VLNDB'' (4096 * 64) 4096 got_mcb got_mem got_blks (vl_mem s) of (pid, mem) \<Rightarrow>
       let s = s\<lparr>vl_db := [], vlan_mem_id := pid, vl_mem := mem\<rparr> in
       if pid < 0 then Some (-1, s)
       else do {
         (r, s) \<leftarrow> vlan_create_default_vlan env 1 s;
         Some (if r < 0 then -1 else 0, s) })"

definition show_vlan :: "vlan_sys \<Rightarrow> u16 list \<times> nat" where
  "show_vlan s = (map (\<lambda>a. ve_vlan_id (vl_ent s a)) (vl_db s), length (vl_db s))"

definition set_vlan :: "int \<Rightarrow> vlan_sys \<Rightarrow> (int \<times> vlan_sys) option" where
  "set_vlan vlan_id s = map_option (\<lambda>(r, s). (if r = 0 then 0 else -1, s)) (vlan_create_vlan (word_of_int vlan_id) s)"

definition set_tagged_port_to_vlan :: "vlan_env \<Rightarrow> int \<Rightarrow> int \<Rightarrow> vlan_sys \<Rightarrow> (int \<times> vlan_sys) option" where
  "set_tagged_port_to_vlan env vlan_id port_no s = do {
     (r, s) \<leftarrow> vlan_add_port env vlan_id port_no TAGGED s;
     if r < 0 then Some (-1, s)
     else do {
       (r, s) \<leftarrow> vlan_del_port 1 port_no TAGGED s;
       Some (0, s) } }"

section \<open>A port list as a set of ports\<close>

lemma vl_bytes_with [simp]: "length bs = 6 \<Longrightarrow> vl_bytes (vl_with_bytes bs e) = bs"
  by (auto simp: vl_bytes_def vl_with_bytes_def numeral_eq_Suc length_Suc_conv)

lemma vl_bytes_length [simp]: "length (vl_bytes e) = 6"
  by (simp add: vl_bytes_def)

lemma port_at_eq:
  assumes "port_at plist p = Some (b, k)" "port_at plist q = Some (b', k')"
  shows "b < 6 \<and> k < 8 \<and> (b = b' \<and> k = k' \<longleftrightarrow> p = q)"
proof -
  have p: "1 \<le> p" "b = plist + nat ((p - 1) div 8)" "k = nat ((p - 1) mod 8)" "b < 6"
    and q: "1 \<le> q" "b' = plist + nat ((q - 1) div 8)" "k' = nat ((q - 1) mod 8)"
    using assms by (auto simp: port_at_def split: if_splits)
  have d: "p - 1 = 8 * ((p - 1) div 8) + (p - 1) mod 8" "q - 1 = 8 * ((q - 1) div 8) + (q - 1) mod 8" by simp_all
  have n: "0 \<le> (p - 1) div 8" "0 \<le> (q - 1) div 8" "0 \<le> (p - 1) mod 8" "(p - 1) mod 8 < 8" "0 \<le> (q - 1) mod 8"
    using p(1) q(1) by (simp_all add: pos_imp_zdiv_nonneg_iff)
  have "b = b' \<longleftrightarrow> (p - 1) div 8 = (q - 1) div 8" using p(2) q(2) n(1,2) by (simp add: eq_nat_nat_iff)
  moreover have "k = k' \<longleftrightarrow> (p - 1) mod 8 = (q - 1) mod 8" using p(3) q(3) n(3,5) by (simp add: eq_nat_nat_iff)
  moreover have "(p - 1) div 8 = (q - 1) div 8 \<and> (p - 1) mod 8 = (q - 1) mod 8 \<longleftrightarrow> p = q"
    by (metis d diff_add_cancel)
  moreover have "k < 8" using p(3) n(3,4) by linarith
  ultimately show ?thesis using p(4) by blast
qed

lemma is_set_bit: "port_at plist q = Some (b, k) \<Longrightarrow> IS_PORT_SET_PORT_LIST plist q e = Some (bit (vl_bytes e ! b) k)"
  by (simp add: IS_PORT_SET_PORT_LIST_def bit_iff_and_push_bit_not_eq_0)

text \<open>
  The contract of a set of ports: adding and removing a valid port succeeds and changes the
  membership of that port only.
\<close>

locale port_set =
  fixes add :: "int \<Rightarrow> 's \<Rightarrow> 's option"
    and del :: "int \<Rightarrow> 's \<Rightarrow> 's option"
    and has :: "int \<Rightarrow> 's \<Rightarrow> bool option"
    and valid :: "int \<Rightarrow> bool"
  assumes add_has: "valid p \<Longrightarrow> \<exists>t. add p s = Some t \<and> (\<forall>q. valid q \<longrightarrow> has q t = Some (q = p \<or> has q s = Some True))"
    and del_has: "valid p \<Longrightarrow> \<exists>t. del p s = Some t \<and> (\<forall>q. valid q \<longrightarrow> has q t = Some (q \<noteq> p \<and> has q s = Some True))"
begin

fun add_all :: "int list \<Rightarrow> 's \<Rightarrow> 's option" where
  "add_all [] s = Some s"
| "add_all (p # ps) s = add p s \<bind> add_all ps"

lemma add_all_has:
  assumes "\<forall>p \<in> set ps. valid p" "\<forall>q. valid q \<longrightarrow> has q s \<noteq> None"
  shows "\<exists>t. add_all ps s = Some t \<and> (\<forall>q. valid q \<longrightarrow> has q t = Some (q \<in> set ps \<or> has q s = Some True))"
  using assms
proof (induction ps arbitrary: s)
  case (Cons p ps)
  from add_has [of p s] Cons.prems obtain t where t: "add p s = Some t"
    "\<forall>q. valid q \<longrightarrow> has q t = Some (q = p \<or> has q s = Some True)" by auto
  from Cons.IH [of t] Cons.prems t obtain u where "add_all ps t = Some u"
    "\<forall>q. valid q \<longrightarrow> has q u = Some (q \<in> set ps \<or> has q t = Some True)" by auto
  with t show ?case by auto
qed auto

lemma add_del:
  assumes "valid p" "has p s = Some False" "\<forall>q. valid q \<longrightarrow> has q s \<noteq> None"
  shows "\<exists>t u. add p s = Some t \<and> del p t = Some u \<and> (\<forall>q. valid q \<longrightarrow> has q u = has q s)"
proof -
  from add_has [OF assms(1)] obtain t where t: "add p s = Some t"
    "\<forall>q. valid q \<longrightarrow> has q t = Some (q = p \<or> has q s = Some True)" by blast
  from del_has [OF assms(1)] obtain u where u: "del p t = Some u"
    "\<forall>q. valid q \<longrightarrow> has q u = Some (q \<noteq> p \<and> has q t = Some True)" by blast
  have "has q u = has q s" if "valid q" for q
    using t u that assms by (cases "has q s") auto
  with t u show ?thesis by blast
qed

end

lemma set_port_has:
  assumes "port_at plist p \<noteq> None"
  shows "\<exists>t. SET_PORT_LIST plist p e = Some t \<and> (\<forall>q. port_at plist q \<noteq> None \<longrightarrow>
    IS_PORT_SET_PORT_LIST plist q t = Some (q = p \<or> IS_PORT_SET_PORT_LIST plist q e = Some True))"
proof -
  obtain b k where p: "port_at plist p = Some (b, k)" using assms by auto
  define t where "t = vl_with_bytes ((vl_bytes e)[b := (vl_bytes e ! b) OR push_bit k 1]) e"
  have "IS_PORT_SET_PORT_LIST plist q t = Some (q = p \<or> IS_PORT_SET_PORT_LIST plist q e = Some True)"
    if v: "port_at plist q \<noteq> None" for q
  proof -
    obtain b' k' where q: "port_at plist q = Some (b', k')" using v by auto
    note e = port_at_eq [OF p q] and e' = port_at_eq [OF q q]
    have "bit (vl_bytes t ! b') k' = (q = p \<or> bit (vl_bytes e ! b') k')"
      using e e' by (auto simp: t_def nth_list_update bit_simps)
    then show ?thesis by (simp add: is_set_bit [OF q])
  qed
  then show ?thesis using p by (auto simp: SET_PORT_LIST_def t_def)
qed

lemma reset_port_has:
  assumes "port_at plist p \<noteq> None"
  shows "\<exists>t. RESET_PORT_LIST plist p e = Some t \<and> (\<forall>q. port_at plist q \<noteq> None \<longrightarrow>
    IS_PORT_SET_PORT_LIST plist q t = Some (q \<noteq> p \<and> IS_PORT_SET_PORT_LIST plist q e = Some True))"
proof -
  obtain b k where p: "port_at plist p = Some (b, k)" using assms by auto
  define t where "t = vl_with_bytes ((vl_bytes e)[b := (vl_bytes e ! b) AND NOT (push_bit k 1)]) e"
  have "IS_PORT_SET_PORT_LIST plist q t = Some (q \<noteq> p \<and> IS_PORT_SET_PORT_LIST plist q e = Some True)"
    if v: "port_at plist q \<noteq> None" for q
  proof -
    obtain b' k' where q: "port_at plist q = Some (b', k')" using v by auto
    note e = port_at_eq [OF p q] and e' = port_at_eq [OF q q]
    have "bit (vl_bytes t ! b') k' = (q \<noteq> p \<and> bit (vl_bytes e ! b') k')"
      using e e' by (auto simp: t_def nth_list_update bit_simps)
    then show ?thesis by (simp add: is_set_bit [OF q])
  qed
  then show ?thesis using p by (auto simp: RESET_PORT_LIST_def t_def)
qed

interpretation plist: port_set "SET_PORT_LIST plist" "RESET_PORT_LIST plist" "IS_PORT_SET_PORT_LIST plist"
    "\<lambda>p. port_at plist p \<noteq> None" for plist
  by unfold_locales (rule set_port_has reset_port_has; assumption)+

text \<open>
  A port above eight is not kept in its port list: adding it to the egress list of a vlan
  writes the bit of the port eight below it in the forbidden list, and adding it to the untagged list
  writes the row status. The byte of the list itself does not change.
\<close>

theorem vlan_high_port_hits_next_field:
  assumes "9 \<le> p" "p \<le> 16"
  shows "SET_PORT_LIST EGRESS p e = Some (e\<lparr>ve_forbidden := ve_forbidden e OR push_bit (nat (p - 9)) 1\<rparr>)
    \<and> SET_PORT_LIST UNTAGGED_PORTS p e = Some (e\<lparr>ve_row_status := ve_row_status e OR push_bit (nat (p - 9)) 1\<rparr>)"
proof -
  have "(p - 1) div 8 = 1" "(p - 1) mod 8 = p - 9" using assms by presburger+
  then have "port_at 0 p = Some (1, nat (p - 9))" "port_at 2 p = Some (3, nat (p - 9))"
    using assms by (simp_all add: port_at_def)
  then show ?thesis by (simp add: SET_PORT_LIST_def vl_bytes_def vl_with_bytes_def)
qed

theorem vlan_high_port_hits_next_field_witness:
  "\<exists>e. SET_PORT_LIST EGRESS 9 vlan_zero = Some e \<and> ve_egress e = 0 \<and> ve_forbidden e = 1"
  using vlan_high_port_hits_next_field [of 9 vlan_zero] by (simp add: vlan_zero_def)

section \<open>The list of vlans\<close>

definition vlan_inv :: "vlan_sys \<Rightarrow> bool" where
  "vlan_inv s \<longleftrightarrow> pool_ok (vlan_mem_id s) (vl_mem s) \<and> pool_cap (vlan_mem_id s) (vl_mem s) = 4096
     \<and> distinct (vl_db s) \<and> set (vl_db s) = used_blks (vlan_mem_id s) (vl_mem s)
     \<and> distinct (map (\<lambda>a. ve_vlan_id (vl_ent s a)) (vl_db s))
     \<and> (\<forall>a \<in> set (vl_db s). 0 < ve_vlan_id (vl_ent s a) \<and> ve_vlan_id (vl_ent s a) \<le> 4096)"

definition vlan_ids :: "vlan_sys \<Rightarrow> u16 set" where
  "vlan_ids s = (\<lambda>a. ve_vlan_id (vl_ent s a)) ` set (vl_db s)"

lemma get_vlan_ids: "get_vlan_entry v s = None \<longleftrightarrow> v \<notin> vlan_ids s"
  by (auto simp: get_vlan_entry_def vlan_ids_def find_None_iff)

lemma get_vlan_id: "get_vlan_entry v s = Some a \<Longrightarrow> a \<in> set (vl_db s) \<and> ve_vlan_id (vl_ent s a) = v"
  by (auto simp: get_vlan_entry_def find_Some_iff)

text \<open>There are as many blocks as identifiers, so a new identifier always finds a block.\<close>

lemma vlan_room:
  assumes "vlan_inv s" "v \<notin> vlan_ids s" "0 < v" "v \<le> 4096"
  shows "card (used_blks (vlan_mem_id s) (vl_mem s)) < 4096"
proof -
  have "card (used_blks (vlan_mem_id s) (vl_mem s)) = card (vlan_ids s)"
    using assms(1) unfolding vlan_inv_def vlan_ids_def by (metis card_image distinct_map)
  also have "\<dots> = card (unat ` vlan_ids s)" by (rule card_image [symmetric]) (rule inj_onI, rule unsigned_word_eqI)
  also have "\<dots> < card {1..4096 :: nat}"
  proof (rule psubset_card_mono)
    have b: "unat w \<in> {1..4096}" if "0 < w" "w \<le> 4096" for w :: u16
      using that by (auto simp: word_less_nat_alt word_le_nat_alt)
    have "unat ` vlan_ids s \<subseteq> {1..4096}" using b assms(1) unfolding vlan_inv_def vlan_ids_def by blast
    moreover have "unat v \<in> {1..4096}" by (rule b [OF assms(3,4)])
    moreover have "unat v \<notin> unat ` vlan_ids s" using assms(2) by (metis imageE unsigned_word_eqI)
    ultimately show "unat ` vlan_ids s \<subset> {1..4096}" by blast
  qed simp
  finally show ?thesis by simp
qed

lemma create_vlan_new:
  assumes "vlan_inv s" "v \<notin> vlan_ids s" "0 < v" "v \<le> 4096"
  shows "\<exists>a t. vlan_create_vlan v s = Some (0, t) \<and> vlan_inv t \<and> vlan_ids t = insert v (vlan_ids s)
    \<and> get_vlan_entry v t = Some a \<and> a \<notin> set (vl_db s) \<and> vl_stp t = vl_stp s \<and> vl_rstp t = vl_rstp s
    \<and> vl_ent t = (vl_ent s)(a := (vl_ent s a)\<lparr>ve_vlan_id := v, ve_name := ''vlan'' @ digits (unat v), ve_egress := 0,
         ve_forbidden := 0, ve_untagged := 0, ve_row_status := 5\<rparr>)"
proof -
  have i: "pool_ok (vlan_mem_id s) (vl_mem s)" "pool_cap (vlan_mem_id s) (vl_mem s) = 4096" "distinct (vl_db s)"
    "set (vl_db s) = used_blks (vlan_mem_id s) (vl_mem s)" using assms(1) by (simp_all add: vlan_inv_def)
  from alloc_block_room [OF i(1)] vlan_room [OF assms] i(2) obtain a mem where
    a: "alloc_block (vlan_mem_id s) (vl_mem s) = Some (Some a, mem)" "pool_ok (vlan_mem_id s) mem"
      "a \<notin> used_blks (vlan_mem_id s) (vl_mem s)" "used_blks (vlan_mem_id s) mem = insert a (used_blks (vlan_mem_id s) (vl_mem s))"
      "pool_cap (vlan_mem_id s) mem = 4096" by auto
  define e where "e = (vl_ent s a)\<lparr>ve_vlan_id := v, ve_name := ''vlan'' @ digits (unat v), ve_egress := 0,
         ve_forbidden := 0, ve_untagged := 0, ve_row_status := 5\<rparr>"
  define t where "t = s\<lparr>vl_mem := mem, vl_ent := (vl_ent s)(a := e), vl_db := vl_db s @ [a]\<rparr>"
  have n: "a \<notin> set (vl_db s)" using a(3) i(4) by simp
  then have m: "ve_vlan_id (((vl_ent s)(a := e)) b) = ve_vlan_id (vl_ent s b)" if "b \<in> set (vl_db s)" for b
    using that by auto
  have "vlan_create_vlan v s = Some (0, t)"
    using assms(2-4) a(1) get_vlan_ids [of v s] by (simp add: vlan_create_vlan_def Let_def t_def e_def not_less)
  moreover have "vlan_inv t"
  proof -
    have "map (\<lambda>b. ve_vlan_id (((vl_ent s)(a := e)) b)) (vl_db s) = map (\<lambda>b. ve_vlan_id (vl_ent s b)) (vl_db s)"
      by (rule map_cong) (use m in auto)
    then have eq: "map (\<lambda>b. ve_vlan_id (vl_ent t b)) (vl_db t) = map (\<lambda>b. ve_vlan_id (vl_ent s b)) (vl_db s) @ [v]"
      by (simp add: t_def e_def)
    have "distinct (map (\<lambda>b. ve_vlan_id (vl_ent t b)) (vl_db t))"
      unfolding eq using assms(1,2) by (auto simp: vlan_inv_def vlan_ids_def)
    moreover have "\<forall>b \<in> set (vl_db t). 0 < ve_vlan_id (vl_ent t b) \<and> ve_vlan_id (vl_ent t b) \<le> 4096"
      using m assms(1,3,4) by (auto simp: t_def e_def vlan_inv_def)
    moreover have "pool_ok (vlan_mem_id t) (vl_mem t)" "pool_cap (vlan_mem_id t) (vl_mem t) = 4096" "distinct (vl_db t)"
      "set (vl_db t) = used_blks (vlan_mem_id t) (vl_mem t)" using i a n by (auto simp: t_def)
    ultimately show ?thesis unfolding vlan_inv_def by blast
  qed
  moreover have "vlan_ids t = insert v (vlan_ids s)" using m by (auto simp: vlan_ids_def t_def e_def image_iff)
  moreover have "get_vlan_entry v t = Some a"
  proof -
    have "find (\<lambda>b. ve_vlan_id (vl_ent t b) = v) (vl_db s) = None"
      using m assms(2) by (auto simp: find_None_iff vlan_ids_def t_def)
    then show ?thesis by (simp add: get_vlan_entry_def find_append t_def e_def)
  qed
  ultimately show ?thesis using n by (auto simp: t_def e_def)
qed

fun id_step :: "u16 \<Rightarrow> u16 set \<Rightarrow> int \<times> u16 set" where
  "id_step v S = (if 0 < v \<and> v \<le> 4096 then (0, insert v S) else (-1, S))"

lemma create_vlan_step:
  assumes "vlan_inv s"
  shows "\<exists>r t. vlan_create_vlan v s = Some (r, t) \<and> vlan_inv t \<and> id_step v (vlan_ids s) = (r, vlan_ids t)"
proof (cases "0 < v \<and> v \<le> 4096")
  case True
  show ?thesis
  proof (cases "v \<in> vlan_ids s")
    case False
    with create_vlan_new [OF assms False] True show ?thesis by auto
  next
    case in_ids: True
    then have "get_vlan_entry v s \<noteq> None" using get_vlan_ids [of v s] by blast
    with True in_ids assms show ?thesis by (auto simp: vlan_create_vlan_def insert_absorb)
  qed
next
  case False
  with assms show ?thesis by (auto simp: vlan_create_vlan_def word_gt_0)
qed

interpretation vlan_table: simulation vlan_create_vlan vlan_inv vlan_ids id_step "\<lambda>_. True"
  by unfold_locales (use create_vlan_step in blast)

definition vlan_start :: "int \<Rightarrow> vlan_sys \<Rightarrow> vlan_sys" where
  "vlan_start a s = (case mem_pool_create ''VLNDB'' (4096 * 64) 4096 True (Some a) True (vl_mem s) of (pid, mem) \<Rightarrow>
     s\<lparr>vl_db := [], vlan_mem_id := pid, vl_mem := mem\<rparr>)"

lemma vlan_start_inv:
  assumes "mem_wf (vl_mem s)"
  shows "vlan_inv (vlan_start a s)" "vlan_ids (vlan_start a s) = {}" "vlan_mem_id (vlan_start a s) = mcb_count (vl_mem s) + 1"
proof -
  obtain pid mem where c: "mem_pool_create ''VLNDB'' (4096 * 64) 4096 True (Some a) True (vl_mem s) = (pid, mem)"
    by (cases "mem_pool_create ''VLNDB'' (4096 * 64) 4096 True (Some a) True (vl_mem s)")
  define i where "i = mcb_count (vl_mem s) + 1"
  have m: "pid = i" "pool_ok i mem" "used_blks i mem = {}" "pool_cap i mem = 4096"
    using mem_pool_create_wf [of "vl_mem s" "4096 * 64" 4096 mem "''VLNDB''" a] c assms by (auto simp: i_def)
  have t: "vlan_start a s = s\<lparr>vl_db := [], vlan_mem_id := pid, vl_mem := mem\<rparr>" by (simp only: vlan_start_def c prod.case)
  show "vlan_inv (vlan_start a s)" "vlan_ids (vlan_start a s) = {}" "vlan_mem_id (vlan_start a s) = mcb_count (vl_mem s) + 1"
    using m by (simp_all add: t vlan_inv_def vlan_ids_def i_def)
qed

text \<open>
  Creating vlans over a new pool refines a set of identifiers: every sequence of requests answers success
  exactly for the identifiers from 1 to 4096, the vlans that exist afterwards are those asked for, each of
  them once, and the pool never runs out of blocks.
\<close>

theorem vlan_creation_refines_set:
  assumes "mem_wf (vl_mem s)"
  shows "\<exists>rs t. do_run vlan_create_vlan vs (vlan_start a s) = Some (rs, t) \<and> spec_run id_step vs {} = (rs, vlan_ids t)
    \<and> distinct (map (\<lambda>b. ve_vlan_id (vl_ent t b)) (vl_db t))"
proof -
  from vlan_table.run_simulates [OF vlan_start_inv(1) [OF assms], of vs a] obtain rs t where
    "do_run vlan_create_vlan vs (vlan_start a s) = Some (rs, t)" "vlan_inv t"
    "spec_run id_step vs (vlan_ids (vlan_start a s)) = (rs, vlan_ids t)" by auto
  then show ?thesis using vlan_start_inv(2) [OF assms] by (auto simp: vlan_inv_def)
qed

lemma set_egress:
  assumes "1 \<le> p" "p \<le> 12"
  shows "\<exists>x y. SET_PORT_LIST EGRESS p e = Some (e\<lparr>ve_egress := x, ve_forbidden := y\<rparr>)"
proof -
  have "(p - 1) div 8 = 0 \<or> (p - 1) div 8 = 1" using assms by linarith
  then obtain b k where p: "port_at 0 p = Some (b, k)" "b = 0 \<or> b = 1" using assms by (auto simp: port_at_def)
  then show ?thesis
    by (cases e) (auto simp: SET_PORT_LIST_def vl_bytes_def vl_with_bytes_def)
qed

lemma get_vlan_upd:
  "ve_vlan_id e = ve_vlan_id (vl_ent s a) \<Longrightarrow> get_vlan_entry v (s\<lparr>vl_ent := (vl_ent s)(a := e)\<rparr>) = get_vlan_entry v s"
  unfolding get_vlan_entry_def by (induction "vl_db s") (auto intro!: arg_cong [of _ _ "\<lambda>P. find P (vl_db s)"])

lemma get_vlan_stp [simp]: "get_vlan_entry v (s\<lparr>vl_stp := sy\<rparr>) = get_vlan_entry v s"
  by (simp add: get_vlan_entry_def)

text \<open>
  After the spanning tree of a vlan was switched off, adding a port to that vlan faults: the vlan
  still says that it runs the spanning tree protocol, and the port is created in the instance
  that is gone.
\<close>

theorem vlan_add_port_after_disable_faults:
  assumes "get_vlan_entry (word_of_int v) s = Some a" "ve_stp_enabled (vl_ent s a) \<noteq> 0" "ve_stp_mode (vl_ent s a) = 1"
    and "ve_stp (vl_ent s a) = Some i" "i \<noteq> stp_global_instance" "i \<notin> set (sy_freed (vl_stp s))"
    and "1 \<le> p" "p \<le> 12" "vn_port env p \<noteq> None"
  shows "\<exists>t. vlan_spanning_tree_disable_on_vlan env v MODE_STP s = Some (0, t) \<and> vlan_add_port env v p TAGGED t = None"
proof -
  define e where "e = (vl_ent s a)\<lparr>ve_stp_enabled := 0, ve_stp := None\<rparr>"
  define t where "t = s\<lparr>vl_ent := (vl_ent s)(a := e), vl_stp := (vl_stp s)\<lparr>sy_list := remove1 i (sy_list (vl_stp s)),
      sy_freed := i # sy_freed (vl_stp s)\<rparr>\<rparr>"
  have "vlan_spanning_tree_disable_on_vlan env v MODE_STP s = Some (0, t)"
    using assms(1-6) by (simp add: vlan_spanning_tree_disable_on_vlan_def upd_ent_def stp_delete_stp_instance_def t_def e_def)
  moreover have "get_vlan_entry (word_of_int v) t = Some a"
    using assms(1) get_vlan_upd [of e s a "word_of_int v"] by (simp add: t_def e_def)
  moreover obtain x y where "SET_PORT_LIST EGRESS p e = Some (e\<lparr>ve_egress := x, ve_forbidden := y\<rparr>)"
    using set_egress [OF assms(7,8)] by blast
  ultimately show ?thesis using assms(3,9)
    by (auto simp: vlan_add_port_def upd_ent_def vlan_create_stp_port_def stp_create_port_sys_def Let_def t_def e_def
        split: option.split)
qed

section \<open>A port in two instances\<close>

lemma put_inst_get:
  assumes "stp_get_port (sy_inst sy a) n = Some i"
    and "stp_create_port env (Some j) p (sy_inst sy b) = (r, br)" "j \<notin> set (br_port_list (sy_inst sy b))"
  shows "stp_get_port (sy_inst (put_inst b br sy) a) n = Some i"
proof (cases "a = b")
  case True
  have "find (\<lambda>i. sp_port_no (((br_ports (sy_inst sy b))(j := stp_port_new env p)) i) = ucast n) (br_port_list (sy_inst sy b))
      = find (\<lambda>i. sp_port_no (br_ports (sy_inst sy b) i) = ucast n) (br_port_list (sy_inst sy b))"
    by (rule find_cong [OF refl]) (use assms(3) in auto)
  with True assms(1,2) show ?thesis
    by (auto simp: stp_create_port_def put_inst_def stp_get_port_def find_append)
qed (use assms(1) in \<open>simp add: put_inst_def\<close>)

lemma create_port_sys_get:
  assumes "stp_create_port_sys env m p port sy = Some (r, t)" "stp_get_port (sy_inst sy a) n = Some i"
    and "\<And>b j. m = Some j \<Longrightarrow> j \<notin> set (br_port_list (sy_inst sy b))"
  shows "stp_get_port (sy_inst t a) n = Some i \<and> sy_list t = sy_list sy"
proof (cases m)
  case (Some j)
  from Some assms(1) obtain b br where b: "stp_create_port env (Some j) port (sy_inst sy b) = (0, br)" "t = put_inst b br sy"
    by (auto simp: stp_create_port_sys_def on_stp_def stp_create_port_def split: bind_splits if_splits)
  with put_inst_get [OF assms(2) b(1)] assms(3) [OF Some] show ?thesis by (simp add: put_inst_def)
qed (use assms in \<open>simp add: stp_create_port_sys_def\<close>)

lemma add_port_get:
  assumes "vlan_add_port env v p ty s = Some (r, t)" "stp_get_port (sy_inst (vl_stp s) a) n = Some i"
    and "\<And>b j. vn_port env p = Some j \<Longrightarrow> j \<notin> set (br_port_list (sy_inst (vl_stp s) b))"
  shows "stp_get_port (sy_inst (vl_stp t) a) n = Some i \<and> sy_list (vl_stp t) = sy_list (vl_stp s)"
proof (cases "get_vlan_entry (word_of_int v) s")
  case (Some e)
  have stp: "vl_stp u = vl_stp s" if "upd_ent e f s = Some u" for u f
    using that by (auto simp: upd_ent_def split: bind_splits)
  from Some assms(1) obtain u r' where "u = s \<or> (\<exists>f. upd_ent e f s = Some u)" "vlan_create_stp_port env e p u = Some (r', t)"
    by (auto simp: vlan_add_port_def split: bind_splits if_splits)
  with stp have u: "vl_stp u = vl_stp s" "vlan_create_stp_port env e p u = Some (r', t)" by auto
  show ?thesis
  proof (cases "uint (ve_stp_mode (vl_ent u e)) = MODE_STP")
    case True
    with u(2) obtain r2 sy where sy: "stp_create_port_sys (vn_stp env) (vn_port env p) (ve_stp (vl_ent u e)) p (vl_stp s) = Some (r2, sy)"
      "t = (if r2 < 0 then u else u\<lparr>vl_stp := sy\<rparr>)"
      by (auto simp: vlan_create_stp_port_def Let_def u(1) split: bind_splits if_splits)
    from create_port_sys_get [OF sy(1) assms(2,3)] sy(2) u(1) assms(2) show ?thesis by auto
  next
    case False
    with u assms(2) show ?thesis by (auto simp: vlan_create_stp_port_def Let_def)
  qed
qed (use assms in \<open>simp add: vlan_add_port_def\<close>)

text \<open>
  C32. Moving a port to another vlan leaves it in the spanning tree instance of the default vlan, and that
  instance goes on receiving all its messages: after the command the first instance still owns the
  port, and a message received on the port changes no other instance, whatever vlan it belongs to.
\<close>

theorem vlan_moved_port_serves_old_instance:
  assumes "sy_list (vl_stp s) = a # as" "stp_get_port (sy_inst (vl_stp s) a) (word_of_int p) = Some i"
    and "set_tagged_port_to_vlan env v p s = Some (0, t)"
    and "\<And>b j. vn_port env p = Some j \<Longrightarrow> j \<notin> set (br_port_list (sy_inst (vl_stp s) b))"
  shows "stp_get_port_entry (word_of_int p) (vl_stp t) = Some (a, i)
    \<and> (\<forall>e c r sy b. stp_process_bpdu e c (word_of_int p) (vl_stp t) = Some (r, sy) \<longrightarrow> b \<noteq> a
         \<longrightarrow> sy_inst sy b = sy_inst (vl_stp t) b)"
proof -
  from assms(3) obtain r u where u: "vlan_add_port env v p TAGGED s = Some (r, u)"
    by (auto simp: set_tagged_port_to_vlan_def split: bind_splits)
  have "vl_stp t = vl_stp u"
    using assms(3) u by (auto simp: set_tagged_port_to_vlan_def vlan_del_port_def upd_ent_def split: bind_splits if_splits option.splits)
  with add_port_get [OF u assms(2,4)] assms(1) have l: "sy_list (vl_stp t) = a # as"
    "stp_get_port (sy_inst (vl_stp t) a) (word_of_int p) = Some i" by auto
  then have "stp_get_port_entry (word_of_int p) (vl_stp t) = Some (a, i)" by (simp add: stp_get_port_entry_def)
  then show ?thesis by (auto simp: stp_process_bpdu_def on_stp_def put_inst_def split: bind_splits if_splits)
qed

end
