(* ===== verification/Msg_Queue.thy ===== *)
theory Msg_Queue
  imports Mem_Pool
begin

text \<open>
  The message queues of \<open>src/src/lib/msg_queue.c\<close>: a table of ten queues, each a list of cells
  \<open>struct msg\<close> taken from a pool of its own. A cell is the address of its block, and its content is
  kept per queue, since the areas of different pools are different memory. The mutex makes each
  operation one step; a receiver that finds its queue empty waits on the condition variable and tries
  again, which is the answer \<open>None\<close> of one attempt.

  A queue that was created implements a bounded first-in first-out channel; the bound is the number
  of blocks of its pool, which \<open>msg_create_Q\<close> sets to the size of a cell.
\<close>

section \<open>Data\<close>

record 'm msgq =
  q_name :: string
  q_max_msg :: int
  q_size :: int
  q_mpool_id :: int
  q_flags :: int
  q_list :: "int list"
  q_cells :: "int \<Rightarrow> 'm"

record 'm msgq_sys =
  Queue :: "'m msgq list"
  q_mem :: mem_state

abbreviation (input) "MAX_MSG_Q \<equiv> 10 :: nat"
abbreviation (input) "MQ_FREE \<equiv> 1 :: int"
abbreviation (input) "MQ_ACTIVE \<equiv> 2 :: int"

text \<open>\<open>sizeof (struct msg)\<close>: two list pointers and the message pointer.\<close>

abbreviation (input) "sizeof_msg \<equiv> 24 :: nat"

section \<open>Operations\<close>

fun get_qid_from :: "nat \<Rightarrow> 'm msgq list \<Rightarrow> int" where
  "get_qid_from 0 qs = -1"
| "get_qid_from (Suc i) qs = (if q_flags (qs ! i) = MQ_FREE then int i else get_qid_from i qs)"

definition get_qid :: "'m msgq list \<Rightarrow> int" where
  "get_qid qs = get_qid_from MAX_MSG_Q qs"

definition msg_Q_init :: "'m msgq_sys \<Rightarrow> 'm msgq_sys" where
  "msg_Q_init s = s\<lparr>Queue := map (\<lambda>q. q\<lparr>q_name := replicate 8 (CHR 0x00), q_max_msg := 0, q_size := 0,
     q_mpool_id := -1, q_flags := MQ_FREE, q_list := []\<rparr>) (Queue s)\<rparr>"

text \<open>The arguments \<open>got_mcb\<close>, \<open>got_mem\<close> and \<open>got_blks\<close> are what the C allocator gave.\<close>

definition msg_create_Q :: "string \<Rightarrow> int \<Rightarrow> int \<Rightarrow> bool \<Rightarrow> int option \<Rightarrow> bool \<Rightarrow> 'm msgq_sys \<Rightarrow> int \<times> 'm msgq_sys" where
  "msg_create_Q name maxmsg sz got_mcb got_mem got_blks s =
    (let qid = get_qid (Queue s) in
     if qid < 0 then (-1, s)
     else
       let (pid, mem) = mem_pool_create name (nat (maxmsg * int sizeof_msg)) (int sizeof_msg)
             got_mcb got_mem got_blks (q_mem s);
           q = (Queue s ! nat qid)\<lparr>q_mpool_id := pid\<rparr>;
           s = s\<lparr>q_mem := mem\<rparr>
       in if pid < 0 then (-1, s\<lparr>Queue := (Queue s)[nat qid := q]\<rparr>)
          else (qid, s\<lparr>Queue := (Queue s)[nat qid := q\<lparr>q_name := take 8 name, q_max_msg := maxmsg,
                  q_size := sz, q_flags := MQ_ACTIVE\<rparr>]\<rparr>))"

text \<open>One attempt of \<open>msg_rcv\<close>: the message, or \<open>None\<close> when the caller has to wait.\<close>

definition msg_rcv :: "nat \<Rightarrow> 'm msgq_sys \<Rightarrow> ('m option \<times> 'm msgq_sys) option" where
  "msg_rcv qid s =
    (if qid \<ge> length (Queue s) then None
     else case q_list (Queue s ! qid) of
       [] \<Rightarrow> Some (None, s)
     | p # ps \<Rightarrow> do {
         let q = Queue s ! qid;
         (r, mem) \<leftarrow> free_blk (q_mpool_id q) p (q_mem s);
         Some (Some (q_cells q p), s\<lparr>Queue := (Queue s)[qid := q\<lparr>q_list := ps\<rparr>], q_mem := mem\<rparr>)
       })"

definition msg_send :: "nat \<Rightarrow> 'm \<Rightarrow> 'm msgq_sys \<Rightarrow> (int \<times> 'm msgq_sys) option" where
  "msg_send qid m s =
    (if qid \<ge> length (Queue s) then None
     else do {
       let q = Queue s ! qid;
       (r, mem) \<leftarrow> alloc_block (q_mpool_id q) (q_mem s);
       Some (0, case r of
           None \<Rightarrow> s\<lparr>q_mem := mem\<rparr>
         | Some p \<Rightarrow> s\<lparr>Queue := (Queue s)[qid := q\<lparr>q_cells := (q_cells q)(p := m), q_list := q_list q @ [p]\<rparr>],
                      q_mem := mem\<rparr>)
     })"

section \<open>The interface of a channel\<close>

text \<open>Uses of a channel: sending a message, or one attempt to receive.\<close>

datatype 'm q_use = QSend 'm | QRcv

text \<open>The abstract channel: a list of at most \<open>n\<close> messages; sending to a full one loses the message.\<close>

fun chan_step :: "nat \<Rightarrow> 'm q_use \<Rightarrow> 'm list \<Rightarrow> 'm option \<times> 'm list" where
  "chan_step n (QSend m) ms = (None, if length ms < n then ms @ [m] else ms)"
| "chan_step n QRcv [] = (None, [])"
| "chan_step n QRcv (m # ms) = (Some m, ms)"

fun chan_run :: "nat \<Rightarrow> 'm q_use list \<Rightarrow> 'm list \<Rightarrow> 'm list \<times> 'm list" where
  "chan_run n [] ms = ([], ms)"
| "chan_run n (u # us) ms =
    (case chan_step n u ms of (r, ms) \<Rightarrow>
       case chan_run n us ms of (rs, ms) \<Rightarrow> (case r of None \<Rightarrow> rs | Some m \<Rightarrow> m # rs, ms))"

text \<open>The same uses of an implementation: the messages received, in order.\<close>

fun use_run :: "('m \<Rightarrow> 's \<Rightarrow> (int \<times> 's) option) \<Rightarrow> ('s \<Rightarrow> ('m option \<times> 's) option) \<Rightarrow> 'm q_use list \<Rightarrow> 's
    \<Rightarrow> ('m list \<times> 's) option" where
  "use_run send rcv [] s = Some ([], s)"
| "use_run send rcv (QSend m # us) s = do { (r, s) \<leftarrow> send m s; use_run send rcv us s }"
| "use_run send rcv (QRcv # us) s = do {
     (r, s) \<leftarrow> rcv s;
     (rs, s) \<leftarrow> use_run send rcv us s;
     Some (case r of None \<Rightarrow> rs | Some m \<Rightarrow> m # rs, s) }"

locale channel =
  fixes send :: "'m \<Rightarrow> 's \<Rightarrow> (int \<times> 's) option"
    and rcv :: "'s \<Rightarrow> ('m option \<times> 's) option"
    and inv :: "'s \<Rightarrow> bool"
    and content :: "'s \<Rightarrow> 'm list"
    and room :: "'s \<Rightarrow> nat"
  assumes send_chan: "inv s \<Longrightarrow> \<exists>t. send m s = Some (0, t) \<and> inv t \<and> room t = room s
      \<and> content t = snd (chan_step (room s) (QSend m) (content s))"
    and rcv_chan: "inv s \<Longrightarrow> \<exists>r t. rcv s = Some (r, t) \<and> inv t \<and> room t = room s
      \<and> chan_step (room s) QRcv (content s) = (r, content t)"
begin

lemma use_chan:
  assumes "inv s"
  shows "\<exists>rs t. use_run send rcv us s = Some (rs, t) \<and> inv t \<and> room t = room s
    \<and> chan_run (room s) us (content s) = (rs, content t)"
  using assms
proof (induction us arbitrary: s)
  case (Cons u us)
  show ?case
  proof (cases u)
    case (QSend m)
    from send_chan [OF Cons.prems, of m] obtain t where t: "send m s = Some (0, t)" "inv t" "room t = room s"
      "content t = snd (chan_step (room s) (QSend m) (content s))" by blast
    from Cons.IH [OF t(2)] t QSend show ?thesis by (auto split: prod.split)
  next
    case QRcv
    from rcv_chan [OF Cons.prems] obtain r t where t: "rcv s = Some (r, t)" "inv t" "room t = room s"
      "chan_step (room s) QRcv (content s) = (r, content t)" by blast
    from Cons.IH [OF t(2)] t QRcv show ?thesis by (auto split: prod.split)
  qed
qed simp

end

section \<open>The queues implement it\<close>

definition q_inv :: "nat \<Rightarrow> 'm msgq_sys \<Rightarrow> bool" where
  "q_inv qid s \<longleftrightarrow> qid < length (Queue s) \<and> pool_ok (q_mpool_id (Queue s ! qid)) (q_mem s)
     \<and> distinct (q_list (Queue s ! qid))
     \<and> set (q_list (Queue s ! qid)) = used_blks (q_mpool_id (Queue s ! qid)) (q_mem s)"

definition q_content :: "nat \<Rightarrow> 'm msgq_sys \<Rightarrow> 'm list" where
  "q_content qid s = map (q_cells (Queue s ! qid)) (q_list (Queue s ! qid))"

definition q_room :: "nat \<Rightarrow> 'm msgq_sys \<Rightarrow> nat" where
  "q_room qid s = pool_cap (q_mpool_id (Queue s ! qid)) (q_mem s)"

lemma q_inv_card: "q_inv qid s \<Longrightarrow>
    card (used_blks (q_mpool_id (Queue s ! qid)) (q_mem s)) = length (q_content qid s)"
  by (metis q_inv_def q_content_def distinct_card length_map)

lemma msg_send_chan:
  assumes "q_inv qid s"
  shows "\<exists>t. msg_send qid m s = Some (0, t) \<and> q_inv qid t \<and> q_room qid t = q_room qid s
    \<and> q_content qid t = snd (chan_step (q_room qid s) (QSend m) (q_content qid s))"
proof -
  define p where "p = q_mpool_id (Queue s ! qid)"
  have s: "qid < length (Queue s)" "pool_ok p (q_mem s)" "distinct (q_list (Queue s ! qid))"
    "set (q_list (Queue s ! qid)) = used_blks p (q_mem s)"
    using assms by (auto simp: q_inv_def p_def)
  from s(2) show ?thesis
  proof (cases rule: pool.alloc_cases)
    case full
    then show ?thesis using s(1) assms q_inv_card [OF assms]
      by (simp add: msg_send_def Let_def p_def [symmetric] q_room_def)
  next
    case (room a mem)
    have "q_cells (Queue s ! qid) x = ((q_cells (Queue s ! qid))(a := m)) x" if "x \<in> set (q_list (Queue s ! qid))" for x
      using that room(3) s(4) by auto
    then show ?thesis using room s q_inv_card [OF assms]
      by (auto simp: msg_send_def Let_def p_def [symmetric] q_inv_def q_room_def q_content_def)
  qed
qed

lemma msg_rcv_chan:
  assumes "q_inv qid s"
  shows "\<exists>r t. msg_rcv qid s = Some (r, t) \<and> q_inv qid t \<and> q_room qid t = q_room qid s
    \<and> chan_step (q_room qid s) QRcv (q_content qid s) = (r, q_content qid t)"
proof (cases "q_list (Queue s ! qid)")
  case Nil
  then show ?thesis using assms by (simp add: msg_rcv_def q_inv_def q_content_def)
next
  case (Cons a as)
  define p where "p = q_mpool_id (Queue s ! qid)"
  have s: "qid < length (Queue s)" "pool_ok p (q_mem s)" "a \<in> used_blks p (q_mem s)" "a \<notin> set as" "distinct as"
    "used_blks p (q_mem s) = insert a (set as)"
    using assms Cons by (auto simp: q_inv_def p_def)
  obtain mem where "free_blk p a (q_mem s) = Some (0, mem)" "pool_ok p mem"
    "used_blks p mem = used_blks p (q_mem s) - {a}" "pool_cap p mem = pool_cap p (q_mem s)"
    using pool.free_used [OF s(2,3)] by blast
  then show ?thesis using s Cons
    by (auto simp: msg_rcv_def Let_def p_def [symmetric] q_inv_def q_room_def q_content_def)
qed

interpretation msgq: channel "msg_send qid" "msg_rcv qid" "q_inv qid" "q_content qid" "q_room qid" for qid
  by unfold_locales (rule msg_send_chan msg_rcv_chan; assumption)+

section \<open>Creating a queue\<close>

lemma get_qid_from_free:
  "0 \<le> get_qid_from n qs \<Longrightarrow> nat (get_qid_from n qs) < n \<and> q_flags (qs ! nat (get_qid_from n qs)) = MQ_FREE"
  by (induction n) (auto split: if_splits)

definition q_fresh :: "'m msgq_sys \<Rightarrow> bool" where
  "q_fresh s \<longleftrightarrow> mem_wf (q_mem s) \<and> length (Queue s) = MAX_MSG_Q
     \<and> (\<forall>q \<in> set (Queue s). q_flags q = MQ_FREE \<longrightarrow> q_list q = [])"

lemma create_inv:
  assumes "msg_create_Q name maxmsg sz True (Some a) True s = (int qid, t)"
    and "q_fresh s" "0 < maxmsg" "maxmsg < 2 ^ 20"
  shows "q_inv qid t" "q_content qid t = []" "q_room qid t = sizeof_msg"
proof -
  define k where "k = get_qid (Queue s)"
  define i where "i = mcb_count (q_mem s) + 1"
  obtain pid mem where c: "mem_pool_create name (nat (maxmsg * 24)) 24 True (Some a) True (q_mem s) = (pid, mem)"
    by (cases "mem_pool_create name (nat (maxmsg * 24)) 24 True (Some a) True (q_mem s)")
  have "int (nat (maxmsg * 24)) * 24 < 2 ^ 31 - 8" "int (nat (maxmsg * 24)) * 24 mod 8 = 0" "nat (maxmsg * 24) < 2 ^ 31"
    using assms(3,4) by auto
  then have m: "pid = i" "pool_ok i mem" "used_blks i mem = {}" "pool_cap i mem = 24"
    using mem_pool_create_wf [of "q_mem s" "nat (maxmsg * 24)" 24 mem name a] c assms(2,3)
    by (auto simp: q_fresh_def i_def)
  have kq: "0 \<le> k" "0 \<le> pid" using assms(1) c by (auto simp: msg_create_Q_def Let_def k_def split: if_splits)
  then have k: "nat k < 10" "q_list (Queue s ! nat k) = []"
    using get_qid_from_free [of 10 "Queue s"] assms(2) by (auto simp: k_def get_qid_def q_fresh_def)
  have t: "qid = nat k" "t = s\<lparr>q_mem := mem, Queue := (Queue s)[nat k := (Queue s ! nat k)\<lparr>q_mpool_id := pid,
      q_name := take 8 name, q_max_msg := maxmsg, q_size := sz, q_flags := MQ_ACTIVE\<rparr>]\<rparr>"
    using assms(1) c kq by (auto simp: msg_create_Q_def Let_def k_def)
  show "q_inv qid t" "q_content qid t = []" "q_room qid t = sizeof_msg"
    using k m assms(2) unfolding t by (simp_all add: q_inv_def q_content_def q_room_def q_fresh_def)
qed

text \<open>
  C10. A created queue is a first-in first-out channel for 24 messages, whatever number was asked for:
  under every sequence of sends and receives the messages received, and those still queued, are those
  of the abstract channel, no operation faults, and a send to the full queue reports success while the
  message is lost.
\<close>

theorem msg_queue_refines_channel:
  assumes "msg_create_Q name maxmsg sz True (Some a) True s = (int qid, t)"
    and "q_fresh s" "0 < maxmsg" "maxmsg < 2 ^ 20"
  shows "\<exists>rs u. use_run (msg_send qid) (msg_rcv qid) us t = Some (rs, u) \<and> chan_run 24 us [] = (rs, q_content qid u)
    \<and> (\<forall>m. length (q_content qid u) = 24 \<longrightarrow> (\<exists>v. msg_send qid m u = Some (0, v) \<and> q_content qid v = q_content qid u))"
proof -
  note c = create_inv [OF assms]
  obtain rs u where u: "use_run (msg_send qid) (msg_rcv qid) us t = Some (rs, u)" "q_inv qid u"
    "chan_run 24 us [] = (rs, q_content qid u)" "q_room qid u = 24"
    using msgq.use_chan [OF c(1), of us] c(2,3) by auto
  have "\<exists>v. msg_send qid m u = Some (0, v) \<and> q_content qid v = q_content qid u" if "length (q_content qid u) = 24" for m
    using msgq.send_chan [OF u(2), of m] u(4) that by auto
  with u show ?thesis by blast
qed

definition q_start :: "nat msgq_sys" where
  "q_start = msg_Q_init \<lparr>Queue = replicate 10 \<lparr>q_name = [], q_max_msg = 0, q_size = 0, q_mpool_id = 0, q_flags = 0,
     q_list = [], q_cells = (\<lambda>_. 0)\<rparr>, q_mem = mem_init\<rparr>"

lemma q_start_fresh: "q_fresh q_start"
  by (auto simp: q_fresh_def q_start_def msg_Q_init_def mem_init_def mem_wf_def)

theorem msg_queue_refines_channel_witness:
  "\<exists>t u. msg_create_Q ''STPQ'' 100 40 True (Some 4096) True q_start = (9, t)
    \<and> use_run (msg_send 9) (msg_rcv 9) [QSend 7, QSend 8, QRcv] t = Some ([7], u) \<and> q_content 9 u = [8]"
proof -
  obtain t where t: "msg_create_Q ''STPQ'' 100 40 True (Some 4096) True q_start = (int 9, t)"
    by (simp add: msg_create_Q_def get_qid_def q_start_def msg_Q_init_def eval_nat_numeral mem_pool_create_def
        mem_init_def Let_def)
  from msg_queue_refines_channel [OF t q_start_fresh, of "[QSend 7, QSend 8, QRcv]"] t show ?thesis by auto
qed

end
