(* ===== verification/Stpmgr.thy ===== *)
theory Stpmgr
  imports Vlan Msg_Queue
begin

unbundle bit_operations_syntax

text \<open>
  The spanning tree manager of \<open>src/src/bridge/stpmgr_main.c\<close>: received frames and link events are put as
  messages on a queue, and one task takes them off and hands them to the protocol that runs on the vlan. A
  message is a block of the manager's pool, and the queue carries its address; a cell of the queue
  is a block of the queue's own pool. Both pools live in the same memory.
\<close>

section \<open>Data\<close>

text \<open>A packet as each of the two protocols reads it; the payload of a message is a packet or a number.\<close>

record wire_pkt =
  wp_stp :: stp_bpdu
  wp_rstp :: bstp_cbpdu

datatype payload = Pkt wire_pkt | Num int

record stp_msg =
  sm_type :: int
  sm_port :: int
  sm_vlanid :: int
  sm_len :: int
  sm_msg :: payload

record mgr_sys =
  mg_q :: "int msgq_sys"
  mg_cells :: "int \<Rightarrow> stp_msg"
  stp_Q_pool_id :: int
  stp_Q_id :: int
  mg_vlan :: vlan_sys

abbreviation (input) "STP_MSG_TYPE_BPDU \<equiv> 1 :: int"
abbreviation (input) "STP_MSG_TYPE_EVENTS \<equiv> 2 :: int"
abbreviation (input) "STP_MAX_MSG \<equiv> 100 :: int"

text \<open>\<open>sizeof (struct stp_msg)\<close>: four integers and a pointer.\<close>

abbreviation (input) "sizeof_stp_msg \<equiv> 24 :: nat"

section \<open>Operations\<close>

text \<open>The start of the manager, with what the allocator gave to the queue and to the pool.\<close>

definition stpmgr_init :: "bool \<Rightarrow> int option \<Rightarrow> bool \<Rightarrow> bool \<Rightarrow> int option \<Rightarrow> bool \<Rightarrow> mgr_sys \<Rightarrow> int \<times> mgr_sys" where
  "stpmgr_init q_mcb q_area q_blks got_mcb got_mem got_blks s =
    (case msg_create_Q ''STPQ'' STP_MAX_MSG (int sizeof_stp_msg) q_mcb q_area q_blks (mg_q s) of (qid, q) \<Rightarrow>
       let s = s\<lparr>stp_Q_id := qid, mg_q := q\<rparr> in
       if qid < 0 then (-1, s)
       else
         case mem_pool_create ''STPQ'' (100 * sizeof_stp_msg) STP_MAX_MSG got_mcb got_mem got_blks (q_mem q) of (pid, mem) \<Rightarrow>
           let s = s\<lparr>stp_Q_pool_id := pid, mg_q := q\<lparr>q_mem := mem\<rparr>\<rparr> in
           (if pid < 0 then -1 else 0, s))"

text \<open>The part that the two senders share: a block, its content, and the queue.\<close>

definition mgr_post :: "(stp_msg \<Rightarrow> stp_msg) \<Rightarrow> mgr_sys \<Rightarrow> (int \<times> mgr_sys) option" where
  "mgr_post fill s = do {
     (r, mem) \<leftarrow> alloc_block (stp_Q_pool_id s) (q_mem (mg_q s));
     let s = s\<lparr>mg_q := (mg_q s)\<lparr>q_mem := mem\<rparr>\<rparr>;
     case r of
       None \<Rightarrow> Some (-1, s)
     | Some a \<Rightarrow> do {
         let s = s\<lparr>mg_cells := (mg_cells s)(a := fill (mg_cells s a))\<rparr>;
         (r, q) \<leftarrow> msg_send (nat (stp_Q_id s)) a (mg_q s);
         Some (0, s\<lparr>mg_q := q\<rparr>) } }"

definition stp_rcv_bpdu :: "wire_pkt \<Rightarrow> int \<Rightarrow> int \<Rightarrow> int \<Rightarrow> mgr_sys \<Rightarrow> (int \<times> mgr_sys) option" where
  "stp_rcv_bpdu pkt port vlanid len = mgr_post (\<lambda>m. m\<lparr>sm_type := STP_MSG_TYPE_BPDU, sm_port := port,
     sm_vlanid := vlanid, sm_len := len, sm_msg := Pkt pkt\<rparr>)"

definition stp_send_event :: "int \<Rightarrow> int \<Rightarrow> int \<Rightarrow> mgr_sys \<Rightarrow> (int \<times> mgr_sys) option" where
  "stp_send_event event port vlanid = mgr_post (\<lambda>m. m\<lparr>sm_type := STP_MSG_TYPE_EVENTS, sm_port := port,
     sm_vlanid := vlanid, sm_msg := Num event\<rparr>)"

definition process_bpdu :: "vlan_env \<Rightarrow> wire_pkt \<Rightarrow> u16 \<Rightarrow> int \<Rightarrow> vlan_sys \<Rightarrow> (int \<times> vlan_sys) option" where
  "process_bpdu env bpdu port vlanid vs =
    (let stp_mode = vlan_get_this_bridge_stp_mode vlanid vs in
     if stp_mode = MODE_STP
     then map_option (\<lambda>(r, sy). (0, vs\<lparr>vl_stp := sy\<rparr>)) (stp_process_bpdu (vn_stp env) (wp_stp bpdu) port (vl_stp vs))
     else if stp_mode = MODE_RSTP
     then Some (0, vs\<lparr>vl_rstp := snd (rstp_process_bpdu (vn_rstp env) (wp_rstp bpdu) port (vl_rstp vs))\<rparr>)
     else Some (0, vs))"

definition stp_process_events :: "vlan_env \<Rightarrow> int \<Rightarrow> u8 \<Rightarrow> int \<Rightarrow> vlan_sys \<Rightarrow> (int \<times> vlan_sys) option" where
  "stp_process_events env port event vlanid vs =
    (let stp_mode = vlan_get_this_bridge_stp_mode vlanid vs in
     if stp_mode = MODE_STP
     then map_option (\<lambda>(r, sy). (0, vs\<lparr>vl_stp := sy\<rparr>))
            (stp_enable_or_disable_port (vn_stp env) (word_of_int port) (uint event) (vl_stp vs))
     else if stp_mode = MODE_RSTP
     then map_option (\<lambda>sys. (0, vs\<lparr>vl_rstp := sys\<rparr>))
            (rstp_enable_or_disable_port (vn_rstp env) (word_of_int port) (uint event) (vl_rstp vs))
     else Some (0, vs))"

definition handle_msg :: "vlan_env \<Rightarrow> stp_msg \<Rightarrow> vlan_sys \<Rightarrow> (int \<times> vlan_sys) option" where
  "handle_msg env m vs =
    (if sm_type m = STP_MSG_TYPE_BPDU
     then (case sm_msg m of Pkt p \<Rightarrow> process_bpdu env p (word_of_int (sm_port m)) (sm_vlanid m) vs | Num _ \<Rightarrow> None)
     else if sm_type m = STP_MSG_TYPE_EVENTS
     then (case sm_msg m of Num e \<Rightarrow> stp_process_events env (sm_port m) (word_of_int e) (sm_vlanid m) vs | Pkt _ \<Rightarrow> None)
     else Some (0, vs))"

text \<open>One round of the loop of \<open>stpmgr_task\<close>; a round that finds no message leaves the state alone.\<close>

definition stpmgr_task :: "vlan_env \<Rightarrow> mgr_sys \<Rightarrow> mgr_sys option" where
  "stpmgr_task env s = do {
     (r, q) \<leftarrow> msg_rcv (nat (stp_Q_id s)) (mg_q s);
     let s = s\<lparr>mg_q := q\<rparr>;
     case r of
       None \<Rightarrow> Some s
     | Some a \<Rightarrow> do {
         (r, vs) \<leftarrow> handle_msg env (mg_cells s a) (mg_vlan s);
         (r, mem) \<leftarrow> free_blk (stp_Q_pool_id s) a (q_mem (mg_q s));
         Some (s\<lparr>mg_vlan := vs, mg_q := (mg_q s)\<lparr>q_mem := mem\<rparr>\<rparr>) } }"

section \<open>What the pool and the queue hold\<close>

abbreviation mgr_queue :: "mgr_sys \<Rightarrow> int list" where
  "mgr_queue s \<equiv> q_content (nat (stp_Q_id s)) (mg_q s)"

abbreviation mgr_used :: "mgr_sys \<Rightarrow> int set" where
  "mgr_used s \<equiv> used_blks (stp_Q_pool_id s) (q_mem (mg_q s))"

abbreviation q_pool :: "mgr_sys \<Rightarrow> int" where
  "q_pool s \<equiv> q_mpool_id (Queue (mg_q s) ! nat (stp_Q_id s))"

definition msg_ok :: "stp_msg \<Rightarrow> bool" where
  "msg_ok m \<longleftrightarrow> (sm_type m = STP_MSG_TYPE_BPDU \<and> (\<exists>p. sm_msg m = Pkt p))
     \<or> (sm_type m = STP_MSG_TYPE_EVENTS \<and> (\<exists>e. sm_msg m = Num e))"

definition mgr_inv :: "mgr_sys \<Rightarrow> bool" where
  "mgr_inv s \<longleftrightarrow> q_inv (nat (stp_Q_id s)) (mg_q s) \<and> q_room (nat (stp_Q_id s)) (mg_q s) = 24
     \<and> pool_ok (stp_Q_pool_id s) (q_mem (mg_q s)) \<and> pool_cap (stp_Q_pool_id s) (q_mem (mg_q s)) = 100
     \<and> stp_Q_pool_id s \<noteq> q_pool s \<and> distinct (mgr_queue s) \<and> set (mgr_queue s) \<subseteq> mgr_used s
     \<and> (\<forall>a \<in> set (mgr_queue s). msg_ok (mg_cells s a))"

text \<open>Blocks in use that no message of the queue has.\<close>

definition lost :: "mgr_sys \<Rightarrow> int set" where
  "lost s = mgr_used s - set (mgr_queue s)"

lemma q_inv_mem:
  assumes "q_inv qid s" "pool_of (q_mpool_id (Queue s ! qid)) mem = pool_of (q_mpool_id (Queue s ! qid)) (q_mem s)" "mem_wf mem"
  shows "q_inv qid (s\<lparr>q_mem := mem\<rparr>)" "q_room qid (s\<lparr>q_mem := mem\<rparr>) = q_room qid s"
    "q_content qid (s\<lparr>q_mem := mem\<rparr>) = q_content qid s"
  using assms used_blks_cong [OF assms(2)] by (auto simp: q_inv_def q_room_def q_content_def pool_ok_def)

lemma msg_send_frame:
  assumes "q_inv qid s" "msg_send qid m s = Some (r, t)" "j \<noteq> q_mpool_id (Queue s ! qid)"
  shows "pool_of j (q_mem t) = pool_of j (q_mem s) \<and> q_mpool_id (Queue t ! qid) = q_mpool_id (Queue s ! qid) \<and> mem_wf (q_mem t)"
proof -
  define p where "p = q_mpool_id (Queue s ! qid)"
  have s: "qid < length (Queue s)" "pool_ok p (q_mem s)" using assms(1) by (auto simp: q_inv_def p_def)
  consider "alloc_block p (q_mem s) = Some (None, q_mem s)"
    | a mem where "alloc_block p (q_mem s) = Some (Some a, mem)" "pool_ok p mem" "\<forall>j. j \<noteq> p \<longrightarrow> pool_of j mem = pool_of j (q_mem s)"
    using alloc_block_full [OF s(2)] alloc_block_room [OF s(2)] pool.used_bounded [OF s(2)] le_neq_implies_less by metis
  then show ?thesis
    using assms(2,3) s by cases (auto simp: msg_send_def Let_def p_def [symmetric] pool_ok_def)
qed

lemma msg_rcv_frame:
  assumes "q_inv qid s" "msg_rcv qid s = Some (r, t)" "j \<noteq> q_mpool_id (Queue s ! qid)"
  shows "pool_of j (q_mem t) = pool_of j (q_mem s) \<and> q_mpool_id (Queue t ! qid) = q_mpool_id (Queue s ! qid) \<and> mem_wf (q_mem t)"
proof (cases "q_list (Queue s ! qid)")
  case Nil
  then show ?thesis using assms(1,2) by (auto simp: msg_rcv_def q_inv_def pool_ok_def)
next
  case (Cons a as)
  define p where "p = q_mpool_id (Queue s ! qid)"
  have s: "qid < length (Queue s)" "pool_ok p (q_mem s)" "a \<in> used_blks p (q_mem s)"
    using assms(1) Cons by (auto simp: q_inv_def p_def)
  from free_blk_used [OF s(2,3)] obtain mem where "free_blk p a (q_mem s) = Some (0, mem)" "pool_ok p mem"
    "\<forall>j. j \<noteq> p \<longrightarrow> pool_of j mem = pool_of j (q_mem s)" by blast
  then show ?thesis using assms(2,3) s Cons by (auto simp: msg_rcv_def Let_def p_def [symmetric] pool_ok_def)
qed

text \<open>What a sender does: a block and, when the queue has room, a message.\<close>

lemma post_refused:
  assumes "mgr_inv s" "card (mgr_used s) = 100"
  shows "mgr_post fill s = Some (-1, s)"
proof -
  have "alloc_block (stp_Q_pool_id s) (q_mem (mg_q s)) = Some (None, q_mem (mg_q s))"
    using assms by (intro alloc_block_full) (simp_all add: mgr_inv_def)
  then show ?thesis by (simp add: mgr_post_def Let_def)
qed

lemma post_taken:
  assumes "mgr_inv s" "card (mgr_used s) < 100" "\<And>m. msg_ok (fill m)"
  shows "\<exists>a t. mgr_post fill s = Some (0, t) \<and> mgr_inv t \<and> a \<notin> mgr_used s \<and> mgr_used t = insert a (mgr_used s)
    \<and> mgr_queue t = (if length (mgr_queue s) < 24 then mgr_queue s @ [a] else mgr_queue s)
    \<and> mg_cells t = (mg_cells s)(a := fill (mg_cells s a)) \<and> mg_vlan t = mg_vlan s"
proof -
  define P where "P = stp_Q_pool_id s"
  define k where "k = nat (stp_Q_id s)"
  define Q where "Q = q_mpool_id (Queue (mg_q s) ! k)"
  have i: "q_inv k (mg_q s)" "q_room k (mg_q s) = 24" "pool_ok P (q_mem (mg_q s))" "pool_cap P (q_mem (mg_q s)) = 100"
    "P \<noteq> Q" "distinct (mgr_queue s)" "set (mgr_queue s) \<subseteq> mgr_used s" "\<forall>a \<in> set (mgr_queue s). msg_ok (mg_cells s a)"
    using assms(1) by (simp_all add: mgr_inv_def P_def Q_def k_def)
  have "card (used_blks P (q_mem (mg_q s))) < pool_cap P (q_mem (mg_q s))" using assms(2) i(4) by (simp add: P_def)
  from alloc_block_room [OF i(3) this] obtain a mem where
    a: "alloc_block P (q_mem (mg_q s)) = Some (Some a, mem)" "pool_ok P mem" "a \<notin> used_blks P (q_mem (mg_q s))"
      "used_blks P mem = insert a (used_blks P (q_mem (mg_q s)))" "pool_cap P mem = 100"
      "\<forall>j. j \<noteq> P \<longrightarrow> pool_of j mem = pool_of j (q_mem (mg_q s))" using i(4) by auto
  define q1 where "q1 = (mg_q s)\<lparr>q_mem := mem\<rparr>"
  have "pool_of (q_mpool_id (Queue (mg_q s) ! k)) mem = pool_of (q_mpool_id (Queue (mg_q s) ! k)) (q_mem (mg_q s))"
    using a(6) i(5) by (auto simp: Q_def)
  note q1 = q_inv_mem [OF i(1) this, folded q1_def]
  have w: "mem_wf mem" using a(2) by (simp add: pool_ok_def)
  from msg_send_chan [OF q1(1) [OF w], of a] obtain q2 where q2: "msg_send k a q1 = Some (0, q2)" "q_inv k q2"
    "q_room k q2 = 24" "q_content k q2 = snd (chan_step 24 (QSend a) (q_content k (mg_q s)))"
    using q1(2,3) [OF w] i(2) by auto
  have "P \<noteq> q_mpool_id (Queue q1 ! k)" using i(5) by (simp add: q1_def Q_def)
  from msg_send_frame [OF q1(1) [OF w] q2(1) this] have f: "pool_of P (q_mem q2) = pool_of P mem"
    "q_mpool_id (Queue q2 ! k) = Q" "mem_wf (q_mem q2)" by (simp_all add: q1_def Q_def)
  define t where "t = s\<lparr>mg_cells := (mg_cells s)(a := fill (mg_cells s a)), mg_q := q2\<rparr>"
  have r: "mgr_post fill s = Some (0, t)"
    using a(1) q2(1) by (simp add: mgr_post_def Let_def P_def k_def q1_def t_def)
  have u: "mgr_used t = insert a (mgr_used s)" "pool_cap P (q_mem q2) = 100" "pool_ok P (q_mem q2)"
    using used_blks_cong [OF f(1)] a(2,4,5) f by (auto simp: t_def P_def pool_ok_def)
  have c: "mgr_queue t = (if length (mgr_queue s) < 24 then mgr_queue s @ [a] else mgr_queue s)"
    using q2(4) by (simp add: t_def k_def)
  have n: "a \<notin> mgr_used s" using a(3) by (simp add: P_def)
  have "mgr_inv t" unfolding mgr_inv_def c u(1)
    using q2(2,3) u(2,3) f(2) i(5-8) n assms(3) by (auto simp: t_def k_def [symmetric] P_def)
  with r n u(1) c show ?thesis by (intro exI [of _ a] exI [of _ t]) (simp add: t_def)
qed

text \<open>What the task does: nothing without a message, and otherwise the message is handled and its block freed.\<close>

lemma task_idle:
  assumes "mgr_inv s" "mgr_queue s = []"
  shows "stpmgr_task env s = Some s"
  using assms msg_rcv_chan [of "nat (stp_Q_id s)" "mg_q s"]
  by (auto simp: stpmgr_task_def mgr_inv_def msg_rcv_def q_content_def Let_def q_inv_def split: list.splits)

lemma task_handles:
  assumes "mgr_inv s" "mgr_queue s = a # as"
  shows "\<exists>t. mgr_inv t \<and> mgr_queue t = as \<and> mgr_used t = mgr_used s - {a} \<and> mg_cells t = mg_cells s \<and> mg_vlan t = mg_vlan s
    \<and> stpmgr_task env s = map_option (\<lambda>(r, vs). t\<lparr>mg_vlan := vs\<rparr>) (handle_msg env (mg_cells s a) (mg_vlan s))"
proof -
  define P where "P = stp_Q_pool_id s"
  define k where "k = nat (stp_Q_id s)"
  define Q where "Q = q_mpool_id (Queue (mg_q s) ! k)"
  have i: "q_inv k (mg_q s)" "q_room k (mg_q s) = 24" "pool_ok P (q_mem (mg_q s))" "pool_cap P (q_mem (mg_q s)) = 100"
    "P \<noteq> Q" "distinct (a # as)" "set (a # as) \<subseteq> used_blks P (q_mem (mg_q s))" "\<forall>b \<in> set (a # as). msg_ok (mg_cells s b)"
    using assms by (simp_all add: mgr_inv_def P_def Q_def k_def)
  from msg_rcv_chan [OF i(1)] assms(2) obtain q1 where q1: "msg_rcv k (mg_q s) = Some (Some a, q1)" "q_inv k q1"
    "q_room k q1 = 24" "q_content k q1 = as" using i(2) by (auto simp: k_def)
  from msg_rcv_frame [OF i(1) q1(1), of P] i(5) have f: "pool_of P (q_mem q1) = pool_of P (q_mem (mg_q s))"
    "q_mpool_id (Queue q1 ! k) = Q" "mem_wf (q_mem q1)" by (auto simp: Q_def)
  have p1: "pool_ok P (q_mem q1)" "used_blks P (q_mem q1) = used_blks P (q_mem (mg_q s))" "pool_cap P (q_mem q1) = 100"
    using used_blks_cong [OF f(1)] i(3,4) f by (auto simp: pool_ok_def)
  have "a \<in> used_blks P (q_mem q1)" using i(7) p1(2) by simp
  from free_blk_used [OF p1(1) this] obtain mem where m: "free_blk P a (q_mem q1) = Some (0, mem)" "pool_ok P mem"
    "used_blks P mem = used_blks P (q_mem q1) - {a}" "pool_cap P mem = 100" "\<forall>j. j \<noteq> P \<longrightarrow> pool_of j mem = pool_of j (q_mem q1)"
    using p1(3) by auto
  have "pool_of (q_mpool_id (Queue q1 ! k)) mem = pool_of (q_mpool_id (Queue q1 ! k)) (q_mem q1)" using m(5) i(5) f(2) by auto
  note q2 = q_inv_mem [OF q1(2) this]
  have w: "mem_wf mem" using m(2) by (simp add: pool_ok_def)
  define t where "t = s\<lparr>mg_q := q1\<lparr>q_mem := mem\<rparr>\<rparr>"
  have c: "mgr_queue t = as" "mgr_used t = mgr_used s - {a}"
    using q2(3) [OF w] q1(4) m(3) p1(2) by (simp_all add: t_def k_def P_def)
  have "mgr_inv t" unfolding mgr_inv_def c
    using q2(1,2) [OF w] q1(3) m(2,4) i(5-8) f(2) by (auto simp: t_def k_def [symmetric] P_def)
  moreover have "stpmgr_task env s = map_option (\<lambda>(r, vs). t\<lparr>mg_vlan := vs\<rparr>) (handle_msg env (mg_cells s a) (mg_vlan s))"
    using q1(1) m(1) by (cases "handle_msg env (mg_cells s a) (mg_vlan s)")
      (auto simp: stpmgr_task_def Let_def k_def P_def t_def)
  ultimately show ?thesis using c by (intro exI [of _ t]) (simp add: t_def)
qed

section \<open>Lost blocks\<close>

text \<open>A frame or a link event arrives, or the task makes a round.\<close>

datatype mgr_event = MBpdu wire_pkt int int int | MEvent int int int | MTask vlan_env

fun mgr_step :: "mgr_event \<Rightarrow> mgr_sys \<Rightarrow> (int \<times> mgr_sys) option" where
  "mgr_step (MBpdu pkt port vlanid len) s = stp_rcv_bpdu pkt port vlanid len s"
| "mgr_step (MEvent event port vlanid) s = stp_send_event event port vlanid s"
| "mgr_step (MTask env) s = map_option (Pair 0) (stpmgr_task env s)"

lemma used_le: "mgr_inv s \<Longrightarrow> card (mgr_used s) \<le> 100"
  using pool.used_bounded [of "stp_Q_pool_id s" "q_mem (mg_q s)"] by (simp add: mgr_inv_def)

lemma used_finite: "mgr_inv s \<Longrightarrow> finite (mgr_used s)"
  by (auto simp: mgr_inv_def pool_ok_def used_blks_def pool_used_def split: option.split)

lemma post_step:
  assumes "mgr_inv s" "mgr_post fill s = Some (r, t)" "\<And>m. msg_ok (fill m)"
  shows "mgr_inv t \<and> lost s \<subseteq> lost t \<and> mg_vlan t = mg_vlan s"
proof (cases "card (mgr_used s) = 100")
  case True
  with post_refused [OF assms(1)] assms(1,2) show ?thesis by simp
next
  case False
  then have "card (mgr_used s) < 100" using used_le [OF assms(1)] by simp
  from post_taken [OF assms(1) this, of fill] assms(2,3) obtain a where
    "mgr_inv t" "a \<notin> mgr_used s" "mgr_used t = insert a (mgr_used s)" "mg_vlan t = mg_vlan s"
    "mgr_queue t = (if length (mgr_queue s) < 24 then mgr_queue s @ [a] else mgr_queue s)" by auto
  then show ?thesis by (auto simp: lost_def)
qed

lemma bpdu_ok: "msg_ok (m\<lparr>sm_type := STP_MSG_TYPE_BPDU, sm_port := port, sm_vlanid := v, sm_len := len, sm_msg := Pkt p\<rparr>)"
  "msg_ok (m\<lparr>sm_type := STP_MSG_TYPE_EVENTS, sm_port := port, sm_vlanid := v, sm_msg := Num e\<rparr>)"
  by (simp_all add: msg_ok_def)

lemma mgr_inv_vlan [simp]: "mgr_inv (s\<lparr>mg_vlan := vs\<rparr>) = mgr_inv s" "lost (s\<lparr>mg_vlan := vs\<rparr>) = lost s"
  by (simp_all add: mgr_inv_def lost_def)

lemma mgr_step_lost:
  assumes "mgr_inv s" "mgr_step e s = Some (r, t)"
  shows "mgr_inv t \<and> lost s \<subseteq> lost t"
proof (cases e)
  case (MTask env)
  show ?thesis
  proof (cases "mgr_queue s")
    case Nil
    with task_idle [OF assms(1)] MTask assms show ?thesis by simp
  next
    case (Cons a as)
    from task_handles [OF assms(1) Cons, of env] obtain u where u: "mgr_inv u" "mgr_queue u = as" "mgr_used u = mgr_used s - {a}"
      "stpmgr_task env s = map_option (\<lambda>(r, vs). u\<lparr>mg_vlan := vs\<rparr>) (handle_msg env (mg_cells s a) (mg_vlan s))" by blast
    from assms(2) have "map_option (Pair 0) (stpmgr_task env s) = Some (r, t)" unfolding MTask by simp
    then obtain vs where "t = u\<lparr>mg_vlan := vs\<rparr>" unfolding u(4) by auto
    moreover have "lost s \<subseteq> lost u" unfolding lost_def u(2,3) Cons by auto
    ultimately show ?thesis using u(1) by simp
  qed
qed (use assms post_step [OF assms(1)] bpdu_ok in \<open>auto simp: stp_rcv_bpdu_def stp_send_event_def\<close>)

lemma mgr_run_lost: "mgr_inv s \<Longrightarrow> do_run mgr_step es s = Some (rs, t) \<Longrightarrow> mgr_inv t \<and> lost s \<subseteq> lost t"
proof (induction es arbitrary: s rs)
  case (Cons e es)
  from Cons.prems(2) obtain r u rs' where u: "mgr_step e s = Some (r, u)" "do_run mgr_step es u = Some (rs', t)"
    by (auto split: bind_splits)
  from mgr_step_lost [OF Cons.prems(1) u(1)] Cons.IH [OF _ u(2)] show ?case by blast
qed simp


section \<open>A manager that was just started\<close>

lemma stpmgr_init_inv:
  assumes "stpmgr_init True (Some a) True True (Some b) True s = (0, t)" "q_fresh (mg_q s)"
  shows "mgr_inv t" "mgr_queue t = []" "mgr_used t = {}" "mg_vlan t = mg_vlan s"
proof -
  obtain qid q where c: "msg_create_Q ''STPQ'' 100 24 True (Some a) True (mg_q s) = (qid, q)"
    by (cases "msg_create_Q ''STPQ'' 100 24 True (Some a) True (mg_q s)")
  obtain pid mem where p: "mem_pool_create ''STPQ'' 2400 100 True (Some b) True (q_mem q) = (pid, mem)"
    by (cases "mem_pool_create ''STPQ'' 2400 100 True (Some b) True (q_mem q)")
  have t: "0 \<le> qid" "0 \<le> pid" "t = s\<lparr>stp_Q_id := qid, stp_Q_pool_id := pid, mg_q := q\<lparr>q_mem := mem\<rparr>\<rparr>"
    using assms(1) c p by (auto simp: stpmgr_init_def Let_def split: if_splits)
  then have "msg_create_Q ''STPQ'' 100 24 True (Some a) True (mg_q s) = (int (nat qid), q)" using c by simp
  note q = create_inv [OF this assms(2)]
  have qi: "q_inv (nat qid) q" "q_content (nat qid) q = []" "q_room (nat qid) q = 24" by (simp_all add: q)
  then have w: "mem_wf (q_mem q)" "pool_of (q_mpool_id (Queue q ! nat qid)) (q_mem q) \<noteq> None"
    by (auto simp: q_inv_def pool_ok_def)
  define i where "i = mcb_count (q_mem q) + 1"
  have m: "pid = i" "pool_ok i mem" "used_blks i mem = {}" "pool_cap i mem = 100"
    "\<And>j. j \<noteq> i \<Longrightarrow> pool_of j mem = pool_of j (q_mem q)"
    using mem_pool_create_wf [of "q_mem q" 2400 100 mem "''STPQ''" b] p w(1) by (auto simp: i_def)
  have ne: "q_mpool_id (Queue q ! nat qid) \<noteq> i"
  proof -
    have "pool_of i (q_mem q) = None" using w(1) by (auto simp: pool_of_def i_def find_None_iff mem_wf_def)
    with w(2) show ?thesis by metis
  qed
  have "mem_wf mem" using m(2) by (simp add: pool_ok_def)
  from q_inv_mem [OF qi(1) m(5) [OF ne] this] qi m ne
  show "mgr_inv t" "mgr_queue t = []" "mgr_used t = {}" "mg_vlan t = mg_vlan s"
    by (auto simp: t(3) mgr_inv_def)
qed

end
