(* ===== verification/Hash_Lib.thy ===== *)
theory Hash_Lib
  imports Mem_Pool
begin

text \<open>
  The hash tables of \<open>src/src/lib/hashlib.c\<close>: an array of chains of entries, each entry a block of the
  table's memory pool with a copy of the key and a data pointer. The comparison and the index function
  are fields of the table, as in the code. A chain pointer that \<open>malloc\<close> left undetermined is \<open>None\<close>;
  following it, an index outside the array, and a released table are faults.

  A table whose comparison is equality and whose indices stay inside the array implements a finite
  map with as many places as it has buckets; the locale \<open>keyed_table\<close> is that contract.
\<close>

section \<open>Data\<close>

record 'd hentry =
  he_blk :: int
  he_key :: "u8 list"
  he_data :: 'd

record 'd hash_table =
  bucket_array :: "'d hentry list option list"
  hmem_pool_id :: int
  key_len :: nat
  nbuckets :: int
  nentries :: int
  cmp_func :: "u8 list \<Rightarrow> u8 list \<Rightarrow> int"
  hash_index_gen :: "u8 list \<Rightarrow> int"
  ht_released :: bool

section \<open>Operations\<close>

text \<open>
  \<open>create_hash_table\<close>: \<open>got_tbl\<close> is whether the table could be allocated, \<open>got_mcb\<close>, \<open>got_mem\<close> and
  \<open>got_blks\<close> are the answers for the pool, and \<open>raw\<close> is the array that \<open>malloc\<close> returned, in the state
  it returned it. When the array cannot be had the code releases the table and still returns it.
\<close>

definition create_hash_table :: "string \<Rightarrow> int \<Rightarrow> (u8 list \<Rightarrow> u8 list \<Rightarrow> int) \<Rightarrow> (u8 list \<Rightarrow> int) \<Rightarrow> nat \<Rightarrow> bool
    \<Rightarrow> bool \<Rightarrow> int option \<Rightarrow> bool \<Rightarrow> 'd hentry list option list option \<Rightarrow> mem_state
    \<Rightarrow> ('d hash_table option \<times> mem_state) option" where
  "create_hash_table hashname buckets cmp index_gen klen got_tbl got_mcb got_mem got_blks raw mem =
    (let buckets = (if buckets = 0 then 52 else buckets) in
     if \<not> got_tbl then Some (None, mem)
     else
       let (pid, mem) = mem_pool_create hashname (nat (8 * buckets)) buckets got_mcb got_mem got_blks mem;
           t = \<lparr>bucket_array = [], hmem_pool_id = pid, key_len = klen, nbuckets = buckets, nentries = 0,
                cmp_func = cmp, hash_index_gen = index_gen, ht_released = False\<rparr>
       in if pid < 0 then Some (None, mem)
          else case raw of
            None \<Rightarrow> map_option (\<lambda>(r, mem). (Some (t\<lparr>ht_released := True\<rparr>), mem)) (mem_pool_delete pid mem)
          | Some bs \<Rightarrow> Some (Some (t\<lparr>bucket_array := bs\<rparr>), mem))"

text \<open>The chain of a key: \<open>Some None\<close> when the index is refused.\<close>

definition chain_of :: "u8 list \<Rightarrow> 'd hash_table \<Rightarrow> (nat \<times> 'd hentry list) option option" where
  "chain_of key t =
    (let b = hash_index_gen t key in
     if ht_released t then None
     else if b > nbuckets t then Some None
     else if b < 0 \<or> nat b \<ge> length (bucket_array t) then None
     else map_option (\<lambda>es. Some (nat b, es)) (bucket_array t ! nat b))"

definition find_hash_entry :: "u8 list \<Rightarrow> 'd hash_table \<Rightarrow> 'd hentry option option" where
  "find_hash_entry key t = map_option (\<lambda>c. case c of None \<Rightarrow> None
     | Some (b, es) \<Rightarrow> find (\<lambda>e. cmp_func t (he_key e) key = 0) es) (chain_of key t)"

definition hash_tbl_lookup :: "u8 list \<Rightarrow> 'd hash_table \<Rightarrow> 'd option option" where
  "hash_tbl_lookup key t = map_option (map_option he_data) (find_hash_entry key t)"

text \<open>Unlinking the first entry of a chain with the key.\<close>

fun unlink :: "('d hentry \<Rightarrow> bool) \<Rightarrow> 'd hentry list \<Rightarrow> ('d hentry \<times> 'd hentry list) option" where
  "unlink P [] = None"
| "unlink P (e # es) = (if P e then Some (e, es) else map_option (\<lambda>(x, es). (x, e # es)) (unlink P es))"

definition hash_delete_entry :: "u8 list \<Rightarrow> ('d \<Rightarrow> mem_state \<Rightarrow> mem_state option) \<Rightarrow> 'd hash_table \<Rightarrow> mem_state
    \<Rightarrow> (int \<times> 'd hash_table \<times> mem_state) option" where
  "hash_delete_entry key free_data t mem = do {
     c \<leftarrow> chain_of key t;
     case c of
       None \<Rightarrow> Some (-1, t, mem)
     | Some (b, es) \<Rightarrow>
         (case unlink (\<lambda>e. cmp_func t (he_key e) key = 0) es of
            None \<Rightarrow> Some (-1, t, mem)
          | Some (e, es) \<Rightarrow> do {
              mem \<leftarrow> free_data (he_data e) mem;
              (r, mem) \<leftarrow> free_blk (hmem_pool_id t) (he_blk e) mem;
              Some (0, t\<lparr>bucket_array := (bucket_array t)[b := Some es], nentries := nentries t - 1\<rparr>, mem)
            })
   }"

text \<open>\<open>got_key\<close> is whether the copy of the key could be allocated; the code writes to it unchecked.\<close>

definition hash_add_entry :: "u8 list \<Rightarrow> 'd \<Rightarrow> bool \<Rightarrow> 'd hash_table \<Rightarrow> mem_state
    \<Rightarrow> (int \<times> 'd hash_table \<times> mem_state) option" where
  "hash_add_entry key d got_key t mem = do {
     f \<leftarrow> find_hash_entry key t;
     if f \<noteq> None then Some (0, t, mem)
     else do {
       c \<leftarrow> chain_of key t;
       case c of
         None \<Rightarrow> Some (-1, t, mem)
       | Some (b, es) \<Rightarrow> do {
           (r, mem) \<leftarrow> alloc_block (hmem_pool_id t) mem;
           case r of
             None \<Rightarrow> Some (-1, t, mem)
           | Some a \<Rightarrow>
               if \<not> got_key then None
               else Some (0, t\<lparr>bucket_array := (bucket_array t)[b := Some (es @ [\<lparr>he_blk = a,
                      he_key = take (key_len t) key, he_data = d\<rparr>])], nentries := nentries t + 1\<rparr>, mem)
         }
     }
   }"

definition hash_tbl_add :: "u8 list \<Rightarrow> 'd \<Rightarrow> bool \<Rightarrow> 'd hash_table \<Rightarrow> mem_state
    \<Rightarrow> (int \<times> 'd hash_table \<times> mem_state) option" where
  "hash_tbl_add key d got_key t mem =
     map_option (\<lambda>(r, x). (if r < 0 then -1 else 0, x)) (hash_add_entry key d got_key t mem)"

definition hash_tbl_delete :: "u8 list \<Rightarrow> ('d \<Rightarrow> mem_state \<Rightarrow> mem_state option) \<Rightarrow> 'd hash_table \<Rightarrow> mem_state
    \<Rightarrow> (int \<times> 'd hash_table \<times> mem_state) option" where
  "hash_tbl_delete key free_data t mem =
     map_option (\<lambda>(r, x). (if r < 0 then -1 else 0, x)) (hash_delete_entry key free_data t mem)"

text \<open>
  \<open>flush_hash_table\<close>: every data pointer is given to \<open>free_data\<close> and every block goes back to the pool.
\<close>

fun flush_chain :: "('d \<Rightarrow> mem_state \<Rightarrow> mem_state option) \<Rightarrow> int \<Rightarrow> 'd hentry list \<Rightarrow> mem_state \<Rightarrow> mem_state option" where
  "flush_chain free_data pid [] mem = Some mem"
| "flush_chain free_data pid (e # es) mem = do {
     mem \<leftarrow> free_data (he_data e) mem;
     (r, mem) \<leftarrow> free_blk pid (he_blk e) mem;
     flush_chain free_data pid es mem }"

fun flush_chains :: "('d \<Rightarrow> mem_state \<Rightarrow> mem_state option) \<Rightarrow> int \<Rightarrow> 'd hentry list option list \<Rightarrow> mem_state
    \<Rightarrow> mem_state option" where
  "flush_chains free_data pid [] mem = Some mem"
| "flush_chains free_data pid (c # cs) mem = do {
     es \<leftarrow> c;
     mem \<leftarrow> flush_chain free_data pid es mem;
     flush_chains free_data pid cs mem }"

definition flush_hash_table :: "('d \<Rightarrow> mem_state \<Rightarrow> mem_state option) \<Rightarrow> 'd hash_table \<Rightarrow> mem_state
    \<Rightarrow> ('d hash_table \<times> mem_state) option" where
  "flush_hash_table free_data t mem =
    (if ht_released t \<or> int (length (bucket_array t)) < nbuckets t then None
     else map_option (\<lambda>mem. (t\<lparr>bucket_array := replicate (nat (nbuckets t)) (Some [])
              @ drop (nat (nbuckets t)) (bucket_array t)\<rparr>, mem))
            (flush_chains free_data (hmem_pool_id t) (take (nat (nbuckets t)) (bucket_array t)) mem))"

definition destroy_hash_table :: "('d \<Rightarrow> mem_state \<Rightarrow> mem_state option) \<Rightarrow> 'd hash_table \<Rightarrow> mem_state
    \<Rightarrow> ('d hash_table \<times> mem_state) option" where
  "destroy_hash_table free_data t mem = do {
     (t, mem) \<leftarrow> flush_hash_table free_data t mem;
     (r, mem) \<leftarrow> mem_pool_delete (hmem_pool_id t) mem;
     Some (t, mem) }"

text \<open>
  \<open>hash_walk\<close> hands the data of every entry to the callback, slot by slot. The callback may delete the
  entry it was given: its block is only marked free and its link still leads to the next entry, so the
  entries of a slot are those it had when the walk came to it.
\<close>

fun walk_entries :: "('d \<Rightarrow> 's \<Rightarrow> 's option) \<Rightarrow> 'd hentry list \<Rightarrow> 's \<Rightarrow> 's option" where
  "walk_entries callback [] s = Some s"
| "walk_entries callback (e # es) s = callback (he_data e) s \<bind> walk_entries callback es"

fun walk_slots :: "('s \<Rightarrow> 'd hash_table) \<Rightarrow> ('d \<Rightarrow> 's \<Rightarrow> 's option) \<Rightarrow> nat list \<Rightarrow> int \<Rightarrow> 's \<Rightarrow> (int \<times> 's) option" where
  "walk_slots tbl callback [] n s = Some (n, s)"
| "walk_slots tbl callback (i # is) n s =
    (if ht_released (tbl s) \<or> i \<ge> length (bucket_array (tbl s)) then None
     else do {
       es \<leftarrow> bucket_array (tbl s) ! i;
       s \<leftarrow> walk_entries callback es s;
       walk_slots tbl callback is (n + int (length es)) s })"

definition hash_walk :: "('s \<Rightarrow> 'd hash_table) \<Rightarrow> ('d \<Rightarrow> 's \<Rightarrow> 's option) \<Rightarrow> 's \<Rightarrow> (int \<times> 's) option" where
  "hash_walk tbl callback s = walk_slots tbl callback [0..<nat (nbuckets (tbl s))] 0 s"

section \<open>Well-formed tables\<close>

definition ht_entries :: "'d hash_table \<Rightarrow> 'd hentry list" where
  "ht_entries t = concat (map the (bucket_array t))"

definition ht_chain :: "u8 list \<Rightarrow> 'd hash_table \<Rightarrow> 'd hentry list" where
  "ht_chain key t = the (bucket_array t ! nat (hash_index_gen t key))"

definition ht_map :: "'d hash_table \<Rightarrow> u8 list \<Rightarrow> 'd option" where
  "ht_map t key = (if length key = key_len t
     then map_option he_data (find (\<lambda>e. he_key e = key) (ht_chain key t)) else None)"

text \<open>What a user of the library provides: an index inside the array and a comparison for equality.\<close>

definition ht_fits :: "'d hash_table \<Rightarrow> bool" where
  "ht_fits t \<longleftrightarrow> (\<forall>k. length k = key_len t \<longrightarrow> 0 \<le> hash_index_gen t k \<and> hash_index_gen t k < nbuckets t)
     \<and> (\<forall>a b. length a = key_len t \<longrightarrow> length b = key_len t \<longrightarrow> cmp_func t a b = 0 \<longleftrightarrow> a = b)"

definition ht_wf :: "'d hash_table \<Rightarrow> bool" where
  "ht_wf t \<longleftrightarrow> ht_fits t \<and> \<not> ht_released t \<and> int (length (bucket_array t)) = nbuckets t
     \<and> (\<forall>i < length (bucket_array t). \<exists>es. bucket_array t ! i = Some es \<and> distinct (map he_key es)
          \<and> (\<forall>e \<in> set es. length (he_key e) = key_len t \<and> hash_index_gen t (he_key e) = int i))"

definition ht_inv :: "'d hash_table \<Rightarrow> mem_state \<Rightarrow> bool" where
  "ht_inv t mem \<longleftrightarrow> ht_wf t \<and> pool_ok (hmem_pool_id t) mem \<and> pool_cap (hmem_pool_id t) mem = nat (nbuckets t)
     \<and> distinct (map he_blk (ht_entries t)) \<and> set (map he_blk (ht_entries t)) = used_blks (hmem_pool_id t) mem
     \<and> nentries t = int (length (ht_entries t))"

lemma chain_of_wf:
  assumes "ht_wf t" "length key = key_len t"
  shows "chain_of key t = Some (Some (nat (hash_index_gen t key), ht_chain key t))"
    "bucket_array t ! nat (hash_index_gen t key) = Some (ht_chain key t)"
    "nat (hash_index_gen t key) < length (bucket_array t)"
    "distinct (map he_key (ht_chain key t))" "e \<in> set (ht_chain key t) \<Longrightarrow> length (he_key e) = key_len t"
    "e \<in> set (ht_chain key t) \<Longrightarrow> hash_index_gen t (he_key e) = hash_index_gen t key"
proof -
  have b: "0 \<le> hash_index_gen t key" "hash_index_gen t key < nbuckets t" "int (length (bucket_array t)) = nbuckets t"
    "\<not> ht_released t"
    using assms by (auto simp: ht_wf_def ht_fits_def)
  then show i: "nat (hash_index_gen t key) < length (bucket_array t)" by linarith
  then obtain es where es: "bucket_array t ! nat (hash_index_gen t key) = Some es" "distinct (map he_key es)"
    "\<forall>e \<in> set es. length (he_key e) = key_len t \<and> hash_index_gen t (he_key e) = int (nat (hash_index_gen t key))"
    using assms(1) unfolding ht_wf_def by blast
  then have c: "ht_chain key t = es" by (simp add: ht_chain_def)
  show "bucket_array t ! nat (hash_index_gen t key) = Some (ht_chain key t)" "distinct (map he_key (ht_chain key t))"
    using es c by simp_all
  show "e \<in> set (ht_chain key t) \<Longrightarrow> length (he_key e) = key_len t"
    "e \<in> set (ht_chain key t) \<Longrightarrow> hash_index_gen t (he_key e) = hash_index_gen t key"
    using es(3) b(1) c by auto
  show "chain_of key t = Some (Some (nat (hash_index_gen t key), ht_chain key t))"
    using b i es(1) c by (simp add: chain_of_def Let_def)
qed

lemma find_cong_set: "(\<And>x. x \<in> set xs \<Longrightarrow> P x = Q x) \<Longrightarrow> find P xs = find Q xs"
  by (induction xs) auto

lemma find_entry_wf:
  assumes "ht_wf t" "length key = key_len t"
  shows "find_hash_entry key t = Some (find (\<lambda>e. he_key e = key) (ht_chain key t))"
proof -
  have "(cmp_func t (he_key e) key = 0) = (he_key e = key)" if "e \<in> set (ht_chain key t)" for e
    using assms chain_of_wf(5) [OF assms that] by (auto simp: ht_wf_def ht_fits_def)
  then have "find (\<lambda>e. cmp_func t (he_key e) key = 0) (ht_chain key t) = find (\<lambda>e. he_key e = key) (ht_chain key t)"
    by (rule find_cong_set)
  then show ?thesis using chain_of_wf(1) [OF assms] by (simp add: find_hash_entry_def)
qed

lemma lookup_wf:
  "ht_wf t \<Longrightarrow> length key = key_len t \<Longrightarrow> hash_tbl_lookup key t = Some (ht_map t key)"
  by (simp add: hash_tbl_lookup_def find_entry_wf ht_map_def)

text \<open>Replacing the chain of a key.\<close>

definition with_chain :: "u8 list \<Rightarrow> 'd hentry list \<Rightarrow> int \<Rightarrow> 'd hash_table \<Rightarrow> 'd hash_table" where
  "with_chain key es n t = t\<lparr>bucket_array := (bucket_array t)[nat (hash_index_gen t key) := Some es], nentries := n\<rparr>"

lemma with_chain_fields [simp]:
  "hmem_pool_id (with_chain key es n t) = hmem_pool_id t" "key_len (with_chain key es n t) = key_len t"
  "nbuckets (with_chain key es n t) = nbuckets t" "hash_index_gen (with_chain key es n t) = hash_index_gen t"
  "cmp_func (with_chain key es n t) = cmp_func t" "nentries (with_chain key es n t) = n"
  "ht_fits (with_chain key es n t) = ht_fits t"
  by (simp_all add: with_chain_def ht_fits_def)

lemma with_chain_wf:
  assumes "ht_wf t" "length key = key_len t" "distinct (map he_key es)"
    and "\<And>e. e \<in> set es \<Longrightarrow> length (he_key e) = key_len t \<and> hash_index_gen t (he_key e) = hash_index_gen t key"
  shows "ht_wf (with_chain key es n t)"
proof -
  have "0 \<le> hash_index_gen t key" using assms(1,2) by (auto simp: ht_wf_def ht_fits_def)
  with assms(3,4) have new: "\<exists>es'. Some es = Some es' \<and> distinct (map he_key es') \<and> (\<forall>e \<in> set es'.
      length (he_key e) = key_len t \<and> hash_index_gen t (he_key e) = int (nat (hash_index_gen t key)))" by simp
  have "\<exists>es'. (bucket_array t)[nat (hash_index_gen t key) := Some es] ! i = Some es' \<and> distinct (map he_key es')
      \<and> (\<forall>e \<in> set es'. length (he_key e) = key_len t \<and> hash_index_gen t (he_key e) = int i)"
    if "i < length (bucket_array t)" for i
    using that new assms(1) by (cases "i = nat (hash_index_gen t key)") (simp_all add: ht_wf_def)
  with assms(1) show ?thesis unfolding ht_wf_def by (simp add: with_chain_def ht_fits_def)
qed

lemma with_chain_chain:
  assumes "ht_wf t" "length key = key_len t" "length k = key_len t"
  shows "ht_chain k (with_chain key es n t) = (if hash_index_gen t k = hash_index_gen t key then es else ht_chain k t)"
proof -
  have "0 \<le> hash_index_gen t k" "0 \<le> hash_index_gen t key" using assms by (auto simp: ht_wf_def ht_fits_def)
  then show ?thesis using chain_of_wf(3) [OF assms(1,2)]
    by (auto simp: ht_chain_def with_chain_def nth_list_update)
qed

lemma concat_update:
  assumes "i < length xs"
  shows "\<exists>us vs. concat xs = us @ xs ! i @ vs \<and> (\<forall>ys. concat (xs[i := ys]) = us @ ys @ vs)"
proof (intro exI conjI allI)
  show "concat xs = concat (take i xs) @ xs ! i @ concat (drop (Suc i) xs)"
    using arg_cong [OF id_take_nth_drop [OF assms], of concat] by simp
  show "concat (xs[i := ys]) = concat (take i xs) @ ys @ concat (drop (Suc i) xs)" for ys
    using assms by (simp add: upd_conv_take_nth_drop)
qed

lemma with_chain_entries:
  assumes "ht_wf t" "length key = key_len t"
  shows "\<exists>us vs. ht_entries t = us @ ht_chain key t @ vs
    \<and> (\<forall>es n. ht_entries (with_chain key es n t) = us @ es @ vs)"
proof -
  have "nat (hash_index_gen t key) < length (map the (bucket_array t))" using chain_of_wf(3) [OF assms] by simp
  from concat_update [OF this] show ?thesis
    using chain_of_wf(3) [OF assms] by (auto simp: ht_entries_def with_chain_def map_update ht_chain_def)
qed

lemma ht_map_with_chain:
  assumes "ht_wf t" "length key = key_len t"
    and "\<And>k. k \<noteq> key \<Longrightarrow> find (\<lambda>e. he_key e = k) es = find (\<lambda>e. he_key e = k) (ht_chain key t)"
  shows "ht_map (with_chain key es n t) = (ht_map t)(key := map_option he_data (find (\<lambda>e. he_key e = key) es))"
proof
  fix k
  have "ht_chain k t = ht_chain key t" if "hash_index_gen t k = hash_index_gen t key"
    using that by (simp add: ht_chain_def)
  then show "ht_map (with_chain key es n t) k =
      ((ht_map t)(key := map_option he_data (find (\<lambda>e. he_key e = key) es))) k"
    using assms with_chain_chain [OF assms(1,2)] by (cases "k = key") (auto simp: ht_map_def)
qed

section \<open>What the operations do on well-formed tables\<close>

lemma add_present:
  assumes "ht_wf t" "length key = key_len t" "ht_map t key \<noteq> None"
  shows "hash_tbl_add key d got t mem = Some (0, t, mem)"
  using assms by (auto simp: hash_tbl_add_def hash_add_entry_def find_entry_wf ht_map_def)

lemma ht_inv_card: "ht_inv t mem \<Longrightarrow> card (used_blks (hmem_pool_id t) mem) = length (ht_entries t)"
  by (metis ht_inv_def distinct_card length_map)

lemma add_full:
  assumes "ht_inv t mem" "length key = key_len t" "ht_map t key = None" "length (ht_entries t) = nat (nbuckets t)"
  shows "hash_tbl_add key d got t mem = Some (-1, t, mem)"
proof -
  have w: "ht_wf t" "pool_ok (hmem_pool_id t) mem" using assms(1) by (simp_all add: ht_inv_def)
  have "alloc_block (hmem_pool_id t) mem = Some (None, mem)"
    using assms(1,4) ht_inv_card [OF assms(1)] by (intro pool.alloc_full) (simp_all add: ht_inv_def)
  with assms(2,3) w chain_of_wf(1) [OF w(1) assms(2)] show ?thesis
    by (simp add: hash_tbl_add_def hash_add_entry_def find_entry_wf ht_map_def)
qed

lemma add_new:
  assumes "ht_inv t mem" "length key = key_len t" "ht_map t key = None" "length (ht_entries t) < nat (nbuckets t)"
  shows "\<exists>a mem' t'. hash_tbl_add key d True t mem = Some (0, t', mem') \<and> ht_inv t' mem'
    \<and> ht_map t' = (ht_map t)(key \<mapsto> d) \<and> length (ht_entries t') = Suc (length (ht_entries t))
    \<and> (\<forall>j. j \<noteq> hmem_pool_id t \<longrightarrow> pool_of j mem' = pool_of j mem)
    \<and> (\<exists>es n. t' = with_chain key es n t)
    \<and> (\<exists>us vs. ht_entries t = us @ vs \<and> ht_entries t' = us @ \<lparr>he_blk = a, he_key = key, he_data = d\<rparr> # vs)"
proof -
  define p where "p = hmem_pool_id t"
  have w: "ht_wf t" "pool_ok p mem" using assms(1) by (simp_all add: ht_inv_def p_def)
  note c = chain_of_wf [OF w(1) assms(2)]
  have f: "find (\<lambda>e. he_key e = key) (ht_chain key t) = None" using assms(2,3) by (simp add: ht_map_def)
  have "card (used_blks p mem) < pool_cap p mem"
    using assms(1,4) ht_inv_card [OF assms(1)] by (simp add: ht_inv_def p_def)
  from alloc_block_room [OF w(2) this] obtain a mem' where
    a: "alloc_block p mem = Some (Some a, mem')" "pool_ok p mem'" "a \<notin> used_blks p mem"
      "used_blks p mem' = insert a (used_blks p mem)" "pool_cap p mem' = pool_cap p mem"
      "\<forall>j. j \<noteq> p \<longrightarrow> pool_of j mem' = pool_of j mem" by blast
  define e where "e = \<lparr>he_blk = a, he_key = key, he_data = d\<rparr>"
  define t' where "t' = with_chain key (ht_chain key t @ [e]) (nentries t + 1) t"
  have r: "hash_tbl_add key d True t mem = Some (0, t', mem')"
    using f a(1) c(1) assms(2)
    by (simp add: hash_tbl_add_def hash_add_entry_def find_entry_wf [OF w(1) assms(2)] p_def e_def t'_def with_chain_def)
  have wf: "ht_wf t'" unfolding t'_def
    using c(4,5,6) f assms(2) by (intro with_chain_wf w(1)) (auto simp: e_def find_None_iff)
  obtain us vs where uv: "ht_entries t = us @ ht_chain key t @ vs" "ht_entries t' = us @ (ht_chain key t @ [e]) @ vs"
    using with_chain_entries [OF w(1) assms(2)] by (auto simp: t'_def)
  have "ht_inv t' mem'" using wf assms(1) a uv
    by (auto simp: ht_inv_def t'_def [symmetric] p_def [symmetric]) (auto simp: t'_def e_def p_def)
  moreover have "ht_map t' = (ht_map t)(key \<mapsto> d)"
    unfolding t'_def using f by (subst ht_map_with_chain [OF w(1) assms(2)]) (auto simp: find_append e_def split: option.split)
  ultimately show ?thesis using r a(6) uv
    by (intro exI [of _ a] exI [of _ mem'] exI [of _ t']) (auto simp: p_def t'_def e_def intro: exI [of _ "us @ ht_chain key t"])
qed

lemma unlink_None: "unlink P es = None \<longleftrightarrow> find P es = None"
  by (induction es) auto

lemma unlink_Some: "unlink P es = Some (e, fs) \<Longrightarrow> \<exists>us vs. es = us @ e # vs \<and> fs = us @ vs \<and> P e \<and> (\<forall>x \<in> set us. \<not> P x)"
proof (induction es arbitrary: fs)
  case (Cons x es)
  show ?case
  proof (cases "P x")
    case True
    with Cons.prems show ?thesis by (intro exI [of _ "[]"] exI [of _ es]) auto
  next
    case False
    with Cons.prems obtain gs where g: "unlink P es = Some (e, gs)" "fs = x # gs" by auto
    from Cons.IH [OF g(1)] obtain us vs where "es = us @ e # vs" "gs = us @ vs" "P e" "\<forall>y \<in> set us. \<not> P y" by blast
    with g(2) False show ?thesis by (intro exI [of _ "x # us"] exI [of _ vs]) auto
  qed
qed simp

lemma unlink_cong: "(\<And>x. x \<in> set xs \<Longrightarrow> P x = Q x) \<Longrightarrow> unlink P xs = unlink Q xs"
  by (induction xs) auto

lemma delete_unfold:
  assumes "ht_wf t" "length key = key_len t"
  shows "hash_delete_entry key free_data t mem =
    (case unlink (\<lambda>e. he_key e = key) (ht_chain key t) of
       None \<Rightarrow> Some (-1, t, mem)
     | Some (e, es) \<Rightarrow> do {
         mem \<leftarrow> free_data (he_data e) mem;
         (r, mem) \<leftarrow> free_blk (hmem_pool_id t) (he_blk e) mem;
         Some (0, with_chain key es (nentries t - 1) t, mem) })"
proof -
  have "unlink (\<lambda>e. cmp_func t (he_key e) key = 0) (ht_chain key t) = unlink (\<lambda>e. he_key e = key) (ht_chain key t)"
    using assms chain_of_wf(5) [OF assms] by (intro unlink_cong) (auto simp: ht_wf_def ht_fits_def)
  then show ?thesis using chain_of_wf(1) [OF assms]
    by (simp add: hash_delete_entry_def with_chain_def split: option.split prod.split)
qed

lemma delete_absent:
  assumes "ht_wf t" "length key = key_len t" "ht_map t key = None"
  shows "hash_tbl_delete key free_data t mem = Some (-1, t, mem)"
  using assms by (simp add: hash_tbl_delete_def delete_unfold ht_map_def unlink_None [THEN iffD2])

lemma drop_one:
  assumes "distinct (map f (us @ e # vs))"
  shows "distinct (map f (us @ vs))" "set (map f (us @ vs)) = set (map f (us @ e # vs)) - {f e}"
    "int (length (us @ vs)) = int (length (us @ e # vs)) - 1"
  using assms by auto

lemma delete_present:
  assumes "ht_inv t mem" "length key = key_len t" "ht_map t key = Some d"
    and "free_data d mem = Some m1" "mem_wf m1" "pool_of (hmem_pool_id t) m1 = pool_of (hmem_pool_id t) mem"
  shows "\<exists>t' mem'. hash_tbl_delete key free_data t mem = Some (0, t', mem') \<and> ht_inv t' mem'
    \<and> ht_map t' = (ht_map t)(key := None) \<and> Suc (length (ht_entries t')) = length (ht_entries t)
    \<and> (\<forall>j. j \<noteq> hmem_pool_id t \<longrightarrow> pool_of j mem' = pool_of j m1)
    \<and> (\<exists>es n. t' = with_chain key es n t)
    \<and> (\<exists>us vs e. ht_entries t = us @ e # vs \<and> ht_entries t' = us @ vs \<and> he_key e = key \<and> he_data e = d)"
proof -
  define p where "p = hmem_pool_id t"
  have w: "ht_wf t" "pool_ok p mem" using assms(1) by (simp_all add: ht_inv_def p_def)
  note c = chain_of_wf [OF w(1) assms(2)]
  obtain e es where u: "unlink (\<lambda>e. he_key e = key) (ht_chain key t) = Some (e, es)"
    using assms(2,3) unlink_None [of "\<lambda>e. he_key e = key" "ht_chain key t"] by (fastforce simp: ht_map_def)
  from unlink_Some [OF u] obtain xs ys where x: "ht_chain key t = xs @ e # ys" "es = xs @ ys" "he_key e = key"
    "\<forall>x \<in> set xs. he_key x \<noteq> key" by blast
  then have d: "he_data e = d" using assms(2,3) by (simp add: ht_map_def find_append) (auto split: option.splits simp: find_Some_iff)
  define t' where "t' = with_chain key es (nentries t - 1) t"
  obtain us vs where uv: "ht_entries t = us @ (xs @ e # ys) @ vs" "ht_entries t' = us @ (xs @ ys) @ vs"
    using with_chain_entries [OF w(1) assms(2)] x(1,2) by (auto simp: t'_def)
  have p1: "pool_ok p m1" "used_blks p m1 = used_blks p mem" "pool_cap p m1 = pool_cap p mem"
    using w(2) assms(5,6) used_blks_cong [of p m1 mem] by (auto simp: pool_ok_def p_def)
  have "he_blk e \<in> used_blks p m1" using assms(1) uv(1) p1(2) by (auto simp: ht_inv_def p_def)
  from free_blk_used [OF p1(1) this] obtain mem' where
    f: "free_blk p (he_blk e) m1 = Some (0, mem')" "pool_ok p mem'" "used_blks p mem' = used_blks p m1 - {he_blk e}"
      "pool_cap p mem' = pool_cap p m1" "\<forall>j. j \<noteq> p \<longrightarrow> pool_of j mem' = pool_of j m1" by blast
  have r: "hash_tbl_delete key free_data t mem = Some (0, t', mem')"
    using u d assms(4) f(1) by (simp add: hash_tbl_delete_def delete_unfold [OF w(1) assms(2)] p_def t'_def)
  have "ht_wf t'" unfolding t'_def
    using c(4,5,6) x(1,2) by (intro with_chain_wf w(1) assms(2)) auto
  moreover have b: "distinct (map he_blk ((us @ xs) @ e # (ys @ vs)))" "set (map he_blk ((us @ xs) @ e # (ys @ vs))) = used_blks p mem"
    "nentries t = int (length ((us @ xs) @ e # (ys @ vs)))" "pool_cap p mem = nat (nbuckets t)"
    using assms(1) uv(1) by (simp_all add: ht_inv_def p_def)
  moreover have "hmem_pool_id t' = p" "nbuckets t' = nbuckets t" "nentries t' = nentries t - 1"
    "ht_entries t' = (us @ xs) @ (ys @ vs)"
    using uv(2) by (simp_all add: t'_def p_def)
  ultimately have "ht_inv t' mem'"
    unfolding ht_inv_def using f(2-4) p1 drop_one [OF b(1)] by (simp only: b(2))
  moreover have "ht_map t' = (ht_map t)(key := None)"
  proof -
    have "key \<notin> he_key ` set ys" using c(4) x(1,3) by auto
    then have "find (\<lambda>e. he_key e = key) es = None" using x(2,4) by (auto simp: find_None_iff)
    then show ?thesis unfolding t'_def using x
      by (subst ht_map_with_chain [OF w(1) assms(2)]) (auto simp: find_append split: option.split)
  qed
  moreover have "\<exists>us vs e. ht_entries t = us @ e # vs \<and> ht_entries t' = us @ vs \<and> he_key e = key \<and> he_data e = d"
    using uv x(3) d by (intro exI [of _ "us @ xs"] exI [of _ "ys @ vs"] exI [of _ e]) simp
  moreover have "\<exists>es n. t' = with_chain key es n t" "Suc (length (ht_entries t')) = length (ht_entries t)"
    using uv by (auto simp: t'_def)
  ultimately show ?thesis using r f(5) unfolding p_def by blast
qed

section \<open>The contract of a table\<close>

lemma entries_by_slot:
  assumes "ht_wf t" "n \<le> length (bucket_array t)"
  shows "distinct (map he_key (concat (map the (take n (bucket_array t)))))
    \<and> (\<forall>e \<in> set (concat (map the (take n (bucket_array t)))). length (he_key e) = key_len t
        \<and> e \<in> set (ht_chain (he_key e) t) \<and> hash_index_gen t (he_key e) < int n)"
  using assms(2)
proof (induction n)
  case (Suc n)
  then have n: "n < length (bucket_array t)" by simp
  then obtain es where es: "bucket_array t ! n = Some es" "distinct (map he_key es)"
    "\<forall>e \<in> set es. length (he_key e) = key_len t \<and> hash_index_gen t (he_key e) = int n"
    using assms(1) unfolding ht_wf_def by blast
  then have "\<forall>e \<in> set es. e \<in> set (ht_chain (he_key e) t)" by (simp add: ht_chain_def)
  with Suc es n show ?case by (fastforce simp: take_Suc_conv_app_nth)
qed simp

lemma entries_wf:
  assumes "ht_wf t"
  shows "distinct (map he_key (ht_entries t))" "dom (ht_map t) = he_key ` set (ht_entries t)"
proof -
  note e = entries_by_slot [OF assms order_refl]
  show "distinct (map he_key (ht_entries t))" using e by (simp add: ht_entries_def)
  have sub: "set (ht_chain k t) \<subseteq> set (ht_entries t)" if "length k = key_len t" for k
    using with_chain_entries [OF assms that] by auto
  show "dom (ht_map t) = he_key ` set (ht_entries t)"
  proof (intro equalityI subsetI)
    fix k assume "k \<in> dom (ht_map t)"
    then obtain x where l: "length k = key_len t" and x: "find (\<lambda>e. he_key e = k) (ht_chain k t) = Some x"
      by (auto simp: ht_map_def split: if_splits)
    from x have "x \<in> set (ht_chain k t)" "he_key x = k" by (auto simp: find_Some_iff)
    with sub [OF l] show "k \<in> he_key ` set (ht_entries t)" by blast
  next
    fix k assume "k \<in> he_key ` set (ht_entries t)"
    then obtain x where "x \<in> set (ht_entries t)" "k = he_key x" by blast
    with e have "length k = key_len t" "x \<in> set (ht_chain k t)" by (auto simp: ht_entries_def)
    with \<open>k = he_key x\<close> have "find (\<lambda>e. he_key e = k) (ht_chain k t) \<noteq> None" by (auto simp: find_None_iff)
    with \<open>length k = key_len t\<close> show "k \<in> dom (ht_map t)" by (auto simp: ht_map_def)
  qed
qed

lemma card_dom_map: "ht_wf t \<Longrightarrow> card (dom (ht_map t)) = length (ht_entries t)"
  by (metis distinct_card entries_wf length_map set_map)

lemma dom_map_finite: "ht_wf t \<Longrightarrow> finite (dom (ht_map t))"
  by (simp add: entries_wf)

text \<open>Uses of a table, and what they do to the abstract map with \<open>n\<close> places.\<close>

datatype ('k, 'v) t_use = TAdd 'k 'v | TDel 'k | TGet 'k

fun tab_step :: "nat \<Rightarrow> ('k, 'v) t_use \<Rightarrow> ('k \<Rightarrow> 'v option) \<Rightarrow> (int \<times> 'v option) \<times> ('k \<Rightarrow> 'v option)" where
  "tab_step n (TAdd k v) m = (if m k \<noteq> None then ((0, None), m)
     else if card (dom m) < n then ((0, None), m(k \<mapsto> v)) else ((-1, None), m))"
| "tab_step n (TDel k) m = (if m k = None then ((-1, None), m) else ((0, None), m(k := None)))"
| "tab_step n (TGet k) m = ((0, m k), m)"

fun tab_run :: "nat \<Rightarrow> ('k, 'v) t_use list \<Rightarrow> ('k \<Rightarrow> 'v option) \<Rightarrow> (int \<times> 'v option) list \<times> ('k \<Rightarrow> 'v option)" where
  "tab_run n [] m = ([], m)"
| "tab_run n (u # us) m = (case tab_step n u m of (r, m) \<Rightarrow> case tab_run n us m of (rs, m) \<Rightarrow> (r # rs, m))"

fun t_key :: "('k, 'v) t_use \<Rightarrow> 'k" where
  "t_key (TAdd k v) = k" | "t_key (TDel k) = k" | "t_key (TGet k) = k"

locale keyed_table =
  fixes step :: "('k, 'v) t_use \<Rightarrow> 's \<Rightarrow> ((int \<times> 'v option) \<times> 's) option"
    and inv :: "'s \<Rightarrow> bool"
    and content :: "'s \<Rightarrow> 'k \<Rightarrow> 'v option"
    and places :: "'s \<Rightarrow> nat"
    and key_ok :: "'s \<Rightarrow> 'k \<Rightarrow> bool"
  assumes step_tab: "inv s \<Longrightarrow> key_ok s (t_key u) \<Longrightarrow> \<exists>r t. step u s = Some (r, t) \<and> inv t \<and> places t = places s
      \<and> key_ok t = key_ok s \<and> tab_step (places s) u (content s) = (r, content t)"
begin

lemma run_tab:
  assumes "inv s" "\<forall>u \<in> set us. key_ok s (t_key u)"
  shows "\<exists>rs t. do_run step us s = Some (rs, t) \<and> inv t \<and> tab_run (places s) us (content s) = (rs, content t)"
  using assms
proof (induction us arbitrary: s)
  case (Cons u us)
  from Cons.prems step_tab [of s u] obtain r t where t: "step u s = Some (r, t)" "inv t" "places t = places s"
    "key_ok t = key_ok s" "tab_step (places s) u (content s) = (r, content t)" by auto
  with Cons.IH [of t] Cons.prems show ?case by (auto split: prod.split)
qed simp

end

text \<open>The uses of a hash table whose data needs no release of its own.\<close>

fun ht_step :: "(u8 list, 'd) t_use \<Rightarrow> 'd hash_table \<times> mem_state
    \<Rightarrow> ((int \<times> 'd option) \<times> 'd hash_table \<times> mem_state) option" where
  "ht_step (TAdd k d) (t, mem) = map_option (\<lambda>(r, s). ((r, None), s)) (hash_tbl_add k d True t mem)"
| "ht_step (TDel k) (t, mem) = map_option (\<lambda>(r, s). ((r, None), s)) (hash_tbl_delete k (\<lambda>d mem. Some mem) t mem)"
| "ht_step (TGet k) (t, mem) = map_option (\<lambda>d. ((0, d), t, mem)) (hash_tbl_lookup k t)"

lemma ht_step_tab:
  assumes "ht_inv t mem" "length (t_key u) = key_len t"
  shows "\<exists>r t' mem'. ht_step u (t, mem) = Some (r, t', mem') \<and> ht_inv t' mem' \<and> nbuckets t' = nbuckets t
    \<and> key_len t' = key_len t \<and> tab_step (nat (nbuckets t)) u (ht_map t) = (r, ht_map t')"
proof -
  have w: "ht_wf t" "mem_wf mem" using assms(1) by (simp_all add: ht_inv_def pool_ok_def)
  have b: "length (ht_entries t) \<le> nat (nbuckets t)"
    using assms(1) ht_inv_card [OF assms(1)] pool.used_bounded [of "hmem_pool_id t" mem] by (simp add: ht_inv_def)
  show ?thesis
  proof (cases u)
    case (TAdd k d)
    consider "ht_map t k \<noteq> None" | "ht_map t k = None" "length (ht_entries t) = nat (nbuckets t)"
      | "ht_map t k = None" "length (ht_entries t) < nat (nbuckets t)" using b by linarith
    then show ?thesis
    proof cases
      case 1
      with TAdd assms add_present [OF w(1)] show ?thesis by fastforce
    next
      case 2
      with TAdd assms add_full [OF assms(1)] card_dom_map [OF w(1)] show ?thesis by simp
    next
      case 3
      from TAdd assms(2) add_new [OF assms(1) _ 3, of d] obtain t' mem' es n where
        "hash_tbl_add k d True t mem = Some (0, t', mem')" "ht_inv t' mem'" "ht_map t' = (ht_map t)(k \<mapsto> d)"
        "t' = with_chain k es n t" by auto
      with TAdd 3 card_dom_map [OF w(1)] show ?thesis by auto
    qed
  next
    case (TDel k)
    show ?thesis
    proof (cases "ht_map t k")
      case None
      with TDel assms delete_absent [OF w(1)] show ?thesis by simp
    next
      case (Some d)
      from TDel assms(2) delete_present [OF assms(1) _ Some _ w(2), of "\<lambda>d mem. Some mem"] obtain t' mem' es n where
        "hash_tbl_delete k (\<lambda>d mem. Some mem) t mem = Some (0, t', mem')" "ht_inv t' mem'"
        "ht_map t' = (ht_map t)(k := None)" "t' = with_chain k es n t" by auto
      with TDel Some show ?thesis by auto
    qed
  next
    case (TGet k)
    with assms lookup_wf [OF w(1)] show ?thesis by simp
  qed
qed

lemma ht_step_pair:
  assumes "ht_inv (fst s) (snd s)" "length (t_key u) = key_len (fst s)"
  shows "\<exists>r t. ht_step u s = Some (r, t) \<and> ht_inv (fst t) (snd t) \<and> nat (nbuckets (fst t)) = nat (nbuckets (fst s))
    \<and> (\<lambda>k. length k = key_len (fst t)) = (\<lambda>k. length (k :: u8 list) = key_len (fst s))
    \<and> tab_step (nat (nbuckets (fst s))) u (ht_map (fst s)) = (r, ht_map (fst t))"
proof -
  from ht_step_tab [OF assms] obtain r t' mem' where "ht_step u s = Some (r, t', mem')" "ht_inv t' mem'"
    "nbuckets t' = nbuckets (fst s)" "key_len t' = key_len (fst s)"
    "tab_step (nat (nbuckets (fst s))) u (ht_map (fst s)) = (r, ht_map t')" by auto
  then show ?thesis by (intro exI [of _ r] exI [of _ "(t', mem')"]) simp
qed

interpretation ht: keyed_table ht_step "\<lambda>s. ht_inv (fst s) (snd s)" "\<lambda>s. ht_map (fst s)"
  "\<lambda>s. nat (nbuckets (fst s))" "\<lambda>s k. length k = key_len (fst s)"
  by unfold_locales (rule ht_step_pair)

section \<open>A new table\<close>

lemma create_inv_table:
  assumes "create_hash_table name n cmp idx klen True True (Some a) True (Some (replicate (nat n) (Some []))) mem = Some (Some t, mem')"
    and "mem_wf mem" "0 < n" "n < 2 ^ 13"
    and "\<forall>k. length k = klen \<longrightarrow> 0 \<le> idx k \<and> idx k < n"
    and "\<forall>a b. length a = klen \<longrightarrow> length b = klen \<longrightarrow> cmp a b = 0 \<longleftrightarrow> a = b"
  shows "ht_inv t mem'" "ht_map t = (\<lambda>_. None)" "nbuckets t = n" "key_len t = klen"
    "hmem_pool_id t = mcb_count mem + 1" "mcb_count mem' = mcb_count mem + 1"
    "\<And>j. j \<noteq> mcb_count mem + 1 \<Longrightarrow> pool_of j mem' = pool_of j mem" "ht_entries t = []"
    "hash_index_gen t = idx" "cmp_func t = cmp"
proof -
  define i where "i = mcb_count mem + 1"
  obtain pid m where c: "mem_pool_create name (nat (8 * n)) n True (Some a) True mem = (pid, m)"
    by (cases "mem_pool_create name (nat (8 * n)) n True (Some a) True mem")
  have "n * n < 2 ^ 13 * 2 ^ 13" using assms(3,4) by (intro mult_strict_mono) auto
  then have "int (nat (8 * n)) * n < 2 ^ 31 - 8" "int (nat (8 * n)) * n mod 8 = 0" "nat (8 * n) < 2 ^ 31" "0 < nat (8 * n)"
    using assms(3,4) by auto
  then have m: "pid = i" "pool_ok i m" "used_blks i m = {}" "pool_cap i m = nat n" "mcb_count m = i"
    "\<And>j. j \<noteq> i \<Longrightarrow> pool_of j m = pool_of j mem"
    using mem_pool_create_wf [of mem "nat (8 * n)" n m name a] c assms(2,3) by (auto simp: i_def)
  have "mem' = m" and t: "t = \<lparr>bucket_array = replicate (nat n) (Some []), hmem_pool_id = pid, key_len = klen, nbuckets = n,
      nentries = 0, cmp_func = cmp, hash_index_gen = idx, ht_released = False\<rparr>"
    using assms(1,3) c by (auto simp: create_hash_table_def Let_def split: if_splits)
  moreover have "ht_wf t" using assms(3,5,6) by (simp add: ht_wf_def ht_fits_def t)
  moreover have e: "ht_entries t = []" by (simp add: ht_entries_def t)
  ultimately show "ht_inv t mem'" "nbuckets t = n" "key_len t = klen"
    "hmem_pool_id t = mcb_count mem + 1" "mcb_count mem' = mcb_count mem + 1"
    "\<And>j. j \<noteq> mcb_count mem + 1 \<Longrightarrow> pool_of j mem' = pool_of j mem"  "ht_entries t = []"
    "hash_index_gen t = idx" "cmp_func t = cmp"
    using m by (simp_all add: ht_inv_def i_def)
  show "ht_map t = (\<lambda>_. None)" using entries_wf(2) [OF \<open>ht_wf t\<close>] e by auto
qed



end
