(* ===== verification/Fdb.thy ===== *)
theory Fdb
  imports Hash_Lib Jhash Stp_Ops
begin

unbundle bit_operations_syntax

text \<open>
  The forwarding database of \<open>src/src/bridge/fdb.c\<close>: stations learned on the ports of the bridge, kept
  in a hash table of blocks from a memory pool and aged out by a timer. The table holds addresses of
  \<open>fdb_t\<close> blocks; \<open>fdb_heap\<close> is the content of the blocks. The comparison is \<open>compare_ether_addr\<close> of
  \<open>src/src/bridge/stp/stp_main.c\<close>, the index function is salted with a global that is set once.

  The database implements the abstract station table \<open>stn_step\<close>: a finite map from addresses to
  stations with 1024 places, in which a station moves when it is seen on another port, is refreshed when it
  is seen again, and disappears at the first ageing scan at or after its expiry.
\<close>

section \<open>Data\<close>

record fdb_t =
  mac_addr :: macaddress
  fdb_vlan_id :: u16
  fdb_port :: int
  fdb_status :: u32
  is_static :: int
  expiry :: u32

record fdb_sys =
  fdb_hash_table :: "int hash_table option"
  fdb_heap :: "int \<Rightarrow> fdb_t"
  fdb_salt :: u32
  fdb_pool_id :: int
  ageing_timer :: "tmr_view option"
  tp_aging_time :: int
  tp_learned_discards :: u32
  fdb_mem :: mem_state

abbreviation (input) "MAX_FDB_ENTRIES \<equiv> 1024 :: int"
abbreviation (input) "FDB_HASH_SIZE \<equiv> 1024 :: int"
abbreviation (input) "DEFAULT_AGING_TIME_OUT \<equiv> 5 * 60 :: int"
abbreviation (input) "FDB_LEARNED \<equiv> 3 :: u32"

text \<open>\<open>sizeof (fdb_t)\<close>: the six bytes of the address, the vlan and four words.\<close>

abbreviation (input) "sizeof_fdb \<equiv> 24 :: nat"

section \<open>Operations\<close>

text \<open>Three 16-bit words compared at once; the answer is zero for equal addresses.\<close>

definition compare_ether_addr :: "u8 list \<Rightarrow> u8 list \<Rightarrow> int" where
  "compare_ether_addr a b =
    (let w = (\<lambda>k i. le16 (k ! (2 * i)) (k ! (2 * i + 1)))
     in if (w a 0 XOR w b 0) OR (w a 1 XOR w b 1) OR (w a 2 XOR w b 2) \<noteq> 0 then 1 else 0)"

definition fdb_mac_hash :: "u32 \<Rightarrow> u8 list \<Rightarrow> int" where
  "fdb_mac_hash salt mac =
    (let key = le32 (mac ! 2) (mac ! 3) (mac ! 4) (mac ! 5)
     in uint (jhash_1word key salt AND 1023))"

definition fdb_free_entry :: "int \<Rightarrow> int \<Rightarrow> mem_state \<Rightarrow> mem_state option" where
  "fdb_free_entry pid fdb mem = map_option snd (free_blk pid fdb mem)"

text \<open>
  What the allocator and the clock answer to \<open>fdb_init\<close>: the hash table, its pool and its array, the
  pool of entries, the timer, and the value of \<open>times\<close>.
\<close>

record fdb_answers =
  fa_tbl :: bool
  fa_hash_mcb :: bool
  fa_hash_mem :: "int option"
  fa_hash_blks :: bool
  fa_buckets :: "int hentry list option list option"
  fa_mcb :: bool
  fa_mem :: "int option"
  fa_blks :: bool
  fa_timer :: bool
  fa_times :: u32

text \<open>
  The index function of the table reads the global \<open>fdb_salt\<close>, so assigning the salt changes the
  function that the table holds.
\<close>

definition fdb_init :: "stp_env \<Rightarrow> fdb_answers \<Rightarrow> fdb_sys \<Rightarrow> (int \<times> fdb_sys) option" where
  "fdb_init env ans s =
    (let s = s\<lparr>tp_aging_time := DEFAULT_AGING_TIME_OUT, tp_learned_discards := 0\<rparr> in
     do {
       (h, mem) \<leftarrow> create_hash_table ''FDBH'' FDB_HASH_SIZE compare_ether_addr (fdb_mac_hash (fdb_salt s)) 6
          (fa_tbl ans) (fa_hash_mcb ans) (fa_hash_mem ans) (fa_hash_blks ans) (fa_buckets ans) (fdb_mem s);
       let s = s\<lparr>fdb_hash_table := h, fdb_mem := mem\<rparr>;
       case h of
         None \<Rightarrow> Some (-1, s)
       | Some t \<Rightarrow>
           let (pid, mem) = mem_pool_create ''FDB'' (1024 * sizeof_fdb) MAX_FDB_ENTRIES
                 (fa_mcb ans) (fa_mem ans) (fa_blks ans) mem;
               s = s\<lparr>fdb_pool_id := pid, fdb_mem := mem\<rparr>
           in if pid < 0 then do {
                (t, mem) \<leftarrow> destroy_hash_table (fdb_free_entry pid) t mem;
                Some (-1, s\<lparr>fdb_hash_table := Some t, fdb_mem := mem\<rparr>) }
              else
                let s = s\<lparr>fdb_salt := fa_times ans,
                          fdb_hash_table := Some (t\<lparr>hash_index_gen := fdb_mac_hash (fa_times ans)\<rparr>),
                          ageing_timer := (if fa_timer ans then Some tv_new else ageing_timer s)\<rparr>
                in Some (0, s\<lparr>ageing_timer := map_option (stp_mod env (word_of_int (tp_aging_time s))) (ageing_timer s)\<rparr>)
     })"

definition fdb_lookup :: "macaddress \<Rightarrow> fdb_sys \<Rightarrow> int option option" where
  "fdb_lookup mac s = (case fdb_hash_table s of
     None \<Rightarrow> Some None
   | Some t \<Rightarrow> hash_tbl_lookup (mac_bytes mac) t)"

text \<open>\<open>got_key\<close> is whether the table could copy the key.\<close>

definition fdb_add_entry :: "u32 \<Rightarrow> bool \<Rightarrow> macaddress \<Rightarrow> int \<Rightarrow> int \<Rightarrow> fdb_sys \<Rightarrow> (int \<times> fdb_sys) option" where
  "fdb_add_entry secs got_key mac portno static s = do {
     (r, mem) \<leftarrow> alloc_block (fdb_pool_id s) (fdb_mem s);
     let s = s\<lparr>fdb_mem := mem\<rparr>;
     case r of
       None \<Rightarrow> Some (-1, s)
     | Some a \<Rightarrow>
         let s = s\<lparr>fdb_heap := (fdb_heap s)(a := (fdb_heap s a)\<lparr>mac_addr := mac, fdb_port := portno,
                fdb_status := FDB_LEARNED, is_static := static, expiry := secs + word_of_int (tp_aging_time s)\<rparr>)\<rparr>
         in case fdb_hash_table s of
              None \<Rightarrow> Some (-1, s)
            | Some t \<Rightarrow> do {
                (r, t, mem) \<leftarrow> hash_tbl_add (mac_bytes (mac_addr (fdb_heap s a))) a got_key t (fdb_mem s);
                Some (r, s\<lparr>fdb_hash_table := Some t, fdb_mem := mem\<rparr>) }
   }"

text \<open>\<open>learning\<close> is \<open>stp_is_mac_learning_allowed\<close> on the spanning tree as it is at the time of the call.\<close>

definition mac_address_update :: "u32 \<Rightarrow> bool \<Rightarrow> (u32 \<Rightarrow> bool option) \<Rightarrow> macaddress \<Rightarrow> u32 \<Rightarrow> fdb_sys \<Rightarrow> (int \<times> fdb_sys) option" where
  "mac_address_update secs got_key learning mac port_no s = do {
     ok \<leftarrow> learning port_no;
     if \<not> ok then Some (0, s)
     else do {
       p \<leftarrow> fdb_lookup mac s;
       case p of
         Some a \<Rightarrow>
           if is_static (fdb_heap s a) \<noteq> 0 then Some (0, s)
           else
             let e = fdb_heap s a;
                 e = (if fdb_port e \<noteq> sint port_no then e\<lparr>fdb_port := sint port_no\<rparr> else e);
                 e = e\<lparr>expiry := secs + word_of_int (tp_aging_time s)\<rparr>
             in Some (0, s\<lparr>fdb_heap := (fdb_heap s)(a := e)\<rparr>)
       | None \<Rightarrow> do {
           (r, s) \<leftarrow> fdb_add_entry secs got_key mac (sint port_no) 0 s;
           Some (if r \<noteq> 0 then (-1, s\<lparr>tp_learned_discards := tp_learned_discards s + 1\<rparr>) else (0, s)) }
     }
   }"

definition fdb_delete_entry :: "macaddress \<Rightarrow> fdb_sys \<Rightarrow> (int \<times> fdb_sys) option" where
  "fdb_delete_entry mac s = (case fdb_hash_table s of
     None \<Rightarrow> Some (-1, s)
   | Some t \<Rightarrow> do {
       (r, t, mem) \<leftarrow> hash_tbl_delete (mac_bytes mac) (fdb_free_entry (fdb_pool_id s)) t (fdb_mem s);
       Some (r, s\<lparr>fdb_hash_table := Some t, fdb_mem := mem\<rparr>) })"

definition delete_age_out_entires :: "u32 \<Rightarrow> int \<Rightarrow> fdb_sys \<Rightarrow> fdb_sys option" where
  "delete_age_out_entires secs p s =
    (if expiry (fdb_heap s p) \<le> secs then map_option snd (fdb_delete_entry (mac_addr (fdb_heap s p)) s) else Some s)"

definition aging_timer_expired :: "stp_env \<Rightarrow> u32 \<Rightarrow> fdb_sys \<Rightarrow> fdb_sys option" where
  "aging_timer_expired env secs s = do {
     _ \<leftarrow> fdb_hash_table s;
     (n, s) \<leftarrow> hash_walk (\<lambda>s. the (fdb_hash_table s)) (delete_age_out_entires secs) s;
     Some (s\<lparr>ageing_timer := map_option (stp_mod env (word_of_int (tp_aging_time s))) (ageing_timer s)\<rparr>)
   }"

text \<open>The remaining time that the table listing shows: an unsigned difference is never negative.\<close>

definition display_age :: "u32 \<Rightarrow> fdb_t \<Rightarrow> u32" where
  "display_age secs p = (if expiry p - secs < 0 then 0 else expiry p - secs)"

definition display_fdb_entry :: "u32 \<Rightarrow> fdb_t \<Rightarrow> int \<times> u8 list \<times> string \<times> int" where
  "display_fdb_entry secs p =
    (fdb_port p, mac_bytes (mac_addr p), if is_static p \<noteq> 0 then ''static'' else ''dynamic'', sint (display_age secs p))"

definition show_mac_table :: "u32 \<Rightarrow> fdb_sys \<Rightarrow> ((int \<times> u8 list \<times> string \<times> int) list \<times> int) option" where
  "show_mac_table secs s = do {
     t \<leftarrow> fdb_hash_table s;
     (n, out) \<leftarrow> hash_walk (\<lambda>_. t) (\<lambda>p out. Some (out @ [display_fdb_entry secs (fdb_heap s p)])) [];
     Some (out, sint (tp_learned_discards s)) }"

section \<open>The comparison and the index function are fit for a table\<close>

lemma le16_inject [simp]: "le16 a b = le16 c d \<longleftrightarrow> a = c \<and> b = d"
  by (metis byte_le16)

lemma xor_zero [simp]: "a XOR b = 0 \<longleftrightarrow> a = (b :: 'a::len word)"
  by (metis bit.xor_left_self xor.right_neutral xor_self_eq)

lemma six_bytes: "length k = 6 \<Longrightarrow> \<exists>a b c d e f. k = [a, b, c, d, e, f]"
  by (auto simp: numeral_eq_Suc length_Suc_conv)

lemma compare_ether_addr_eq:
  assumes "length a = 6" "length b = 6"
  shows "compare_ether_addr a b = 0 \<longleftrightarrow> a = b"
  using six_bytes [OF assms(1)] six_bytes [OF assms(2)]
  by (auto simp: compare_ether_addr_def Let_def numeral_eq_Suc)

lemma fdb_mac_hash_range: "0 \<le> fdb_mac_hash salt k \<and> fdb_mac_hash salt k < 1024"
proof -
  have "jhash_1word (le32 (k ! 2) (k ! 3) (k ! 4) (k ! 5)) salt AND 1023 \<le> 1023" by (rule word_and_le1)
  then have "uint (jhash_1word (le32 (k ! 2) (k ! 3) (k ! 4) (k ! 5)) salt AND 1023) \<le> 1023"
    by (simp add: word_le_def)
  then show ?thesis by (simp add: fdb_mac_hash_def Let_def)
qed

lemma mac_bytes_onto: "length k = 6 \<Longrightarrow> \<exists>m. k = mac_bytes m"
  using six_bytes [of k] mac_bytes.simps by metis

section \<open>The invariant\<close>

definition fdb_ok :: "int hash_table \<Rightarrow> fdb_sys \<Rightarrow> bool" where
  "fdb_ok t s \<longleftrightarrow> ht_inv t (fdb_mem s) \<and> key_len t = 6 \<and> nbuckets t = FDB_HASH_SIZE
     \<and> pool_ok (fdb_pool_id s) (fdb_mem s) \<and> pool_cap (fdb_pool_id s) (fdb_mem s) = 1024
     \<and> fdb_pool_id s \<noteq> hmem_pool_id t
     \<and> distinct (map he_data (ht_entries t)) \<and> set (map he_data (ht_entries t)) = used_blks (fdb_pool_id s) (fdb_mem s)
     \<and> (\<forall>e \<in> set (ht_entries t). mac_bytes (mac_addr (fdb_heap s (he_data e))) = he_key e)"

definition fdb_inv :: "fdb_sys \<Rightarrow> bool" where
  "fdb_inv s \<longleftrightarrow> (\<exists>t. fdb_hash_table s = Some t \<and> fdb_ok t s)"

lemma chain_entries: "ht_wf t \<Longrightarrow> length k = key_len t \<Longrightarrow> set (ht_chain k t) \<subseteq> set (ht_entries t)"
  using with_chain_entries by fastforce

lemma ht_map_entry:
  assumes "ht_wf t" "ht_map t k = Some d"
  shows "\<exists>e \<in> set (ht_entries t). he_key e = k \<and> he_data e = d"
proof -
  have l: "length k = key_len t" using assms(2) by (auto simp: ht_map_def split: if_splits)
  with assms(2) obtain e where f: "find (\<lambda>e. he_key e = k) (ht_chain k t) = Some e" "he_data e = d"
    by (auto simp: ht_map_def)
  from f(1) have "e \<in> set (ht_chain k t)" "he_key e = k" by (auto simp: find_Some_iff)
  with f(2) chain_entries [OF assms(1) l] show ?thesis by blast
qed

lemma fdb_delete_present:
  assumes "fdb_hash_table s = Some t" "fdb_ok t s" "ht_map t (mac_bytes mac) = Some a"
  shows "\<exists>t' mem. fdb_delete_entry mac s = Some (0, s\<lparr>fdb_hash_table := Some t', fdb_mem := mem\<rparr>)
    \<and> fdb_ok t' (s\<lparr>fdb_hash_table := Some t', fdb_mem := mem\<rparr>) \<and> ht_map t' = (ht_map t)(mac_bytes mac := None)
    \<and> (\<exists>es n. t' = with_chain (mac_bytes mac) es n t)"
proof -
  define p where "p = fdb_pool_id s"
  have i: "ht_inv t (fdb_mem s)" "key_len t = 6" "pool_ok p (fdb_mem s)" "p \<noteq> hmem_pool_id t" "ht_wf t"
    "distinct (map he_data (ht_entries t))" "set (map he_data (ht_entries t)) = used_blks p (fdb_mem s)"
    "\<forall>e \<in> set (ht_entries t). mac_bytes (mac_addr (fdb_heap s (he_data e))) = he_key e"
    using assms(2) by (auto simp: fdb_ok_def ht_inv_def p_def)
  have "a \<in> used_blks p (fdb_mem s)" using ht_map_entry [OF i(5) assms(3)] i(7) by auto
  from free_blk_used [OF i(3) this] obtain m1 where
    m: "free_blk p a (fdb_mem s) = Some (0, m1)" "pool_ok p m1" "used_blks p m1 = used_blks p (fdb_mem s) - {a}"
      "pool_cap p m1 = pool_cap p (fdb_mem s)" "\<forall>j. j \<noteq> p \<longrightarrow> pool_of j m1 = pool_of j (fdb_mem s)" by blast
  have "fdb_free_entry p a (fdb_mem s) = Some m1" "mem_wf m1" "pool_of (hmem_pool_id t) m1 = pool_of (hmem_pool_id t) (fdb_mem s)"
    using m i(4) by (auto simp: fdb_free_entry_def pool_ok_def)
  from delete_present [where free_data = "fdb_free_entry p", OF i(1) _ assms(3) this] i(2) obtain t' mem es n us vs e where
    d: "hash_tbl_delete (mac_bytes mac) (fdb_free_entry p) t (fdb_mem s) = Some (0, t', mem)" "ht_inv t' mem"
      "ht_map t' = (ht_map t)(mac_bytes mac := None)" "\<forall>j. j \<noteq> hmem_pool_id t \<longrightarrow> pool_of j mem = pool_of j m1"
      "t' = with_chain (mac_bytes mac) es n t" "ht_entries t = us @ e # vs" "ht_entries t' = us @ vs" "he_data e = a"
    by auto
  have pm: "pool_of p mem = pool_of p m1" using d(4) i(4) by simp
  then have p2: "pool_ok p mem" "used_blks p mem = used_blks p (fdb_mem s) - {a}" "pool_cap p mem = pool_cap p (fdb_mem s)"
    using m(2-4) d(2) used_blks_cong [OF pm] by (auto simp: pool_ok_def ht_inv_def)
  have "distinct (map he_data (us @ e # vs))" using i(6) d(6) by simp
  note o = drop_one [OF this]
  have "fdb_ok t' (s\<lparr>fdb_hash_table := Some t', fdb_mem := mem\<rparr>)"
    unfolding fdb_ok_def using assms(2) d(2,5) p2 i(7,8) d(6-8) o(1,2)
    by (simp add: fdb_ok_def p_def [symmetric])
  with d(1,3,5) assms(1) show ?thesis
    by (intro exI [of _ t'] exI [of _ mem]) (auto simp: fdb_delete_entry_def p_def)
qed

lemma fdb_used:
  assumes "fdb_ok t s"
  shows "card (used_blks (fdb_pool_id s) (fdb_mem s)) = length (ht_entries t)"
  using assms unfolding fdb_ok_def by (metis distinct_card length_map)

lemma fdb_add_full:
  assumes "fdb_ok t s" "length (ht_entries t) = 1024"
  shows "fdb_add_entry secs got mac port st s = Some (-1, s)"
proof -
  have "alloc_block (fdb_pool_id s) (fdb_mem s) = Some (None, fdb_mem s)"
    using assms fdb_used [OF assms(1)] by (intro alloc_block_full) (simp_all add: fdb_ok_def)
  then show ?thesis by (simp add: fdb_add_entry_def Let_def)
qed

abbreviation new_fdb :: "u32 \<Rightarrow> macaddress \<Rightarrow> int \<Rightarrow> int \<Rightarrow> int \<Rightarrow> fdb_sys \<Rightarrow> fdb_t" where
  "new_fdb secs mac port st a s \<equiv> (fdb_heap s a)\<lparr>mac_addr := mac, fdb_port := port, fdb_status := FDB_LEARNED,
     is_static := st, expiry := secs + word_of_int (tp_aging_time s)\<rparr>"

lemma fdb_add_new:
  assumes "fdb_hash_table s = Some t" "fdb_ok t s" "ht_map t (mac_bytes mac) = None" "length (ht_entries t) < 1024"
  shows "\<exists>a t' mem s'. fdb_add_entry secs True mac port st s = Some (0, s') \<and> fdb_ok t' s'
    \<and> s' = s\<lparr>fdb_heap := (fdb_heap s)(a := new_fdb secs mac port st a s), fdb_hash_table := Some t', fdb_mem := mem\<rparr>
    \<and> ht_map t' = (ht_map t)(mac_bytes mac \<mapsto> a) \<and> a \<notin> ran (ht_map t)"
proof -
  define p where "p = fdb_pool_id s"
  have i: "ht_inv t (fdb_mem s)" "key_len t = 6" "pool_ok p (fdb_mem s)" "p \<noteq> hmem_pool_id t" "ht_wf t"
    "set (map he_data (ht_entries t)) = used_blks p (fdb_mem s)" "nbuckets t = 1024"
    "pool_cap p (fdb_mem s) = 1024"
    using assms(2) by (auto simp: fdb_ok_def ht_inv_def p_def)
  have "card (used_blks p (fdb_mem s)) < pool_cap p (fdb_mem s)"
    using i(8) assms(4) fdb_used [OF assms(2)] by (simp add: p_def)
  from alloc_block_room [OF i(3) this] obtain a m1 where
    m: "alloc_block p (fdb_mem s) = Some (Some a, m1)" "pool_ok p m1" "a \<notin> used_blks p (fdb_mem s)"
      "used_blks p m1 = insert a (used_blks p (fdb_mem s))" "pool_cap p m1 = pool_cap p (fdb_mem s)"
      "\<forall>j. j \<noteq> p \<longrightarrow> pool_of j m1 = pool_of j (fdb_mem s)" by blast
  have pc: "pool_of (hmem_pool_id t) m1 = pool_of (hmem_pool_id t) (fdb_mem s)" using m(6) i(4) by simp
  have i1: "ht_inv t m1"
    using i(1) m(2) used_blks_cong [OF pc] pc by (simp add: ht_inv_def pool_ok_def)
  have "length (mac_bytes mac) = key_len t" "length (ht_entries t) < nat (nbuckets t)" using i(2,7) assms(4) by simp_all
  from add_new [OF i1 this(1) assms(3) this(2), of a] obtain b mem t' us vs es n where
    d: "hash_tbl_add (mac_bytes mac) a True t m1 = Some (0, t', mem)" "ht_inv t' mem"
      "ht_map t' = (ht_map t)(mac_bytes mac \<mapsto> a)" "\<forall>j. j \<noteq> hmem_pool_id t \<longrightarrow> pool_of j mem = pool_of j m1"
      "t' = with_chain (mac_bytes mac) es n t" "ht_entries t = us @ vs"
      "ht_entries t' = us @ \<lparr>he_blk = b, he_key = mac_bytes mac, he_data = a\<rparr> # vs" by blast
  define s' where "s' = s\<lparr>fdb_heap := (fdb_heap s)(a := new_fdb secs mac port st a s), fdb_hash_table := Some t', fdb_mem := mem\<rparr>"
  have pm: "pool_of p mem = pool_of p m1" using d(4) i(4) by simp
  then have p2: "pool_ok p mem" "used_blks p mem = insert a (used_blks p (fdb_mem s))" "pool_cap p mem = 1024"
    using m(2,4,5) i(8) d(2) used_blks_cong [OF pm] by (auto simp: pool_ok_def ht_inv_def)
  have new: "a \<notin> he_data ` set (us @ vs)" using m(3) i(6) d(6) by auto
  have "fdb_ok t' s'"
    unfolding fdb_ok_def using assms(2) d(2,5) p2 new i(4,7) unfolding s'_def d(6,7) fdb_ok_def
    by (auto simp: p_def)
  moreover have "fdb_add_entry secs True mac port st s = Some (0, s')"
    using m(1) d(1) assms(1) by (simp add: fdb_add_entry_def p_def Let_def s'_def)
  moreover have "a \<notin> ran (ht_map t)" using new ht_map_entry [OF i(5)] d(6) by (fastforce simp: ran_def)
  ultimately show ?thesis using d(3) s'_def by blast
qed

section \<open>The ageing scan\<close>

text \<open>An entry has expired; the part of a database that a scan leaves alone.\<close>

definition old :: "u32 \<Rightarrow> fdb_sys \<Rightarrow> int \<Rightarrow> bool" where
  "old secs s a \<longleftrightarrow> expiry (fdb_heap s a) \<le> secs"

definition scanned :: "int hash_table \<Rightarrow> fdb_sys \<Rightarrow> int hash_table \<Rightarrow> fdb_sys \<Rightarrow> bool" where
  "scanned t s t' s' \<longleftrightarrow> fdb_ok t' s' \<and> (\<exists>mem. s' = s\<lparr>fdb_hash_table := Some t', fdb_mem := mem\<rparr>)
     \<and> hash_index_gen t' = hash_index_gen t \<and> length (bucket_array t') = length (bucket_array t)"

lemma scanned_refl: "fdb_hash_table s = Some t \<Longrightarrow> fdb_ok t s \<Longrightarrow> scanned t s t s"
  by (auto simp: scanned_def intro!: exI [of _ "fdb_mem s"])

lemma scanned_trans: "scanned t s t' s' \<Longrightarrow> scanned t' s' t'' s'' \<Longrightarrow> scanned t s t'' s''"
  by (auto simp: scanned_def)

lemma scanned_same:
  "scanned t s t' s' \<Longrightarrow> fdb_heap s' = fdb_heap s" "scanned t s t' s' \<Longrightarrow> fdb_hash_table s' = Some t'"
  "scanned t s t' s' \<Longrightarrow> fdb_ok t' s'" "scanned t s t' s' \<Longrightarrow> hash_index_gen t' = hash_index_gen t"
  "scanned t s t' s' \<Longrightarrow> old secs s' = old secs s" "scanned t s t' s' \<Longrightarrow> tp_aging_time s' = tp_aging_time s"
  "scanned t s t' s' \<Longrightarrow> tp_learned_discards s' = tp_learned_discards s" "scanned t s t' s' \<Longrightarrow> ageing_timer s' = ageing_timer s"
  "scanned t s t' s' \<Longrightarrow> fdb_pool_id s' = fdb_pool_id s" "scanned t s t' s' \<Longrightarrow> length (bucket_array t') = length (bucket_array t)"
  by (auto simp: scanned_def old_def fun_eq_iff)

lemma age_one:
  assumes "fdb_hash_table s = Some t" "fdb_ok t s" "ht_map t k = Some a"
  shows "\<exists>t' s'. delete_age_out_entires secs a s = Some s' \<and> scanned t s t' s'
    \<and> ht_map t' = (if old secs s a then (ht_map t)(k := None) else ht_map t)
    \<and> (\<forall>j. int j \<noteq> hash_index_gen t k \<longrightarrow> bucket_array t' ! j = bucket_array t ! j)"
proof (cases "old secs s a")
  case True
  have w: "ht_wf t" using assms(2) by (simp add: fdb_ok_def ht_inv_def)
  define mac where "mac = mac_addr (fdb_heap s a)"
  have k: "mac_bytes mac = k" using ht_map_entry [OF w assms(3)] assms(2) by (auto simp: fdb_ok_def mac_def)
  with fdb_delete_present [OF assms(1,2), of mac a] assms(3) obtain t' mem es n where
    d: "fdb_delete_entry mac s = Some (0, s\<lparr>fdb_hash_table := Some t', fdb_mem := mem\<rparr>)"
      "fdb_ok t' (s\<lparr>fdb_hash_table := Some t', fdb_mem := mem\<rparr>)" "ht_map t' = (ht_map t)(k := None)"
      "t' = with_chain k es n t" by blast
  have "0 \<le> hash_index_gen t k" using w k assms(2) by (auto simp: ht_wf_def ht_fits_def fdb_ok_def)
  with d have "scanned t s t' (s\<lparr>fdb_hash_table := Some t', fdb_mem := mem\<rparr>)"
    "\<forall>j. int j \<noteq> hash_index_gen t k \<longrightarrow> bucket_array t' ! j = bucket_array t ! j"
    by (auto simp: scanned_def with_chain_def)
  with d(1,3) True show ?thesis
    by (intro exI [of _ t'] exI [of _ "s\<lparr>fdb_hash_table := Some t', fdb_mem := mem\<rparr>"])
       (simp add: delete_age_out_entires_def old_def mac_def)
next
  case False
  then show ?thesis using scanned_refl [OF assms(1,2)]
    by (intro exI [of _ t] exI [of _ s]) (simp add: delete_age_out_entires_def old_def)
qed

lemma find_distinct_key: "distinct (map f es) \<Longrightarrow> e \<in> set es \<Longrightarrow> find (\<lambda>x. f x = f e) es = Some e"
  by (induction es) (auto simp: image_iff)

lemma age_chain:
  assumes "fdb_hash_table s = Some t" "fdb_ok t s" "distinct (map he_key es)"
    and "\<forall>e \<in> set es. ht_map t (he_key e) = Some (he_data e) \<and> hash_index_gen t (he_key e) = int i"
  shows "\<exists>t' s'. walk_entries (delete_age_out_entires secs) es s = Some s' \<and> scanned t s t' s'
    \<and> ht_map t' = (\<lambda>k. if \<exists>e \<in> set es. he_key e = k \<and> old secs s (he_data e) then None else ht_map t k)
    \<and> (\<forall>j. j \<noteq> i \<longrightarrow> bucket_array t' ! j = bucket_array t ! j)"
  using assms
proof (induction es arbitrary: s t)
  case Nil
  then show ?case using scanned_refl by (intro exI [of _ t] exI [of _ s]) auto
next
  case (Cons e es)
  from age_one [OF Cons.prems(1,2), of "he_key e" "he_data e" secs] Cons.prems(4) obtain t1 s1 where
    o: "delete_age_out_entires secs (he_data e) s = Some s1" "scanned t s t1 s1"
      "ht_map t1 = (if old secs s (he_data e) then (ht_map t)(he_key e := None) else ht_map t)"
      "\<forall>j. j \<noteq> i \<longrightarrow> bucket_array t1 ! j = bucket_array t ! j" by auto
  note s1 = scanned_same [OF o(2)]
  have "\<forall>x \<in> set es. he_key x \<noteq> he_key e" using Cons.prems(3) by (auto simp: image_iff)
  then have "\<forall>x \<in> set es. ht_map t1 (he_key x) = Some (he_data x) \<and> hash_index_gen t1 (he_key x) = int i"
    using Cons.prems(4) o(3) s1(4) by auto
  from Cons.IH [OF s1(2,3) _ this] Cons.prems(3) obtain t2 s2 where
    r: "walk_entries (delete_age_out_entires secs) es s1 = Some s2" "scanned t1 s1 t2 s2"
      "ht_map t2 = (\<lambda>k. if \<exists>e \<in> set es. he_key e = k \<and> old secs s1 (he_data e) then None else ht_map t1 k)"
      "\<forall>j. j \<noteq> i \<longrightarrow> bucket_array t2 ! j = bucket_array t1 ! j" by auto
  have "ht_map t2 = (\<lambda>k. if \<exists>x \<in> set (e # es). he_key x = k \<and> old secs s (he_data x) then None else ht_map t k)"
    using r(3) o(3) s1(5) by (auto simp: fun_eq_iff)
  with r o scanned_trans [OF o(2) r(2)] show ?case by (intro exI [of _ t2] exI [of _ s2]) simp
qed

lemma age_slots:
  assumes "fdb_hash_table s = Some t" "fdb_ok t s" "distinct is" "\<forall>i \<in> set is. i < length (bucket_array t)"
  shows "\<exists>t' s' m. walk_slots (\<lambda>s. the (fdb_hash_table s)) (delete_age_out_entires secs) is n s = Some (m, s')
    \<and> scanned t s t' s'
    \<and> ht_map t' = (\<lambda>k. if nat (hash_index_gen t k) \<in> set is \<and> (\<exists>a. ht_map t k = Some a \<and> old secs s a)
         then None else ht_map t k)"
  using assms
proof (induction "is" arbitrary: s t n)
  case Nil
  then show ?case using scanned_refl [OF Nil(1,2)] by (intro exI [of _ t] exI [of _ s] exI [of _ n]) auto
next
  case (Cons i "is")
  have w: "ht_wf t" using Cons.prems(2) by (simp add: fdb_ok_def ht_inv_def)
  have i: "i < length (bucket_array t)" using Cons.prems(4) by simp
  then obtain es where es: "bucket_array t ! i = Some es" "distinct (map he_key es)"
    "\<forall>e \<in> set es. length (he_key e) = key_len t \<and> hash_index_gen t (he_key e) = int i"
    using w unfolding ht_wf_def by blast
  have c: "ht_chain k t = es" if "nat (hash_index_gen t k) = i" for k using es(1) that by (simp add: ht_chain_def)
  have hit: "ht_map t (he_key e) = Some (he_data e)" if "e \<in> set es" for e
    using that es c [of "he_key e"] find_distinct_key [OF es(2) that] by (simp add: ht_map_def)
  from age_chain [OF Cons.prems(1,2) es(2), of i secs] es(3) hit obtain t1 s1 where
    o: "walk_entries (delete_age_out_entires secs) es s = Some s1" "scanned t s t1 s1"
      "ht_map t1 = (\<lambda>k. if \<exists>e \<in> set es. he_key e = k \<and> old secs s (he_data e) then None else ht_map t k)"
      "\<forall>j. j \<noteq> i \<longrightarrow> bucket_array t1 ! j = bucket_array t ! j" by auto
  note s1 = scanned_same [OF o(2)]
  have m1: "ht_map t1 = (\<lambda>k. if nat (hash_index_gen t k) = i \<and> (\<exists>a. ht_map t k = Some a \<and> old secs s a) then None else ht_map t k)"
  proof
    fix k
    have "(\<exists>e \<in> set es. he_key e = k \<and> old secs s (he_data e)) \<longleftrightarrow>
        nat (hash_index_gen t k) = i \<and> (\<exists>a. ht_map t k = Some a \<and> old secs s a)" (is "?l \<longleftrightarrow> ?r")
    proof
      assume ?l then show ?r using hit es(3) by fastforce
    next
      assume ?r
      then obtain a where a: "ht_map t k = Some a" "old secs s a" "nat (hash_index_gen t k) = i" by blast
      then obtain e where "find (\<lambda>e. he_key e = k) es = Some e" "he_data e = a"
        using c [OF a(3)] by (auto simp: ht_map_def split: if_splits)
      with a(2) show ?l by (metis (mono_tags, lifting) find_Some_iff nth_mem)
    qed
    then show "ht_map t1 k = (if nat (hash_index_gen t k) = i \<and> (\<exists>a. ht_map t k = Some a \<and> old secs s a) then None else ht_map t k)"
      using o(3) by simp
  qed
  from Cons.IH [OF s1(2,3), of "n + int (length es)"] Cons.prems(3,4) s1(10) obtain t2 s2 m where
    r: "walk_slots (\<lambda>s. the (fdb_hash_table s)) (delete_age_out_entires secs) is (n + int (length es)) s1 = Some (m, s2)"
      "scanned t1 s1 t2 s2" "ht_map t2 = (\<lambda>k. if nat (hash_index_gen t1 k) \<in> set is
         \<and> (\<exists>a. ht_map t1 k = Some a \<and> old secs s1 a) then None else ht_map t1 k)" by auto
  have "ht_map t2 = (\<lambda>k. if nat (hash_index_gen t k) \<in> set (i # is) \<and> (\<exists>a. ht_map t k = Some a \<and> old secs s a)
      then None else ht_map t k)"
    using r(3) m1 s1(4,5) by (auto simp: fun_eq_iff)
  moreover have "\<not> ht_released t" using w by (simp add: ht_wf_def)
  ultimately show ?case using r(1,2) o(1) i es(1) Cons.prems(1) scanned_trans [OF o(2) r(2)]
    by (intro exI [of _ t2] exI [of _ s2] exI [of _ m]) simp
qed

section \<open>The abstract station table\<close>

text \<open>A station: the port it was seen on, whether it is static, and its expiry.\<close>

type_synonym station = "int \<times> int \<times> u32"
type_synonym stations = "macaddress \<Rightarrow> station option"

text \<open>A frame from a station on a port at a time, and an ageing scan at a time.\<close>

datatype fdb_event = Learn "u32 \<Rightarrow> bool option" macaddress u32 u32 | AgeScan stp_env u32

fun stn_step :: "fdb_event \<Rightarrow> stations \<times> u32 \<Rightarrow> int \<times> stations \<times> u32" where
  "stn_step (Learn learning mac port secs) (m, d) =
    (if learning port = Some False then (0, m, d)
     else case m mac of
            Some (p, st, x) \<Rightarrow> if st \<noteq> 0 then (0, m, d) else (0, m(mac \<mapsto> (sint port, st, secs + 300)), d)
          | None \<Rightarrow> if card (dom m) < 1024 then (0, m(mac \<mapsto> (sint port, 0, secs + 300)), d) else (-1, m, d + 1))"
| "stn_step (AgeScan env secs) (m, d) =
    (0, \<lambda>mac. case m mac of Some (p, st, x) \<Rightarrow> if x \<le> secs then None else Some (p, st, x) | None \<Rightarrow> None, d)"

text \<open>The same events on the database, and the port the frame came in on is not a dangling reference.\<close>

fun fdb_step :: "fdb_event \<Rightarrow> fdb_sys \<Rightarrow> (int \<times> fdb_sys) option" where
  "fdb_step (Learn learning mac port secs) s = mac_address_update secs True learning mac port s"
| "fdb_step (AgeScan env secs) s = map_option (\<lambda>s. (0, s)) (aging_timer_expired env secs s)"

fun fdb_allowed :: "fdb_event \<Rightarrow> bool" where
  "fdb_allowed (Learn learning mac port secs) = (learning port \<noteq> None)"
| "fdb_allowed (AgeScan env secs) = True"

definition stn_of :: "fdb_t \<Rightarrow> station" where
  "stn_of e = (fdb_port e, is_static e, expiry e)"

definition fdb_stations :: "fdb_sys \<Rightarrow> stations" where
  "fdb_stations s mac = (case fdb_hash_table s of
     None \<Rightarrow> None
   | Some t \<Rightarrow> map_option (\<lambda>a. stn_of (fdb_heap s a)) (ht_map t (mac_bytes mac)))"

definition fdb_abs :: "fdb_sys \<Rightarrow> stations \<times> u32" where
  "fdb_abs s = (fdb_stations s, tp_learned_discards s)"

definition fdb_live :: "fdb_sys \<Rightarrow> bool" where
  "fdb_live s \<longleftrightarrow> fdb_inv s \<and> tp_aging_time s = 300"

lemma stations_Some: "fdb_hash_table s = Some t \<Longrightarrow>
    fdb_stations s = (\<lambda>mac. map_option (\<lambda>a. stn_of (fdb_heap s a)) (ht_map t (mac_bytes mac)))"
  by (simp add: fdb_stations_def fun_eq_iff)

lemma card_stations:
  assumes "fdb_hash_table s = Some t" "fdb_ok t s"
  shows "card (dom (fdb_stations s)) = length (ht_entries t)"
proof -
  have w: "ht_wf t" "key_len t = 6" using assms(2) by (auto simp: fdb_ok_def ht_inv_def)
  have "mac_bytes ` dom (fdb_stations s) = dom (ht_map t)"
  proof (intro equalityI subsetI)
    fix k assume k: "k \<in> dom (ht_map t)"
    then have "length k = 6" using w(2) by (auto simp: ht_map_def split: if_splits)
    with mac_bytes_onto obtain m where "k = mac_bytes m" by blast
    with k show "k \<in> mac_bytes ` dom (fdb_stations s)" by (auto simp: stations_Some [OF assms(1)])
  qed (auto simp: stations_Some [OF assms(1)])
  moreover have "inj mac_bytes" by (rule injI) simp
  ultimately have "card (dom (ht_map t)) = card (dom (fdb_stations s))"
    by (metis card_image inj_on_subset subset_UNIV)
  with card_dom_map [OF w(1)] show ?thesis by simp
qed

lemma ht_map_inj:
  assumes "fdb_ok t s" "ht_map t k = Some a" "ht_map t l = Some a"
  shows "k = l"
proof -
  have w: "ht_wf t" using assms(1) by (simp add: fdb_ok_def ht_inv_def)
  show ?thesis using ht_map_entry [OF w assms(2)] ht_map_entry [OF w assms(3)] assms(1)
    unfolding fdb_ok_def by metis
qed

lemma learn_known:
  assumes "fdb_hash_table s = Some t" "fdb_ok t s" "ht_map t (mac_bytes mac) = Some a"
    and "e = (fdb_heap s a)\<lparr>fdb_port := p, expiry := x\<rparr>" "s' = s\<lparr>fdb_heap := (fdb_heap s)(a := e)\<rparr>"
  shows "fdb_ok t s'" "fdb_stations s' = (fdb_stations s)(mac \<mapsto> (p, is_static (fdb_heap s a), x))"
proof -
  show "fdb_ok t s'" using assms(2,4,5) by (auto simp: fdb_ok_def)
  have "fdb_stations s' m = ((fdb_stations s)(mac \<mapsto> (p, is_static (fdb_heap s a), x))) m" for m
  proof (cases "m = mac")
    case False
    then have "ht_map t (mac_bytes m) \<noteq> Some a" using ht_map_inj [OF assms(2) assms(3)] by force
    with False assms(1,5) show ?thesis by (cases "ht_map t (mac_bytes m)") (auto simp: stations_Some)
  qed (use assms in \<open>simp add: stations_Some stn_of_def\<close>)
  then show "fdb_stations s' = (fdb_stations s)(mac \<mapsto> (p, is_static (fdb_heap s a), x))" by blast
qed

lemma move_port: "(if fdb_port e \<noteq> p then e\<lparr>fdb_port := p\<rparr> else e) = e\<lparr>fdb_port := p\<rparr>"
  by (cases e) auto

lemma learn_step:
  assumes "fdb_live s" "learning port \<noteq> None"
  shows "\<exists>r s'. mac_address_update secs True learning mac port s = Some (r, s') \<and> fdb_live s'
    \<and> stn_step (Learn learning mac port secs) (fdb_abs s) = (r, fdb_abs s')"
proof -
  from assms(1) obtain t where t: "fdb_hash_table s = Some t" "fdb_ok t s" "tp_aging_time s = 300"
    by (auto simp: fdb_live_def fdb_inv_def)
  have w: "ht_wf t" "length (mac_bytes mac) = key_len t" using t(2) by (auto simp: fdb_ok_def ht_inv_def)
  have look: "fdb_lookup mac s = Some (ht_map t (mac_bytes mac))" using t(1) lookup_wf [OF w] by (simp add: fdb_lookup_def)
  have le: "length (ht_entries t) \<le> 1024"
    using fdb_used [OF t(2)] pool.used_bounded [of "fdb_pool_id s" "fdb_mem s"] t(2) by (simp add: fdb_ok_def)
  consider "learning port = Some False"
    | a where "learning port = Some True" "ht_map t (mac_bytes mac) = Some a"
    | "learning port = Some True" "ht_map t (mac_bytes mac) = None" "length (ht_entries t) < 1024"
    | "learning port = Some True" "ht_map t (mac_bytes mac) = None" "length (ht_entries t) = 1024"
    using assms(2) le by fastforce
  then show ?thesis
  proof cases
    case 1
    with assms(1) show ?thesis by (simp add: mac_address_update_def fdb_abs_def)
  next
    case 2
    show ?thesis
    proof (cases "is_static (fdb_heap s a) = 0")
      case True
      define e where "e = (fdb_heap s a)\<lparr>fdb_port := sint port, expiry := secs + 300\<rparr>"
      define s' where "s' = s\<lparr>fdb_heap := (fdb_heap s)(a := e)\<rparr>"
      have "mac_address_update secs True learning mac port s = Some (0, s')"
        using 2 look True t(3) by (simp add: mac_address_update_def Let_def e_def s'_def move_port)
      with learn_known [OF t(1,2) 2(2) e_def s'_def] t 2 True show ?thesis
        by (auto simp: fdb_live_def fdb_inv_def fdb_abs_def s'_def stations_Some [OF t(1)] stn_of_def)
    next
      case False
      with 2 look assms(1) show ?thesis
        by (simp add: mac_address_update_def fdb_abs_def stations_Some [OF t(1)] stn_of_def)
    qed
  next
    case 3
    from fdb_add_new [OF t(1,2) 3(2,3), of secs "sint port" 0] obtain a t' mem s' where
      n: "fdb_add_entry secs True mac (sint port) 0 s = Some (0, s')" "fdb_ok t' s'"
        "s' = s\<lparr>fdb_heap := (fdb_heap s)(a := new_fdb secs mac (sint port) 0 a s), fdb_hash_table := Some t', fdb_mem := mem\<rparr>"
        "ht_map t' = (ht_map t)(mac_bytes mac \<mapsto> a)" "a \<notin> ran (ht_map t)" by blast
    have "fdb_stations s' m = ((fdb_stations s)(mac \<mapsto> (sint port, 0, secs + 300))) m" for m
      using n(3-5) t(3) by (cases "ht_map t (mac_bytes m)") (auto simp: stations_Some [OF t(1)] stations_Some stn_of_def ran_def)
    then have "fdb_stations s' = (fdb_stations s)(mac \<mapsto> (sint port, 0, secs + 300))" by blast
    moreover have "mac_address_update secs True learning mac port s = Some (0, s')"
      using 3 look n(1) by (simp add: mac_address_update_def)
    moreover have "fdb_stations s mac = None" using 3(2) by (simp add: stations_Some [OF t(1)])
    ultimately show ?thesis using n(2,3) t 3 card_stations [OF t(1,2)]
      by (auto simp: fdb_live_def fdb_inv_def fdb_abs_def)
  next
    case 4
    have "mac_address_update secs True learning mac port s = Some (-1, s\<lparr>tp_learned_discards := tp_learned_discards s + 1\<rparr>)"
      using 4 look fdb_add_full [OF t(2) 4(3)] by (simp add: mac_address_update_def)
    moreover have "fdb_stations s mac = None" using 4(2) by (simp add: stations_Some [OF t(1)])
    ultimately show ?thesis using t 4 card_stations [OF t(1,2)]
      by (auto simp: fdb_live_def fdb_inv_def fdb_abs_def fdb_stations_def fdb_ok_def)
  qed
qed

lemma age_step:
  assumes "fdb_live s"
  shows "\<exists>s'. aging_timer_expired env secs s = Some s' \<and> fdb_live s'
    \<and> stn_step (AgeScan env secs) (fdb_abs s) = (0, fdb_abs s')"
proof -
  from assms obtain t where t: "fdb_hash_table s = Some t" "fdb_ok t s" "tp_aging_time s = 300"
    by (auto simp: fdb_live_def fdb_inv_def)
  have n: "nat (nbuckets t) = length (bucket_array t)" "key_len t = 6" and f: "ht_fits t" "nbuckets t = 1024"
    using t(2) by (auto simp: fdb_ok_def ht_inv_def ht_wf_def)
  from age_slots [OF t(1,2), of "[0..<nat (nbuckets t)]" secs 0] n obtain t' s' m where
    s': "hash_walk (\<lambda>s. the (fdb_hash_table s)) (delete_age_out_entires secs) s = Some (m, s')" "scanned t s t' s'"
      "ht_map t' = (\<lambda>k. if nat (hash_index_gen t k) \<in> set [0..<nat (nbuckets t)] \<and> (\<exists>a. ht_map t k = Some a \<and> old secs s a)
         then None else ht_map t k)"
    using t(1) by (auto simp: hash_walk_def)
  note sm = scanned_same [OF s'(2)]
  define u where "u = s'\<lparr>ageing_timer := map_option (stp_mod env (word_of_int (tp_aging_time s'))) (ageing_timer s')\<rparr>"
  have u: "fdb_hash_table u = Some t'" "fdb_heap u = fdb_heap s" "tp_learned_discards u = tp_learned_discards s"
    "tp_aging_time u = 300" "fdb_ok t' u"
    using sm t(3) by (simp_all add: u_def fdb_ok_def)
  have idx: "nat (hash_index_gen t (mac_bytes mac)) \<in> set [0..<nat (nbuckets t)]" for mac
    using f n(2) by (auto simp: ht_fits_def nat_less_iff)
  have "fdb_stations u mac = (case fdb_stations s mac of Some (p, st, x) \<Rightarrow> if x \<le> secs then None else Some (p, st, x) | None \<Rightarrow> None)" for mac
    using idx [of mac] by (cases "ht_map t (mac_bytes mac)") (simp_all add: stations_Some [OF u(1)] stations_Some [OF t(1)] u(2) s'(3) stn_of_def old_def)
  moreover have "aging_timer_expired env secs s = Some u" using s'(1) t(1) by (simp add: aging_timer_expired_def u_def)
  ultimately show ?thesis using u by (auto simp: fdb_live_def fdb_inv_def fdb_abs_def)
qed

interpretation fdb_table: simulation fdb_step fdb_live fdb_abs stn_step fdb_allowed
proof
  fix s e assume "fdb_live s" "fdb_allowed e"
  then show "\<exists>r t. fdb_step e s = Some (r, t) \<and> fdb_live t \<and> stn_step e (fdb_abs s) = (r, fdb_abs t)"
    using learn_step age_step by (cases e) (auto simp del: stn_step.simps)
qed

section \<open>A database that was just set up\<close>

lemma rehash_empty:
  assumes "ht_inv t mem" "ht_entries t = []" "\<forall>k. length k = key_len t \<longrightarrow> 0 \<le> idx k \<and> idx k < nbuckets t"
  shows "ht_inv (t\<lparr>hash_index_gen := idx\<rparr>) mem" "ht_entries (t\<lparr>hash_index_gen := idx\<rparr>) = []"
proof -
  have w: "ht_wf t" using assms(1) by (simp add: ht_inv_def)
  have "bucket_array t ! i = Some []" if i: "i < length (bucket_array t)" for i
  proof -
    obtain es where "bucket_array t ! i = Some es" using w i unfolding ht_wf_def by blast
    moreover have "the (bucket_array t ! i) = []" using assms(2) i by (auto simp: ht_entries_def)
    ultimately show ?thesis by simp
  qed
  then have "ht_wf (t\<lparr>hash_index_gen := idx\<rparr>)" using w assms(3) by (auto simp: ht_wf_def ht_fits_def)
  then show "ht_inv (t\<lparr>hash_index_gen := idx\<rparr>) mem" using assms(1) by (simp add: ht_inv_def ht_entries_def)
  show "ht_entries (t\<lparr>hash_index_gen := idx\<rparr>) = []" using assms(2) by (simp add: ht_entries_def)
qed

definition granted :: "int \<Rightarrow> int \<Rightarrow> fdb_answers \<Rightarrow> bool" where
  "granted a b ans \<longleftrightarrow> fa_tbl ans \<and> fa_hash_mcb ans \<and> fa_hash_mem ans = Some a \<and> fa_hash_blks ans
     \<and> fa_buckets ans = Some (replicate 1024 (Some [])) \<and> fa_mcb ans \<and> fa_mem ans = Some b \<and> fa_blks ans"

lemma fdb_init_live:
  assumes "mem_wf (fdb_mem s)" "0 \<le> mcb_count (fdb_mem s)" "granted a b ans"
  shows "\<exists>s'. fdb_init env ans s = Some (0, s') \<and> fdb_live s' \<and> fdb_abs s' = (\<lambda>_. None, 0)"
proof -
  note g = assms(3) [unfolded granted_def]
  obtain t mem where c: "create_hash_table ''FDBH'' 1024 compare_ether_addr (fdb_mac_hash (fdb_salt s)) 6 True True (Some a) True
      (Some (replicate (nat 1024) (Some []))) (fdb_mem s) = Some (Some (t :: int hash_table), mem)"
    using assms(2) by (auto simp: create_hash_table_def mem_pool_create_def Let_def)
  have "(0::int) < 1024" "(1024::int) < 2 ^ 13" by simp_all
  note t = create_inv_table [OF c assms(1) this]
  have r: "\<forall>k. length k = 6 \<longrightarrow> 0 \<le> fdb_mac_hash salt k \<and> fdb_mac_hash salt k < 1024" for salt
    using fdb_mac_hash_range by blast
  have e: "\<forall>a b. length a = 6 \<longrightarrow> length b = 6 \<longrightarrow> compare_ether_addr a b = 0 \<longleftrightarrow> a = b"
    using compare_ether_addr_eq by blast
  note t = t [OF r e]
  define i where "i = mcb_count mem + 1"
  obtain pid m where p: "mem_pool_create ''FDB'' (1024 * 24) 1024 True (Some b) True mem = (pid, m)"
    by (cases "mem_pool_create ''FDB'' (1024 * 24) 1024 True (Some b) True mem")
  have "mem_wf mem" using t(1) by (simp add: ht_inv_def pool_ok_def)
  then have m: "pid = i" "pool_ok i m" "used_blks i m = {}" "pool_cap i m = 1024"
    "\<And>j. j \<noteq> i \<Longrightarrow> pool_of j m = pool_of j mem"
    using mem_pool_create_wf [of mem "1024 * 24" 1024 m "''FDB''" b] p by (auto simp: i_def)
  have ne: "hmem_pool_id t \<noteq> i" using t(5,6) by (simp add: i_def)
  have pc: "pool_of (hmem_pool_id t) m = pool_of (hmem_pool_id t) mem" using m(5) [OF ne] .
  have "ht_inv t m" using t(1) m(2) pc used_blks_cong [OF pc] by (simp add: ht_inv_def pool_ok_def)
  define t' where "t' = t\<lparr>hash_index_gen := fdb_mac_hash (fa_times ans)\<rparr>"
  from rehash_empty [OF \<open>ht_inv t m\<close> t(8)] r t(3,4) have t': "ht_inv t' m" "ht_entries t' = []" by (auto simp: t'_def)
  then have none: "ht_map t' = (\<lambda>_. None)" using entries_wf(2) [of t'] by (auto simp: ht_inv_def)
  define s' where "s' = s\<lparr>fdb_hash_table := Some t', fdb_mem := m, fdb_pool_id := pid, fdb_salt := fa_times ans,
      tp_aging_time := 300, tp_learned_discards := 0,
      ageing_timer := map_option (stp_mod env 300) (if fa_timer ans then Some tv_new else ageing_timer s)\<rparr>"
  have "0 \<le> pid" using m(1) t(6) assms(2) by (simp add: i_def)
  then have "fdb_init env ans s = Some (0, s')"
    using g c p by (simp add: fdb_init_def Let_def s'_def t'_def)
  moreover have "fdb_ok t' s'" using t' m ne t(3,4) by (simp add: fdb_ok_def s'_def) (simp add: t'_def)
  ultimately show ?thesis using none
    by (auto simp: fdb_live_def fdb_inv_def fdb_abs_def s'_def fdb_stations_def fun_eq_iff)
qed

text \<open>
  C3. The forwarding database refines a table of stations with 1024 places. After a set-up in
  which the allocator granted every request and the array of buckets was zero, every sequence of
  frames and ageing scans runs without a fault, and its return codes, the stations that are known
  afterwards and the number of discarded addresses are those of the abstract table; both
  memory pools hold exactly one block per station, so nothing leaks.
\<close>

theorem fdb_refines_station_table:
  assumes "mem_wf (fdb_mem s)" "0 \<le> mcb_count (fdb_mem s)" "granted a b ans" "\<forall>e \<in> set es. fdb_allowed e"
  shows "\<exists>s0 rs u t. fdb_init env ans s = Some (0, s0) \<and> do_run fdb_step es s0 = Some (rs, u)
    \<and> spec_run stn_step es (\<lambda>_. None, 0) = (rs, fdb_stations u, tp_learned_discards u)
    \<and> fdb_hash_table u = Some t \<and> card (used_blks (fdb_pool_id u) (fdb_mem u)) = card (dom (fdb_stations u))
    \<and> card (used_blks (hmem_pool_id t) (fdb_mem u)) = card (dom (fdb_stations u))"
proof -
  from fdb_init_live [OF assms(1-3)] obtain s0 where s0: "fdb_init env ans s = Some (0, s0)" "fdb_live s0"
    "fdb_abs s0 = (\<lambda>_. None, 0)" by blast
  from fdb_table.run_simulates [OF s0(2) assms(4)] obtain rs u where u: "do_run fdb_step es s0 = Some (rs, u)" "fdb_live u"
    "spec_run stn_step es (\<lambda>_. None, 0) = (rs, fdb_abs u)" by (auto simp: s0(3))
  from u(2) obtain t where t: "fdb_hash_table u = Some t" "fdb_ok t u" by (auto simp: fdb_live_def fdb_inv_def)
  have "card (used_blks (hmem_pool_id t) (fdb_mem u)) = card (dom (fdb_stations u))"
    using card_stations [OF t] ht_inv_card t(2) by (auto simp: fdb_ok_def)
  with s0 u t fdb_used [OF t(2)] card_stations [OF t] show ?thesis
    by (intro exI [of _ s0] exI [of _ rs] exI [of _ u] exI [of _ t]) (simp add: fdb_abs_def)
qed

end
