(* ===== verification/Switch.thy ===== *)
theory Switch
  imports Stpmgr Fdb
begin

unbundle bit_operations_syntax

text \<open>
  The layer-2 switch put together: the interfaces of \<open>src/src/ifmgmt\<close> (\<open>port.c\<close>, \<open>if_cli.c\<close>), the entry of
  received frames in \<open>src/src/gdd/gdd_generic.c\<close>, the start of the bridge in \<open>src/src/bridge/bridge.c\<close>, and
  under them the forwarding database, the spanning tree manager, the vlans and the spanning tree
  instances. The table of interfaces is \<open>port_cdb\<close>; its references to spanning tree ports are the global
  table of the theory \<open>Stp_System\<close>.
\<close>

section \<open>Interfaces\<close>

record port_t =
  if_index :: int
  if_descr :: string
  if_type :: int
  if_mtu :: int
  if_speed :: int
  if_admin_status :: int
  if_oper_status :: int
  if_last_change :: u32
  if_phys_address :: macaddress

text \<open>\<open>port_init\<close>, with the addresses that \<open>read_port_mac_address\<close> returns for the indices.\<close>

definition port_init :: "(nat \<Rightarrow> macaddress) \<Rightarrow> port_t list" where
  "port_init mac = map (\<lambda>i. \<lparr>if_index = int i, if_descr = ''port'' @ digits i, if_type = 0, if_mtu = 1500, if_speed = 10,
     if_admin_status = IF_DOWN, if_oper_status = IF_DOWN, if_last_change = 0, if_phys_address = mac i\<rparr>) [0..<12]"

record switch =
  port_cdb :: "port_t list"
  sw_fdb :: fdb_sys
  sw_mgr :: mgr_sys

text \<open>An index outside the table of interfaces is a fault.\<close>

definition cdb :: "int \<Rightarrow> switch \<Rightarrow> port_t option" where
  "cdb port sw = (if 1 \<le> port \<and> port \<le> int (length (port_cdb sw)) then Some (port_cdb sw ! nat (port - 1)) else None)"

definition get_port_oper_state :: "switch \<Rightarrow> int \<Rightarrow> int option" where
  "get_port_oper_state sw port = map_option if_oper_status (cdb port sw)"

definition get_port_mac_address :: "switch \<Rightarrow> int \<Rightarrow> macaddress option" where
  "get_port_mac_address sw port = map_option if_phys_address (cdb port sw)"

text \<open>
  The environment of the spanning trees reads the interfaces of the switch; \<open>base\<close> gives the rest, and what
  lies outside the table of interfaces.
\<close>

definition sw_env :: "switch \<Rightarrow> vlan_env \<Rightarrow> vlan_env" where
  "sw_env sw base = base\<lparr>
     vn_stp := (vn_stp base)\<lparr>
       se_oper_state := (\<lambda>p. case get_port_oper_state sw (uint p) of Some st \<Rightarrow> st | None \<Rightarrow> se_oper_state (vn_stp base) p),
       se_port_mac := (\<lambda>p. case get_port_mac_address sw (uint p) of Some m \<Rightarrow> m | None \<Rightarrow> se_port_mac (vn_stp base) p)\<rparr>,
     vn_rstp := (vn_rstp base)\<lparr>
       env_oper_state := (\<lambda>p. case get_port_oper_state sw (uint p) of Some st \<Rightarrow> st | None \<Rightarrow> env_oper_state (vn_rstp base) p),
       env_port_mac := (\<lambda>p. case get_port_mac_address sw (uint p) of Some m \<Rightarrow> m | None \<Rightarrow> env_port_mac (vn_rstp base) p)\<rparr>\<rparr>"

definition send_interface_enable_or_disable :: "int \<Rightarrow> int \<Rightarrow> switch \<Rightarrow> switch option" where
  "send_interface_enable_or_disable port st sw =
     map_option (\<lambda>(r, m). sw\<lparr>sw_mgr := m\<rparr>) (stp_send_event st port 1 (sw_mgr sw))"

definition set_status :: "int \<Rightarrow> int \<Rightarrow> switch \<Rightarrow> switch option" where
  "set_status port st sw = map_option (\<lambda>p. sw\<lparr>port_cdb := (port_cdb sw)[nat (port - 1) :=
     p\<lparr>if_admin_status := st, if_oper_status := st\<rparr>]\<rparr>) (cdb port sw)"

definition cli_set_port_enable :: "int \<Rightarrow> switch \<Rightarrow> switch option" where
  "cli_set_port_enable port sw = set_status port IF_UP sw \<bind> send_interface_enable_or_disable port IF_UP"

definition cli_set_port_disable :: "int \<Rightarrow> switch \<Rightarrow> switch option" where
  "cli_set_port_disable port sw = set_status port IF_DOWN sw \<bind> send_interface_enable_or_disable port IF_DOWN"

section \<open>Received frames\<close>

record frame =
  fr_dmac :: macaddress
  fr_smac :: macaddress
  fr_pkt :: wire_pkt
  fr_len :: int

definition IS_MAC_UCAST_MAC :: "macaddress \<Rightarrow> bool" where
  "IS_MAC_UCAST_MAC m \<longleftrightarrow> \<not> (mac_bytes m ! 0) AND 0xFF \<noteq> 0"

definition is_dest_stp_group_address :: "macaddress \<Rightarrow> bool" where
  "is_dest_stp_group_address m \<longleftrightarrow> compare_ether_addr (mac_bytes m) (mac_bytes br_group_address) = 0"

abbreviation (input) sw_stp :: "switch \<Rightarrow> stp_sys" where
  "sw_stp sw \<equiv> vl_stp (mg_vlan (sw_mgr sw))"

text \<open>\<open>secs\<close> is the clock and \<open>got_key\<close> whether memory for a key could be had.\<close>

definition process_pkt :: "u32 \<Rightarrow> bool \<Rightarrow> frame \<Rightarrow> u16 \<Rightarrow> switch \<Rightarrow> switch option" where
  "process_pkt secs got_key f port sw = do {
     p \<leftarrow> cdb (uint port) sw;
     if if_oper_status p = IF_DOWN \<or> if_admin_status p = IF_DOWN then Some sw
     else do {
       sw \<leftarrow> (if IS_MAC_UCAST_MAC (fr_smac f)
             then map_option (\<lambda>(r, d). sw\<lparr>sw_fdb := d\<rparr>)
                    (mac_address_update secs got_key (mac_learning_allowed (sw_stp sw)) (fr_smac f) (ucast port) (sw_fdb sw))
             else Some sw);
       if is_dest_stp_group_address (fr_dmac f)
       then map_option (\<lambda>(r, m). sw\<lparr>sw_mgr := m\<rparr>) (stp_rcv_bpdu (fr_pkt f) (uint port) 1 (fr_len f) (sw_mgr sw))
       else Some sw } }"

section \<open>The start of the bridge\<close>

record bridge_group =
  bg_addr :: macaddress
  bg_nports :: int
  bg_type :: int

text \<open>The loop that would fill the table of bridge ports runs while its index is negative, so never.\<close>

definition bridge_base_init :: "macaddress \<Rightarrow> bridge_group" where
  "bridge_base_init switch_mac = \<lparr>bg_addr = switch_mac, bg_nports = MAX_PORTS, bg_type = 1\<rparr>"

text \<open>What the allocator gives to the queue, to the pool of the manager and to the pool of vlans.\<close>

record bridge_answers =
  ba_fdb :: fdb_answers
  ba_queue :: "int option"
  ba_msgs :: "int option"
  ba_vlans :: "int option"

definition bridge_init :: "vlan_env \<Rightarrow> macaddress \<Rightarrow> bridge_answers \<Rightarrow> switch \<Rightarrow> switch option" where
  "bridge_init base switch_mac ans sw =
    (let bg = bridge_base_init switch_mac;
         env = sw_env sw base;
         env = env\<lparr>vn_stp := (vn_stp env)\<lparr>se_bridge_addr := bg_addr bg\<rparr>,
                   vn_rstp := (vn_rstp env)\<lparr>env_bridge_mac := bg_addr bg\<rparr>\<rparr>
     in do {
       (r, d) \<leftarrow> fdb_init (vn_stp env) (ba_fdb ans) (sw_fdb sw);
       let m = sw_mgr sw;
       let m = m\<lparr>mg_vlan := (mg_vlan m)\<lparr>vl_stp := stp_init\<rparr>\<rparr>;
       let (r, m) = stpmgr_init True (ba_queue ans) True True (ba_msgs ans) True m;
       (r, v) \<leftarrow> vlan_init env True (ba_vlans ans) True (mg_vlan m);
       Some (sw\<lparr>sw_fdb := d, sw_mgr := m\<lparr>mg_vlan := v\<rparr>\<rparr>) })"

section \<open>Events of the running switch\<close>

text \<open>
  A frame arrives, an operator enables or disables a port, the manager's task makes a round, the ageing
  timer expires, a timer of a spanning tree instance leaves the wheels, or its handler runs.
\<close>

datatype sw_event = SwFrame u32 frame u16 | SwUp int | SwDown int | SwTask vlan_env | SwAge stp_env u32
  | SwElapse vlan_env nat stp_tmr | SwServe vlan_env nat stp_tmr

definition with_stp :: "(stp_sys \<Rightarrow> (int \<times> stp_sys) option) \<Rightarrow> switch \<Rightarrow> switch option" where
  "with_stp f sw = map_option (\<lambda>(r, sy). sw\<lparr>sw_mgr := (sw_mgr sw)\<lparr>mg_vlan := (mg_vlan (sw_mgr sw))\<lparr>vl_stp := sy\<rparr>\<rparr>\<rparr>)
     (f (sw_stp sw))"

fun sw_step :: "sw_event \<Rightarrow> switch \<Rightarrow> switch option" where
  "sw_step (SwFrame secs f port) sw = process_pkt secs True f port sw"
| "sw_step (SwUp port) sw = cli_set_port_enable port sw"
| "sw_step (SwDown port) sw = cli_set_port_disable port sw"
| "sw_step (SwTask base) sw = map_option (\<lambda>m. sw\<lparr>sw_mgr := m\<rparr>) (stpmgr_task (sw_env sw base) (sw_mgr sw))"
| "sw_step (SwAge env secs) sw = map_option (\<lambda>d. sw\<lparr>sw_fdb := d\<rparr>) (aging_timer_expired env secs (sw_fdb sw))"
| "sw_step (SwElapse base a k) sw = with_stp (\<lambda>sy. if a \<in> set (sy_list sy)
     then on_stp a (\<lambda>br. Some (0, tmr_upd k tv_elapsed br)) sy else Some (0, sy)) sw"
| "sw_step (SwServe base a k) sw = with_stp (\<lambda>sy. if a \<in> set (sy_list sy)
     then stp_expire (vn_stp (sw_env sw base)) a k sy else Some (0, sy)) sw"

text \<open>Frames and commands name one of the twelve ports.\<close>

fun sw_port_ok :: "sw_event \<Rightarrow> bool" where
  "sw_port_ok (SwFrame secs f port) = (1 \<le> port \<and> port \<le> 12)"
| "sw_port_ok (SwUp port) = (1 \<le> port \<and> port \<le> 12)"
| "sw_port_ok (SwDown port) = (1 \<le> port \<and> port \<le> 12)"
| "sw_port_ok _ = True"

end
