(* ===== verification/Switch_Run.thy ===== *)
theory Switch_Run
  imports Switch
begin

unbundle bit_operations_syntax

text \<open>
  Runs of the whole switch. The invariant ties the parts together: the twelve interfaces, the absence
  of dangling references from them to spanning tree ports, the default vlan with its spanning tree
  instance in which every port exists, the messages of the manager, and the forwarding database. Every
  event of the running switch is handled without a fault and keeps it.
\<close>

section \<open>The spanning tree side\<close>

definition hosts :: "int list \<Rightarrow> stp_instance \<Rightarrow> bool" where
  "hosts is br \<longleftrightarrow> stp_inv br \<and> br_freed br = []
     \<and> (\<forall>i \<in> set is. \<exists>j \<in> set (br_port_list br). sp_port_no (br_ports br j) = word_of_int i)"

definition stp_up :: "stp_sys \<Rightarrow> bool" where
  "stp_up sy \<longleftrightarrow> sy_freed sy = [] \<and> (\<exists>a. sy_list sy = [a] \<and> hosts all_ports (sy_inst sy a))
     \<and> (\<forall>n b i. sy_ifinfo sy n = Some (b, i) \<longrightarrow> b \<in> set (sy_list sy))"

lemma stp_inv_ifinfo [simp]: "stp_inv (br\<lparr>br_ifinfo := f\<rparr>) = stp_inv br"
  by (rule core_inv) (simp add: core_def)

lemma put_inst_up:
  assumes "stp_up sy" "sy_list sy = [a]" "hosts all_ports br"
  shows "stp_up (put_inst a br sy)"
  using assms by (auto simp: stp_up_def put_inst_def hosts_def split: option.splits)

lemma on_stp_up:
  assumes "stp_up sy" "sy_list sy = [a]" "f (sy_inst sy a) = Some (r, br)" "r = 0 \<Longrightarrow> hosts all_ports br"
  shows "\<exists>t. on_stp a f sy = Some (r, t) \<and> stp_up t"
  using assms put_inst_up [OF assms(1,2)] by (auto simp: on_stp_def)

lemma hosts_same:
  assumes "hosts is br" "stp_inv b" "br_port_list b = br_port_list br" "br_freed b = br_freed br"
    "\<And>j. sp_port_no (br_ports b j) = sp_port_no (br_ports br j)"
  shows "hosts is b"
  using assms by (simp add: hosts_def)

lemma hosts_anchor: "hosts is br \<Longrightarrow> stp_inv b \<Longrightarrow> anchor b = anchor br \<Longrightarrow> hosts is b"
  by (rule hosts_same) (simp_all add: anchor_fields [of b br])

lemma hosts_entered: "hosts is br \<Longrightarrow> stp_inv b \<Longrightarrow> entered js br b \<Longrightarrow> hosts is b"
  by (rule hosts_same) (simp_all add: entered_def)

lemma hosts_find:
  assumes "hosts all_ports br" "1 \<le> p" "p \<le> 12"
  shows "\<exists>i \<in> set (br_port_list br). stp_get_port br (word_of_int p) = Some i"
proof -
  have "p \<in> set all_ports" using assms(2,3) by (simp add: all_ports_def)
  then obtain j where j: "j \<in> set (br_port_list br)" "sp_port_no (br_ports br j) = word_of_int p"
    using assms(1) by (auto simp: hosts_def)
  have "(ucast (word_of_int p :: u16) :: u32) = word_of_int p"
    using assms(2,3) by (simp add: unsigned_of_int take_bit_int_eq_self)
  with j find_some [of j "br_port_list br" "\<lambda>i. sp_port_no (br_ports br i) = ucast (word_of_int p :: u16)"]
  show ?thesis by (auto simp: stp_get_port_def find_Some_iff)
qed

lemma port_entry_up:
  assumes "stp_up sy" "1 \<le> p" "p \<le> 12"
  shows "\<exists>a i. sy_list sy = [a] \<and> i \<in> set (br_port_list (sy_inst sy a)) \<and> stp_get_port_entry (word_of_int p) sy = Some (a, i)"
  using assms hosts_find [OF _ assms(2,3)] by (fastforce simp: stp_up_def stp_get_port_entry_def)

lemma process_bpdu_up:
  assumes "stp_up sy" "1 \<le> p" "p \<le> 12"
  shows "\<exists>r t. stp_process_bpdu env c (word_of_int p) sy = Some (r, t) \<and> stp_up t"
proof -
  obtain a i where a: "sy_list sy = [a]" "i \<in> set (br_port_list (sy_inst sy a))"
    "stp_get_port_entry (word_of_int p) sy = Some (a, i)" using port_entry_up [OF assms] by blast
  have h: "hosts all_ports (sy_inst sy a)" using assms(1) a(1) by (auto simp: stp_up_def)
  then have "keeps (sy_inst sy a) (map_option snd (process_bpdu_on env i c (sy_inst sy a)))"
    using process_bpdu_keeps a(2) by blast
  then obtain r b where b: "process_bpdu_on env i c (sy_inst sy a) = Some (r, b)" "stp_inv b"
    using h by (auto simp: keeps_def hosts_def)
  have "hosts all_ports b" by (rule hosts_anchor [OF h b(2) anchor_process_bpdu [OF b(1)]])
  with on_stp_up [OF assms(1) a(1), of "process_bpdu_on env i c" r b] b(1) a(3) show ?thesis by (auto simp: stp_process_bpdu_def)
qed

lemma link_up:
  assumes "stp_up sy" "1 \<le> p" "p \<le> 12"
  shows "\<exists>r t. stp_enable_or_disable_port env (word_of_int p) st sy = Some (r, t) \<and> stp_up t"
proof -
  obtain a i where a: "sy_list sy = [a]" "stp_get_port_entry (word_of_int p) sy = Some (a, i)"
    using port_entry_up [OF assms] by blast
  define br where "br = sy_inst sy a"
  have h: "hosts all_ports br" using assms(1) a(1) by (auto simp: stp_up_def br_def)
  then have i: "stp_inv br" by (simp add: hosts_def)
  have up: "stp_inv (stp_enable_port env i br)" using enable_port_keeps [of br env i] i by (auto simp: keeps_def)
  obtain b where b: "stp_disable_port env i br = Some b" "stp_inv b"
    using disable_port_keeps [of br env i] i by (auto simp: keeps_def)
  have "hosts all_ports (stp_enable_port env i br)" by (rule hosts_entered [OF h up enable_port_entered])
  then have u: "\<exists>t. on_stp a (\<lambda>br. Some (0, stp_enable_port env i br)) sy = Some (0, t) \<and> stp_up t"
    by (intro on_stp_up [OF assms(1) a(1), where br = "stp_enable_port env i br"]) (simp_all add: br_def)
  have "anchor b = anchor br" using anchor_disable_port [of br env i] b(1) by (simp add: anchored_def)
  then have "hosts all_ports b" by (rule hosts_anchor [OF h b(2)])
  then have d: "\<exists>t. on_stp a (\<lambda>br. map_option (Pair 0) (stp_disable_port env i br)) sy = Some (0, t) \<and> stp_up t"
    using b(1) by (intro on_stp_up [OF assms(1) a(1), where br = b]) (simp_all add: br_def)
  show ?thesis using u d a(2) assms(1) by (auto simp: stp_enable_or_disable_port_def)
qed

lemma elapse_up:
  assumes "stp_up sy" "a \<in> set (sy_list sy)"
  shows "\<exists>r t. on_stp a (\<lambda>br. Some (0, tmr_upd k tv_elapsed br)) sy = Some (r, t) \<and> stp_up t"
proof -
  have a: "sy_list sy = [a]" using assms by (auto simp: stp_up_def)
  then have h: "hosts all_ports (sy_inst sy a)" using assms(1) by (auto simp: stp_up_def)
  define b where "b = tmr_upd k tv_elapsed (sy_inst sy a)"
  have "stp_inv b" using h core_inv [OF core_tmr_upd, of k tv_elapsed "sy_inst sy a"] by (simp add: b_def hosts_def)
  moreover have "anchor b = anchor (sy_inst sy a)" by (cases k) (simp_all add: b_def tmr_upd_def anchor_simps)
  ultimately have "hosts all_ports b" by (rule hosts_anchor [OF h])
  with on_stp_up [OF assms(1) a, of "\<lambda>br. Some (0, tmr_upd k tv_elapsed br)" 0 b] show ?thesis by (auto simp: b_def)
qed

lemma serve_up:
  assumes "stp_up sy" "a \<in> set (sy_list sy)"
  shows "\<exists>r t. stp_expire env a k sy = Some (r, t) \<and> stp_up t"
proof -
  have a: "sy_list sy = [a]" "sy_freed sy = []" using assms by (auto simp: stp_up_def)
  then have h: "hosts all_ports (sy_inst sy a)" using assms(1) by (auto simp: stp_up_def)
  then have "tmr_owned k (sy_inst sy a)" by (cases k) (simp_all add: hosts_def tmr_owned_def tmr_port_def)
  from serve_keeps [OF this, of env] h obtain b where b: "stp_serve_timer env k (sy_inst sy a) = Some b" "stp_inv b"
    by (auto simp: keeps_def hosts_def)
  then have "anchor b = anchor (sy_inst sy a)" using anchor_expiry(2) [of "sy_inst sy a" env k] by (simp add: anchored_def)
  then have "hosts all_ports b" by (rule hosts_anchor [OF h b(2)])
  with on_stp_up [OF assms(1) a(1), of "\<lambda>br. map_option (Pair 0) (stp_serve_timer env k br)" 0 b] b(1) a(2)
  show ?thesis by (auto simp: stp_expire_def)
qed

lemma learning_up: "stp_up sy \<Longrightarrow> mac_learning_allowed sy p \<noteq> None"
  by (fastforce simp: mac_learning_allowed_def stp_up_def hosts_def split: option.splits)

section \<open>The manager's messages\<close>

definition vlan_up :: "vlan_sys \<Rightarrow> bool" where
  "vlan_up vs \<longleftrightarrow> vlan_get_this_bridge_stp_mode 1 vs = MODE_STP \<and> stp_up (vl_stp vs)"

lemma mode_stp [simp]: "vlan_get_this_bridge_stp_mode v (vs\<lparr>vl_stp := sy\<rparr>) = vlan_get_this_bridge_stp_mode v vs"
  by (simp add: vlan_get_this_bridge_stp_mode_def split: option.split)

definition msg_fits :: "stp_msg \<Rightarrow> bool" where
  "msg_fits m \<longleftrightarrow> 1 \<le> sm_port m \<and> sm_port m \<le> 12 \<and> sm_vlanid m = 1"

lemma handle_up:
  assumes "vlan_up vs" "msg_ok m" "msg_fits m"
  shows "\<exists>r us. handle_msg env m vs = Some (r, us) \<and> vlan_up us"
proof -
  have v: "vlan_get_this_bridge_stp_mode 1 vs = 1" "stp_up (vl_stp vs)" using assms(1) by (simp_all add: vlan_up_def)
  have p: "1 \<le> sm_port m" "sm_port m \<le> 12" "sm_vlanid m = 1" using assms(3) by (simp_all add: msg_fits_def)
  from assms(2) consider w where "sm_type m = 1" "sm_msg m = Pkt w" | e where "sm_type m = 2" "sm_msg m = Num e"
    by (auto simp: msg_ok_def)
  then show ?thesis
  proof cases
    case 1
    from process_bpdu_up [OF v(2) p(1,2)] obtain r t where
      "stp_process_bpdu (vn_stp env) (wp_stp w) (word_of_int (sm_port m)) (vl_stp vs) = Some (r, t)" "stp_up t" by blast
    with 1 v p(3) show ?thesis by (simp add: handle_msg_def process_bpdu_def Let_def vlan_up_def)
  next
    case 2
    from link_up [OF v(2) p(1,2)] obtain r t where
      "stp_enable_or_disable_port (vn_stp env) (word_of_int (sm_port m)) (uint (word_of_int e :: u8)) (vl_stp vs) = Some (r, t)"
      "stp_up t" by blast
    with 2 v p(3) show ?thesis by (simp add: handle_msg_def stp_process_events_def Let_def vlan_up_def)
  qed
qed

definition mgr_up :: "mgr_sys \<Rightarrow> bool" where
  "mgr_up m \<longleftrightarrow> mgr_inv m \<and> vlan_up (mg_vlan m) \<and> (\<forall>a \<in> set (mgr_queue m). msg_fits (mg_cells m a))"

lemma post_up:
  assumes "mgr_up s" "\<And>m. msg_ok (fill m)" "\<And>m. msg_fits (fill m)"
  shows "\<exists>r t. mgr_post fill s = Some (r, t) \<and> mgr_up t \<and> mg_vlan t = mg_vlan s"
proof (cases "card (mgr_used s) = 100")
  case True
  with assms(1) post_refused [of s fill] show ?thesis by (auto simp: mgr_up_def)
next
  case False
  have i: "mgr_inv s" using assms(1) by (simp add: mgr_up_def)
  with False have "card (mgr_used s) < 100" using used_le [OF i] by simp
  from post_taken [OF i this, of fill] assms(2) obtain a t where
    t: "mgr_post fill s = Some (0, t)" "mgr_inv t" "a \<notin> mgr_used s" "mg_vlan t = mg_vlan s"
      "mgr_queue t = (if length (mgr_queue s) < 24 then mgr_queue s @ [a] else mgr_queue s)"
      "mg_cells t = (mg_cells s)(a := fill (mg_cells s a))" by blast
  have "\<forall>b \<in> set (mgr_queue t). msg_fits (mg_cells t b)"
    using t(5,6) assms(1,3) by (auto simp: mgr_up_def)
  with t assms(1) show ?thesis by (auto simp: mgr_up_def)
qed

lemma task_up:
  assumes "mgr_up s"
  shows "\<exists>t. stpmgr_task env s = Some t \<and> mgr_up t"
proof (cases "mgr_queue s")
  case Nil
  with assms task_idle [of s env] show ?thesis by (auto simp: mgr_up_def)
next
  case (Cons a as)
  have i: "mgr_inv s" "vlan_up (mg_vlan s)" "msg_ok (mg_cells s a)" "msg_fits (mg_cells s a)"
    "\<forall>b \<in> set as. msg_fits (mg_cells s b)"
    using assms Cons by (auto simp: mgr_up_def mgr_inv_def)
  from task_handles [OF i(1) Cons, of env] obtain t where t: "mgr_inv t" "mgr_queue t = as" "mg_cells t = mg_cells s"
    "stpmgr_task env s = map_option (\<lambda>(r, vs). t\<lparr>mg_vlan := vs\<rparr>) (handle_msg env (mg_cells s a) (mg_vlan s))" by blast
  from handle_up [OF i(2-4)] obtain r vs where "handle_msg env (mg_cells s a) (mg_vlan s) = Some (r, vs)" "vlan_up vs" by blast
  with t i(5) show ?thesis by (simp add: mgr_up_def)
qed

lemma mgr_up_stp: "mgr_up m \<Longrightarrow> stp_up sy \<Longrightarrow> mgr_up (m\<lparr>mg_vlan := (mg_vlan m)\<lparr>vl_stp := sy\<rparr>\<rparr>)"
  by (simp add: mgr_up_def vlan_up_def)

section \<open>The switch\<close>

definition sw_inv :: "switch \<Rightarrow> bool" where
  "sw_inv sw \<longleftrightarrow> length (port_cdb sw) = 12 \<and> fdb_live (sw_fdb sw) \<and> mgr_up (sw_mgr sw)"

lemma cdb_12: "length (port_cdb sw) = 12 \<Longrightarrow> 1 \<le> p \<Longrightarrow> p \<le> 12 \<Longrightarrow> \<exists>x. cdb p sw = Some x"
  by (simp add: cdb_def)

lemma event_posted:
  assumes "mgr_up s" "1 \<le> p" "p \<le> 12"
  shows "\<exists>r t. stp_send_event e p 1 s = Some (r, t) \<and> mgr_up t \<and> mg_vlan t = mg_vlan s"
  unfolding stp_send_event_def by (rule post_up [OF assms(1)]) (use assms in \<open>simp_all add: msg_ok_def msg_fits_def\<close>)

lemma bpdu_posted:
  assumes "mgr_up s" "1 \<le> p" "p \<le> 12"
  shows "\<exists>r t. stp_rcv_bpdu w p 1 l s = Some (r, t) \<and> mgr_up t \<and> mg_vlan t = mg_vlan s"
  unfolding stp_rcv_bpdu_def by (rule post_up [OF assms(1)]) (use assms in \<open>simp_all add: msg_ok_def msg_fits_def\<close>)

lemma command_up:
  assumes "sw_inv sw" "1 \<le> p" "p \<le> 12"
  shows "\<exists>t. set_status p st sw \<bind> send_interface_enable_or_disable p st = Some t \<and> sw_inv t"
proof -
  obtain x where x: "cdb p sw = Some x" using cdb_12 [of sw p] assms by (auto simp: sw_inv_def)
  have "mgr_up (sw_mgr sw)" using assms(1) by (simp add: sw_inv_def)
  from event_posted [OF this assms(2,3), of st] obtain r m where
    "stp_send_event st p 1 (sw_mgr sw) = Some (r, m)" "mgr_up m" by blast
  with x assms(1) show ?thesis by (simp add: set_status_def send_interface_enable_or_disable_def sw_inv_def)
qed

lemma frame_up:
  assumes "sw_inv sw" "1 \<le> port" "port \<le> 12"
  shows "\<exists>t. process_pkt secs True f port sw = Some t \<and> sw_inv t"
proof -
  have p: "1 \<le> uint port" "uint port \<le> 12" using assms(2,3) by (simp_all add: word_le_def)
  have i: "length (port_cdb sw) = 12" "fdb_live (sw_fdb sw)" "mgr_up (sw_mgr sw)" using assms(1) by (simp_all add: sw_inv_def)
  obtain x where x: "cdb (uint port) sw = Some x" using cdb_12 [OF i(1) p] by blast
  have "stp_up (sw_stp sw)" using i(3) by (simp add: mgr_up_def vlan_up_def)
  from learn_step [where learning = "mac_learning_allowed (sw_stp sw)" and port = "ucast port" and secs = secs
      and mac = "fr_smac f", OF i(2) learning_up [OF this]] obtain r d where
    d: "mac_address_update secs True (mac_learning_allowed (sw_stp sw)) (fr_smac f) (ucast port) (sw_fdb sw) = Some (r, d)"
      "fdb_live d" by blast
  from bpdu_posted [OF i(3) p, of "fr_pkt f" "fr_len f"] obtain r m where
    "stp_rcv_bpdu (fr_pkt f) (uint port) 1 (fr_len f) (sw_mgr sw) = Some (r, m)" "mgr_up m" by blast
  with x d i show ?thesis by (simp add: process_pkt_def sw_inv_def)
qed

lemma with_stp_up:
  assumes "sw_inv sw" "\<exists>r t. f (sw_stp sw) = Some (r, t) \<and> stp_up t"
  shows "\<exists>t. with_stp f sw = Some t \<and> sw_inv t"
  using assms mgr_up_stp by (fastforce simp: with_stp_def sw_inv_def)

lemma sw_step_up:
  assumes "sw_inv sw" "sw_port_ok e"
  shows "\<exists>t. sw_step e sw = Some t \<and> sw_inv t"
proof -
  have s: "stp_up (sw_stp sw)" using assms(1) by (simp add: sw_inv_def mgr_up_def vlan_up_def)
  show ?thesis
  proof (cases e)
    case (SwFrame secs f port)
    with assms frame_up show ?thesis by simp
  next
    case (SwUp port)
    with assms command_up [of sw port IF_UP] show ?thesis by (simp add: cli_set_port_enable_def)
  next
    case (SwDown port)
    with assms command_up [of sw port IF_DOWN] show ?thesis by (simp add: cli_set_port_disable_def)
  next
    case (SwTask base)
    with assms(1) task_up [of "sw_mgr sw" "sw_env sw base"] show ?thesis by (auto simp: sw_inv_def)
  next
    case (SwAge env secs)
    with assms(1) age_step [of "sw_fdb sw" env secs] show ?thesis by (auto simp: sw_inv_def)
  next
    case (SwElapse base a k)
    then show ?thesis using elapse_up [OF s] s by (auto intro!: with_stp_up [OF assms(1)])
  next
    case (SwServe base a k)
    then show ?thesis using serve_up [OF s] s by (auto intro!: with_stp_up [OF assms(1)])
  qed
qed

interpretation sw: guarded_machine sw_step sw_inv "\<lambda>e s. sw_port_ok e"
  by unfold_locales (rule sw_step_up)

end
