(* ===== verification/Switch_Boot.thy ===== *)
theory Switch_Boot
  imports Switch_Run
begin

unbundle bit_operations_syntax

text \<open>
  The start of the switch: the default vlan gets all twelve ports, a spanning tree instance is created for
  it with a port for each of them, and the instance is enabled. The result satisfies the invariant of
  the running switch.
\<close>

section \<open>The default vlan\<close>

lemma upd_ent_Some [simp]: "upd_ent a (\<lambda>e. Some (f e)) s = Some (s\<lparr>vl_ent := (vl_ent s)(a := f (vl_ent s a))\<rparr>)"
  by (simp add: upd_ent_def)

lemma add_ports_default:
  assumes "get_vlan_entry (word_of_int v) s = Some a" "ve_stp_mode (vl_ent s a) = 0" "\<forall>i \<in> set is. 1 \<le> i \<and> i \<le> 12"
  shows "\<exists>x y e. add_ports env v is s = Some (s\<lparr>vl_ent := (vl_ent s)(a := e)\<rparr>)
    \<and> e = (vl_ent s a)\<lparr>ve_egress := x, ve_forbidden := y\<rparr>
    \<and> (\<forall>q. port_at EGRESS q \<noteq> None \<longrightarrow> IS_PORT_SET_PORT_LIST EGRESS q e
          = Some (q \<in> set is \<or> IS_PORT_SET_PORT_LIST EGRESS q (vl_ent s a) = Some True))"
  using assms
proof (induction "is" arbitrary: s)
  case Nil
  have "IS_PORT_SET_PORT_LIST EGRESS q (vl_ent s a) = Some (IS_PORT_SET_PORT_LIST EGRESS q (vl_ent s a) = Some True)"
    if "port_at EGRESS q \<noteq> None" for q
    using that by (auto simp: IS_PORT_SET_PORT_LIST_def)
  then show ?case
    by (intro exI [of _ "ve_egress (vl_ent s a)"] exI [of _ "ve_forbidden (vl_ent s a)"] exI [of _ "vl_ent s a"]) auto
next
  case (Cons i "is")
  obtain x y where xy: "SET_PORT_LIST EGRESS i (vl_ent s a) = Some ((vl_ent s a)\<lparr>ve_egress := x, ve_forbidden := y\<rparr>)"
    using set_egress [of i "vl_ent s a"] Cons.prems(3) by auto
  define e where "e = (vl_ent s a)\<lparr>ve_egress := x, ve_forbidden := y\<rparr>"
  have "port_at EGRESS i \<noteq> None" using xy by (auto simp: SET_PORT_LIST_def)
  from plist.add_has [OF this, of "vl_ent s a"] xy have h: "port_at EGRESS q \<noteq> None \<Longrightarrow>
      IS_PORT_SET_PORT_LIST EGRESS q e = Some (q = i \<or> IS_PORT_SET_PORT_LIST EGRESS q (vl_ent s a) = Some True)" for q
    by (auto simp: e_def)
  define u where "u = s\<lparr>vl_ent := (vl_ent s)(a := e)\<rparr>"
  have g: "get_vlan_entry (word_of_int v) u = Some a" "ve_stp_mode (vl_ent u a) = 0"
    using Cons.prems(1,2) get_vlan_upd [of e s a "word_of_int v"] by (simp_all add: u_def e_def)
  have st: "vlan_add_port env v i TAGGED s = Some (0, u)"
    using Cons.prems(1,2) xy by (simp add: vlan_add_port_def upd_ent_def vlan_create_stp_port_def Let_def u_def e_def)
  have "\<forall>i \<in> set is. 1 \<le> i \<and> i \<le> 12" using Cons.prems(3) by simp
  from Cons.IH [OF g this] obtain x' y' e' where r: "add_ports env v is u = Some (u\<lparr>vl_ent := (vl_ent u)(a := e')\<rparr>)"
    "e' = (vl_ent u a)\<lparr>ve_egress := x', ve_forbidden := y'\<rparr>"
    "\<forall>q. port_at EGRESS q \<noteq> None \<longrightarrow> IS_PORT_SET_PORT_LIST EGRESS q e'
       = Some (q \<in> set is \<or> IS_PORT_SET_PORT_LIST EGRESS q (vl_ent u a) = Some True)" by blast
  have "e' = (vl_ent s a)\<lparr>ve_egress := x', ve_forbidden := y'\<rparr>" using r(2) by (simp add: u_def e_def)
  moreover have "add_ports env v (i # is) s = Some (s\<lparr>vl_ent := (vl_ent s)(a := e')\<rparr>)" using st r(1) by (simp add: u_def)
  moreover have "\<forall>q. port_at EGRESS q \<noteq> None \<longrightarrow> IS_PORT_SET_PORT_LIST EGRESS q e'
       = Some (q \<in> set (i # is) \<or> IS_PORT_SET_PORT_LIST EGRESS q (vl_ent s a) = Some True)"
    using r(3) h by (auto simp: u_def)
  ultimately show ?case by blast
qed

section \<open>The ports of its instance\<close>

lemma create_port_hosts:
  assumes "hosts ds br" "1 \<le> i" "i \<le> 12" "j \<notin> set (br_port_list br)"
  shows "hosts (i # ds) (snd (stp_create_port env (Some j) i br))"
proof -
  define b where "b = snd (stp_create_port env (Some j) i br)"
  have "i = uint (word_of_int i :: u16)" using assms(2,3) by (simp add: uint_word_of_int take_bit_int_eq_self)
  with create_keeps [OF assms(4), of env "word_of_int i"] have "keeps br (Some b)" by (simp add: b_def)
  then have "stp_inv b" using assms(1) by (simp add: keeps_def hosts_def)
  moreover have "br_port_list b = br_port_list br @ [j]" "br_freed b = removeAll j (br_freed br)"
    "br_ports b = (br_ports br)(j := stp_port_new env i)" by (simp_all add: b_def stp_create_port_def)
  ultimately show ?thesis
    using assms(1,4) unfolding b_def [symmetric] hosts_def by (auto simp: stp_port_new_def)
qed

definition refs_to :: "nat \<Rightarrow> stp_sys \<Rightarrow> bool" where
  "refs_to a sy \<longleftrightarrow> sy_list sy = [a] \<and> sy_freed sy = [] \<and> (\<forall>n b i. sy_ifinfo sy n = Some (b, i) \<longrightarrow> b = a)"

lemma put_inst_refs: "refs_to a sy \<Longrightarrow> refs_to a (put_inst a br sy)"
  by (auto simp: refs_to_def put_inst_def split: option.splits)

lemma hosts_put [simp]: "hosts ds (sy_inst (put_inst a br sy) a) = hosts ds br"
  by (simp add: put_inst_def hosts_def)

lemma create_ports_hosts:
  assumes "\<forall>i \<in> set is. 1 \<le> i \<and> i \<le> 12 \<and> IS_PORT_SET_PORT_LIST EGRESS i e = Some True \<and> vn_port env i = Some (pa i)"
    and "distinct is" "inj_on pa (set is)" "pa ` set is \<inter> set (br_port_list (sy_inst sy a)) = {}"
    and "refs_to a sy" "hosts ds (sy_inst sy a)"
  shows "\<exists>t. create_ports env e (Some a) is sy = Some t \<and> refs_to a t \<and> hosts (rev is @ ds) (sy_inst t a)"
  using assms
proof (induction "is" arbitrary: sy ds)
  case (Cons i "is")
  define br where "br = snd (stp_create_port (vn_stp env) (Some (pa i)) i (sy_inst sy a))"
  have n: "pa i \<notin> set (br_port_list (sy_inst sy a))" using Cons.prems(4) by auto
  have h: "hosts (i # ds) br"
    unfolding br_def using Cons.prems(1) by (intro create_port_hosts [OF Cons.prems(6) _ _ n]) auto
  have br: "br_port_list br = br_port_list (sy_inst sy a) @ [pa i]"
    "stp_create_port (vn_stp env) (Some (pa i)) i (sy_inst sy a) = (0, br)"
    by (simp_all add: br_def stp_create_port_def)
  define u where "u = put_inst a br sy"
  have "stp_create_port_sys (vn_stp env) (vn_port env i) (Some a) i sy = Some (0, u)"
    using Cons.prems(1,5) br(2) by (simp add: stp_create_port_sys_def on_stp_def u_def refs_to_def)
  then have st: "create_ports env e (Some a) (i # is) sy = create_ports env e (Some a) is u" using Cons.prems(1) by simp
  have "pa ` set is \<inter> set (br_port_list (sy_inst u a)) = {}"
    using Cons.prems(2-4) br(1) by (auto simp: u_def put_inst_def inj_on_def)
  with Cons.IH [of u "i # ds"] Cons.prems(1-3) h put_inst_refs [OF Cons.prems(5), of br] show ?case
    unfolding st by (simp add: u_def)
qed simp

lemma enable_hosts:
  assumes "refs_to a sy" "hosts all_ports (sy_inst sy a)"
  shows "\<exists>t. stp_set_state_sys env (Some a) 1 sy = Some (0, t) \<and> stp_up t"
proof -
  define br where "br = sy_inst sy a"
  have h: "hosts all_ports br" using assms(2) by (simp add: br_def)
  then obtain b where b: "stp_set_state env 1 br = Some b" "stp_inv b"
    using set_state_keeps [of br env 1] by (auto simp: keeps_def hosts_def)
  then obtain c where c: "stp_enable env br = Some c" "b = c\<lparr>br_stp_enabled := 1\<rparr>" by (auto simp: stp_set_state_def)
  have "entered (br_port_list br) br b" using enable_entered [OF c(1)] by (simp add: entered_def c(2))
  then have "hosts all_ports b" by (rule hosts_entered [OF h b(2)])
  moreover have "stp_set_state_sys env (Some a) 1 sy = Some (0, put_inst a b sy)"
    using b(1) assms(1) by (simp add: stp_set_state_sys_def on_stp_def br_def refs_to_def)
  ultimately show ?thesis using put_inst_refs [OF assms(1), of b] by (auto simp: stp_up_def refs_to_def)
qed

section \<open>Start\<close>

lemma default_enabled:
  assumes "get_vlan_entry 1 s = Some a" "ve_stp_mode (vl_ent s a) = 0" "vl_stp s = stp_init" "vn_inst env = Some i0"
    and "\<forall>i \<in> set all_ports. IS_PORT_SET_PORT_LIST EGRESS i (vl_ent s a) = Some True \<and> vn_port env i = Some (pa i)"
    and "inj_on pa (set all_ports)"
  shows "\<exists>t. vlan_spanning_tree_enable_on_vlan env 1 MODE_STP s = Some (0, t) \<and> vlan_up t"
proof -
  define sy where "sy = stp_init\<lparr>sy_inst := (sy_inst stp_init)(i0 := stp_init_stp_instance (vn_stp env) 1 stp_instance_zero),
      sy_list := [i0]\<rparr>"
  have c: "stp_create_stp_instance (vn_stp env) 1 (Some i0) stp_init = (0, Some i0, sy)"
    by (simp add: stp_create_stp_instance_def find_stp_def stp_init_def sy_def)
  define e where "e = (vl_ent s a)\<lparr>ve_stp := Some i0\<rparr>"
  have "IS_PORT_SET_PORT_LIST EGRESS i e = IS_PORT_SET_PORT_LIST EGRESS i (vl_ent s a)" for i
    by (simp add: IS_PORT_SET_PORT_LIST_def vl_bytes_def e_def)
  then have p: "\<forall>i \<in> set all_ports. 1 \<le> i \<and> i \<le> 12 \<and> IS_PORT_SET_PORT_LIST EGRESS i e = Some True \<and> vn_port env i = Some (pa i)"
    using assms(5) by (simp add: all_ports_def)
  have i: "sy_inst sy i0 = stp_init_stp_instance (vn_stp env) 1 stp_instance_zero" by (simp add: sy_def)
  have "hosts [] (sy_inst sy i0)"
    using init_inv [of stp_instance_zero "vn_stp env" 1]
    by (simp add: i hosts_def stp_instance_zero_def stp_init_stp_instance_def)
  moreover have "refs_to i0 sy" by (simp add: refs_to_def sy_def stp_init_def)
  moreover have "br_port_list (sy_inst sy i0) = []" by (simp add: i stp_init_stp_instance_def)
  moreover have "distinct all_ports" by (simp add: all_ports_def)
  ultimately obtain t where t: "create_ports env e (Some i0) all_ports sy = Some t" "refs_to i0 t"
    "hosts (rev all_ports @ []) (sy_inst t i0)"
    using create_ports_hosts [OF p _ assms(6), of sy i0 "[]"] by auto
  have "hosts all_ports (sy_inst t i0)" using t(3) by (simp add: hosts_def)
  from enable_hosts [OF t(2) this, of "vn_stp env"] obtain u where
    u: "stp_set_state_sys (vn_stp env) (Some i0) 1 t = Some (0, u)" "stp_up u" by blast
  define f where "f = e\<lparr>ve_stp_enabled := 1, ve_stp_mode := 1\<rparr>"
  define w where "w = s\<lparr>vl_ent := (vl_ent s)(a := f), vl_stp := u\<rparr>"
  have "vlan_spanning_tree_enable_on_vlan env 1 MODE_STP s = Some (0, w)"
    using assms(1-4) c t(1) u(1)
    by (simp add: vlan_spanning_tree_enable_on_vlan_def enable_stp_def e_def f_def w_def)
  moreover have "get_vlan_entry 1 w = Some a"
    using assms(1) get_vlan_upd [of f s a 1] by (simp add: w_def f_def e_def)
  then have "vlan_get_this_bridge_stp_mode 1 w = 1" by (simp add: vlan_get_this_bridge_stp_mode_def w_def f_def)
  ultimately show ?thesis using u(2) by (auto simp: vlan_up_def w_def)
qed

lemma vlan_init_up:
  assumes "mem_wf (vl_mem s)" "0 \<le> mcb_count (vl_mem s)" "vl_ent s = (\<lambda>_. vlan_zero)" "vl_stp s = stp_init"
    and "vn_inst env = Some i0" "\<forall>i \<in> set all_ports. vn_port env i = Some (pa i)" "inj_on pa (set all_ports)"
  shows "\<exists>t. vlan_init env True (Some m) True s = Some (0, t) \<and> vlan_up t"
proof -
  define s1 where "s1 = vlan_start m s"
  have s1: "vlan_inv s1" "vlan_ids s1 = {}" "0 \<le> vlan_mem_id s1" "vl_ent s1 = vl_ent s" "vl_stp s1 = vl_stp s"
    using vlan_start_inv [OF assms(1), of m] assms(2)
    by (simp_all add: s1_def) (simp_all add: vlan_start_def split: prod.split)
  obtain a s2 where s2: "vlan_create_vlan 1 s1 = Some (0, s2)" "get_vlan_entry 1 s2 = Some a" "vl_stp s2 = stp_init"
    "vl_ent s2 = (vl_ent s1)(a := (vl_ent s1 a)\<lparr>ve_vlan_id := 1, ve_name := ''vlan'' @ digits (unat (1 :: u16)), ve_egress := 0,
         ve_forbidden := 0, ve_untagged := 0, ve_row_status := 5\<rparr>)"
    using create_vlan_new [OF s1(1), of 1] s1(2,5) assms(4) by auto
  have mode: "ve_stp_mode (vl_ent s2 a) = 0" by (simp add: s2(4) s1(4) assms(3) vlan_zero_def)
  have "\<forall>i \<in> set all_ports. 1 \<le> i \<and> i \<le> 12" by (simp add: all_ports_def)
  from add_ports_default [of 1 s2 a, OF _ mode this, of env] s2(2) obtain x y e where
    e: "add_ports env 1 all_ports s2 = Some (s2\<lparr>vl_ent := (vl_ent s2)(a := e)\<rparr>)" "e = (vl_ent s2 a)\<lparr>ve_egress := x, ve_forbidden := y\<rparr>"
      "\<forall>q. port_at EGRESS q \<noteq> None \<longrightarrow> IS_PORT_SET_PORT_LIST EGRESS q e
          = Some (q \<in> set all_ports \<or> IS_PORT_SET_PORT_LIST EGRESS q (vl_ent s2 a) = Some True)" by auto
  define s3 where "s3 = s2\<lparr>vl_ent := (vl_ent s2)(a := e)\<rparr>"
  have v: "port_at EGRESS i \<noteq> None" if "i \<in> set all_ports" for i using that by (auto simp: all_ports_def port_at_def)
  have s3: "get_vlan_entry 1 s3 = Some a" "ve_stp_mode (vl_ent s3 a) = 0" "vl_stp s3 = stp_init" "vl_ent s3 a = e"
    using s2(2,3) mode e(2) get_vlan_upd [of e s2 a 1] by (simp_all add: s3_def)
  have "\<forall>i \<in> set all_ports. IS_PORT_SET_PORT_LIST EGRESS i (vl_ent s3 a) = Some True \<and> vn_port env i = Some (pa i)"
    using e(3) v assms(6) by (auto simp: s3(4))
  from default_enabled [OF s3(1-3) assms(5) this assms(7)] obtain t where
    t: "vlan_spanning_tree_enable_on_vlan env 1 MODE_STP s3 = Some (0, t)" "vlan_up t" by blast
  have "vlan_create_default_vlan env 1 s1 = Some (0, t)"
    using s2(1) e(1) t(1) by (simp add: vlan_create_default_vlan_def s3_def)
  moreover have "vlan_init env True (Some m) True s = (if vlan_mem_id s1 < 0 then Some (-1, s1) else do {
      (r, s) \<leftarrow> vlan_create_default_vlan env 1 s1; Some (if r < 0 then -1 else 0, s) })"
    by (simp add: vlan_init_def s1_def vlan_start_def Let_def split: prod.split)
  ultimately show ?thesis using t(2) s1(3) by simp
qed

lemma manager_starts:
  assumes "q_fresh (mg_q s)" "0 \<le> get_qid (Queue (mg_q s))" "0 \<le> mcb_count (q_mem (mg_q s))"
  shows "\<exists>t. stpmgr_init True (Some a) True True (Some b) True s = (0, t) \<and> mgr_inv t \<and> mgr_queue t = [] \<and> mg_vlan t = mg_vlan s"
proof -
  obtain t where t: "stpmgr_init True (Some a) True True (Some b) True s = (0, t)"
    using assms(2,3) by (auto simp: stpmgr_init_def msg_create_Q_def mem_pool_create_def Let_def)
  with stpmgr_init_inv [OF t assms(1)] show ?thesis by blast
qed

text \<open>A switch before its start, and an allocator that grants every request.\<close>

definition sw_fresh :: "vlan_env \<Rightarrow> bridge_answers \<Rightarrow> switch \<Rightarrow> bool" where
  "sw_fresh base ans sw \<longleftrightarrow> length (port_cdb sw) = 12
     \<and> mem_wf (fdb_mem (sw_fdb sw)) \<and> 0 \<le> mcb_count (fdb_mem (sw_fdb sw)) \<and> (\<exists>a b. granted a b (ba_fdb ans))
     \<and> q_fresh (mg_q (sw_mgr sw)) \<and> 0 \<le> get_qid (Queue (mg_q (sw_mgr sw))) \<and> 0 \<le> mcb_count (q_mem (mg_q (sw_mgr sw)))
     \<and> ba_queue ans \<noteq> None \<and> ba_msgs ans \<noteq> None \<and> ba_vlans ans \<noteq> None
     \<and> mem_wf (vl_mem (mg_vlan (sw_mgr sw))) \<and> 0 \<le> mcb_count (vl_mem (mg_vlan (sw_mgr sw)))
     \<and> vl_ent (mg_vlan (sw_mgr sw)) = (\<lambda>_. vlan_zero)
     \<and> vn_inst base \<noteq> None \<and> (\<forall>i \<in> set all_ports. vn_port base i \<noteq> None) \<and> inj_on (vn_port base) (set all_ports)"

lemma bridge_init_up:
  assumes "sw_fresh base ans sw"
  shows "\<exists>t. bridge_init base mac ans sw = Some t \<and> sw_inv t"
proof -
  note f = assms [unfolded sw_fresh_def]
  define env where "env = (sw_env sw base)\<lparr>vn_stp := (vn_stp (sw_env sw base))\<lparr>se_bridge_addr := mac\<rparr>,
      vn_rstp := (vn_rstp (sw_env sw base))\<lparr>env_bridge_mac := mac\<rparr>\<rparr>"
  have ve: "vn_stp env = (vn_stp (sw_env sw base))\<lparr>se_bridge_addr := mac\<rparr>" by (simp add: env_def)
  obtain a b where g: "granted a b (ba_fdb ans)" using f by blast
  obtain d where d: "fdb_init (vn_stp env) (ba_fdb ans) (sw_fdb sw) = Some (0, d)" "fdb_live d"
    using fdb_init_live [of "sw_fdb sw" a b "ba_fdb ans" "vn_stp env"] f g by blast
  obtain q0 m0 v0 i0 where al: "ba_queue ans = Some q0" "ba_msgs ans = Some m0" "ba_vlans ans = Some v0" "vn_inst base = Some i0"
    using f by blast
  define m where "m = (sw_mgr sw)\<lparr>mg_vlan := (mg_vlan (sw_mgr sw))\<lparr>vl_stp := stp_init\<rparr>\<rparr>"
  obtain n where n: "stpmgr_init True (Some q0) True True (Some m0) True m = (0, n)" "mgr_inv n" "mgr_queue n = []" "mg_vlan n = mg_vlan m"
    using manager_starts [of m q0 m0] f by (auto simp: m_def)
  define pa where "pa = (\<lambda>i. the (vn_port base i))"
  have pb: "\<forall>i \<in> set all_ports. vn_port base i = Some (pa i)" "inj_on (vn_port base) (set all_ports)"
    using f by (auto simp: pa_def)
  then have p: "\<forall>i \<in> set all_ports. vn_port env i = Some (pa i)" "inj_on pa (set all_ports)"
    by (simp_all add: env_def sw_env_def inj_on_def)
  obtain v where v: "vlan_init env True (Some v0) True (mg_vlan n) = Some (0, v)" "vlan_up v"
    using vlan_init_up [of "mg_vlan n" env i0 pa v0] f al(4) p n(4) by (auto simp: m_def env_def sw_env_def)
  have "bridge_init base mac ans sw = Some (sw\<lparr>sw_fdb := d, sw_mgr := n\<lparr>mg_vlan := v\<rparr>\<rparr>)"
    using d(1) [unfolded ve] n(1) v(1) al
    by (simp add: bridge_init_def bridge_base_init_def Let_def env_def [symmetric] m_def [symmetric])
  moreover have "sw_inv (sw\<lparr>sw_fdb := d, sw_mgr := n\<lparr>mg_vlan := v\<rparr>\<rparr>)"
    using d(2) n(2,3) v(2) f by (simp add: sw_inv_def mgr_up_def)
  ultimately show ?thesis by blast
qed


section \<open>Learning\<close>

text \<open>
  C29. A frame changes the forwarding database only if it came in on a port that is up, its spanning
  tree port is learning or forwarding or does not exist, and the first byte of its source address is zero. The
  last condition is the code's test for a unicast address, which every other unicast address fails.
\<close>

theorem learning_needs_active_port:
  assumes "process_pkt secs got f port sw = Some t" "sw_fdb t \<noteq> sw_fdb sw"
  shows "mac_bytes (fr_smac f) ! 0 = 0 \<and> mac_learning_allowed (sw_stp sw) (ucast port) = Some True
    \<and> (\<exists>p. cdb (uint port) sw = Some p \<and> if_oper_status p \<noteq> IF_DOWN \<and> if_admin_status p \<noteq> IF_DOWN)"
proof -
  obtain p where p: "cdb (uint port) sw = Some p" using assms(1) by (auto simp: process_pkt_def split: bind_splits)
  have up: "if_oper_status p \<noteq> IF_DOWN" "if_admin_status p \<noteq> IF_DOWN"
    using assms p by (auto simp: process_pkt_def split: if_splits)
  have u: "IS_MAC_UCAST_MAC (fr_smac f)"
    using assms p by (auto simp: process_pkt_def split: if_splits)
  then obtain r d where d: "mac_address_update secs got (mac_learning_allowed (sw_stp sw)) (fr_smac f) (ucast port) (sw_fdb sw) = Some (r, d)"
    "sw_fdb t = d"
    using assms(1) p up by (auto simp: process_pkt_def split: if_splits bind_splits)
  have "mac_learning_allowed (sw_stp sw) (ucast port) = Some True"
    using d assms(2) by (auto simp: mac_address_update_def split: if_splits bind_splits)
  moreover have "mac_bytes (fr_smac f) ! 0 = 0"
  proof -
    have "(255 :: u8) = NOT 0" by simp
    then have "x AND 255 = x" for x :: u8 by (simp only: and.right_neutral bit.compl_zero)
    with u show ?thesis by (simp add: IS_MAC_UCAST_MAC_def)
  qed
  ultimately show ?thesis using p up by blast
qed

end
