(* ===== verification/Switch_Examples.thy ===== *)
theory Switch_Examples
  imports Switch_Boot Stp_Examples
begin

unbundle bit_operations_syntax

text \<open>
  A concrete switch that was just powered on, and the properties of the forwarding database, of the vlans, of
  the spanning tree manager and of the whole switch at it.
\<close>

definition ex_mcu :: stp_msg where
  "ex_mcu = \<lparr>sm_type = 0, sm_port = 0, sm_vlanid = 0, sm_len = 0, sm_msg = Num 0\<rparr>"

definition ex_fdb :: fdb_sys where
  "ex_fdb = \<lparr>fdb_hash_table = None, fdb_heap = (\<lambda>_. \<lparr>mac_addr = MAC 0 0 0 0 0 0, fdb_vlan_id = 0, fdb_port = 0,
       fdb_status = 0, is_static = 0, expiry = 0\<rparr>), fdb_salt = 0, fdb_pool_id = 0, ageing_timer = None,
     tp_aging_time = 0, tp_learned_discards = 0, fdb_mem = mem_init\<rparr>"

definition ex_fdb_answers :: fdb_answers where
  "ex_fdb_answers = \<lparr>fa_tbl = True, fa_hash_mcb = True, fa_hash_mem = Some 4096, fa_hash_blks = True,
     fa_buckets = Some (replicate 1024 (Some [])), fa_mcb = True, fa_mem = Some 8192, fa_blks = True, fa_timer = True,
     fa_times = 1\<rparr>"

definition ex_vlans :: vlan_sys where
  "ex_vlans = \<lparr>vl_db = [], vl_ent = (\<lambda>_. vlan_zero), vlan_mem_id = 0, vl_mem = mem_init, vl_stp = stp_init,
     vl_rstp = rstp_sys_init\<rparr>"

definition ex_queues :: "int msgq_sys" where
  "ex_queues = msg_Q_init \<lparr>Queue = replicate 10 \<lparr>q_name = [], q_max_msg = 0, q_size = 0, q_mpool_id = 0, q_flags = 0,
     q_list = [], q_cells = (\<lambda>_. 0)\<rparr>, q_mem = mem_init\<rparr>"

definition ex_mgr :: mgr_sys where
  "ex_mgr = \<lparr>mg_q = ex_queues, mg_cells = (\<lambda>_. ex_mcu), stp_Q_pool_id = 0, stp_Q_id = 0, mg_vlan = ex_vlans\<rparr>"

definition ex_switch :: switch where
  "ex_switch = \<lparr>port_cdb = port_init (\<lambda>i. MAC 2 0 0 0 0 (of_nat i)), sw_fdb = ex_fdb, sw_mgr = ex_mgr\<rparr>"

definition ex_base :: vlan_env where
  "ex_base = \<lparr>vn_stp = ex_env, vn_rstp = example_env, vn_inst = Some 1, vn_rinst = Some 1,
     vn_port = (\<lambda>p. Some (nat p)), vn_rport = (\<lambda>p. Some (nat p))\<rparr>"

definition ex_answers :: bridge_answers where
  "ex_answers = \<lparr>ba_fdb = ex_fdb_answers, ba_queue = Some 4096, ba_msgs = Some 8192, ba_vlans = Some 16384\<rparr>"

definition ex_bpdu :: wire_pkt where
  "ex_bpdu = \<lparr>wp_stp = \<lparr>bpdu_type = 0, bpdu_flags = 0, bpdu_root_id = ex_root, bpdu_root_path_cost = 0,
       bpdu_bridge_id = ex_root, bpdu_port_id = 5, bpdu_message_age = 0, bpdu_max_age = 20, bpdu_hello_time = 2,
       bpdu_forward_delay = 15\<rparr>,
     wp_rstp = \<lparr>ether_dhost = br_group_address, ether_shost = MAC 2 0 0 0 0 7, ether_type = 0, cbu_dsap = 0x42,
       cbu_ssap = 0x42, cbu_ctl = 3, cbu_protoid = 0, cbu_protover = 0, cbu_bpdutype = 0, cbu_flags = 0,
       cbu_rootpri = 4096, cbu_rootaddr = MAC 2 0 0 0 0 7, cbu_rootpathcost = 0, cbu_bridgepri = 4096,
       cbu_bridgeaddr = MAC 2 0 0 0 0 7, cbu_portid = 5, cbu_messageage = 0, cbu_maxage = 20, cbu_hellotime = 2,
       cbu_forwarddelay = 15, cbu_versionlen = None\<rparr>\<rparr>"

lemma ex_granted: "granted 4096 8192 ex_fdb_answers"
  by (simp add: granted_def ex_fdb_answers_def)

lemma ex_fdb_mem: "mem_wf (fdb_mem ex_fdb)" "0 \<le> mcb_count (fdb_mem ex_fdb)"
  by (simp_all add: ex_fdb_def mem_wf_init, simp add: mem_init_def)

lemma ex_queues_fresh: "q_fresh ex_queues" "0 \<le> get_qid (Queue ex_queues)" "0 \<le> mcb_count (q_mem ex_queues)"
  by (auto simp: q_fresh_def ex_queues_def msg_Q_init_def mem_init_def mem_wf_def get_qid_def eval_nat_numeral)

section \<open>Forwarding database\<close>

abbreviation (input) "ex_host \<equiv> MAC 0 0 0 0 0 5"

theorem fdb_refines_station_table_witness:
  "\<exists>s0 rs u. fdb_init ex_env ex_fdb_answers ex_fdb = Some (0, s0)
    \<and> do_run fdb_step [Learn (\<lambda>_. Some True) ex_host 3 100, Learn (\<lambda>_. Some True) ex_host 4 200, AgeScan ex_env 400] s0
        = Some (rs, u)
    \<and> rs = [0, 0, 0] \<and> fdb_stations u ex_host = Some (4, 0, 500) \<and> card (used_blks (fdb_pool_id u) (fdb_mem u)) = 1"
proof -
  let ?es = "[Learn (\<lambda>_. Some True) ex_host 3 100, Learn (\<lambda>_. Some True) ex_host 4 200, AgeScan ex_env 400]"
  have s: "spec_run stn_step ?es (\<lambda>_. None, 0) = ([0, 0, 0], [ex_host \<mapsto> (4, 0, 500)], 0)"
    by (auto simp: fun_eq_iff)
  have "\<forall>e \<in> set ?es. fdb_allowed e" by simp
  from fdb_refines_station_table [OF ex_fdb_mem ex_granted this, of ex_env] obtain s0 rs u where
    u: "fdb_init ex_env ex_fdb_answers ex_fdb = Some (0, s0)" "do_run fdb_step ?es s0 = Some (rs, u)"
      "spec_run stn_step ?es (\<lambda>_. None, 0) = (rs, fdb_stations u, tp_learned_discards u)"
      "card (used_blks (fdb_pool_id u) (fdb_mem u)) = card (dom (fdb_stations u))" by blast
  from u(3) have r: "rs = [0, 0, 0]" "fdb_stations u = [ex_host \<mapsto> (4, 0, 500)]" unfolding s by simp_all
  have "fdb_stations u ex_host = Some (4, 0, 500)" "card (dom (fdb_stations u)) = 1" by (simp_all add: r(2))
  with u r(1) show ?thesis by (intro exI [of _ s0] exI [of _ rs] exI [of _ u]) simp
qed

section \<open>Vlans\<close>

theorem vlan_creation_refines_set_witness:
  "mem_wf (vl_mem ex_vlans) \<and> (\<exists>rs t. do_run vlan_create_vlan [1, 20, 20, 5000] (vlan_start 4096 ex_vlans) = Some (rs, t)
     \<and> rs = [0, 0, 0, -1] \<and> vlan_ids t = {1, 20} \<and> length (vl_db t) = 2)"
proof -
  have w: "mem_wf (vl_mem ex_vlans)" by (simp add: ex_vlans_def mem_wf_init)
  from vlan_creation_refines_set [OF w, of "[1, 20, 20, 5000]" 4096] obtain rs t where
    t: "do_run vlan_create_vlan [1, 20, 20, 5000] (vlan_start 4096 ex_vlans) = Some (rs, t)"
      "rs = [0, 0, 0, -1]" "vlan_ids t = {1, 20}" "distinct (map (\<lambda>b. ve_vlan_id (vl_ent t b)) (vl_db t))" by auto
  have "length (vl_db t) = card (vlan_ids t)"
    using distinct_card [OF t(4)] by (simp add: vlan_ids_def image_image)
  with t w show ?thesis by simp
qed

definition ex_two :: vlan_sys where
  "ex_two = ex_vlans\<lparr>vl_db := [10, 20],
     vl_ent := (\<lambda>a. if a = 10 then vlan_zero\<lparr>ve_vlan_id := 1, ve_egress := 1, ve_stp_enabled := 1, ve_stp_mode := 1, ve_stp := Some 1\<rparr>
       else vlan_zero\<lparr>ve_vlan_id := 7, ve_stp_enabled := 1, ve_stp_mode := 1, ve_stp := Some 2\<rparr>),
     vl_stp := \<lparr>sy_inst = (\<lambda>a. if a = 1 then leaf_bridge else lone_bridge\<lparr>br_port_list := []\<rparr>), sy_list = [1, 2],
       sy_freed = [], sy_ifinfo = (\<lambda>_. None)\<rparr>\<rparr>"

abbreviation (input) "ex_env_ports \<equiv> ex_base\<lparr>vn_port := (\<lambda>p. Some (nat p + 50))\<rparr>"

theorem vlan_add_port_after_disable_faults_witness:
  "\<exists>t. vlan_spanning_tree_disable_on_vlan ex_base 7 MODE_STP ex_two = Some (0, t) \<and> vlan_add_port ex_base 7 3 TAGGED t = None"
  by (rule vlan_add_port_after_disable_faults [of 7 ex_two 20 2 3 ex_base])
    (simp_all add: ex_two_def get_vlan_entry_def vlan_zero_def ex_base_def)

theorem vlan_moved_port_serves_old_instance_witness:
  "\<exists>t. set_tagged_port_to_vlan ex_env_ports 7 1 ex_two = Some (0, t) \<and> stp_get_port (sy_inst (vl_stp t) 2) 1 = Some 51
    \<and> stp_get_port_entry 1 (vl_stp t) = Some (1, 1)"
proof -
  obtain t where t: "set_tagged_port_to_vlan ex_env_ports 7 1 ex_two = Some (0, t)"
    "stp_get_port (sy_inst (vl_stp t) 2) 1 = Some 51"
    by (simp add: set_tagged_port_to_vlan_def vlan_add_port_def vlan_del_port_def get_vlan_entry_def upd_ent_def
        vlan_create_stp_port_def stp_create_port_sys_def on_stp_def stp_create_port_def put_inst_def stp_get_port_def
        ex_two_def ex_base_def vlan_zero_def ex_vlans_def SET_PORT_LIST_def RESET_PORT_LIST_def port_at_def vl_bytes_def
        vl_with_bytes_def ex_defs stp_port_new_def Let_def)
  have "j \<notin> set (br_port_list (sy_inst (vl_stp ex_two) b))" if j: "vn_port ex_env_ports 1 = Some j" for b j
    using j by (auto simp: ex_two_def ex_defs ex_base_def)
  with vlan_moved_port_serves_old_instance [of ex_two 1 "[2]" 1 1 ex_env_ports 7 t] t show ?thesis
    by (auto simp: ex_two_def stp_get_port_def ex_defs)
qed

section \<open>Spanning tree manager\<close>

lemma fill_queue:
  assumes "mgr_inv s" "mgr_queue s = []" "mgr_used s = {}" "n \<le> 24"
  shows "\<exists>t rs. do_run mgr_step (replicate n (MBpdu p port v len)) s = Some (rs, t) \<and> mgr_inv t
    \<and> length (mgr_queue t) = n \<and> card (mgr_used t) = n"
proof -
  have "\<exists>t rs. do_run mgr_step (replicate n (MBpdu p port v len)) s = Some (rs, t) \<and> mgr_inv t
      \<and> length (mgr_queue t) = length (mgr_queue s) + n \<and> card (mgr_used t) = card (mgr_used s) + n"
    if "mgr_inv s" "length (mgr_queue s) + n \<le> 24" "card (mgr_used s) + n \<le> 24" for s
    using that
  proof (induction n arbitrary: s)
    case (Suc n)
    from post_taken [OF Suc.prems(1), of "\<lambda>m. m\<lparr>sm_type := STP_MSG_TYPE_BPDU, sm_port := port, sm_vlanid := v,
        sm_len := len, sm_msg := Pkt p\<rparr>"] Suc.prems bpdu_ok(1) obtain a u where
      u: "stp_rcv_bpdu p port v len s = Some (0, u)" "mgr_inv u" "a \<notin> mgr_used s" "mgr_used u = insert a (mgr_used s)"
        "mgr_queue u = mgr_queue s @ [a]"
      unfolding stp_rcv_bpdu_def by auto
    have "card (mgr_used u) = Suc (card (mgr_used s))" using u used_finite [OF Suc.prems(1)] by simp
    with Suc.IH [OF u(2)] u Suc.prems show ?case by fastforce
  qed simp
  from this [OF assms(1)] assms show ?thesis by simp
qed


section \<open>The switch\<close>

lemma ex_switch_fresh: "sw_fresh ex_base ex_answers ex_switch"
proof -
  have "inj_on (vn_port ex_base) (set all_ports)" by (auto simp: inj_on_def ex_base_def all_ports_def)
  then show ?thesis
    using ex_fdb_mem ex_granted ex_queues_fresh
    by (auto simp: sw_fresh_def ex_switch_def ex_mgr_def ex_answers_def ex_vlans_def ex_base_def port_init_def mem_wf_init)
      (simp add: mem_init_def)
qed

abbreviation (input) "ex_frame \<equiv> \<lparr>fr_dmac = br_group_address, fr_smac = ex_host, fr_pkt = ex_bpdu, fr_len = 60\<rparr>"


theorem learning_needs_active_port_witness:
  "\<exists>sw t. process_pkt 10 True (ex_frame\<lparr>fr_dmac := ex_host\<rparr>) 1 sw = Some t \<and> sw_fdb t \<noteq> sw_fdb sw
    \<and> mac_learning_allowed (sw_stp sw) 1 = Some True"
proof -
  obtain d where d: "fdb_live d" "fdb_abs d = (\<lambda>_. None, 0)"
    using fdb_init_live [OF ex_fdb_mem ex_granted] by blast
  obtain d' where d': "mac_address_update 10 True (\<lambda>_. Some True) ex_host 1 d = Some (0, d')"
    "fdb_abs d' = ([ex_host \<mapsto> (1, 0, 310)], 0)"
    using fdb_table.run_simulates [OF d(1), of "[Learn (\<lambda>_. Some True) ex_host 1 10]"] d(2)
    by (auto split: bind_splits)
  with d(2) have ne: "d' \<noteq> d" by (auto dest: fun_cong [of _ _ ex_host])
  define sw where "sw = ex_switch\<lparr>port_cdb := map (\<lambda>p. p\<lparr>if_admin_status := IF_UP, if_oper_status := IF_UP\<rparr>) (port_cdb ex_switch), sw_fdb := d\<rparr>"
  have "mac_learning_allowed (sw_stp sw) = (\<lambda>_. Some True)"
    by (simp add: fun_eq_iff mac_learning_allowed_def sw_def ex_switch_def ex_mgr_def ex_vlans_def stp_init_def)
  with d'(1) have p: "process_pkt 10 True (ex_frame\<lparr>fr_dmac := ex_host\<rparr>) 1 sw = Some (sw\<lparr>sw_fdb := d'\<rparr>)"
    by (simp add: process_pkt_def cdb_def sw_def ex_switch_def port_init_def IS_MAC_UCAST_MAC_def is_dest_stp_group_address_def
        compare_ether_addr_def br_group_address_def)
  moreover have "sw_fdb (sw\<lparr>sw_fdb := d'\<rparr>) \<noteq> sw_fdb sw" using ne by (simp add: sw_def)
  ultimately show ?thesis using learning_needs_active_port [OF p] by (intro exI [of _ sw] exI [of _ "sw\<lparr>sw_fdb := d'\<rparr>"]) simp
qed

end
