(* ===== verification/Stream_Buf.thy ===== *)
theory Stream_Buf
  imports Switch_Prelude
begin

unbundle bit_operations_syntax

text \<open>
  The packet buffers of \<open>lib/stream.c\<close>: a block of bytes with a position to read from and a position to write
  to. Positions are \<open>size_t\<close>, so they wrap at 64 bits. An assertion that fails ends
  the program with \<open>Abort\<close>; an access outside the block is \<open>Overrun\<close>.
\<close>

section \<open>Results\<close>

datatype stream_error = Abort | Overrun

type_synonym 'a res = "stream_error + 'a"

fun res_bind :: "'a res \<Rightarrow> ('a \<Rightarrow> 'b res) \<Rightarrow> 'b res" where
  "res_bind (Inl e) f = Inl e"
| "res_bind (Inr x) f = f x"

definition res_map :: "('a \<Rightarrow> 'b) \<Rightarrow> 'a res \<Rightarrow> 'b res" where
  "res_map f r = res_bind r (\<lambda>x. Inr (f x))"

lemma res_map_simps [simp]: "res_map f (Inl e) = Inl e" "res_map f (Inr x) = Inr (f x)"
  by (simp_all add: res_map_def)

lemma res_map_Inr [simp]: "res_map f r = Inr y \<longleftrightarrow> (\<exists>x. r = Inr x \<and> y = f x)"
  by (cases r) auto

lemma res_map_Inl [simp]: "res_map f r = Inl e \<longleftrightarrow> r = Inl e"
  by (cases r) auto

lemma res_map_comp [simp]: "res_map f (res_map g r) = res_map (\<lambda>x. f (g x)) r"
  by (cases r) auto

section \<open>Buffers\<close>

record stream =
  st_getp :: u64
  st_endp :: u64
  st_size :: u64
  st_data :: "u8 list"

definition GETP_VALID :: "stream \<Rightarrow> u64 \<Rightarrow> bool" where
  "GETP_VALID s g \<longleftrightarrow> g \<le> st_endp s"

definition ENDP_VALID :: "stream \<Rightarrow> u64 \<Rightarrow> bool" where
  "ENDP_VALID s e \<longleftrightarrow> e \<le> st_size s"

definition STREAM_VERIFY_SANE :: "stream \<Rightarrow> 'a res \<Rightarrow> 'a res" where
  "STREAM_VERIFY_SANE s k = (if GETP_VALID s (st_getp s) \<and> ENDP_VALID s (st_endp s) then k else Inl Abort)"

definition STREAM_WRITEABLE :: "stream \<Rightarrow> u64" where
  "STREAM_WRITEABLE s = st_size s - st_endp s"

definition STREAM_READABLE :: "stream \<Rightarrow> u64" where
  "STREAM_READABLE s = st_endp s - st_getp s"

definition CHECK_SIZE :: "stream \<Rightarrow> u64 \<Rightarrow> u64" where
  "CHECK_SIZE s z = (if st_endp s + z > st_size s then st_size s - st_endp s else z)"

text \<open>\<open>memcpy\<close> out of a block and into it.\<close>

definition mem_read :: "u8 list \<Rightarrow> u64 \<Rightarrow> u64 \<Rightarrow> u8 list res" where
  "mem_read bs p n = (if unat p + unat n \<le> length bs then Inr (take (unat n) (drop (unat p) bs)) else Inl Overrun)"

definition mem_write :: "u64 \<Rightarrow> u8 list \<Rightarrow> stream \<Rightarrow> stream res" where
  "mem_write p bs s =
    (if unat p + length bs \<le> length (st_data s)
     then Inr (s\<lparr>st_data := take (unat p) (st_data s) @ bs @ drop (unat p + length bs) (st_data s)\<rparr>)
     else Inl Overrun)"

text \<open>\<open>got_s\<close> is whether the structure could be allocated, \<open>mem\<close> what the block for the bytes holds.\<close>

definition stream_new :: "bool \<Rightarrow> (nat \<Rightarrow> u8) option \<Rightarrow> u64 \<Rightarrow> stream option res" where
  "stream_new got_s mem sz =
    (if \<not> sz > 0 then Inl Abort
     else if \<not> got_s then Inr None
     else case mem of
            None \<Rightarrow> Inr None
          | Some f \<Rightarrow> Inr (Some \<lparr>st_getp = 0, st_endp = 0, st_size = sz, st_data = map f [0..<unat sz]\<rparr>))"

definition stream_copy :: "stream option \<Rightarrow> stream \<Rightarrow> stream res" where
  "stream_copy new src = STREAM_VERIFY_SANE src
    (case new of
       None \<Rightarrow> Inl Abort
     | Some n \<Rightarrow>
         if \<not> st_size n \<ge> st_endp src then Inl Abort
         else res_bind (mem_read (st_data src) 0 (st_endp src))
                (\<lambda>bs. mem_write 0 bs (n\<lparr>st_endp := st_endp src, st_getp := st_getp src\<rparr>)))"

definition stream_dup :: "bool \<Rightarrow> (nat \<Rightarrow> u8) option \<Rightarrow> stream \<Rightarrow> stream option res" where
  "stream_dup got_s mem s = STREAM_VERIFY_SANE s
    (res_bind (stream_new got_s mem (st_endp s))
       (\<lambda>n. case n of None \<Rightarrow> Inr None | Some n \<Rightarrow> res_map Some (stream_copy (Some n) s)))"

text \<open>\<open>fresh\<close> is what \<open>realloc\<close> leaves in the bytes it adds, or \<open>None\<close> where it fails.\<close>

definition stream_resize :: "(nat \<Rightarrow> u8) option \<Rightarrow> u64 \<Rightarrow> stream \<Rightarrow> (u64 \<times> stream) res" where
  "stream_resize fresh newsize s = STREAM_VERIFY_SANE s
    (case fresh of
       None \<Rightarrow> Inr (st_size s, s)
     | Some f \<Rightarrow>
         let s = s\<lparr>st_data := map (\<lambda>i. if i < length (st_data s) then st_data s ! i else f i) [0..<unat newsize], st_size := newsize\<rparr>;
             s = (if st_endp s > st_size s then s\<lparr>st_endp := st_size s\<rparr> else s);
             s = (if st_getp s > st_endp s then s\<lparr>st_getp := st_endp s\<rparr> else s)
         in STREAM_VERIFY_SANE s (Inr (st_size s, s)))"

definition stream_get_getp :: "stream \<Rightarrow> u64 res" where
  "stream_get_getp s = STREAM_VERIFY_SANE s (Inr (st_getp s))"

definition stream_get_endp :: "stream \<Rightarrow> u64 res" where
  "stream_get_endp s = STREAM_VERIFY_SANE s (Inr (st_endp s))"

definition stream_get_size :: "stream \<Rightarrow> u64 res" where
  "stream_get_size s = STREAM_VERIFY_SANE s (Inr (st_size s))"

definition stream_set_getp :: "u64 \<Rightarrow> stream \<Rightarrow> stream res" where
  "stream_set_getp pos s = STREAM_VERIFY_SANE s (if \<not> GETP_VALID s pos then Inl Abort else Inr (s\<lparr>st_getp := pos\<rparr>))"

definition stream_forward_getp :: "u64 \<Rightarrow> stream \<Rightarrow> stream res" where
  "stream_forward_getp sz s = STREAM_VERIFY_SANE s
    (if \<not> GETP_VALID s (st_getp s + sz) then Inl Abort else Inr (s\<lparr>st_getp := st_getp s + sz\<rparr>))"

definition stream_forward_endp :: "u64 \<Rightarrow> stream \<Rightarrow> stream res" where
  "stream_forward_endp sz s = STREAM_VERIFY_SANE s
    (if \<not> ENDP_VALID s (st_endp s + sz) then Inl Abort else Inr (s\<lparr>st_endp := st_endp s + sz\<rparr>))"

section \<open>Reading\<close>

definition stream_get :: "u64 \<Rightarrow> stream \<Rightarrow> (u8 list \<times> stream) res" where
  "stream_get sz s = STREAM_VERIFY_SANE s
    (if STREAM_READABLE s < sz then Inl Abort
     else res_map (\<lambda>bs. (bs, s\<lparr>st_getp := st_getp s + sz\<rparr>)) (mem_read (st_data s) (st_getp s) sz))"

text \<open>The readers of a number test as \<open>stream_get\<close> does and take the bytes one by one.\<close>

definition word16 :: "u8 list \<Rightarrow> u16" where
  "word16 bs = push_bit 8 (ucast (bs ! 0)) OR ucast (bs ! 1)"

definition word32 :: "u8 list \<Rightarrow> u32" where
  "word32 bs = push_bit 24 (ucast (bs ! 0)) OR push_bit 16 (ucast (bs ! 1)) OR push_bit 8 (ucast (bs ! 2)) OR ucast (bs ! 3)"

definition word64 :: "u8 list \<Rightarrow> u64" where
  "word64 bs = push_bit 56 (ucast (bs ! 0)) OR push_bit 48 (ucast (bs ! 1)) OR push_bit 40 (ucast (bs ! 2))
     OR push_bit 32 (ucast (bs ! 3)) OR push_bit 24 (ucast (bs ! 4)) OR push_bit 16 (ucast (bs ! 5))
     OR push_bit 8 (ucast (bs ! 6)) OR ucast (bs ! 7)"

definition stream_getc :: "stream \<Rightarrow> (u8 \<times> stream) res" where
  "stream_getc s = res_map (\<lambda>(bs, s). (bs ! 0, s)) (stream_get 1 s)"

definition stream_getw :: "stream \<Rightarrow> (u16 \<times> stream) res" where
  "stream_getw s = res_map (\<lambda>(bs, s). (word16 bs, s)) (stream_get 2 s)"

definition stream_getl :: "stream \<Rightarrow> (u32 \<times> stream) res" where
  "stream_getl s = res_map (\<lambda>(bs, s). (word32 bs, s)) (stream_get 4 s)"

definition stream_getq :: "stream \<Rightarrow> (u64 \<times> stream) res" where
  "stream_getq s = res_map (\<lambda>(bs, s). (word64 bs, s)) (stream_get 8 s)"

text \<open>An address is copied as it lies in memory.\<close>

definition stream_get_ipv4 :: "stream \<Rightarrow> (u32 \<times> stream) res" where
  "stream_get_ipv4 s = res_map (\<lambda>(bs, s). (le32 (bs ! 0) (bs ! 1) (bs ! 2) (bs ! 3), s)) (stream_get 4 s)"

definition peek :: "u64 \<Rightarrow> u64 \<Rightarrow> stream \<Rightarrow> u8 list res" where
  "peek n from s = STREAM_VERIFY_SANE s (if \<not> GETP_VALID s (from + n) then Inl Abort else mem_read (st_data s) from n)"

definition stream_getc_from :: "u64 \<Rightarrow> stream \<Rightarrow> u8 res" where
  "stream_getc_from from s = res_map (\<lambda>bs. bs ! 0) (peek 1 from s)"

definition stream_getw_from :: "u64 \<Rightarrow> stream \<Rightarrow> u16 res" where
  "stream_getw_from from s = res_map word16 (peek 2 from s)"

definition stream_getl_from :: "u64 \<Rightarrow> stream \<Rightarrow> u32 res" where
  "stream_getl_from from s = res_map word32 (peek 4 from s)"

definition stream_getq_from :: "u64 \<Rightarrow> stream \<Rightarrow> u64 res" where
  "stream_getq_from from s = res_map word64 (peek 8 from s)"

section \<open>Writing\<close>

text \<open>The bytes of a number in the order they are written, and the common part of the writers.\<close>

definition bytes16 :: "u16 \<Rightarrow> u8 list" where
  "bytes16 w = [ucast (drop_bit 8 w), ucast w]"

definition bytes32 :: "u32 \<Rightarrow> u8 list" where
  "bytes32 l = [ucast (drop_bit 24 l), ucast (drop_bit 16 l), ucast (drop_bit 8 l), ucast l]"

definition bytes64 :: "u64 \<Rightarrow> u8 list" where
  "bytes64 q = [ucast (drop_bit 56 q), ucast (drop_bit 48 q), ucast (drop_bit 40 q), ucast (drop_bit 32 q),
     ucast (drop_bit 24 q), ucast (drop_bit 16 q), ucast (drop_bit 8 q), ucast q]"

definition put_bytes :: "u8 list \<Rightarrow> stream \<Rightarrow> (int \<times> stream) res" where
  "put_bytes bs s = STREAM_VERIFY_SANE s
    (if STREAM_WRITEABLE s < of_nat (length bs) then Inl Abort
     else res_map (\<lambda>s. (int (length bs), s\<lparr>st_endp := st_endp s + of_nat (length bs)\<rparr>)) (mem_write (st_endp s) bs s))"

definition stream_putc :: "u8 \<Rightarrow> stream \<Rightarrow> (int \<times> stream) res" where
  "stream_putc c = put_bytes [c]"

definition stream_putw :: "u16 \<Rightarrow> stream \<Rightarrow> (int \<times> stream) res" where
  "stream_putw w = put_bytes (bytes16 w)"

definition stream_putl :: "u32 \<Rightarrow> stream \<Rightarrow> (int \<times> stream) res" where
  "stream_putl l = put_bytes (bytes32 l)"

definition stream_putq :: "u64 \<Rightarrow> stream \<Rightarrow> (int \<times> stream) res" where
  "stream_putq q = put_bytes (bytes64 q)"

definition in_memory :: "u32 \<Rightarrow> u8 list" where
  "in_memory l = [byte_of 0 l, byte_of 1 l, byte_of 2 l, byte_of 3 l]"

definition stream_put_ipv4 :: "u32 \<Rightarrow> stream \<Rightarrow> (int \<times> stream) res" where
  "stream_put_ipv4 l = put_bytes (in_memory l)"

definition stream_put_in_addr :: "u32 \<Rightarrow> stream \<Rightarrow> (int \<times> stream) res" where
  "stream_put_in_addr addr = put_bytes (in_memory addr)"

definition poke :: "u64 \<Rightarrow> u8 list \<Rightarrow> stream \<Rightarrow> (int \<times> stream) res" where
  "poke putp bs s = STREAM_VERIFY_SANE s
    (if \<not> GETP_VALID s (putp + of_nat (length bs)) then Inl Abort
     else res_map (\<lambda>s. (int (length bs), s)) (mem_write putp bs s))"

definition stream_putc_at :: "u64 \<Rightarrow> u8 \<Rightarrow> stream \<Rightarrow> (int \<times> stream) res" where
  "stream_putc_at putp c = poke putp [c]"

definition stream_putw_at :: "u64 \<Rightarrow> u16 \<Rightarrow> stream \<Rightarrow> (int \<times> stream) res" where
  "stream_putw_at putp w = poke putp (bytes16 w)"

definition stream_putl_at :: "u64 \<Rightarrow> u32 \<Rightarrow> stream \<Rightarrow> (int \<times> stream) res" where
  "stream_putl_at putp l = poke putp (bytes32 l)"

definition stream_putq_at :: "u64 \<Rightarrow> u64 \<Rightarrow> stream \<Rightarrow> (int \<times> stream) res" where
  "stream_putq_at putp q = poke putp (bytes64 q)"

text \<open>\<open>src\<close> is the block to copy from; without one the bytes are zero.\<close>

definition stream_put :: "u8 list option \<Rightarrow> u64 \<Rightarrow> stream \<Rightarrow> stream res" where
  "stream_put src sz s =
    (let sz = CHECK_SIZE s sz in
     STREAM_VERIFY_SANE s
       (if STREAM_WRITEABLE s < sz then Inl Abort
        else res_bind (case src of Some bs \<Rightarrow> mem_read bs 0 sz | None \<Rightarrow> Inr (replicate (unat sz) 0))
               (\<lambda>bs. res_map (\<lambda>s. s\<lparr>st_endp := st_endp s + sz\<rparr>) (mem_write (st_endp s) bs s))))"

definition stream_write :: "u8 list \<Rightarrow> u64 \<Rightarrow> stream \<Rightarrow> (u64 \<times> stream) res" where
  "stream_write ptr sz s =
    (let sz = CHECK_SIZE s sz in
     STREAM_VERIFY_SANE s
       (if STREAM_WRITEABLE s < sz then Inl Abort
        else res_bind (mem_read ptr 0 sz)
               (\<lambda>bs. res_map (\<lambda>s. (sz, s\<lparr>st_endp := st_endp s + sz\<rparr>)) (mem_write (st_endp s) bs s))))"

definition PSIZE :: "u8 \<Rightarrow> u64" where
  "PSIZE a = (ucast a + 7) div 8"

text \<open>The space is tested for the bytes of the prefix alone, without its length.\<close>

definition stream_put_prefix :: "u8 \<Rightarrow> u8 list \<Rightarrow> stream \<Rightarrow> (int \<times> stream) res" where
  "stream_put_prefix prefixlen prefix s = STREAM_VERIFY_SANE s
    (let psize = PSIZE prefixlen in
     if STREAM_WRITEABLE s < psize then Inl Abort
     else res_bind (stream_putc prefixlen s)
            (\<lambda>(r, s). res_bind (mem_read prefix 0 psize)
               (\<lambda>bs. res_map (\<lambda>s. (uint psize, s\<lparr>st_endp := st_endp s + psize\<rparr>)) (mem_write (st_endp s) bs s))))"

section \<open>Input and output\<close>

text \<open>
  \<open>input\<close> is what the system call delivered: the bytes, at most the number asked for, or an error number
  that is transient or not.
\<close>

definition fill :: "u64 \<Rightarrow> (bool + u8 list) \<Rightarrow> stream \<Rightarrow> (int \<times> stream) res" where
  "fill sz input s =
    (case input of
       Inl _ \<Rightarrow> Inr (-1, s)
     | Inr bs \<Rightarrow>
         let bs = take (unat sz) bs
         in res_map (\<lambda>s. (int (length bs), s\<lparr>st_endp := st_endp s + of_nat (length bs)\<rparr>)) (mem_write (st_endp s) bs s))"

definition stream_read :: "u64 \<Rightarrow> (bool + u8 list) \<Rightarrow> stream \<Rightarrow> (int \<times> stream) res" where
  "stream_read sz input s = STREAM_VERIFY_SANE s (if STREAM_WRITEABLE s < sz then Inl Abort else fill sz input s)"

definition stream_read_unblock :: "u64 \<Rightarrow> (bool + u8 list) \<Rightarrow> stream \<Rightarrow> (int \<times> stream) res" where
  "stream_read_unblock sz input s =
     STREAM_VERIFY_SANE s (if STREAM_WRITEABLE s < sz then Inl Abort else fill sz input s)"

definition retry_code :: "(bool + u8 list) \<Rightarrow> int \<times> stream \<Rightarrow> int \<times> stream" where
  "retry_code input = (\<lambda>(r, s). (if input = Inl True then -2 else r, s))"

definition stream_read_try :: "u64 \<Rightarrow> (bool + u8 list) \<Rightarrow> stream \<Rightarrow> (int \<times> stream) res" where
  "stream_read_try sz input s = STREAM_VERIFY_SANE s
     (if STREAM_WRITEABLE s < sz then Inl Abort else res_map (retry_code input) (fill sz input s))"

definition stream_recvfrom :: "u64 \<Rightarrow> (bool + u8 list) \<Rightarrow> stream \<Rightarrow> (int \<times> stream) res" where
  "stream_recvfrom sz input s = STREAM_VERIFY_SANE s
     (if STREAM_WRITEABLE s < sz then Inl Abort else res_map (retry_code input) (fill sz input s))"

definition stream_recvmsg :: "nat \<Rightarrow> u64 \<Rightarrow> (bool + u8 list) \<Rightarrow> stream \<Rightarrow> (int \<times> stream) res" where
  "stream_recvmsg iovlen sz input s = STREAM_VERIFY_SANE s
     (if \<not> iovlen > 0 then Inl Abort
      else if STREAM_WRITEABLE s < sz then Inl Abort else fill sz input s)"

text \<open>\<open>stream_flush\<close> hands these bytes to \<open>write\<close>.\<close>

definition stream_flush :: "stream \<Rightarrow> u8 list res" where
  "stream_flush s = STREAM_VERIFY_SANE s (mem_read (st_data s) (st_getp s) (st_endp s - st_getp s))"

definition stream_pnt :: "stream \<Rightarrow> u64 res" where
  "stream_pnt s = STREAM_VERIFY_SANE s (Inr (st_getp s))"

definition stream_empty :: "stream \<Rightarrow> bool res" where
  "stream_empty s = STREAM_VERIFY_SANE s (Inr (st_endp s = 0))"

definition stream_reset :: "stream \<Rightarrow> stream res" where
  "stream_reset s = STREAM_VERIFY_SANE s (Inr (s\<lparr>st_getp := 0, st_endp := 0\<rparr>))"

section \<open>Well-formed buffers\<close>

text \<open>No block is as large as half of the address space.\<close>

definition stream_wf :: "stream \<Rightarrow> bool" where
  "stream_wf s \<longleftrightarrow> st_getp s \<le> st_endp s \<and> st_endp s \<le> st_size s \<and> unat (st_size s) = length (st_data s)
     \<and> length (st_data s) < 2 ^ 63"

definition unread :: "stream \<Rightarrow> u8 list" where
  "unread s = take (unat (st_endp s) - unat (st_getp s)) (drop (unat (st_getp s)) (st_data s))"

definition room :: "stream \<Rightarrow> nat" where
  "room s = unat (st_size s) - unat (st_endp s)"

lemma sane [simp]: "stream_wf s \<Longrightarrow> STREAM_VERIFY_SANE s k = k"
  by (simp add: STREAM_VERIFY_SANE_def GETP_VALID_def ENDP_VALID_def stream_wf_def)

lemma wf_nat:
  assumes "stream_wf s"
  shows "unat (st_getp s) \<le> unat (st_endp s)" "unat (st_endp s) \<le> length (st_data s)" "unat (st_size s) = length (st_data s)"
    "length (st_data s) < 2 ^ 63" "unat (STREAM_READABLE s) = unat (st_endp s) - unat (st_getp s)"
    "unat (STREAM_WRITEABLE s) = room s" "length (unread s) = unat (st_endp s) - unat (st_getp s)"
  using assms by (auto simp: stream_wf_def word_le_nat_alt STREAM_READABLE_def STREAM_WRITEABLE_def unat_sub room_def unread_def)

lemma unat_plus_nat: "unat (w :: u64) + n < 2 ^ 64 \<Longrightarrow> unat (w + of_nat n) = unat w + n"
  by (simp add: unat_word_ariths unat_of_nat take_bit_nat_eq_self_iff)

lemma unat_plus_small: "unat (a :: u64) + unat b < 2 ^ 64 \<Longrightarrow> unat (a + b) = unat a + unat b"
  using unat_plus_nat [of a "unat b"] by simp

lemma less_of_nat: "n < 2 ^ 64 \<Longrightarrow> (w :: u64) < of_nat n \<longleftrightarrow> unat w < n"
  by (simp add: word_less_nat_alt unat_of_nat take_bit_nat_eq_self_iff)

text \<open>Writing behind the end appends to what is unread; reading takes from its front.\<close>

lemma append_bytes:
  assumes "stream_wf s" "length bs \<le> room s"
  shows "\<exists>t. mem_write (st_endp s) bs s = Inr t \<and> stream_wf (t\<lparr>st_endp := st_endp t + of_nat (length bs)\<rparr>)
    \<and> unread (t\<lparr>st_endp := st_endp t + of_nat (length bs)\<rparr>) = unread s @ bs
    \<and> room (t\<lparr>st_endp := st_endp t + of_nat (length bs)\<rparr>) = room s - length bs"
proof -
  note w = wf_nat [OF assms(1)]
  let ?e = "unat (st_endp s)" and ?g = "unat (st_getp s)"
  have f: "?e + length bs \<le> length (st_data s)" using assms(2) w by (simp add: room_def)
  then have e: "unat (st_endp s + of_nat (length bs)) = ?e + length bs" using w(4) by (intro unat_plus_nat) simp
  have "take (?e + length bs - ?g) (drop ?g (take ?e (st_data s) @ bs @ drop (?e + length bs) (st_data s))) = unread s @ bs"
    using w(1,2) f by (simp add: unread_def drop_take)
  with f e w show ?thesis
    by (auto simp: mem_write_def stream_wf_def unread_def room_def word_le_nat_alt)
qed

lemma put_bytes_ok:
  assumes "stream_wf s" "length bs \<le> room s"
  shows "\<exists>t. put_bytes bs s = Inr (int (length bs), t) \<and> stream_wf t \<and> unread t = unread s @ bs \<and> room t = room s - length bs"
proof -
  have "length bs < 2 ^ 64" using assms wf_nat(3,4) [OF assms(1)] by (simp add: room_def)
  then have "\<not> STREAM_WRITEABLE s < of_nat (length bs)" using assms wf_nat(6) [OF assms(1)] by (simp add: less_of_nat)
  with append_bytes [OF assms] assms(1) show ?thesis by (auto simp: put_bytes_def)
qed

lemma put_bytes_full:
  assumes "stream_wf s" "room s < length bs" "length bs < 2 ^ 64"
  shows "put_bytes bs s = Inl Abort"
  using assms wf_nat(6) [OF assms(1)] by (simp add: put_bytes_def less_of_nat)

lemma get_ok:
  assumes "stream_wf s" "unat n \<le> length (unread s)"
  shows "\<exists>t. stream_get n s = Inr (take (unat n) (unread s), t) \<and> stream_wf t \<and> unread t = drop (unat n) (unread s) \<and> room t = room s"
proof -
  note w = wf_nat [OF assms(1)]
  have n: "unat (st_getp s) + unat n \<le> unat (st_endp s)" using assms(2) w by simp
  then have g: "unat (st_getp s + n) = unat (st_getp s) + unat n" using w by (intro unat_plus_small) simp
  have "\<not> STREAM_READABLE s < n" using n w(5) by (simp add: word_less_nat_alt)
  then have "stream_get n s = Inr (take (unat n) (unread s), s\<lparr>st_getp := st_getp s + n\<rparr>)"
    using assms(1) n w by (simp add: stream_get_def mem_read_def unread_def min_def)
  moreover have "stream_wf (s\<lparr>st_getp := st_getp s + n\<rparr>)" using assms(1) n g by (simp add: stream_wf_def word_le_nat_alt)
  moreover have "unread (s\<lparr>st_getp := st_getp s + n\<rparr>) = drop (unat n) (unread s)"
    by (simp add: unread_def g drop_take add.commute [of "unat n"])
  ultimately show ?thesis by (simp add: room_def)
qed

lemma get_short:
  assumes "stream_wf s" "length (unread s) < unat n"
  shows "stream_get n s = Inl Abort"
  using assms wf_nat(5,7) [OF assms(1)] by (simp add: stream_get_def word_less_nat_alt)

section \<open>Values in a buffer\<close>

fun put_seq :: "('v \<Rightarrow> 's \<Rightarrow> (int \<times> 's) res) \<Rightarrow> 'v list \<Rightarrow> 's \<Rightarrow> 's res" where
  "put_seq put [] s = Inr s"
| "put_seq put (v # vs) s = res_bind (put v s) (\<lambda>(r, s). put_seq put vs s)"

fun get_seq :: "('k \<Rightarrow> 's \<Rightarrow> ('v \<times> 's) res) \<Rightarrow> 'k list \<Rightarrow> 's \<Rightarrow> ('v list \<times> 's) res" where
  "get_seq get [] s = Inr ([], s)"
| "get_seq get (k # ks) s = res_bind (get k s) (\<lambda>(v, s). res_map (\<lambda>(vs, s). (v # vs, s)) (get_seq get ks s))"

text \<open>The interface of a byte channel, and what it gives a client that encodes values into bytes.\<close>

locale byte_channel =
  fixes put :: "u8 list \<Rightarrow> 's \<Rightarrow> (int \<times> 's) res"
    and get :: "nat \<Rightarrow> 's \<Rightarrow> (u8 list \<times> 's) res"
    and inv :: "'s \<Rightarrow> bool"
    and content :: "'s \<Rightarrow> u8 list"
    and space :: "'s \<Rightarrow> nat"
  assumes put_law: "inv s \<Longrightarrow> length bs \<le> space s \<Longrightarrow>
      \<exists>t. put bs s = Inr (int (length bs), t) \<and> inv t \<and> content t = content s @ bs \<and> space t = space s - length bs"
    and get_law: "inv s \<Longrightarrow> n \<le> length (content s) \<Longrightarrow>
      \<exists>t. get n s = Inr (take n (content s), t) \<and> inv t \<and> content t = drop n (content s) \<and> space t = space s"
begin

lemma put_seq_ok:
  assumes "inv s" "length (concat (map enc vs)) \<le> space s"
  shows "\<exists>t. put_seq (\<lambda>v. put (enc v)) vs s = Inr t \<and> inv t \<and> content t = content s @ concat (map enc vs)
    \<and> space t = space s - length (concat (map enc vs))"
  using assms
proof (induction vs arbitrary: s)
  case (Cons v vs)
  have le: "length (enc v) \<le> space s" using Cons.prems(2) by simp
  from put_law [OF Cons.prems(1) le] obtain t where t: "put (enc v) s = Inr (int (length (enc v)), t)" "inv t"
    "content t = content s @ enc v" "space t = space s - length (enc v)" by blast
  from Cons.IH [OF t(2)] Cons.prems(2) t show ?case by auto
qed simp

lemma get_seq_ok:
  assumes "\<forall>v \<in> set vs. dec (kind v) (enc v) = v \<and> width (kind v) = length (enc v)"
    and "inv s" "content s = concat (map enc vs) @ rest"
  shows "\<exists>t. get_seq (\<lambda>k s. res_map (\<lambda>(bs, s). (dec k bs, s)) (get (width k) s)) (map kind vs) s = Inr (vs, t)
    \<and> inv t \<and> content t = rest \<and> space t = space s"
  using assms
proof (induction vs arbitrary: s)
  case (Cons v vs)
  have le: "length (enc v) \<le> length (content s)" using Cons.prems(3) by simp
  from get_law [OF Cons.prems(2) le] Cons.prems(3) obtain t where t: "get (length (enc v)) s = Inr (enc v, t)" "inv t"
    "content t = concat (map enc vs) @ rest" "space t = space s" by auto
  from Cons.IH [OF _ t(2,3)] Cons.prems(1) t show ?case by auto
qed simp

end

interpretation buf: byte_channel put_bytes "\<lambda>n. stream_get (of_nat n)" stream_wf unread room
proof unfold_locales
  fix n s
  assume s: "stream_wf s" and n: "n \<le> length (unread s)"
  then have "n < 2 ^ 64" using wf_nat(2,4,7) [OF s] by simp
  then have "unat (of_nat n :: u64) = n" by (simp add: unat_of_nat take_bit_nat_eq_self_iff)
  with get_ok [OF s, of "of_nat n"] n show "\<exists>t. stream_get (of_nat n) s = Inr (take n (unread s), t) \<and> stream_wf t
      \<and> unread t = drop n (unread s) \<and> room t = room s" by simp
qed (use put_bytes_ok in blast)

datatype wire_val = V8 u8 | V16 u16 | V32 u32 | V64 u64 | VAddr u32
datatype wire_kind = K8 | K16 | K32 | K64 | KAddr

fun kind_of :: "wire_val \<Rightarrow> wire_kind" where
  "kind_of (V8 _) = K8" | "kind_of (V16 _) = K16" | "kind_of (V32 _) = K32" | "kind_of (V64 _) = K64" | "kind_of (VAddr _) = KAddr"

fun put_val :: "wire_val \<Rightarrow> stream \<Rightarrow> (int \<times> stream) res" where
  "put_val (V8 c) = stream_putc c"
| "put_val (V16 w) = stream_putw w"
| "put_val (V32 l) = stream_putl l"
| "put_val (V64 q) = stream_putq q"
| "put_val (VAddr a) = stream_put_ipv4 a"

fun get_val :: "wire_kind \<Rightarrow> stream \<Rightarrow> (wire_val \<times> stream) res" where
  "get_val K8 s = res_map (\<lambda>(c, s). (V8 c, s)) (stream_getc s)"
| "get_val K16 s = res_map (\<lambda>(w, s). (V16 w, s)) (stream_getw s)"
| "get_val K32 s = res_map (\<lambda>(l, s). (V32 l, s)) (stream_getl s)"
| "get_val K64 s = res_map (\<lambda>(q, s). (V64 q, s)) (stream_getq s)"
| "get_val KAddr s = res_map (\<lambda>(a, s). (VAddr a, s)) (stream_get_ipv4 s)"

fun val_bytes :: "wire_val \<Rightarrow> u8 list" where
  "val_bytes (V8 c) = [c]" | "val_bytes (V16 w) = bytes16 w" | "val_bytes (V32 l) = bytes32 l"
| "val_bytes (V64 q) = bytes64 q" | "val_bytes (VAddr a) = in_memory a"

fun bytes_val :: "wire_kind \<Rightarrow> u8 list \<Rightarrow> wire_val" where
  "bytes_val K8 bs = V8 (bs ! 0)" | "bytes_val K16 bs = V16 (word16 bs)" | "bytes_val K32 bs = V32 (word32 bs)"
| "bytes_val K64 bs = V64 (word64 bs)" | "bytes_val KAddr bs = VAddr (le32 (bs ! 0) (bs ! 1) (bs ! 2) (bs ! 3))"

fun kind_width :: "wire_kind \<Rightarrow> nat" where
  "kind_width K8 = 1" | "kind_width K16 = 2" | "kind_width K32 = 4" | "kind_width K64 = 8" | "kind_width KAddr = 4"

lemma word16_bytes [simp]: "word16 (bytes16 w) = w"
  by (rule bit_word_eqI) (auto simp: word16_def bytes16_def bit_simps)

lemma word32_bytes [simp]: "word32 (bytes32 l) = l"
proof -
  have "word32 (bytes32 l) = le32 (byte_of 0 l) (byte_of 1 l) (byte_of 2 l) (byte_of 3 l)"
    by (simp add: word32_def bytes32_def le32_def byte_of_def ac_simps)
  then show ?thesis by simp
qed

lemma word64_halves: "word64 (bs @ cs) = push_bit 32 (ucast (word32 bs)) OR ucast (word32 cs)" if "length bs = 4" "length cs = 4"
proof -
  have p: "push_bit 32 (push_bit n (w :: u64)) = push_bit (n + 32) w" for n w by (simp add: push_bit_push_bit ac_simps)
  have b8: "bit b n \<Longrightarrow> n < 8" for b :: u8 and n using bit_imp_le_length by fastforce
  have u: "ucast (push_bit n (ucast b :: u32)) = push_bit n (ucast b :: u64)" if "n \<le> 24" for n and b :: u8
    by (rule bit_word_eqI) (use that in \<open>fastforce simp: bit_simps dest: b8\<close>)
  have o: "ucast (v OR w) = (ucast v OR ucast w :: u64)" for v w :: u32 by (rule bit_word_eqI) (auto simp: bit_simps)
  have c: "ucast (ucast b :: u32) = (ucast b :: u64)" for b :: u8 by (rule bit_word_eqI) (fastforce simp: bit_simps dest: b8)
  show ?thesis
    using that by (simp add: word64_def word32_def nth_append push_bit_or o u c p ac_simps)
qed

lemma word64_bytes [simp]: "word64 (bytes64 q) = q"
proof -
  have d: "(ucast (drop_bit n (ucast q :: u32)) :: u8) = ucast (drop_bit n q)" if "n \<le> 24" for n
    by (rule bit_word_eqI) (use that in \<open>auto simp: bit_simps\<close>)
  have c: "(ucast (ucast q :: u32) :: u8) = ucast q" for q :: u64 by (rule bit_word_eqI) (auto simp: bit_simps)
  have h: "(ucast (drop_bit n (ucast (drop_bit 32 q) :: u32)) :: u8) = ucast (drop_bit (n + 32) q)" if "n \<le> 24" for n
    by (rule bit_word_eqI) (use that in \<open>auto simp: bit_simps ac_simps\<close>)
  have "bytes64 q = bytes32 (ucast (drop_bit 32 q)) @ bytes32 (ucast q)"
    by (simp add: bytes64_def bytes32_def d h c)
  moreover have "push_bit 32 (ucast (ucast (drop_bit 32 q) :: u32)) OR ucast (ucast q :: u32) = q"
    by (rule bit_word_eqI) (auto simp: bit_simps)
  ultimately show ?thesis by (simp add: word64_halves bytes32_def [THEN arg_cong [where f = length]])
qed

lemma val_codec: "bytes_val (kind_of v) (val_bytes v) = v" "kind_width (kind_of v) = length (val_bytes v)"
  by (cases v; simp add: in_memory_def) (cases v; simp add: in_memory_def bytes16_def bytes32_def bytes64_def)

lemma put_val_bytes: "put_val = (\<lambda>v. put_bytes (val_bytes v))"
proof
  show "put_val v = put_bytes (val_bytes v)" for v
    by (cases v) (simp_all add: stream_putc_def stream_putw_def stream_putl_def stream_putq_def stream_put_ipv4_def)
qed

lemma get_val_bytes: "get_val = (\<lambda>k s. res_map (\<lambda>(bs, s). (bytes_val k bs, s)) (stream_get (of_nat (kind_width k)) s))"
proof (intro ext)
  fix k s
  show "get_val k s = res_map (\<lambda>(bs, s). (bytes_val k bs, s)) (stream_get (of_nat (kind_width k)) s)"
    by (cases k) (simp_all add: stream_getc_def stream_getw_def stream_getl_def stream_getq_def stream_get_ipv4_def case_prod_unfold)
qed


section \<open>Every operation stays in the block\<close>

datatype stream_op = OpGet u64 | OpGetVal wire_kind | OpGetFrom wire_kind u64 | OpPutVal wire_val | OpPutInAddr u32
  | OpPutAt wire_val u64 | OpPut "u8 list option" u64 | OpWrite "u8 list" u64 | OpRead u64 "bool + u8 list"
  | OpReadUnblock u64 "bool + u8 list" | OpReadTry u64 "bool + u8 list" | OpRecvfrom u64 "bool + u8 list"
  | OpRecvmsg nat u64 "bool + u8 list" | OpSetGetp u64 | OpForwardGetp u64 | OpForwardEndp u64
  | OpResize "(nat \<Rightarrow> u8) option" u64 | OpReset

fun get_from :: "wire_kind \<Rightarrow> u64 \<Rightarrow> stream \<Rightarrow> wire_val res" where
  "get_from K8 p s = res_map V8 (stream_getc_from p s)"
| "get_from K16 p s = res_map V16 (stream_getw_from p s)"
| "get_from K32 p s = res_map V32 (stream_getl_from p s)"
| "get_from K64 p s = res_map V64 (stream_getq_from p s)"
| "get_from KAddr p s = res_map V32 (stream_getl_from p s)"

fun put_at :: "wire_val \<Rightarrow> u64 \<Rightarrow> stream \<Rightarrow> (int \<times> stream) res" where
  "put_at (V8 c) p = stream_putc_at p c"
| "put_at (V16 w) p = stream_putw_at p w"
| "put_at (V32 l) p = stream_putl_at p l"
| "put_at (V64 q) p = stream_putq_at p q"
| "put_at (VAddr l) p = stream_putl_at p l"

fun stream_step :: "stream_op \<Rightarrow> stream \<Rightarrow> stream res" where
  "stream_step (OpGet n) s = res_map snd (stream_get n s)"
| "stream_step (OpGetVal k) s = res_map snd (get_val k s)"
| "stream_step (OpGetFrom k p) s = res_map (\<lambda>_. s) (get_from k p s)"
| "stream_step (OpPutVal v) s = res_map snd (put_val v s)"
| "stream_step (OpPutInAddr a) s = res_map snd (stream_put_in_addr a s)"
| "stream_step (OpPutAt v p) s = res_map snd (put_at v p s)"
| "stream_step (OpPut src n) s = stream_put src n s"
| "stream_step (OpWrite bs n) s = res_map snd (stream_write bs n s)"
| "stream_step (OpRead n i) s = res_map snd (stream_read n i s)"
| "stream_step (OpReadUnblock n i) s = res_map snd (stream_read_unblock n i s)"
| "stream_step (OpReadTry n i) s = res_map snd (stream_read_try n i s)"
| "stream_step (OpRecvfrom n i) s = res_map snd (stream_recvfrom n i s)"
| "stream_step (OpRecvmsg v n i) s = res_map snd (stream_recvmsg v n i s)"
| "stream_step (OpSetGetp p) s = stream_set_getp p s"
| "stream_step (OpForwardGetp n) s = stream_forward_getp n s"
| "stream_step (OpForwardEndp n) s = stream_forward_endp n s"
| "stream_step (OpResize f n) s = res_map snd (stream_resize f n s)"
| "stream_step OpReset s = stream_reset s"

fun stream_run :: "stream_op list \<Rightarrow> stream \<Rightarrow> stream res" where
  "stream_run [] s = Inr s"
| "stream_run (op # ops) s = res_bind (stream_step op s) (stream_run ops)"

text \<open>Positions and sizes below half of the address space, and blocks to copy from that are long enough.\<close>

fun op_ok :: "stream_op \<Rightarrow> bool" where
  "op_ok (OpGetFrom k p) = (p < 2 ^ 63)"
| "op_ok (OpPutAt v p) = (p < 2 ^ 63)"
| "op_ok (OpPut (Some bs) n) = (unat n \<le> length bs)"
| "op_ok (OpWrite bs n) = (unat n \<le> length bs)"
| "op_ok (OpForwardEndp n) = (n < 2 ^ 63)"
| "op_ok (OpResize f n) = (n < 2 ^ 63)"
| "op_ok _ = True"

definition safe :: "stream res \<Rightarrow> bool" where
  "safe r = (case r of Inl e \<Rightarrow> e = Abort | Inr t \<Rightarrow> stream_wf t)"

lemma safe_simps [simp]: "safe (Inl Abort)" "safe (Inr t) = stream_wf t"
  by (simp_all add: safe_def)

lemma pos63: "(p :: u64) < 2 ^ 63 \<longleftrightarrow> unat p < 2 ^ 63"
  by (simp add: word_less_nat_alt)

lemma safe_get: "stream_wf s \<Longrightarrow> safe (res_map snd (stream_get n s))"
  using get_ok [of s n] get_short [of s n] by (cases "unat n \<le> length (unread s)") auto

lemma safe_put: "stream_wf s \<Longrightarrow> length bs < 2 ^ 64 \<Longrightarrow> safe (res_map snd (put_bytes bs s))"
  using put_bytes_ok [of s bs] put_bytes_full [of s bs] by (cases "length bs \<le> room s") auto

lemma valid_pos:
  assumes "stream_wf s" "p < 2 ^ 63" "n \<le> 8" "GETP_VALID s (p + of_nat n)"
  shows "unat p + n \<le> length (st_data s)"
proof -
  have "unat (p + of_nat n) = unat p + n" using assms(2) [unfolded pos63] assms(3) by (intro unat_plus_nat) simp
  with assms(4) wf_nat(2) [OF assms(1)] show ?thesis by (simp add: GETP_VALID_def word_le_nat_alt)
qed

lemma safe_poke:
  assumes "stream_wf s" "p < 2 ^ 63" "length bs \<le> 8"
  shows "safe (res_map snd (poke p bs s))"
  using valid_pos [OF assms] assms(1) by (auto simp: poke_def mem_write_def stream_wf_def)

lemma safe_peek:
  assumes "stream_wf s" "p < 2 ^ 63" "n \<le> 8"
  shows "peek (of_nat n) p s = Inl Abort \<or> (\<exists>bs. peek (of_nat n) p s = Inr bs)"
proof -
  have "unat (of_nat n :: u64) = n" using assms(3) by (simp add: unat_of_nat take_bit_nat_eq_self_iff)
  with valid_pos [OF assms] assms(1) show ?thesis by (auto simp: peek_def mem_read_def)
qed

lemma safe_append:
  assumes "stream_wf s" "length bs \<le> room s" "n = of_nat (length bs)"
  shows "safe (res_map (\<lambda>s. s\<lparr>st_endp := st_endp s + n\<rparr>) (mem_write (st_endp s) bs s))"
  using append_bytes [OF assms(1,2)] assms(3) by auto

lemma safe_fill:
  assumes "stream_wf s" "\<not> STREAM_WRITEABLE s < n"
  shows "safe (res_map snd (fill n i s))"
proof (cases i)
  case (Inr bs)
  have "length (take (unat n) bs) \<le> room s" using assms wf_nat(6) [OF assms(1)] by (simp add: word_less_nat_alt)
  from append_bytes [OF assms(1) this] Inr show ?thesis by (auto simp: fill_def Let_def)
qed (use assms in \<open>simp add: fill_def\<close>)

lemma safe_copy_in:
  assumes "stream_wf s" "\<not> STREAM_WRITEABLE s < n" "length bs = unat n"
  shows "safe (res_map (\<lambda>s. s\<lparr>st_endp := st_endp s + n\<rparr>) (mem_write (st_endp s) bs s))"
proof -
  have "unat n \<le> room s" using assms(1,2) wf_nat(6) [OF assms(1)] by (simp add: word_less_nat_alt)
  with assms show ?thesis by (intro safe_append) simp_all
qed

lemma check_size_le:
  assumes "stream_wf s" "\<not> STREAM_WRITEABLE s < CHECK_SIZE s n"
  shows "unat (CHECK_SIZE s n) \<le> unat n"
proof (cases "st_endp s + n > st_size s")
  case True
  have "unat (st_size s) < unat (st_endp s + n)" using True by (simp add: word_less_nat_alt)
  also have "\<dots> \<le> unat (st_endp s) + unat n" by (simp add: unat_word_ariths)
  finally show ?thesis using True wf_nat(6) [OF assms(1)] by (simp add: CHECK_SIZE_def STREAM_WRITEABLE_def room_def)
qed (simp add: CHECK_SIZE_def)

lemma safe_stream_put:
  assumes "stream_wf s" "\<And>bs. src = Some bs \<Longrightarrow> unat n \<le> length bs"
  shows "safe (stream_put src n s)"
proof (cases "STREAM_WRITEABLE s < CHECK_SIZE s n")
  case False
  note c = check_size_le [OF assms(1) False]
  show ?thesis
  proof (cases src)
    case None
    with False assms(1) safe_copy_in [OF assms(1) False, of "replicate (unat (CHECK_SIZE s n)) 0"] show ?thesis
      by (simp add: stream_put_def Let_def)
  next
    case (Some bs)
    have "mem_read bs 0 (CHECK_SIZE s n) = Inr (take (unat (CHECK_SIZE s n)) bs)" using c assms(2) [OF Some] by (simp add: mem_read_def)
    with Some False assms c safe_copy_in [OF assms(1) False, of "take (unat (CHECK_SIZE s n)) bs"] show ?thesis
      by (simp add: stream_put_def Let_def)
  qed
qed (use assms(1) in \<open>simp add: stream_put_def\<close>)

lemma safe_stream_write:
  assumes "stream_wf s" "unat n \<le> length bs"
  shows "safe (res_map snd (stream_write bs n s))"
proof -
  have "res_map snd (stream_write bs n s) = stream_put (Some bs) n s"
    by (simp add: stream_write_def stream_put_def STREAM_VERIFY_SANE_def Let_def res_map_def mem_read_def mem_write_def)
  with safe_stream_put [OF assms(1), of "Some bs" n] assms(2) show ?thesis by simp
qed

lemma safe_resize:
  assumes "stream_wf s" "n < 2 ^ 63"
  shows "safe (res_map snd (stream_resize f n s))"
proof (cases f)
  case (Some g)
  define t where "t = s\<lparr>st_data := map (\<lambda>i. if i < length (st_data s) then st_data s ! i else g i) [0..<unat n], st_size := n\<rparr>"
  define u where "u = (if st_endp t > st_size t then t\<lparr>st_endp := st_size t\<rparr> else t)"
  define v where "v = (if st_getp u > st_endp u then u\<lparr>st_getp := st_endp u\<rparr> else u)"
  have "stream_wf v" using assms(2) [unfolded pos63] by (auto simp: stream_wf_def v_def u_def t_def)
  moreover have "stream_resize f n s = STREAM_VERIFY_SANE v (Inr (st_size v, v))"
    using assms(1) unfolding v_def u_def t_def by (simp add: stream_resize_def Some Let_def)
  ultimately show ?thesis by simp
qed (use assms in \<open>simp add: stream_resize_def\<close>)

lemma safe_forward:
  assumes "stream_wf s"
  shows "safe (stream_forward_getp n s)" "n < 2 ^ 63 \<Longrightarrow> safe (stream_forward_endp n s)"
proof -
  show "safe (stream_forward_getp n s)" using assms by (auto simp: stream_forward_getp_def GETP_VALID_def stream_wf_def)
  assume "n < 2 ^ 63"
  then have "unat (st_endp s + n) = unat (st_endp s) + unat n"
    using wf_nat(2,4) [OF assms] unfolding pos63 by (intro unat_plus_small) simp
  then have "st_getp s \<le> st_endp s + n" using wf_nat(1) [OF assms] by (simp add: word_le_nat_alt)
  then show "safe (stream_forward_endp n s)" using assms by (auto simp: stream_forward_endp_def ENDP_VALID_def stream_wf_def)
qed

lemma val_bytes_short: "length (val_bytes v) \<le> 8" "length (val_bytes v) < 2 ^ 64" "kind_width k \<le> 8"
  by (cases v; simp add: bytes16_def bytes32_def bytes64_def in_memory_def)+ (cases k; simp)

lemma safe_vals:
  assumes "stream_wf s"
  shows "safe (res_map snd (get_val k s))" "safe (res_map snd (put_val v s))"
    "p < 2 ^ 63 \<Longrightarrow> safe (res_map snd (put_at v p s))" "p < 2 ^ 63 \<Longrightarrow> safe (res_map (\<lambda>_. s) (get_from k p s))"
proof -
  show "safe (res_map snd (get_val k s))"
    using safe_get [OF assms, of "of_nat (kind_width k)"] by (cases "stream_get (of_nat (kind_width k)) s") (auto simp: get_val_bytes)
  show "safe (res_map snd (put_val v s))" using safe_put [OF assms val_bytes_short(2)] by (simp add: put_val_bytes)
  assume p: "p < 2 ^ 63"
  obtain bs where "put_at v p = poke p bs" "length bs \<le> 8"
    by (cases v) (auto simp: stream_putc_at_def stream_putw_at_def stream_putl_at_def stream_putq_at_def bytes16_def bytes32_def bytes64_def)
  with safe_poke [OF assms p] show "safe (res_map snd (put_at v p s))" by metis
  have "\<exists>f. get_from k p s = res_map f (peek (of_nat (kind_width k)) p s)"
    by (cases k; simp add: stream_getc_from_def stream_getw_from_def stream_getl_from_def stream_getq_from_def; rule exI; rule refl)
  with safe_peek [OF assms p val_bytes_short(3), of k] assms show "safe (res_map (\<lambda>_. s) (get_from k p s))" by auto
qed

lemma safe_step: "stream_wf s \<Longrightarrow> op_ok op \<Longrightarrow> safe (stream_step op s)"
proof (cases op)
  case (OpPut src n)
  assume "stream_wf s" "op_ok op"
  with OpPut safe_stream_put [of s src n] show ?thesis by (cases src) auto
next
  case (OpSetGetp p)
  assume "stream_wf s"
  with OpSetGetp show ?thesis by (auto simp: stream_set_getp_def GETP_VALID_def stream_wf_def)
next
  case OpReset
  assume "stream_wf s"
  with OpReset show ?thesis by (auto simp: stream_reset_def stream_wf_def)
next
  case (OpReadTry n i)
  assume "stream_wf s"
  with OpReadTry safe_fill [of s n i] show ?thesis by (auto simp: stream_read_try_def retry_code_def case_prod_unfold)
next
  case (OpRecvfrom n i)
  assume "stream_wf s"
  with OpRecvfrom safe_fill [of s n i] show ?thesis by (auto simp: stream_recvfrom_def retry_code_def case_prod_unfold)
qed (simp_all add: safe_get safe_vals safe_put safe_stream_write safe_resize safe_forward safe_fill stream_read_def
    stream_read_unblock_def stream_recvmsg_def stream_put_in_addr_def in_memory_def)

lemma safe_run: "stream_wf s \<Longrightarrow> list_all op_ok ops \<Longrightarrow> safe (stream_run ops s)"
proof (induction ops arbitrary: s)
  case (Cons op ops)
  from Cons.prems safe_step have "safe (stream_step op s)" by simp
  with Cons show ?case by (cases "stream_step op s") (auto simp: safe_def)
qed simp

text \<open>
  C26. No operation leaves the block: from a new buffer on, every sequence of reads, writes and moves of the
  positions, with sizes and positions below half of the address space, ends in an assertion that failed or in a
  buffer whose read position is not behind its end, whose end is within its size, and whose size is that of
  the block. \<open>stream_put_prefix\<close> is not among the operations.
\<close>

theorem stream_runs_stay_in_block:
  assumes "0 < sz" "sz < 2 ^ 63" "list_all op_ok ops"
  shows "\<exists>s. stream_new True (Some f) sz = Inr (Some s)
    \<and> (stream_run ops s = Inl Abort
       \<or> (\<exists>t. stream_run ops s = Inr t \<and> st_getp t \<le> st_endp t \<and> st_endp t \<le> st_size t \<and> unat (st_size t) = length (st_data t)))"
proof -
  let ?s = "\<lparr>st_getp = 0, st_endp = 0, st_size = sz, st_data = map f [0..<unat sz]\<rparr>"
  have "stream_wf ?s" using assms(2) [unfolded pos63] by (simp add: stream_wf_def)
  from safe_run [OF this assms(3)] have "stream_run ops ?s = Inl Abort \<or> (\<exists>t. stream_run ops ?s = Inr t \<and> stream_wf t)"
    by (auto simp: safe_def split: sum.splits)
  with assms(1) show ?thesis by (auto simp: stream_new_def stream_wf_def)
qed

definition ex_block :: stream where
  "ex_block = \<lparr>st_getp = 0, st_endp = 0, st_size = 4, st_data = [0, 0, 0, 0]\<rparr>"

lemma ex_block_wf: "stream_wf ex_block" "unread ex_block = []" "room ex_block = 4"
  by (simp_all add: ex_block_def stream_wf_def unread_def room_def)


theorem stream_runs_stay_in_block_witness:
  "\<exists>s t. stream_new True (Some (\<lambda>_. 0)) 2 = Inr (Some s) \<and> stream_run [OpPutVal (V8 7), OpGetVal K8] s = Inr t \<and> st_getp t \<le> st_endp t"
proof -
  have "list_all op_ok [OpPutVal (V8 7), OpGetVal K8]" by simp
  from stream_runs_stay_in_block [OF _ _ this, of 2 "\<lambda>_. 0"] obtain s where
    s: "stream_new True (Some (\<lambda>_. 0)) 2 = Inr (Some s)" "stream_run [OpPutVal (V8 7), OpGetVal K8] s = Inl Abort
      \<or> (\<exists>t. stream_run [OpPutVal (V8 7), OpGetVal K8] s = Inr t \<and> st_getp t \<le> st_endp t)" by auto
  have "stream_run [OpPutVal (V8 7), OpGetVal K8] s \<noteq> Inl Abort"
    using s(1) by (auto simp: stream_new_def stream_putc_def put_bytes_def stream_getc_def stream_get_def mem_write_def mem_read_def
        STREAM_VERIFY_SANE_def GETP_VALID_def ENDP_VALID_def STREAM_WRITEABLE_def STREAM_READABLE_def upt_conv_Cons)
  with s show ?thesis by blast
qed

lemma unat_PSIZE: "unat (PSIZE a) = (unat a + 7) div 8"
proof -
  have a: "unat a < 256" using unsigned_less [of a, where 'a = nat] by simp
  moreover have "unat (ucast a :: u64) = unat a" using a by (simp add: unsigned_ucast_eq take_bit_nat_eq_self_iff)
  ultimately have "unat (ucast a + 7 :: u64) = unat a + 7" using unat_plus_small [of "ucast a" 7] by simp
  then show ?thesis by (simp add: PSIZE_def unat_div)
qed

text \<open>
  Putting a prefix writes its length and as many bytes as the length calls for, and aborts where they do not
  fit, except when the space left is exactly that of the bytes: then the last byte is written behind the
  block.
\<close>

theorem stream_put_prefix_overruns:
  assumes "stream_wf s" "unat (PSIZE len) \<le> length prefix"
  shows "(room s < unat (PSIZE len) \<or> room s = 0 \<longrightarrow> stream_put_prefix len prefix s = Inl Abort)
    \<and> (room s = unat (PSIZE len) \<and> len \<noteq> 0 \<longrightarrow> stream_put_prefix len prefix s = Inl Overrun)
    \<and> (unat (PSIZE len) < room s \<longrightarrow> (\<exists>t. stream_put_prefix len prefix s = Inr (uint (PSIZE len), t) \<and> stream_wf t
         \<and> unread t = unread s @ [len] @ take (unat (PSIZE len)) prefix))"
proof (intro conjI impI)
  note w = wf_nat [OF assms(1)]
  have r: "mem_read prefix 0 (PSIZE len) = Inr (take (unat (PSIZE len)) prefix)" using assms(2) by (simp add: mem_read_def)
  have one: "\<exists>t. stream_putc len s = Inr (1, t) \<and> stream_wf t \<and> unread t = unread s @ [len] \<and> room t = room s - 1" if "room s > 0"
    using put_bytes_ok [OF assms(1), of "[len]"] that by (simp add: stream_putc_def)
  {
    assume "room s < unat (PSIZE len) \<or> room s = 0"
    then show "stream_put_prefix len prefix s = Inl Abort"
      using assms(1) w(6) put_bytes_full [OF assms(1), of "[len]"]
      by (auto simp: stream_put_prefix_def Let_def word_less_nat_alt stream_putc_def)
  next
    assume a: "room s = unat (PSIZE len) \<and> len \<noteq> 0"
    have "0 < unat len" using a by (simp add: unat_gt_0)
    then have "0 < room s" using a by (simp add: unat_PSIZE)
    from one [OF this] obtain t where t: "stream_putc len s = Inr (1, t)" "stream_wf t" "room t = room s - 1" by blast
    have "mem_write (st_endp t) (take (unat (PSIZE len)) prefix) t = Inl Overrun"
      using t(3) a \<open>0 < room s\<close> assms(2) wf_nat(2,3) [OF t(2)] by (auto simp: mem_write_def room_def)
    with t(1) r assms(1) w(6) a show "stream_put_prefix len prefix s = Inl Overrun"
      by (simp add: stream_put_prefix_def Let_def word_less_nat_alt)
  next
    assume a: "unat (PSIZE len) < room s"
    from one obtain t where t: "stream_putc len s = Inr (1, t)" "stream_wf t" "unread t = unread s @ [len]" "room t = room s - 1"
      using a by force
    have "length (take (unat (PSIZE len)) prefix) \<le> room t" using a t(4) by simp
    moreover have l: "length (take (unat (PSIZE len)) prefix) = unat (PSIZE len)" using assms(2) by simp
    ultimately obtain u where "mem_write (st_endp t) (take (unat (PSIZE len)) prefix) t = Inr u"
      "stream_wf (u\<lparr>st_endp := st_endp u + PSIZE len\<rparr>)"
      "unread (u\<lparr>st_endp := st_endp u + PSIZE len\<rparr>) = unread t @ take (unat (PSIZE len)) prefix"
      using append_bytes [OF t(2), of "take (unat (PSIZE len)) prefix"] unfolding l by auto
    with t r assms(1) w(6) a
    show "\<exists>t. stream_put_prefix len prefix s = Inr (uint (PSIZE len), t) \<and> stream_wf t
         \<and> unread t = unread s @ [len] @ take (unat (PSIZE len)) prefix"
      by (auto simp: stream_put_prefix_def Let_def word_less_nat_alt)
  }
qed

theorem stream_put_prefix_overruns_witness:
  "stream_put_prefix 32 [10, 0, 0, 1] ex_block = Inl Overrun"
  using stream_put_prefix_overruns [OF ex_block_wf(1), of 32 "[10, 0, 0, 1]"] by (simp add: ex_block_wf(3) PSIZE_def)

end
