(* ===== verification/Stream_Fifo.thy ===== *)
theory Stream_Fifo
  imports Switch_Prelude
begin

text \<open>
  The queue of packet buffers of \<open>lib/stream.c\<close>, linked through the field \<open>next\<close> of the buffers, and what it
  promises: first in, first out, for buffers that are in no queue when they are pushed.
\<close>

section \<open>The queue of buffers\<close>

text \<open>Buffers by address; \<open>sf_next\<close> is their field \<open>next\<close>.\<close>

record stream_fifo =
  sf_count :: u64
  sf_head :: "nat option"
  sf_tail :: "nat option"
  sf_next :: "nat \<Rightarrow> nat option"

definition stream_fifo_new :: "(nat \<Rightarrow> nat option) \<Rightarrow> stream_fifo" where
  "stream_fifo_new nx = \<lparr>sf_count = 0, sf_head = None, sf_tail = None, sf_next = nx\<rparr>"

definition stream_fifo_push :: "nat \<Rightarrow> stream_fifo \<Rightarrow> stream_fifo" where
  "stream_fifo_push a f =
    (let f = (case sf_tail f of
                Some t \<Rightarrow> f\<lparr>sf_next := (sf_next f)(t := Some a)\<rparr>
              | None \<Rightarrow> f\<lparr>sf_head := Some a\<rparr>)
     in f\<lparr>sf_tail := Some a, sf_count := sf_count f + 1\<rparr>)"

definition stream_fifo_pop :: "stream_fifo \<Rightarrow> nat option \<times> stream_fifo" where
  "stream_fifo_pop f =
    (let s = sf_head f;
         f = (case s of
                None \<Rightarrow> f
              | Some a \<Rightarrow>
                  let f = f\<lparr>sf_head := sf_next f a\<rparr>
                  in if sf_head f = None then f\<lparr>sf_tail := None\<rparr> else f)
     in (s, f\<lparr>sf_count := sf_count f - 1\<rparr>))"

definition stream_fifo_head :: "stream_fifo \<Rightarrow> nat option" where
  "stream_fifo_head f = sf_head f"

text \<open>The loop of \<open>stream_fifo_clean\<close>, with the buffers released so far; a released buffer is not read again.\<close>

partial_function (option) clean_loop :: "(nat \<Rightarrow> nat option) \<Rightarrow> nat list \<Rightarrow> nat option \<Rightarrow> nat list option" where
  "clean_loop nx freed s =
    (case s of
       None \<Rightarrow> Some freed
     | Some a \<Rightarrow> if a \<in> set freed then None else clean_loop nx (a # freed) (nx a))"

definition stream_fifo_clean :: "stream_fifo \<Rightarrow> (nat list \<times> stream_fifo) option" where
  "stream_fifo_clean f =
     map_option (\<lambda>freed. (freed, f\<lparr>sf_head := None, sf_tail := None, sf_count := 0\<rparr>)) (clean_loop (sf_next f) [] (sf_head f))"

definition stream_fifo_free :: "stream_fifo \<Rightarrow> nat list option" where
  "stream_fifo_free f = map_option fst (stream_fifo_clean f)"

section \<open>The queue of buffers keeps its order\<close>

fun linked :: "(nat \<Rightarrow> nat option) \<Rightarrow> nat option \<Rightarrow> nat list \<Rightarrow> bool" where
  "linked nx h [] = (h = None)"
| "linked nx h (x # xs) = (h = Some x \<and> linked nx (nx x) xs)"

definition fifo_rep :: "stream_fifo \<Rightarrow> nat list \<Rightarrow> bool" where
  "fifo_rep f xs \<longleftrightarrow> linked (sf_next f) (sf_head f) xs \<and> sf_tail f = (if xs = [] then None else Some (last xs)) \<and> distinct xs"

datatype fifo_use = FPush nat | FPop

fun fifo_step :: "fifo_use \<Rightarrow> stream_fifo \<Rightarrow> nat option \<times> stream_fifo" where
  "fifo_step (FPush a) f = (None, stream_fifo_push a f)"
| "fifo_step FPop f = stream_fifo_pop f"

fun queue_step :: "fifo_use \<Rightarrow> nat list \<Rightarrow> nat option \<times> nat list" where
  "queue_step (FPush a) xs = (None, xs @ [a])"
| "queue_step FPop [] = (None, [])"
| "queue_step FPop (x # xs) = (Some x, xs)"

fun pushed :: "fifo_use list \<Rightarrow> nat list" where
  "pushed [] = []"
| "pushed (FPush a # us) = a # pushed us"
| "pushed (FPop # us) = pushed us"

lemma linked_cong: "(\<And>x. x \<in> set xs \<Longrightarrow> nx x = nx' x) \<Longrightarrow> linked nx h xs = linked nx' h xs"
  by (induction xs arbitrary: h) auto

lemma linked_snoc:
  assumes "linked nx h xs" "xs \<noteq> []" "distinct xs" "a \<notin> set xs" "nx a = None"
  shows "linked (nx(last xs := Some a)) h (xs @ [a])"
  using assms
proof (induction xs arbitrary: h)
  case (Cons x xs)
  show ?case
  proof (cases "xs = []")
    case False
    with Cons show ?thesis by auto
  qed (use Cons.prems in auto)
qed simp

lemma push_rep:
  assumes "fifo_rep f xs" "a \<notin> set xs" "sf_next f a = None"
  shows "fifo_rep (stream_fifo_push a f) (xs @ [a])"
  using assms linked_snoc [of "sf_next f" "sf_head f" xs a]
  by (cases "xs = []") (auto simp: fifo_rep_def stream_fifo_push_def Let_def)

lemma pop_rep:
  assumes "fifo_rep f xs"
  shows "\<exists>g. stream_fifo_pop f = (fst (queue_step FPop xs), g) \<and> fifo_rep g (snd (queue_step FPop xs)) \<and> sf_next g = sf_next f"
proof (cases xs)
  case (Cons x ys)
  with assms show ?thesis by (cases ys) (auto simp: fifo_rep_def stream_fifo_pop_def Let_def)
qed (use assms in \<open>auto simp: fifo_rep_def stream_fifo_pop_def Let_def\<close>)

lemma push_next: "sf_next (stream_fifo_push a f) x = sf_next f x" if "sf_tail f \<noteq> Some x"
  using that by (auto simp: stream_fifo_push_def Let_def split: option.split)

lemma pop_count: "sf_count (snd (stream_fifo_pop f)) = sf_count f - 1"
  by (simp add: stream_fifo_pop_def Let_def split: option.split)

lemma fifo_run_rep:
  assumes "fifo_rep f xs" "distinct (pushed us)" "set (pushed us) \<inter> set xs = {}" "\<forall>a \<in> set (pushed us). sf_next f a = None"
  shows "\<exists>g. spec_run fifo_step us f = (fst (spec_run queue_step us xs), g) \<and> fifo_rep g (snd (spec_run queue_step us xs))
    \<and> sf_count g = sf_count f + of_nat (length (pushed us)) - of_nat (length us - length (pushed us))"
  using assms
proof (induction us arbitrary: f xs)
  case (Cons u us)
  have le: "length (pushed us) \<le> length us" by (induction us rule: pushed.induct) auto
  show ?case
  proof (cases u)
    case (FPush a)
    have p: "fifo_rep (stream_fifo_push a f) (xs @ [a])" using push_rep Cons.prems FPush by simp
    have "sf_tail f \<noteq> Some x" if "x \<in> set (pushed us)" for x
      using that Cons.prems(1,3) FPush by (auto simp: fifo_rep_def split: if_splits)
    then have "\<forall>x \<in> set (pushed us). sf_next (stream_fifo_push a f) x = None" using push_next Cons.prems(4) FPush by simp
    with Cons.IH [OF p] Cons.prems FPush obtain g where
      "spec_run fifo_step us (stream_fifo_push a f) = (fst (spec_run queue_step us (xs @ [a])), g)"
      "fifo_rep g (snd (spec_run queue_step us (xs @ [a])))"
      "sf_count g = sf_count (stream_fifo_push a f) + of_nat (length (pushed us)) - of_nat (length us - length (pushed us))" by auto
    with FPush show ?thesis by (auto simp: stream_fifo_push_def Let_def case_prod_unfold algebra_simps split: option.split)
  next
    case FPop
    from pop_rep [OF Cons.prems(1)] obtain h where h: "stream_fifo_pop f = (fst (queue_step FPop xs), h)"
      "fifo_rep h (snd (queue_step FPop xs))" "sf_next h = sf_next f" by blast
    have "set (snd (queue_step FPop xs)) \<subseteq> set xs" by (cases xs) auto
    with Cons.prems FPop h(3) Cons.IH [OF h(2)] obtain g where
      "spec_run fifo_step us h = (fst (spec_run queue_step us (snd (queue_step FPop xs))), g)"
      "fifo_rep g (snd (spec_run queue_step us (snd (queue_step FPop xs))))"
      "sf_count g = sf_count h + of_nat (length (pushed us)) - of_nat (length us - length (pushed us))" by auto
    moreover have "sf_count h = sf_count f - 1" using h(1) pop_count [of f] by simp
    ultimately show ?thesis using FPop h(1) le by (auto simp: case_prod_unfold Suc_diff_le)
  qed
qed simp

lemma clean_linked:
  assumes "linked nx h xs" "distinct xs" "set xs \<inter> set freed = {}"
  shows "clean_loop nx freed h = Some (rev xs @ freed)"
  using assms by (induction xs arbitrary: h freed) (simp_all add: clean_loop.simps)

text \<open>
  C27. The queue of buffers is a queue: when no buffer is pushed twice and none is linked before, every
  sequence of pushes and pops answers as a list to which pushes append and from which pops take the
  front. The count is the number of pushes minus that of pops, wrapped at 64 bits, so a pop from an empty
  queue is counted too. Releasing the queue ends, and releases each buffer that is left once.
\<close>

theorem stream_fifo_refines_queue:
  assumes "distinct (pushed us)" "\<forall>a \<in> set (pushed us). nx a = None"
  shows "\<exists>f. spec_run fifo_step us (stream_fifo_new nx) = (fst (spec_run queue_step us []), f)
    \<and> sf_count f = of_nat (length (pushed us)) - of_nat (length us - length (pushed us))
    \<and> stream_fifo_free f = Some (rev (snd (spec_run queue_step us [])))"
proof -
  have "fifo_rep (stream_fifo_new nx) []" by (simp add: fifo_rep_def stream_fifo_new_def)
  from fifo_run_rep [OF this assms(1)] assms(2) obtain g where
    g: "spec_run fifo_step us (stream_fifo_new nx) = (fst (spec_run queue_step us []), g)"
      "fifo_rep g (snd (spec_run queue_step us []))"
      "sf_count g = of_nat (length (pushed us)) - of_nat (length us - length (pushed us))"
    by (auto simp: stream_fifo_new_def)
  from g(2) clean_linked [of "sf_next g" "sf_head g" "snd (spec_run queue_step us [])" "[]"]
  have "stream_fifo_free g = Some (rev (snd (spec_run queue_step us [])))"
    by (simp add: fifo_rep_def stream_fifo_free_def stream_fifo_clean_def)
  with g show ?thesis by blast
qed

theorem stream_fifo_refines_queue_witness:
  "\<exists>f. spec_run fifo_step [FPush 3, FPush 5, FPop, FPop, FPop] (stream_fifo_new (\<lambda>_. None)) = ([None, None, Some 3, Some 5, None], f)
    \<and> sf_count f = - 1 \<and> stream_fifo_free f = Some []"
  using stream_fifo_refines_queue [of "[FPush 3, FPush 5, FPop, FPop, FPop]" "\<lambda>_. None"] by simp

text \<open>
  A buffer that is pushed again after it was popped takes its old successor with it: with two buffers in
  the queue, popping the first and pushing it again closes a circle. No number of pops empties the queue, and
  releasing it reads a buffer it has released.
\<close>

theorem stream_fifo_requeued_never_empties:
  assumes "a \<noteq> b" "nx b = None"
  shows "\<exists>rs f. spec_run fifo_step [FPush a, FPush b, FPop, FPush a] (stream_fifo_new nx) = (rs, f)
    \<and> (\<forall>n. None \<notin> set (fst (spec_run fifo_step (replicate n FPop) f))) \<and> stream_fifo_free f = None"
proof -
  obtain rs f where f: "spec_run fifo_step [FPush a, FPush b, FPop, FPush a] (stream_fifo_new nx) = (rs, f)"
    "sf_head f = Some b" "sf_next f b = Some a" "sf_next f a = Some b"
    using assms by (simp add: stream_fifo_new_def stream_fifo_push_def stream_fifo_pop_def)
  have step: "\<exists>x. stream_fifo_pop g = (Some x, h) \<and> (sf_head h = Some a \<or> sf_head h = Some b) \<and> sf_next h = sf_next f"
    if "sf_head g = Some a \<or> sf_head g = Some b" "sf_next g = sf_next f" "h = snd (stream_fifo_pop g)" for g h
    using that f(3,4) by (auto simp: stream_fifo_pop_def Let_def)
  have "None \<notin> set (fst (spec_run fifo_step (replicate n FPop) g))"
    if "sf_head g = Some a \<or> sf_head g = Some b" "sf_next g = sf_next f" for n g
    using that
  proof (induction n arbitrary: g)
    case (Suc n)
    from step [OF Suc.prems refl] obtain x h where "stream_fifo_pop g = (Some x, h)" "sf_head h = Some a \<or> sf_head h = Some b"
      "sf_next h = sf_next f" by blast
    with Suc.IH [of h] show ?case by (auto simp: case_prod_unfold)
  qed simp
  with f have "\<forall>n. None \<notin> set (fst (spec_run fifo_step (replicate n FPop) f))" by blast
  moreover have "clean_loop (sf_next f) [] (sf_head f) = None"
    using f assms(1) by (simp add: clean_loop.simps)
  ultimately show ?thesis using f(1) by (auto simp: stream_fifo_free_def stream_fifo_clean_def)
qed

theorem stream_fifo_requeued_never_empties_witness:
  "\<exists>rs f. spec_run fifo_step [FPush 3, FPush 5, FPop, FPush 3] (stream_fifo_new (\<lambda>_. None)) = (rs, f) \<and> stream_fifo_free f = None"
proof -
  have "(3 :: nat) \<noteq> 5" by simp
  from stream_fifo_requeued_never_empties [OF this, of "\<lambda>_. None"] show ?thesis by blast
qed

end
