(* ===== verification/Vrrp.thy ===== *)
theory Vrrp
  imports Mem_Pool
begin

unbundle bit_operations_syntax

text \<open>
  The virtual router of \<open>vrrp/vrrpd.c\<close> and \<open>vrrp/vrrp_main.c\<close>: advertisements at byte level, their check on
  reception, and the state machine. \<open>None\<close> is a fault: a null dereference or an access outside a
  buffer.
\<close>

section \<open>Virtual routers\<close>

record vip_addr =
  va_addr :: u32
  va_deletable :: int

record vrrp_rt =
  vr_vrid :: int
  vr_vmac :: macaddress
  vr_port_no :: int
  vr_oper_state :: int
  vr_priority :: int
  vr_naddr :: int
  vr_vaddr :: "vip_addr list option"
  vr_primary_ip :: u32
  vr_auth_type :: int
  vr_auth_data :: "u8 list"
  vr_adver_int :: int
  vr_preempt :: int
  vr_wantstate :: int
  vr_initF :: int
  vr_no_vmac :: int
  vr_ms_down_timer :: u32
  vr_adver_timer :: u32

text \<open>A router with the variables of the file: the counter \<open>ip_id\<close> and the packets handed to \<open>vrrp_send_pkt\<close>.\<close>

record vrrp_sys =
  vs_rt :: vrrp_rt
  vs_ip_id :: u32
  vs_out :: "u8 list list"

abbreviation (input) "VRRP_IP_TTL \<equiv> 255 :: u8"
abbreviation (input) "VRRP_VERSION \<equiv> 2 :: u8"
abbreviation (input) "VRRP_PRIO_OWNER \<equiv> 255 :: int"
abbreviation (input) "VRRP_PRIO_DFL \<equiv> 100 :: int"
abbreviation (input) "VRRP_PRIO_STOP \<equiv> 0 :: int"
abbreviation (input) "VRRP_AUTH_NONE \<equiv> 0 :: int"
abbreviation (input) "VRRP_AUTH_PASS \<equiv> 1 :: int"
abbreviation (input) "VRRP_AUTH_AH \<equiv> 2 :: int"
abbreviation (input) "VRRP_STATE_INIT \<equiv> 1 :: int"
abbreviation (input) "VRRP_STATE_BACK \<equiv> 2 :: int"
abbreviation (input) "VRRP_STATE_MAST \<equiv> 3 :: int"
abbreviation (input) "VRRP_TIMER_HZ \<equiv> 1000000 :: int"
abbreviation (input) "INADDR_VRRP_GROUP \<equiv> 0xe0000012 :: u32"

text \<open>Division of C integers truncates.\<close>

definition c_div :: "int \<Rightarrow> int \<Rightarrow> int" where
  "c_div a b = (if a < 0 then - ((- a) div b) else a div b)"

definition VRRP_TIMER_SKEW :: "vrrp_rt \<Rightarrow> int" where
  "VRRP_TIMER_SKEW r = c_div ((256 - vr_priority r) * VRRP_TIMER_HZ) 256"

definition VRRP_TIMER_SUB :: "u32 \<Rightarrow> u32 \<Rightarrow> int" where
  "VRRP_TIMER_SUB t1 t2 = sint (t1 - t2)"

definition VRRP_TIMER_EXPIRED :: "u32 \<Rightarrow> u32 \<Rightarrow> bool" where
  "VRRP_TIMER_EXPIRED clk t \<longleftrightarrow> t \<noteq> 0 \<and> VRRP_TIMER_SUB t clk \<le> 0"

section \<open>Checksum\<close>

fun csum_loop :: "u8 list \<Rightarrow> u32 \<Rightarrow> u32" where
  "csum_loop (a # b # bs) acc = csum_loop bs (acc + ucast (le16 a b))"
| "csum_loop [a] acc = acc + ucast (htons (push_bit 8 (ucast a)))"
| "csum_loop [] acc = acc"

definition in_csum :: "u8 list \<Rightarrow> u16 \<Rightarrow> u16" where
  "in_csum bs csum =
    (let acc = csum_loop bs (ucast csum);
         acc = drop_bit 16 acc + (acc AND 0xffff);
         acc = acc + drop_bit 16 acc
     in NOT (ucast acc))"

section \<open>Building an advertisement\<close>

definition vrrp_hd_len :: "vrrp_rt \<Rightarrow> int" where
  "vrrp_hd_len r = 8 + vr_naddr r * 4 + 8"

definition net32 :: "u32 \<Rightarrow> u8 list" where
  "net32 a = [byte_of 3 a, byte_of 2 a, byte_of 1 a, byte_of 0 a]"

definition vrrp_build_dlt :: "u8 list \<Rightarrow> u8 list" where
  "vrrp_build_dlt hwaddr = [0x01, 0x00, 0x5E, byte_of 2 INADDR_VRRP_GROUP AND 0x7F, byte_of 1 INADDR_VRRP_GROUP,
     byte_of 0 INADDR_VRRP_GROUP] @ hwaddr @ [0x08, 0x00]"

definition ip_fields :: "vrrp_rt \<Rightarrow> u32 \<Rightarrow> u16 \<Rightarrow> u8 list" where
  "ip_fields r ident check =
    (let tot = word_of_int (5 * 4 + vrrp_hd_len r) :: u16
     in [0x45, 0, byte_of 1 tot, byte_of 0 tot, byte_of 0 ident, byte_of 1 ident, 0, 0, VRRP_IP_TTL, 112,
         byte_of 0 check, byte_of 1 check] @ net32 (vr_primary_ip r) @ net32 INADDR_VRRP_GROUP)"

definition vrrp_build_ip :: "vrrp_sys \<Rightarrow> u8 list \<times> vrrp_sys" where
  "vrrp_build_ip s =
    (let s = s\<lparr>vs_ip_id := vs_ip_id s + 1\<rparr>;
         hdr = ip_fields (vs_rt s) (vs_ip_id s)
     in (hdr (in_csum (hdr 0) 0), s))"

text \<open>The addresses are read from the array; reading behind its end is a fault.\<close>

definition addr_at :: "vrrp_rt \<Rightarrow> nat \<Rightarrow> vip_addr option" where
  "addr_at r i = (case vr_vaddr r of None \<Rightarrow> None | Some vs \<Rightarrow> if i < length vs then Some (vs ! i) else None)"

fun addrs :: "vrrp_rt \<Rightarrow> nat \<Rightarrow> vip_addr list option" where
  "addrs r 0 = Some []"
| "addrs r (Suc n) = do { vs \<leftarrow> addrs r n; v \<leftarrow> addr_at r n; Some (vs @ [v]) }"

definition vrrp_fields :: "vrrp_rt \<Rightarrow> int \<Rightarrow> u16 \<Rightarrow> vip_addr list \<Rightarrow> u8 list \<Rightarrow> u8 list" where
  "vrrp_fields r prio chksum vs pw =
     [push_bit 4 VRRP_VERSION OR 1, word_of_int (vr_vrid r), word_of_int prio, word_of_int (vr_naddr r),
      word_of_int (vr_auth_type r), word_of_int (c_div (vr_adver_int r) VRRP_TIMER_HZ), byte_of 0 chksum, byte_of 1 chksum]
     @ concat (map (net32 \<circ> va_addr) vs) @ pw"

text \<open>The checksum is taken before the password is copied, over a buffer of zeros.\<close>

definition vrrp_build_vrrp :: "int \<Rightarrow> vrrp_rt \<Rightarrow> u8 list option" where
  "vrrp_build_vrrp prio r = do {
     vs \<leftarrow> addrs r (nat (vr_naddr r));
     let chksum = in_csum (vrrp_fields r prio 0 vs (replicate 8 0)) 0;
     Some (vrrp_fields r prio chksum vs (if vr_auth_type r = VRRP_AUTH_PASS then vr_auth_data r else replicate 8 0)) }"

definition vrrp_build_pkt :: "u8 list \<Rightarrow> int \<Rightarrow> vrrp_sys \<Rightarrow> (u8 list \<times> vrrp_sys) option" where
  "vrrp_build_pkt hwaddr prio s =
    (let (ip, s) = vrrp_build_ip s
     in map_option (\<lambda>v. (vrrp_build_dlt hwaddr @ ip @ v, s)) (vrrp_build_vrrp prio (vs_rt s)))"

definition vrrp_send_adv :: "bool \<Rightarrow> u8 list \<Rightarrow> int \<Rightarrow> vrrp_sys \<Rightarrow> vrrp_sys option" where
  "vrrp_send_adv got hwaddr prio s =
    (if \<not> got then None
     else map_option (\<lambda>(pkt, s). s\<lparr>vs_out := vs_out s @ [pkt]\<rparr>) (vrrp_build_pkt hwaddr prio s))"

section \<open>Checking what was received\<close>

text \<open>A byte of the receive buffer, and a block of it.\<close>

definition buf_at :: "u8 list \<Rightarrow> int \<Rightarrow> u8 option" where
  "buf_at buf i = (if 0 \<le> i \<and> i < int (length buf) then Some (buf ! nat i) else None)"

definition buf_block :: "u8 list \<Rightarrow> int \<Rightarrow> int \<Rightarrow> u8 list option" where
  "buf_block buf i n = (if 0 \<le> i \<and> 0 \<le> n \<and> i + n \<le> int (length buf) then Some (take (nat n) (drop (nat i) buf))
     else if n \<le> 0 then Some [] else None)"

definition ihl_of :: "u8 list \<Rightarrow> int option" where
  "ihl_of buf = map_option (\<lambda>b. uint (b AND 15) * 4) (buf_at buf 0)"

definition vrrp_in_chk :: "vrrp_rt \<Rightarrow> u8 list \<Rightarrow> int option" where
  "vrrp_in_chk r buf = do {
     ihl \<leftarrow> ihl_of buf;
     ttl \<leftarrow> buf_at buf 8;
     if ttl \<noteq> VRRP_IP_TTL then Some 1
     else do {
       vers_type \<leftarrow> buf_at buf ihl;
       if drop_bit 4 vers_type \<noteq> VRRP_VERSION then Some 1
       else do {
         t1 \<leftarrow> buf_at buf 2;
         t0 \<leftarrow> buf_at buf 3;
         let tot_len = uint (le16 t0 t1);
         if (word_of_int (tot_len - ihl) :: u64) \<le> 8 then Some 1
         else do {
           hd \<leftarrow> buf_block buf ihl (vrrp_hd_len r);
           if in_csum hd 0 \<noteq> 0 then Some 1
           else do {
             auth_type \<leftarrow> buf_at buf (ihl + 4);
             if vr_auth_type r \<noteq> uint auth_type then Some 1
             else do {
               pw_ok \<leftarrow> (if uint auth_type \<noteq> VRRP_AUTH_PASS
                        then map_option (\<lambda>pw. memcmp pw (vr_auth_data r) = 0) (buf_block buf (tot_len - 8) 8)
                        else Some True);
               if \<not> pw_ok then Some 1
               else do {
                 vrid \<leftarrow> buf_at buf (ihl + 1);
                 if vr_vrid r \<noteq> uint vrid then Some 1
                 else do {
                   adver_int \<leftarrow> buf_at buf (ihl + 5);
                   Some (if c_div (vr_adver_int r) VRRP_TIMER_HZ \<noteq> uint adver_int then 1 else 0) } } } } } } } }"

section \<open>The state machine\<close>

text \<open>
  What a round meets: what \<open>read\<close> returned and left in the buffer, what \<open>VRRP_TIMER_CLK\<close> returned to a test
  and to a setting of a timer, whether \<open>calloc\<close> succeeded, the hardware address, and the values of the two local
  variables that the code reads without setting them.
\<close>

record vrrp_env =
  ve_len :: int
  ve_buf :: "u8 list"
  ve_clk_test :: u32
  ve_clk_set :: u32
  ve_got :: bool
  ve_hwaddr :: "u8 list"
  ve_delay :: int
  ve_naddr :: int

definition TIMER_SET :: "vrrp_env \<Rightarrow> int \<Rightarrow> u32" where
  "TIMER_SET env delta = ve_clk_set env + word_of_int delta"

definition vrrp_read :: "vrrp_env \<Rightarrow> vrrp_rt \<Rightarrow> int option" where
  "vrrp_read env r = map_option (\<lambda>c. if c \<noteq> 0 then 0 else ve_len env) (vrrp_in_chk r (ve_buf env))"

text \<open>The source address of the frame is copied from \<open>hwaddr\<close>, which is null.\<close>

definition send_gratuitous_arp :: "u32 \<Rightarrow> vrrp_sys \<Rightarrow> vrrp_sys option" where
  "send_gratuitous_arp addr s =
    (let hwaddr = None :: u8 list option in
     do {
       hw \<leftarrow> hwaddr;
       let eth = replicate 6 0xFF @ hw @ [0x08, 0x06];
       let arp = [0, 1, 0x08, 0x00, 6, 4, 0, 1] @ hw @ net32 addr @ replicate 6 0 @ net32 addr;
       Some (s\<lparr>vs_out := vs_out s @ [eth @ arp]\<rparr>) })"

fun arp_all :: "u32 list \<Rightarrow> vrrp_sys \<Rightarrow> vrrp_sys option" where
  "arp_all [] s = Some s"
| "arp_all (a # as) s = send_gratuitous_arp a s \<bind> arp_all as"

text \<open>\<open>ipaddr_ops\<close> walks the addresses and, to remove them, reads whether they can be removed.\<close>

definition ipaddr_ops :: "bool \<Rightarrow> vrrp_rt \<Rightarrow> int option" where
  "ipaddr_ops addF r = (if addF then Some 0 else map_option (\<lambda>_. 0) (addrs r (nat (vr_naddr r))))"

abbreviation (input) upd_rt :: "(vrrp_rt \<Rightarrow> vrrp_rt) \<Rightarrow> vrrp_sys \<Rightarrow> vrrp_sys" where
  "upd_rt f s \<equiv> s\<lparr>vs_rt := f (vs_rt s)\<rparr>"

definition state_goto_master :: "vrrp_env \<Rightarrow> vrrp_sys \<Rightarrow> vrrp_sys option" where
  "state_goto_master env s = do {
     err \<leftarrow> ipaddr_ops True (vs_rt s);
     s \<leftarrow> vrrp_send_adv (ve_got env) (ve_hwaddr env) (vr_priority (vs_rt s)) s;
     vs \<leftarrow> addrs (vs_rt s) (nat (vr_naddr (vs_rt s)));
     s \<leftarrow> arp_all (map va_addr vs) s;
     Some (upd_rt (\<lambda>r. r\<lparr>vr_adver_timer := TIMER_SET env (vr_adver_int r), vr_oper_state := VRRP_STATE_MAST\<rparr>) s) }"

text \<open>The number of addresses announced when a router stops being master is never set.\<close>

definition state_leave_master :: "vrrp_env \<Rightarrow> bool \<Rightarrow> vrrp_sys \<Rightarrow> vrrp_sys option" where
  "state_leave_master env advF s = do {
     err \<leftarrow> ipaddr_ops False (vs_rt s);
     s \<leftarrow> (if advF then vrrp_send_adv (ve_got env) (ve_hwaddr env) VRRP_PRIO_STOP s else Some s);
     if vr_no_vmac (vs_rt s) = 0 then arp_all (replicate (nat (ve_naddr env)) 0) s else Some s }"

definition state_init :: "vrrp_env \<Rightarrow> vrrp_sys \<Rightarrow> vrrp_sys option" where
  "state_init env s =
    (let r = vs_rt s in
     if vr_priority r = VRRP_PRIO_OWNER \<or> vr_wantstate r = VRRP_STATE_MAST then state_goto_master env s
     else Some (upd_rt (\<lambda>r. r\<lparr>vr_ms_down_timer := TIMER_SET env (3 * vr_adver_int r + VRRP_TIMER_SKEW r),
            vr_oper_state := VRRP_STATE_BACK\<rparr>) s))"

definition state_back :: "vrrp_env \<Rightarrow> vrrp_sys \<Rightarrow> vrrp_sys option" where
  "state_back env s =
    (let r = vs_rt s in
     do {
       len \<leftarrow> vrrp_read env r;
       if len = 0 \<and> VRRP_TIMER_EXPIRED (ve_clk_test env) (vr_ms_down_timer r) \<or> vr_wantstate r = VRRP_STATE_MAST
       then state_goto_master env s
       else if len = 0 then Some s
       else do {
         ihl \<leftarrow> ihl_of (ve_buf env);
         prio \<leftarrow> buf_at (ve_buf env) (ihl + 2);
         Some (if prio = 0
               then upd_rt (\<lambda>r. r\<lparr>vr_ms_down_timer := TIMER_SET env (VRRP_TIMER_SKEW r)\<rparr>) s
               else if vr_preempt r = 0 \<or> uint prio \<ge> vr_priority r
               then upd_rt (\<lambda>r. r\<lparr>vr_ms_down_timer := TIMER_SET env (3 * vr_adver_int r + VRRP_TIMER_SKEW r)\<rparr>) s
               else s) } })"

text \<open>The jump to \<open>be_backup\<close> passes the setting of \<open>delay\<close>.\<close>

definition be_backup :: "vrrp_env \<Rightarrow> int \<Rightarrow> vrrp_sys \<Rightarrow> vrrp_sys option" where
  "be_backup env delay s = do {
     let s = upd_rt (\<lambda>r. r\<lparr>vr_ms_down_timer := TIMER_SET env delay, vr_adver_timer := 0\<rparr>) s;
     s \<leftarrow> state_leave_master env False s;
     Some (upd_rt (\<lambda>r. r\<lparr>vr_oper_state := VRRP_STATE_BACK\<rparr>) s) }"

definition state_mast :: "vrrp_env \<Rightarrow> vrrp_sys \<Rightarrow> vrrp_sys option" where
  "state_mast env s =
    (let r = vs_rt s;
         advertise = (\<lambda>s. map_option (upd_rt (\<lambda>r. r\<lparr>vr_adver_timer := TIMER_SET env (vr_adver_int r)\<rparr>))
           (vrrp_send_adv (ve_got env) (ve_hwaddr env) (vr_priority r) s))
     in do {
       len \<leftarrow> vrrp_read env r;
       if vr_wantstate r = VRRP_STATE_BACK then be_backup env (ve_delay env) s
       else if len = 0 \<and> VRRP_TIMER_EXPIRED (ve_clk_test env) (vr_adver_timer r) then advertise s
       else if len = 0 then Some s
       else do {
         ihl \<leftarrow> ihl_of (ve_buf env);
         prio \<leftarrow> buf_at (ve_buf env) (ihl + 2);
         saddr \<leftarrow> buf_block (ve_buf env) 12 4;
         if prio = 0 then advertise s
         else if uint prio > vr_priority r
                 \<or> uint prio = vr_priority r \<and> le32 (saddr ! 3) (saddr ! 2) (saddr ! 1) (saddr ! 0) > vr_primary_ip r
         then be_backup env (3 * vr_adver_int r + VRRP_TIMER_SKEW r) s
         else Some s } })"

text \<open>One round of the loop of \<open>vrrp_state_machine\<close>, and a number of them.\<close>

definition vrrp_round :: "vrrp_env \<Rightarrow> vrrp_sys \<Rightarrow> vrrp_sys option" where
  "vrrp_round env s =
    (let st = vr_oper_state (vs_rt s) in
     if st = VRRP_STATE_INIT then state_init env s
     else if st = VRRP_STATE_BACK then state_back env s
     else if st = VRRP_STATE_MAST then state_mast env s
     else Some s)"

definition vrrp_state_machine :: "vrrp_env list \<Rightarrow> vrrp_sys \<Rightarrow> vrrp_sys option" where
  "vrrp_state_machine envs s = run_events vrrp_round envs (upd_rt (\<lambda>r. r\<lparr>vr_initF := 1\<rparr>) s)"

section \<open>Configuration\<close>

text \<open>A hexadecimal digit as \<open>isxdigit\<close>, \<open>toupper\<close> and the arithmetic of \<open>parse_authopt\<close> read it.\<close>

definition xdigit :: "char \<Rightarrow> u8 option" where
  "xdigit c =
    (let n = of_char c :: nat in
     if 48 \<le> n \<and> n \<le> 57 then Some (of_nat (n - 48))
     else if 65 \<le> n \<and> n \<le> 70 then Some (of_nat (n - 65 + 10))
     else if 97 \<le> n \<and> n \<le> 102 then Some (of_nat (n - 97 + 10))
     else None)"

text \<open>The loop over the digits, with their number so far; at most sixteen are taken.\<close>

fun parse_key :: "string \<Rightarrow> nat \<Rightarrow> u8 list \<Rightarrow> int \<times> u8 list" where
  "parse_key [] j key = (0, key)"
| "parse_key (c # cs) j key =
    (if j \<ge> 16 then (-1, key)
     else case xdigit c of
            None \<Rightarrow> (-1, key)
          | Some d \<Rightarrow> parse_key cs (Suc j) (key[j div 2 := key ! (j div 2) OR push_bit (if odd j then 0 else 4) d]))"

definition parse_authopt :: "string \<Rightarrow> vrrp_rt \<Rightarrow> int \<times> vrrp_rt" where
  "parse_authopt str r =
    (let r = r\<lparr>vr_auth_type := VRRP_AUTH_NONE\<rparr> in
     if str = ''none'' then (0, r)
     else if length str < 5 then (-1, r)
     else if take 5 str = ''ah/0x'' then (-1, r\<lparr>vr_auth_type := VRRP_AUTH_AH\<rparr>)
     else if take 5 str = ''pw/0x''
     then case parse_key (drop 5 str) 0 (replicate 8 0) of (res, key) \<Rightarrow>
            (res, r\<lparr>vr_auth_type := VRRP_AUTH_PASS, vr_auth_data := key\<rparr>)
     else (-1, r))"

text \<open>\<open>got\<close> is whether the array could be had, \<open>junk\<close> what a new element holds.\<close>

definition cfg_add_ipaddr :: "bool \<Rightarrow> vip_addr \<Rightarrow> u32 \<Rightarrow> vrrp_rt \<Rightarrow> vrrp_rt option" where
  "cfg_add_ipaddr got junk ipaddr r =
    (let n = vr_naddr r + 1;
         arr = (case vr_vaddr r of Some vs \<Rightarrow> take (nat n) (vs @ replicate (nat n) junk) | None \<Rightarrow> [junk])
     in if \<not> got \<or> n < 1 \<or> int (length arr) < n then None
        else Some (r\<lparr>vr_naddr := n, vr_vaddr := Some (arr[nat (n - 1) := \<lparr>va_addr = ipaddr, va_deletable = 0\<rparr>])\<rparr>))"

text \<open>A configuration that is complete ends the function without a value: \<open>ret\<close> is what the caller finds.\<close>

definition chk_min_cfg :: "int \<Rightarrow> vrrp_rt \<Rightarrow> int" where
  "chk_min_cfg ret r = (if vr_naddr r = 0 then -1 else if vr_vrid r = 0 then -1 else if vr_primary_ip r = 0 then -1 else ret)"

section \<open>Instances\<close>

record vrrp_db =
  vd_hd :: "int list"
  vd_cells :: "int \<Rightarrow> vrrp_rt"
  vd_pool :: int
  vd_mem :: mem_state

definition vrrp_zero :: vrrp_rt where
  "vrrp_zero = \<lparr>vr_vrid = 0, vr_vmac = MAC 0 0 0 0 0 0, vr_port_no = 0, vr_oper_state = 0, vr_priority = 0, vr_naddr = 0,
     vr_vaddr = None, vr_primary_ip = 0, vr_auth_type = 0, vr_auth_data = replicate 8 0, vr_adver_int = 0, vr_preempt = 0,
     vr_wantstate = 0, vr_initF = 0, vr_no_vmac = 0, vr_ms_down_timer = 0, vr_adver_timer = 0\<rparr>"

text \<open>\<open>sizeof (vrrp_rt)\<close> of the packed structure is 106.\<close>

definition vrrp_init :: "bool \<Rightarrow> int option \<Rightarrow> bool \<Rightarrow> vrrp_db \<Rightarrow> int \<times> vrrp_db" where
  "vrrp_init got_mcb got_mem got_blks d =
    (case mem_pool_create ''VRRP'' (255 * 106) 255 got_mcb got_mem got_blks (vd_mem d) of (pid, mem) \<Rightarrow>
       (if pid < 0 then -1 else 0, d\<lparr>vd_pool := pid, vd_mem := mem\<rparr>))"

definition init_rt :: "vrrp_rt \<Rightarrow> vrrp_rt" where
  "init_rt r = r\<lparr>vr_oper_state := VRRP_STATE_INIT, vr_priority := VRRP_PRIO_DFL, vr_adver_int := 1 * VRRP_TIMER_HZ,
     vr_preempt := 1, vr_vmac := MAC 0 0 0x5E 0 1 (word_of_int (vr_vrid r))\<rparr>"

text \<open>An address that is not that of a block in use is a fault.\<close>

definition init_vsrv :: "int \<Rightarrow> vrrp_db \<Rightarrow> vrrp_db option" where
  "init_vsrv a d =
    (if a \<in> used_blks (vd_pool d) (vd_mem d)
     then Some (d\<lparr>vd_cells := (vd_cells d)(a := init_rt (vd_cells d a)), vd_hd := vd_hd d @ [a]\<rparr>)
     else None)"

text \<open>The identifier is passed to \<open>init_vsrv\<close> where it expects the address of the new instance.\<close>

definition vrrp_create_instance :: "bool \<Rightarrow> vip_addr \<Rightarrow> int \<Rightarrow> int \<Rightarrow> u32 \<Rightarrow> vrrp_db \<Rightarrow> (int \<times> vrrp_db) option" where
  "vrrp_create_instance got junk vrid port_no ip_addr d =
    (if vrid < 1 \<and> vrid > 255 then Some (-1, d)
     else do {
       (b, mem) \<leftarrow> alloc_block (vd_pool d) (vd_mem d);
       let d = d\<lparr>vd_mem := mem\<rparr>;
       case b of
         None \<Rightarrow> Some (-1, d)
       | Some a \<Rightarrow> do {
           r \<leftarrow> cfg_add_ipaddr got junk ip_addr (vrrp_zero\<lparr>vr_vrid := vrid, vr_port_no := port_no\<rparr>);
           let d = d\<lparr>vd_cells := (vd_cells d)(a := r)\<rparr>;
           d \<leftarrow> init_vsrv vrid d;
           Some (0, d) } })"

end
