(* ===== verification/Vrrp_Props.thy ===== *)
theory Vrrp_Props
  imports Vrrp
begin

unbundle bit_operations_syntax

text \<open>
  What the virtual router does: the checksum of an advertisement verifies, advertisements without a password
  are accepted and those with one are not, timers compare across the wrap of the clock, and no router with
  an address becomes master.
\<close>

section \<open>The checksum is ones' complement arithmetic\<close>

fun wsum :: "u8 list \<Rightarrow> nat" where
  "wsum (a # b # bs) = unat (le16 a b) + wsum bs"
| "wsum [a] = unat a"
| "wsum [] = 0"

lemma htons_byte: "htons (push_bit 8 (ucast (a :: u8))) = ucast a"
  by (rule bit_word_eqI) (auto simp: bswap16_def bit_le16 bit_byte_of bit_simps)

lemma unat_ucast_up: "unat (ucast (w :: 'a::len word) :: 'b::len word) = unat w" if "LENGTH('a) \<le> LENGTH('b)"
proof -
  have "unat w < 2 ^ LENGTH('a)" by (rule unsigned_less)
  also have "\<dots> \<le> 2 ^ LENGTH('b)" using that by (simp add: power_increasing)
  finally show ?thesis by (simp add: unsigned_ucast_eq take_bit_nat_eq_self_iff)
qed

lemma csum_loop_sum: "csum_loop bs acc = acc + of_nat (wsum bs)"
proof (induction bs arbitrary: acc rule: wsum.induct)
  case (1 a b bs)
  then show ?case by (simp)
next
  case (2 a)
  have "unat (ucast a :: u16) = unat a" by (rule unat_ucast_up) simp
  then have "(ucast (ucast a :: u16) :: u32) = of_nat (unat a)" by (metis of_nat_unat)
  then show ?case by (simp add: htons_byte)
qed simp

lemma wsum_append: "even (length bs) \<Longrightarrow> wsum (bs @ cs) = wsum bs + wsum cs"
  by (induction bs rule: wsum.induct) auto

lemma wsum_bound: "wsum bs \<le> 65535 * ((length bs + 1) div 2)"
proof (induction bs rule: wsum.induct)
  case (1 a b bs)
  have "unat (le16 a b) \<le> 65535" using unsigned_less [of "le16 a b", where 'a = nat] by simp
  with 1 show ?case by simp
next
  case (2 a)
  show ?case using unsigned_less [of a, where 'a = nat] by simp
qed simp

definition csum16 :: "nat \<Rightarrow> nat" where
  "csum16 S = (let t = S div 65536 + S mod 65536 in (t + t div 65536) mod 65536)"

lemma csum16_props:
  assumes "S < 2 ^ 32"
  shows "csum16 S < 65536" "csum16 S mod 65535 = S mod 65535" "0 < S \<Longrightarrow> 0 < csum16 S" "S = 0 \<Longrightarrow> csum16 S = 0"
proof -
  define a b where "a = S div 65536" and "b = S mod 65536"
  have ab: "S = 65536 * a + b" "a < 65536" "b < 65536" using assms by (auto simp: a_def b_def)
  have s: "S mod 65535 = (a + b) mod 65535"
  proof -
    have "S = (a + b) + 65535 * a" using ab(1) by simp
    then show ?thesis by (simp only: mod_mult_self2)
  qed
  have c: "csum16 S = (if a + b < 65536 then a + b else a + b - 65535)"
  proof (cases "a + b < 65536")
    case False
    then have "(a + b) div 65536 = 1" using ab by simp
    moreover have "(a + b + 1) mod 65536 = a + b + 1 - 65536" using False ab by (simp add: mod_if)
    ultimately show ?thesis using False by (simp add: csum16_def Let_def a_def b_def)
  qed (simp add: csum16_def Let_def a_def b_def)
  show "csum16 S < 65536" using c ab by auto
  show "csum16 S mod 65535 = S mod 65535" unfolding c s by (auto simp: le_mod_geq)
  show "0 < S \<Longrightarrow> 0 < csum16 S" "S = 0 \<Longrightarrow> csum16 S = 0" using c ab by auto
qed

lemma in_csum_unat:
  assumes "wsum bs < 2 ^ 31"
  shows "unat (in_csum bs 0) = 65535 - csum16 (wsum bs)"
proof -
  define w where "w = (of_nat (wsum bs) :: u32)"
  have w: "unat w = wsum bs" using assms by (simp add: w_def unat_of_nat take_bit_nat_eq_self_iff)
  define x where "x = drop_bit 16 w + (w AND 0xffff)"
  have m: "w AND 0xffff = take_bit 16 w" by (simp add: take_bit_eq_mask mask_eq_exp_minus_1)
  have x: "unat x = wsum bs div 65536 + wsum bs mod 65536"
  proof -
    have "unat (drop_bit 16 w) = wsum bs div 65536" "unat (take_bit 16 w) = wsum bs mod 65536"
      by (simp_all add: drop_bit_eq_div take_bit_eq_mod unat_div unat_mod w)
    moreover have "wsum bs div 65536 + wsum bs mod 65536 < 2 ^ 32" using assms by simp
    ultimately show ?thesis unfolding x_def m by (simp add: unat_word_ariths)
  qed
  have y: "unat (x + drop_bit 16 x) = unat x + unat x div 65536"
  proof -
    have "unat x < 2 ^ 17" using assms x by simp
    then show ?thesis by (simp add: unat_word_ariths drop_bit_eq_div unat_div)
  qed
  have "unat (ucast (x + drop_bit 16 x) :: u16) = csum16 (wsum bs)"
    by (simp add: unsigned_ucast_eq take_bit_eq_mod y x csum16_def Let_def)
  moreover have "in_csum bs 0 = NOT (ucast (x + drop_bit 16 x))"
    by (simp add: in_csum_def Let_def csum_loop_sum x_def w_def)
  moreover have "unat (NOT (v :: u16)) = 65535 - unat v" for v
  proof -
    have "NOT v = mask 16 - v" by (simp add: mask_eq_exp_minus_1 not_eq_complement)
    moreover have "v \<le> mask 16" using unsigned_less [of v, where 'a = nat] by (simp add: mask_eq_exp_minus_1 word_le_nat_alt)
    ultimately show ?thesis by (simp add: unat_sub mask_eq_exp_minus_1)
  qed
  ultimately show ?thesis by simp
qed

lemma csum_verifies:
  assumes "wsum bs < 2 ^ 31"
  shows "in_csum bs 0 = 0 \<longleftrightarrow> 0 < wsum bs \<and> wsum bs mod 65535 = 0"
proof -
  have l: "wsum bs < 2 ^ 32" using assms by simp
  note c = csum16_props [OF l]
  have "in_csum bs 0 = 0 \<longleftrightarrow> unat (in_csum bs 0) = 0" by (simp add: unat_eq_0)
  also have "\<dots> \<longleftrightarrow> csum16 (wsum bs) = 65535" using in_csum_unat [OF assms] c(1) by linarith
  also have "\<dots> \<longleftrightarrow> 0 < wsum bs \<and> wsum bs mod 65535 = 0"
  proof
    assume "csum16 (wsum bs) = 65535"
    with c show "0 < wsum bs \<and> wsum bs mod 65535 = 0" by (metis gr0I mod_self zero_neq_numeral)
  next
    assume a: "0 < wsum bs \<and> wsum bs mod 65535 = 0"
    then have "csum16 (wsum bs) mod 65535 = 0" "0 < csum16 (wsum bs)" using c by auto
    with c(1) show "csum16 (wsum bs) = 65535" by (auto elim!: dvdE simp: mod_eq_0_iff_dvd)
  qed
  finally show ?thesis .
qed

section \<open>Advertisements\<close>

text \<open>A configuration whose numbers fit into the fields of an advertisement.\<close>

definition rt_ok :: "vrrp_rt \<Rightarrow> vip_addr list \<Rightarrow> bool" where
  "rt_ok r vs \<longleftrightarrow> vr_vaddr r = Some vs \<and> vr_naddr r = int (length vs) \<and> length vs \<le> 255 \<and> length (vr_auth_data r) = 8
     \<and> 0 \<le> vr_vrid r \<and> vr_vrid r < 256 \<and> 0 \<le> vr_auth_type r \<and> vr_auth_type r < 256
     \<and> 0 \<le> c_div (vr_adver_int r) VRRP_TIMER_HZ \<and> c_div (vr_adver_int r) VRRP_TIMER_HZ < 256"

lemma addrs_take:
  assumes "vr_vaddr r = Some vs" "n \<le> length vs"
  shows "addrs r n = Some (take n vs)"
  using assms(2)
proof (induction n)
  case (Suc n)
  with assms(1) show ?case by (simp add: addr_at_def take_Suc_conv_app_nth)
qed simp

lemma rt_ok_addrs: "rt_ok r vs \<Longrightarrow> addrs r (nat (vr_naddr r)) = Some vs"
  using addrs_take [of r vs "length vs"] by (simp add: rt_ok_def)

lemma fields_length:
  "length (vrrp_fields r prio c vs pw) = 8 + 4 * length vs + length pw" "length (ip_fields r i c) = 20" "length (net32 a) = 4"
proof -
  show n: "length (net32 a) = 4" for a by (simp add: net32_def)
  have "length (concat (map (net32 \<circ> va_addr) vs)) = 4 * length vs" by (induction vs) (simp_all add: n)
  then show "length (vrrp_fields r prio c vs pw) = 8 + 4 * length vs + length pw" by (simp add: vrrp_fields_def)
  show "length (ip_fields r i c) = 20" by (simp add: ip_fields_def n Let_def)
qed

lemma uint_small: "0 \<le> x \<Longrightarrow> x < 2 ^ LENGTH('a) \<Longrightarrow> uint (word_of_int x :: 'a::len word) = x"
  by (simp add: uint_word_of_int_eq take_bit_int_eq_self)

lemma uint_byte: "0 \<le> x \<Longrightarrow> x < 256 \<Longrightarrow> uint (word_of_int x :: u8) = x"
  by (simp add: uint_word_of_int_eq take_bit_int_eq_self)

lemma buf_app:
  "int (length xs) \<le> i \<Longrightarrow> buf_at (xs @ ys) i = buf_at ys (i - int (length xs))"
  "0 \<le> i \<Longrightarrow> i < int (length xs) \<Longrightarrow> buf_at (xs @ ys) i = Some (xs ! nat i)"
  by (auto simp: buf_at_def nth_append nat_diff_distrib)

lemma ip_bytes:
  assumes "rt_ok r vs"
  shows "ihl_of (ip_fields r i c @ zs) = Some 20" "buf_at (ip_fields r i c @ zs) 8 = Some VRRP_IP_TTL"
    "\<exists>t1 t0. buf_at (ip_fields r i c @ zs) 2 = Some t1 \<and> buf_at (ip_fields r i c @ zs) 3 = Some t0
       \<and> uint (le16 t0 t1) = 36 + 4 * int (length vs)"
proof -
  show "ihl_of (ip_fields r i c @ zs) = Some 20" "buf_at (ip_fields r i c @ zs) 8 = Some VRRP_IP_TTL"
    by (simp_all add: ihl_of_def buf_at_def ip_fields_def Let_def)
  define tot where "tot = (word_of_int (5 * 4 + vrrp_hd_len r) :: u16)"
  have e: "5 * 4 + vrrp_hd_len r = 36 + 4 * int (length vs)" using assms by (simp add: vrrp_hd_len_def rt_ok_def)
  have "length vs \<le> 255" using assms by (simp add: rt_ok_def)
  then have "uint tot = 36 + 4 * int (length vs)" unfolding tot_def e by (intro uint_small) simp_all
  moreover have "buf_at (ip_fields r i c @ zs) 2 = Some (byte_of 1 tot)" "buf_at (ip_fields r i c @ zs) 3 = Some (byte_of 0 tot)"
    unfolding ip_fields_def Let_def tot_def [symmetric] by (simp_all add: buf_at_def)
  ultimately show "\<exists>t1 t0. buf_at (ip_fields r i c @ zs) 2 = Some t1 \<and> buf_at (ip_fields r i c @ zs) 3 = Some t0
       \<and> uint (le16 t0 t1) = 36 + 4 * int (length vs)"
    by simp
qed

lemma vrrp_bytes:
  fixes zs ip :: "u8 list" and prio :: int and c :: u16
  assumes "rt_ok r vs" "length pw = 8" "length ip = 20"
  defines "buf \<equiv> ip @ vrrp_fields r prio c vs pw @ zs"
  shows "\<exists>b. buf_at buf 20 = Some b \<and> drop_bit 4 b = VRRP_VERSION" "buf_at buf 21 = Some (word_of_int (vr_vrid r))"
    "buf_at buf 22 = Some (word_of_int prio)" "buf_at buf 24 = Some (word_of_int (vr_auth_type r))"
    "buf_at buf 25 = Some (word_of_int (c_div (vr_adver_int r) VRRP_TIMER_HZ))"
    "buf_block buf 20 (vrrp_hd_len r) = Some (vrrp_fields r prio c vs pw)"
    "buf_block buf (28 + 4 * int (length vs)) 8 = Some pw"
proof -
  have l: "length (vrrp_fields r prio c vs pw) = 16 + 4 * length vs" using assms(2) by (simp add: fields_length)
  note at = buf_at_def buf_def assms(3) l nth_append
  show "\<exists>b. buf_at buf 20 = Some b \<and> drop_bit 4 b = VRRP_VERSION" "buf_at buf 21 = Some (word_of_int (vr_vrid r))"
    "buf_at buf 22 = Some (word_of_int prio)" "buf_at buf 24 = Some (word_of_int (vr_auth_type r))"
    "buf_at buf 25 = Some (word_of_int (c_div (vr_adver_int r) VRRP_TIMER_HZ))"
    by (simp_all add: at, simp_all add: vrrp_fields_def)
  show "buf_block buf 20 (vrrp_hd_len r) = Some (vrrp_fields r prio c vs pw)"
    using assms(1,3) l by (simp add: buf_block_def buf_def vrrp_hd_len_def rt_ok_def nat_add_distrib)
  have c: "length (concat (map (net32 \<circ> va_addr) vs)) = 4 * length vs"
    by (induction vs) (simp_all add: fields_length(3))
  have d: "nat (28 + 4 * int (length vs)) = 20 + (8 + 4 * length vs)" by (simp add: nat_add_distrib nat_mult_distrib)
  obtain h where h: "vrrp_fields r prio c vs pw = h @ concat (map (net32 \<circ> va_addr) vs) @ pw" "length h = 8"
    by (rule that [OF vrrp_fields_def]) simp
  have "drop (8 + 4 * length vs) (vrrp_fields r prio c vs pw) = pw" using c h(2) unfolding h(1) by simp
  then show "buf_block buf (28 + 4 * int (length vs)) 8 = Some pw"
    using assms(2,3) l unfolding buf_block_def d by (simp add: buf_def)
qed

lemma chk_built:
  assumes "rt_ok r vs" "length pw = 8"
  shows "vrrp_in_chk r (ip_fields r i ck @ vrrp_fields r prio c vs pw @ zs) =
    Some (if in_csum (vrrp_fields r prio c vs pw) 0 \<noteq> 0 then 1
          else if vr_auth_type r \<noteq> VRRP_AUTH_PASS \<and> pw \<noteq> vr_auth_data r then 1 else 0)"
proof -
  note ip = ip_bytes [OF assms(1), of i ck]
  note v = vrrp_bytes [OF assms fields_length(2), of r i ck prio c zs]
  have u: "uint (word_of_int (vr_auth_type r) :: u8) = vr_auth_type r" "uint (word_of_int (vr_vrid r) :: u8) = vr_vrid r"
    "uint (word_of_int (c_div (vr_adver_int r) VRRP_TIMER_HZ) :: u8) = c_div (vr_adver_int r) VRRP_TIMER_HZ"
    using assms(1) by (simp_all add: rt_ok_def uint_byte)
  obtain t1 t0 where t: "buf_at (ip_fields r i ck @ vrrp_fields r prio c vs pw @ zs) 2 = Some t1"
    "buf_at (ip_fields r i ck @ vrrp_fields r prio c vs pw @ zs) 3 = Some t0" "uint (le16 t0 t1) = 36 + 4 * int (length vs)"
    using ip(3) by blast
  have "length vs \<le> 255" using assms(1) by (simp add: rt_ok_def)
  then have "uint (word_of_int (uint (le16 t0 t1) - 20) :: u64) = 16 + 4 * int (length vs)"
    unfolding t(3) by (subst uint_small) simp_all
  then have "\<not> (word_of_int (uint (le16 t0 t1) - 20) :: u64) \<le> 8" by (simp only: word_le_def) simp
  then have tot: "\<not> ucast (le16 t0 t1) - (20 :: u64) \<le> 8" by simp
  have pw: "memcmp pw (vr_auth_data r) = 0 \<longleftrightarrow> pw = vr_auth_data r" using assms by (simp add: memcmp_eq_0 rt_ok_def)
  show ?thesis using ip(1,2) v u t tot pw by (auto simp: vrrp_in_chk_def algebra_simps)
qed

lemma wsum_fields:
  assumes "length pw = 8"
  shows "wsum (vrrp_fields r prio c vs pw) = wsum (vrrp_fields r prio 0 vs (replicate 8 0)) + unat c + wsum pw"
proof -
  have "even (length (concat (map (net32 \<circ> va_addr) vs)))" by (induction vs) (simp_all add: fields_length(3))
  then have "wsum (concat (map (net32 \<circ> va_addr) vs) @ qs) = wsum (concat (map (net32 \<circ> va_addr) vs)) + wsum qs" for qs
    by (rule wsum_append)
  moreover have "wsum (replicate 8 0) = 0" by (simp add: eval_nat_numeral le16_def)
  ultimately show ?thesis by (simp add: vrrp_fields_def le16_def [of 0 0])
qed

lemma built_csum:
  assumes "length vs \<le> 255" "length pw = 8"
  shows "in_csum (vrrp_fields r prio (in_csum (vrrp_fields r prio 0 vs (replicate 8 0)) 0) vs pw) 0 = 0 \<longleftrightarrow> wsum pw mod 65535 = 0"
proof -
  define f0 where "f0 = vrrp_fields r prio 0 vs (replicate 8 0)"
  define f where "f = vrrp_fields r prio (in_csum f0 0) vs pw"
  have "length f0 \<le> 1036" "length f \<le> 1036" using assms by (simp_all add: f0_def f_def fields_length)
  then have b: "wsum f0 < 2 ^ 31" "wsum f < 2 ^ 31" using wsum_bound [of f0] wsum_bound [of f] by simp_all
  have w: "wsum f = wsum f0 + (65535 - csum16 (wsum f0)) + wsum pw"
    using wsum_fields [OF assms(2), of r prio "in_csum f0 0" vs] in_csum_unat [OF b(1)] by (simp add: f_def f0_def)
  have c: "csum16 (wsum f0) < 65536" "csum16 (wsum f0) mod 65535 = wsum f0 mod 65535" using csum16_props [of "wsum f0"] b(1) by simp_all
  have i: "int (wsum f) = (int (wsum f0) - int (csum16 (wsum f0))) + 65535 + int (wsum pw)" using w c(1) by simp
  have "int (wsum f0) mod 65535 = int (csum16 (wsum f0)) mod 65535" using c(2) by (metis of_nat_mod of_nat_numeral)
  then have d: "65535 dvd int (wsum f0) - int (csum16 (wsum f0))" by (simp add: mod_eq_dvd_iff)
  have "wsum f mod 65535 = 0 \<longleftrightarrow> (65535 :: int) dvd int (wsum f)" by (simp add: mod_eq_0_iff_dvd flip: int_dvd_int_iff)
  also have "\<dots> \<longleftrightarrow> 65535 dvd int (wsum pw)"
    unfolding i using d by (metis add.assoc dvd_add_right_iff dvd_refl)
  also have "\<dots> \<longleftrightarrow> wsum pw mod 65535 = 0" by (simp add: mod_eq_0_iff_dvd flip: int_dvd_int_iff)
  finally have m: "wsum f mod 65535 = 0 \<longleftrightarrow> wsum pw mod 65535 = 0" .
  have "0 < wsum f"
  proof -
    have "unat (le16 33 x) > 0" for x
    proof -
      have "bit (le16 33 x) 0" by (simp add: bit_le16)
      then have "le16 33 x \<noteq> 0" by auto
      then show ?thesis by (simp add: unat_gt_0)
    qed
    then show ?thesis by (simp add: f_def vrrp_fields_def)
  qed
  with m csum_verifies [OF b(2)] show ?thesis by (simp add: f_def f0_def)
qed

lemma build_chk:
  assumes "rt_ok (vs_rt s) vs" "length hw = 6"
  defines "r \<equiv> vs_rt s" and "pw \<equiv> if vr_auth_type (vs_rt s) = VRRP_AUTH_PASS then vr_auth_data (vs_rt s) else replicate 8 0"
  shows "\<exists>pkt t. vrrp_build_pkt hw prio s = Some (pkt, t) \<and> buf_at (drop 14 pkt @ zs) 22 = Some (word_of_int prio)
    \<and> vrrp_in_chk r (drop 14 pkt @ zs) =
        Some (if wsum pw mod 65535 \<noteq> 0 \<or> vr_auth_type r \<noteq> VRRP_AUTH_PASS \<and> vr_auth_data r \<noteq> replicate 8 0 then 1 else 0)"
proof -
  have l: "length pw = 8" "length vs \<le> 255" using assms(1) by (simp_all add: pw_def rt_ok_def)
  let ?c = "in_csum (vrrp_fields r prio 0 vs (replicate 8 0)) 0" and ?h = "ip_fields r (vs_ip_id s + 1)"
  let ?ip = "?h (in_csum (?h 0) 0)"
  have b: "vrrp_build_pkt hw prio s = Some (vrrp_build_dlt hw @ ?ip @ vrrp_fields r prio ?c vs pw, s\<lparr>vs_ip_id := vs_ip_id s + 1\<rparr>)"
    using rt_ok_addrs [OF assms(1)]
    by (simp add: vrrp_build_pkt_def vrrp_build_ip_def vrrp_build_vrrp_def Let_def r_def pw_def)
  have d: "drop 14 (vrrp_build_dlt hw @ ?ip @ vrrp_fields r prio ?c vs pw) = ?ip @ vrrp_fields r prio ?c vs pw"
    using assms(2) by (simp add: vrrp_build_dlt_def)
  have k: "vrrp_in_chk r (?ip @ vrrp_fields r prio ?c vs pw @ zs) =
      Some (if wsum pw mod 65535 \<noteq> 0 \<or> vr_auth_type r \<noteq> VRRP_AUTH_PASS \<and> vr_auth_data r \<noteq> replicate 8 0 then 1 else 0)"
    using chk_built [OF assms(1) l(1)] built_csum [OF l(2,1)] by (auto simp: r_def pw_def)
  from vrrp_bytes(3) [OF assms(1) l(1) fields_length(2)] b d k show ?thesis by (simp add: r_def)
qed

text \<open>
  C28. An advertisement that a router without authentication builds passes the check of reception of a router
  with the same configuration, checksum included, and carries the priority it was built with.
\<close>

theorem vrrp_advert_accepted:
  assumes "rt_ok (vs_rt s) vs" "length hw = 6" "vr_auth_type (vs_rt s) = VRRP_AUTH_NONE" "vr_auth_data (vs_rt s) = replicate 8 0"
  shows "\<exists>pkt t. vrrp_build_pkt hw prio s = Some (pkt, t) \<and> vrrp_in_chk (vs_rt s) (drop 14 pkt @ zs) = Some 0
    \<and> buf_at (drop 14 pkt @ zs) 22 = Some (word_of_int prio)"
proof -
  have "wsum (replicate 8 0) = 0" by (simp add: eval_nat_numeral le16_def)
  with build_chk [OF assms(1,2), of prio zs] assms(3,4) show ?thesis by auto
qed

text \<open>
  The checksum is taken before the password is copied into the advertisement, so a router with a password
  rejects the advertisements of a router with the same configuration, unless the words of the password add up to a
  multiple of 65535.
\<close>

theorem vrrp_password_adverts_rejected:
  assumes "rt_ok (vs_rt s) vs" "length hw = 6" "vr_auth_type (vs_rt s) = VRRP_AUTH_PASS"
  shows "\<exists>pkt t. vrrp_build_pkt hw prio s = Some (pkt, t)
    \<and> vrrp_in_chk (vs_rt s) (drop 14 pkt @ zs) = Some (if wsum (vr_auth_data (vs_rt s)) mod 65535 = 0 then 0 else 1)"
  using build_chk [OF assms(1,2), of prio zs] assms(3) by auto

section \<open>Timers\<close>

text \<open>
  The comparison of a timer with the clock survives the wrap of the clock: a timer set \<open>d\<close> ticks ahead has
  expired after \<open>e\<close> ticks exactly if \<open>d\<close> is at most \<open>e\<close>, for times below half of the range. A timer whose
  value happens to be zero never expires.
\<close>

theorem vrrp_timer_wraps:
  assumes "d < 2 ^ 31" "e < 2 ^ 31"
  shows "VRRP_TIMER_EXPIRED (clk + of_nat e) (clk + of_nat d) \<longleftrightarrow> clk + of_nat d \<noteq> 0 \<and> d \<le> e"
proof -
  have "clk + of_nat d - (clk + of_nat e) = (word_of_int (int d - int e) :: u32)" by simp
  moreover have "sint (word_of_int (int d - int e) :: u32) = int d - int e"
    using c_int_id [of "int d - int e"] assms by (simp add: c_int_def)
  ultimately show ?thesis by (auto simp: VRRP_TIMER_EXPIRED_def VRRP_TIMER_SUB_def)
qed

section \<open>No router becomes master\<close>

lemma arp_all_faults: "as \<noteq> [] \<Longrightarrow> arp_all as s = None"
  by (cases as) (simp_all add: send_gratuitous_arp_def)

lemma addrs_length: "addrs r n = Some vs \<Longrightarrow> length vs = n"
  by (induction n arbitrary: vs) (auto split: bind_splits)

lemma goto_master_faults:
  assumes "0 < vr_naddr (vs_rt s)"
  shows "state_goto_master env s = None"
proof (rule ccontr)
  assume "state_goto_master env s \<noteq> None"
  then obtain u vs t where u: "vrrp_send_adv (ve_got env) (ve_hwaddr env) (vr_priority (vs_rt s)) s = Some u"
    "addrs (vs_rt u) (nat (vr_naddr (vs_rt u))) = Some vs" "arp_all (map va_addr vs) u = Some t"
    by (auto simp: state_goto_master_def split: bind_splits)
  from u(1) have "vs_rt u = vs_rt s"
    by (auto simp: vrrp_send_adv_def vrrp_build_pkt_def vrrp_build_ip_def Let_def split: if_splits)
  with addrs_length [OF u(2)] assms have "vs \<noteq> []" by auto
  with arp_all_faults u(3) show False by simp
qed

definition not_master :: "vrrp_sys \<Rightarrow> bool" where
  "not_master s \<longleftrightarrow> 0 < vr_naddr (vs_rt s) \<and> vr_oper_state (vs_rt s) \<noteq> VRRP_STATE_MAST"

interpretation vrrp: event_machine vrrp_round not_master
proof unfold_locales
  fix s env t
  assume s: "not_master s" and t: "vrrp_round env s = Some t"
  then have "state_goto_master env s = None" by (simp add: goto_master_faults not_master_def)
  with s t show "not_master t"
    by (auto simp: vrrp_round_def state_init_def state_back_def not_master_def Let_def split: if_splits bind_splits)
qed

text \<open>
  C40. No router that has an address ever becomes master: entering the state announces the address with a
  hardware address read through a null pointer. Whatever is received and whatever the clock shows, the state
  machine faults or the router stays out of the state.
\<close>

theorem vrrp_never_master:
  assumes "0 < vr_naddr (vs_rt s)" "vr_oper_state (vs_rt s) \<noteq> VRRP_STATE_MAST" "vrrp_state_machine envs s = Some t"
  shows "vr_oper_state (vs_rt t) \<noteq> VRRP_STATE_MAST"
  using vrrp.run_inv [of "s\<lparr>vs_rt := (vs_rt s)\<lparr>vr_initF := 1\<rparr>\<rparr>" envs t] assms
  by (simp add: not_master_def vrrp_state_machine_def)

section \<open>No instance is created\<close>

lemma used_above: "mem_wf s \<Longrightarrow> pool_of i s = Some p \<Longrightarrow> x \<in> used_blks i s \<Longrightarrow> saddr p \<le> x"
  by (drule (1) pool_of_wf) (auto simp: used_blks_def pool_used_def pool_wf_def split: option.splits)

lemma alloc_saddr:
  assumes "mem_wf s" "pool_of i s = Some p" "alloc_block i s = Some (b, t)"
  shows "\<exists>q. pool_of i t = Some q \<and> saddr q = saddr p"
  using assms by (auto simp: alloc_block_def get_mem_info_wf pool_of_upd split: if_splits option.splits bind_splits)

text \<open>
  Creating an instance never succeeds: the identifier is used as the address of the instance, which no block
  of the pool has. The call reports that the pool is empty, or it faults.
\<close>

theorem vrrp_create_instance_never_succeeds:
  assumes "mem_wf (vd_mem d)" "pool_of (vd_pool d) (vd_mem d) = Some p" "255 < saddr p" "1 \<le> vrid" "vrid \<le> 255"
  shows "(card (used_blks (vd_pool d) (vd_mem d)) = pool_cap (vd_pool d) (vd_mem d)
      \<and> vrrp_create_instance got junk vrid port ip d = Some (-1, d))
    \<or> vrrp_create_instance got junk vrid port ip d = None"
proof -
  let ?i = "vd_pool d" and ?s = "vd_mem d"
  have ok: "pool_ok ?i ?s" using assms by (simp add: pool_ok_def)
  consider "card (used_blks ?i ?s) = pool_cap ?i ?s" | "card (used_blks ?i ?s) < pool_cap ?i ?s"
    using pool.used_bounded [OF ok] by linarith
  then show ?thesis
  proof cases
    case 1
    with alloc_block_full [OF ok 1] assms(4) show ?thesis by (simp add: vrrp_create_instance_def)
  next
    case 2
    from alloc_block_room [OF ok 2] obtain a t where t: "alloc_block ?i ?s = Some (Some a, t)" "pool_ok ?i t" by blast
    from alloc_saddr [OF assms(1,2) t(1)] t(2) used_above [of t ?i] assms(3,5) have "vrid \<notin> used_blks ?i t"
      by (force simp: pool_ok_def)
    then have "init_vsrv vrid (d\<lparr>vd_mem := t, vd_cells := c\<rparr>) = None" for c by (simp add: init_vsrv_def)
    with t(1) assms(4) show ?thesis by (auto simp: vrrp_create_instance_def Let_def split: bind_splits)
  qed
qed

section \<open>Examples\<close>

definition ex_router :: vrrp_rt where
  "ex_router = (init_rt (vrrp_zero\<lparr>vr_vrid := 7\<rparr>))\<lparr>vr_naddr := 1, vr_vaddr := Some [\<lparr>va_addr = 0x0a000001, va_deletable = 0\<rparr>]\<rparr>"

definition ex_vrrp :: vrrp_sys where
  "ex_vrrp = \<lparr>vs_rt = ex_router, vs_ip_id = 0, vs_out = []\<rparr>"

lemma ex_router_ok: "rt_ok ex_router [\<lparr>va_addr = 0x0a000001, va_deletable = 0\<rparr>]"
  by (simp add: rt_ok_def ex_router_def init_rt_def vrrp_zero_def c_div_def)

theorem vrrp_advert_accepted_witness:
  "\<exists>pkt t. vrrp_build_pkt [0, 0, 0x5E, 0, 1, 7] 100 ex_vrrp = Some (pkt, t) \<and> vrrp_in_chk ex_router (drop 14 pkt) = Some 0"
proof -
  have "vr_auth_type ex_router = VRRP_AUTH_NONE" "vr_auth_data ex_router = replicate 8 0" "vs_rt ex_vrrp = ex_router"
    by (simp_all add: ex_vrrp_def ex_router_def init_rt_def vrrp_zero_def)
  with vrrp_advert_accepted [of ex_vrrp "[\<lparr>va_addr = 0x0a000001, va_deletable = 0\<rparr>]" "[0, 0, 0x5E, 0, 1, 7]" 100 "[]"] ex_router_ok
  show ?thesis by auto
qed

theorem vrrp_password_adverts_rejected_witness:
  "\<exists>pkt t. vrrp_build_pkt [0, 0, 0x5E, 0, 1, 7] 100 (ex_vrrp\<lparr>vs_rt := ex_router\<lparr>vr_auth_type := 1, vr_auth_data := [1, 2, 3, 4, 5, 6, 7, 8]\<rparr>\<rparr>)
      = Some (pkt, t)
    \<and> vrrp_in_chk (ex_router\<lparr>vr_auth_type := 1, vr_auth_data := [1, 2, 3, 4, 5, 6, 7, 8]\<rparr>) (drop 14 pkt) = Some 1"
proof -
  let ?s = "ex_vrrp\<lparr>vs_rt := ex_router\<lparr>vr_auth_type := 1, vr_auth_data := [1, 2, 3, 4, 5, 6, 7, 8]\<rparr>\<rparr>"
  have "rt_ok (vs_rt ?s) [\<lparr>va_addr = 0x0a000001, va_deletable = 0\<rparr>]" using ex_router_ok by (simp add: rt_ok_def)
  from vrrp_password_adverts_rejected [OF this, of "[0, 0, 0x5E, 0, 1, 7]" 100 "[]"] show ?thesis
    by (simp add: le16_def)
qed

theorem vrrp_timer_wraps_witness:
  "VRRP_TIMER_EXPIRED (0xFFFFFFF0 + of_nat 40) (0xFFFFFFF0 + of_nat 30) \<and> \<not> VRRP_TIMER_EXPIRED (0xFFFFFFF0 + of_nat 20) (0xFFFFFFF0 + of_nat 30)"
  using vrrp_timer_wraps [of 30 40 "0xFFFFFFF0"] vrrp_timer_wraps [of 30 20 "0xFFFFFFF0"] by simp

theorem vrrp_never_master_witness:
  "\<exists>t. vrrp_state_machine [\<lparr>ve_len = 0, ve_buf = replicate 300 0, ve_clk_test = 0, ve_clk_set = 5, ve_got = True, ve_hwaddr = [],
       ve_delay = 0, ve_naddr = 0\<rparr>] ex_vrrp = Some t \<and> vr_oper_state (vs_rt t) \<noteq> VRRP_STATE_MAST"
proof -
  let ?es = "[\<lparr>ve_len = 0, ve_buf = replicate 300 0, ve_clk_test = 0, ve_clk_set = 5, ve_got = True, ve_hwaddr = [],
       ve_delay = 0, ve_naddr = 0\<rparr>]"
  obtain t where "vrrp_state_machine ?es ex_vrrp = Some t"
    by (simp add: vrrp_state_machine_def vrrp_round_def state_init_def ex_vrrp_def ex_router_def init_rt_def vrrp_zero_def)
  with vrrp_never_master [OF _ _ this] show ?thesis
    by (simp add: ex_vrrp_def ex_router_def init_rt_def vrrp_zero_def)
qed

theorem vrrp_create_instance_never_succeeds_witness:
  "vrrp_create_instance True \<lparr>va_addr = 0, va_deletable = 0\<rparr> 7 1 0x0a000001
     \<lparr>vd_hd = [], vd_cells = (\<lambda>_. vrrp_zero), vd_pool = 1, vd_mem = example_mem\<rparr> = None"
proof -
  let ?d = "\<lparr>vd_hd = [], vd_cells = (\<lambda>_. vrrp_zero), vd_pool = 1, vd_mem = example_mem\<rparr>"
  obtain p where p: "pool_of 1 example_mem = Some p" "saddr p = 4096"
    by (simp add: example_mem_def mem_pool_create_def mem_init_def pool_of_def Let_def build_free_mem_blk_list_def)
  have "mem_wf (vd_mem ?d)" using example_mem_ok(1) by (simp add: pool_ok_def)
  from vrrp_create_instance_never_succeeds [OF this, of p 7] p example_mem_ok show ?thesis by auto
qed

end
