(* ===== verification/Ospf_Lsa.thy ===== *)
theory Ospf_Lsa
  imports Switch_Prelude
begin

text \<open>
  The link state advertisements of OSPF (\<open>ospf/ospf_lsa.c\<close>): time stamps and ages, the comparison of two
  instances of an advertisement, sequence numbers, and the reference counts that say when one is released.
  The daemon is built without opaque advertisements and without SNMP (\<open>rtm/config.h\<close>). Fields of a header are as
  they lie in memory, in network order. A failed assertion and the use of a released advertisement are \<open>None\<close>.
  The clock is an argument; seconds are integers, whose overflow would take longer than the age of the universe.
\<close>

section \<open>Time stamps\<close>

record timeval =
  tv_sec :: int
  tv_usec :: int

function tv_carry :: "timeval \<Rightarrow> timeval" where
  "tv_carry a = (if tv_usec a \<ge> 1000000 then tv_carry (a\<lparr>tv_usec := tv_usec a - 1000000, tv_sec := tv_sec a + 1\<rparr>) else a)"
  by auto
termination by (relation "measure (\<lambda>a. nat (tv_usec a))") auto

function tv_borrow :: "timeval \<Rightarrow> timeval" where
  "tv_borrow a = (if tv_usec a < 0 then tv_borrow (a\<lparr>tv_usec := tv_usec a + 1000000, tv_sec := tv_sec a - 1\<rparr>) else a)"
  by auto
termination by (relation "measure (\<lambda>a. nat (- tv_usec a))") auto

declare tv_carry.simps [simp del] tv_borrow.simps [simp del]

definition tv_adjust :: "timeval \<Rightarrow> timeval" where
  "tv_adjust a = tv_borrow (tv_carry a)"

definition tv_ceil :: "timeval \<Rightarrow> int" where
  "tv_ceil a = (let a = tv_adjust a in c_int (if tv_usec a \<noteq> 0 then tv_sec a + 1 else tv_sec a))"

definition tv_floor :: "timeval \<Rightarrow> int" where
  "tv_floor a = c_int (tv_sec (tv_adjust a))"

definition int2tv :: "int \<Rightarrow> timeval" where
  "int2tv a = \<lparr>tv_sec = a, tv_usec = 0\<rparr>"

definition tv_add :: "timeval \<Rightarrow> timeval \<Rightarrow> timeval" where
  "tv_add a b = tv_adjust \<lparr>tv_sec = tv_sec a + tv_sec b, tv_usec = tv_usec a + tv_usec b\<rparr>"

definition tv_sub :: "timeval \<Rightarrow> timeval \<Rightarrow> timeval" where
  "tv_sub a b = tv_adjust \<lparr>tv_sec = tv_sec a - tv_sec b, tv_usec = tv_usec a - tv_usec b\<rparr>"

definition tv_cmp :: "timeval \<Rightarrow> timeval \<Rightarrow> int" where
  "tv_cmp a b = c_int (if tv_sec a = tv_sec b then tv_usec a - tv_usec b else tv_sec a - tv_sec b)"

section \<open>Advertisements\<close>

abbreviation (input) "OSPF_LSA_SELF \<equiv> 0x01 :: u8"
abbreviation (input) "OSPF_LSA_RECEIVED \<equiv> 0x04 :: u8"
abbreviation (input) "OSPF_LSA_DISCARD \<equiv> 0x10 :: u8"
abbreviation (input) "OSPF_LSA_LOCAL_XLT \<equiv> 0x20 :: u8"
abbreviation (input) "OSPF_MIN_LS_INTERVAL \<equiv> 5 :: int"
abbreviation (input) "OSPF_LSA_MAXAGE \<equiv> 3600 :: int"
abbreviation (input) "OSPF_LSA_MAXAGE_DIFF \<equiv> 900 :: int"
abbreviation (input) "OSPF_MAX_SEQUENCE_NUMBER \<equiv> 0x7fffffff :: u32"

record lsa_header =
  ls_age :: u16
  lh_options :: u8
  lh_type :: u8
  lh_id :: u32
  lh_adv_router :: u32
  ls_seqnum :: u32
  lh_checksum :: u16
  lh_length :: u16

text \<open>The header is followed by \<open>l_body\<close> in the memory that \<open>data\<close> points to.\<close>

record ospf_lsa =
  l_flags :: u8
  l_data :: lsa_header
  l_body :: "u8 list"
  l_tv_recv :: timeval
  l_tv_orig :: timeval
  l_lock :: int
  l_retransmit_counter :: int
  l_refresh_list :: int

type_synonym lsas = "nat \<Rightarrow> ospf_lsa option"

definition get_metric :: "u8 \<Rightarrow> u8 \<Rightarrow> u8 \<Rightarrow> u32" where
  "get_metric m0 m1 m2 = push_bit 8 (push_bit 8 (ucast m0) + ucast m1) + ucast m2"

text \<open>\<open>None\<close> is the failed assertion that the delay is positive.\<close>

definition ospf_lsa_refresh_delay :: "timeval \<Rightarrow> ospf_lsa \<Rightarrow> int option" where
  "ospf_lsa_refresh_delay now l =
    (let delta = tv_sub now (l_tv_orig l)
     in if tv_cmp delta (int2tv OSPF_MIN_LS_INTERVAL) < 0
        then let delay = tv_ceil (tv_sub (int2tv OSPF_MIN_LS_INTERVAL) delta)
             in if delay > 0 then Some delay else None
        else Some 0)"

definition get_age :: "timeval \<Rightarrow> ospf_lsa \<Rightarrow> int" where
  "get_age now l = c_int (uint (ntohs (ls_age (l_data l))) + tv_floor (tv_sub now (l_tv_recv l)))"

definition LS_AGE :: "timeval \<Rightarrow> ospf_lsa \<Rightarrow> int" where
  "LS_AGE now l = (if OSPF_LSA_MAXAGE < get_age now l then OSPF_LSA_MAXAGE else get_age now l)"

definition IS_LSA_SELF :: "ospf_lsa \<Rightarrow> bool" where
  "IS_LSA_SELF l = flag_on OSPF_LSA_SELF (l_flags l)"

definition IS_LSA_MAXAGE :: "timeval \<Rightarrow> ospf_lsa \<Rightarrow> bool" where
  "IS_LSA_MAXAGE now l \<longleftrightarrow> LS_AGE now l = OSPF_LSA_MAXAGE"

definition lsa_seqnum_increment :: "ospf_lsa \<Rightarrow> u32" where
  "lsa_seqnum_increment l = htonl (ntohl (ls_seqnum (l_data l)) + 1)"

definition ospf_lsa_more_recent :: "timeval \<Rightarrow> ospf_lsa option \<Rightarrow> ospf_lsa option \<Rightarrow> int" where
  "ospf_lsa_more_recent now l1 l2 =
    (case (l1, l2) of
       (None, None) \<Rightarrow> 0
     | (None, Some _) \<Rightarrow> -1
     | (Some _, None) \<Rightarrow> 1
     | (Some l1, Some l2) \<Rightarrow>
         let x = sint (ntohl (ls_seqnum (l_data l1))); y = sint (ntohl (ls_seqnum (l_data l2)))
         in if x > y then 1
            else if x < y then -1
            else let r = uint (ntohs (lh_checksum (l_data l1))) - uint (ntohs (lh_checksum (l_data l2)))
            in if r \<noteq> 0 then r
            else if IS_LSA_MAXAGE now l1 \<and> \<not> IS_LSA_MAXAGE now l2 then 1
            else if \<not> IS_LSA_MAXAGE now l1 \<and> IS_LSA_MAXAGE now l2 then -1
            else if LS_AGE now l1 - LS_AGE now l2 > OSPF_LSA_MAXAGE_DIFF then -1
            else if LS_AGE now l2 - LS_AGE now l1 > OSPF_LSA_MAXAGE_DIFF then 1
            else 0)"

text \<open>The assertion that the length exceeds the header comes before the comparison of the bodies.\<close>

definition ospf_lsa_different :: "timeval \<Rightarrow> ospf_lsa \<Rightarrow> ospf_lsa \<Rightarrow> int option" where
  "ospf_lsa_different now l1 l2 =
    (if lh_options (l_data l1) \<noteq> lh_options (l_data l2) then Some 1
     else if IS_LSA_MAXAGE now l1 \<and> \<not> IS_LSA_MAXAGE now l2 then Some 1
     else if IS_LSA_MAXAGE now l2 \<and> \<not> IS_LSA_MAXAGE now l1 then Some 1
     else if lh_length (l_data l1) \<noteq> lh_length (l_data l2) then Some 1
     else if lh_length (l_data l1) = 0 then Some 1
     else if flag_on OSPF_LSA_RECEIVED (l_flags l1 XOR l_flags l2) then Some 1
     else let n = unat (ntohs (lh_length (l_data l1)))
          in if n \<le> 20 then None
             else if n - 20 > length (l_body l1) \<or> n - 20 > length (l_body l2) then None
             else Some (if memcmp (take (n - 20) (l_body l1)) (take (n - 20) (l_body l2)) \<noteq> 0 then 1 else 0))"

section \<open>Reference counts\<close>

text \<open>What the allocator returns is an argument: the address of the new object.\<close>

definition ospf_lsa_new :: "timeval \<Rightarrow> ospf_lsa \<Rightarrow> ospf_lsa" where
  "ospf_lsa_new now zero =
    zero\<lparr>l_flags := 0, l_lock := 1, l_retransmit_counter := 0, l_tv_recv := now, l_tv_orig := now, l_refresh_list := -1\<rparr>"

definition ospf_lsa_free :: "nat \<Rightarrow> lsas \<Rightarrow> lsas option" where
  "ospf_lsa_free a st = do {
     l \<leftarrow> st a;
     if l_lock l \<noteq> 0 then None
     else if \<not> l_refresh_list l < 0 then None
     else Some (st(a := None)) }"

definition ospf_lsa_lock :: "nat \<Rightarrow> lsas \<Rightarrow> lsas option" where
  "ospf_lsa_lock a st = do { l \<leftarrow> st a; Some (st(a \<mapsto> l\<lparr>l_lock := l_lock l + 1\<rparr>)) }"

definition ospf_lsa_unlock :: "nat option \<Rightarrow> lsas \<Rightarrow> lsas option" where
  "ospf_lsa_unlock p st =
    (case p of
       None \<Rightarrow> Some st
     | Some a \<Rightarrow> do {
         l \<leftarrow> st a;
         let l = l\<lparr>l_lock := l_lock l - 1\<rparr>;
         if \<not> l_lock l \<ge> 0 then None
         else let st = st(a \<mapsto> l)
         in if l_lock l = 0
            then if flag_on OSPF_LSA_DISCARD (l_flags l) then ospf_lsa_free a st else None
            else Some st })"

definition ospf_lsa_discard :: "nat \<Rightarrow> lsas \<Rightarrow> lsas option" where
  "ospf_lsa_discard a st = do {
     l \<leftarrow> st a;
     if flag_on OSPF_LSA_DISCARD (l_flags l) then Some st
     else ospf_lsa_unlock (Some a) (st(a \<mapsto> l\<lparr>l_flags := flag_set OSPF_LSA_DISCARD (l_flags l)\<rparr>)) }"

section \<open>Properties of time stamps\<close>

definition tv_total :: "timeval \<Rightarrow> int" where
  "tv_total a = tv_sec a * 1000000 + tv_usec a"

lemma tv_carry_total: "tv_total (tv_carry a) = tv_total a \<and> tv_usec (tv_carry a) < 1000000"
proof (induction a rule: tv_carry.induct)
  case (1 a)
  then show ?case by (cases "tv_usec a \<ge> 1000000") (simp_all add: tv_carry.simps [of a] tv_total_def)
qed

lemma tv_borrow_total: "tv_usec a < 1000000 \<Longrightarrow>
    tv_total (tv_borrow a) = tv_total a \<and> tv_usec (tv_borrow a) \<ge> 0 \<and> tv_usec (tv_borrow a) < 1000000"
proof (induction a rule: tv_borrow.induct)
  case (1 a)
  then show ?case by (cases "tv_usec a < 0") (simp_all add: tv_borrow.simps [of a] tv_total_def)
qed

lemma tv_adjust_normal: "tv_sec (tv_adjust a) = tv_total a div 1000000" "tv_usec (tv_adjust a) = tv_total a mod 1000000"
proof -
  have eq: "tv_total a = tv_sec (tv_adjust a) * 1000000 + tv_usec (tv_adjust a)"
    and r: "tv_usec (tv_adjust a) \<ge> 0" "tv_usec (tv_adjust a) < 1000000"
    using tv_carry_total [of a] tv_borrow_total [of "tv_carry a"] tv_total_def [of "tv_adjust a"] by (simp_all add: tv_adjust_def)
  show "tv_sec (tv_adjust a) = tv_total a div 1000000" unfolding eq using r by simp
  show "tv_usec (tv_adjust a) = tv_total a mod 1000000" unfolding eq using r by simp
qed

lemma tv_total_adjust [simp]: "tv_total (tv_adjust a) = tv_total a"
  by (simp add: tv_total_def [of "tv_adjust a"] tv_adjust_normal)

lemma tv_total_ops [simp]:
  "tv_total (tv_sub a b) = tv_total a - tv_total b" "tv_total (tv_add a b) = tv_total a + tv_total b"
  "tv_total (int2tv n) = n * 1000000"
  by (simp_all add: tv_sub_def tv_add_def int2tv_def) (simp_all add: tv_total_def algebra_simps)

lemma tv_sub_normal: "tv_sec (tv_sub a b) = (tv_total a - tv_total b) div 1000000"
    "tv_usec (tv_sub a b) = (tv_total a - tv_total b) mod 1000000"
  by (simp_all add: tv_sub_def tv_adjust_normal) (simp_all add: tv_total_def algebra_simps)

lemma tv_ceil_total:
  assumes "\<bar>tv_total a\<bar> < 2 ^ 50"
  shows "tv_ceil a = - ((- tv_total a) div 1000000)"
proof -
  let ?d = "tv_total a"
  have "- (2 ^ 31) \<le> ?d div 1000000" "?d div 1000000 + 1 < 2 ^ 31" using assms by simp_all
  then show ?thesis
    by (auto simp: tv_ceil_def tv_adjust_normal Let_def c_int_id zdiv_zminus1_eq_if)
qed

text \<open>
  C39. The refresh of an advertisement is delayed by the least number of seconds after which five seconds have
  passed since it was originated, and the assertion that the delay is positive never fails.
\<close>

theorem ospf_lsa_refresh_delay_exact:
  assumes "\<bar>tv_total now - tv_total (l_tv_orig l)\<bar> < 2 ^ 49"
  shows "\<exists>delay. ospf_lsa_refresh_delay now l = Some delay \<and> 0 \<le> delay
    \<and> tv_total now + delay * 1000000 \<ge> tv_total (l_tv_orig l) + 5000000
    \<and> (delay = 0 \<or> tv_total now + (delay - 1) * 1000000 < tv_total (l_tv_orig l) + 5000000)"
proof -
  define d where "d = tv_total now - tv_total (l_tv_orig l)"
  let ?delta = "tv_sub now (l_tv_orig l)"
  have b: "\<bar>d\<bar> < 2 ^ 49" using assms by (simp add: d_def)
  have "- (2 ^ 31) \<le> d div 1000000 - 5" "d div 1000000 - 5 < 2 ^ 31" using b by simp_all
  then have cmp: "tv_cmp ?delta (int2tv 5) < 0 \<longleftrightarrow> d < 5000000"
    by (auto simp: tv_cmp_def tv_sub_normal int2tv_def c_int_id d_def [symmetric])
  have ceil: "tv_ceil (tv_sub (int2tv 5) ?delta) = - ((d - 5000000) div 1000000)"
    using b by (subst tv_ceil_total) (simp_all flip: d_def)
  show ?thesis
  proof (cases "d < 5000000")
    case True
    then have "0 < - ((d - 5000000) div 1000000)" by simp
    with True cmp ceil have "ospf_lsa_refresh_delay now l = Some (- ((d - 5000000) div 1000000))"
      by (simp add: ospf_lsa_refresh_delay_def Let_def)
    moreover have "d - ((d - 5000000) div 1000000) * 1000000 \<ge> 5000000"
      "d - ((d - 5000000) div 1000000 + 1) * 1000000 < 5000000" by (simp_all add: algebra_simps)
    ultimately show ?thesis using True by (intro exI) (auto simp: d_def algebra_simps)
  next
    case False
    with cmp show ?thesis by (simp add: ospf_lsa_refresh_delay_def Let_def d_def)
  qed
qed

section \<open>Properties of the comparison\<close>

text \<open>
  The comparison of two instances of an advertisement is antisymmetric: the second is more recent than the
  first exactly if the first is less recent than the second.
\<close>

theorem ospf_lsa_more_recent_antisym:
  "sgn (ospf_lsa_more_recent now l1 l2) = - sgn (ospf_lsa_more_recent now l2 l1)"
  by (cases l1; cases l2) (auto simp: ospf_lsa_more_recent_def Let_def sgn_if)

text \<open>
  An advertisement with the incremented sequence number is more recent than its predecessor, whatever else
  changed, until the sequence numbers are used up: at the largest one the increment makes it less recent.
\<close>

theorem lsa_seqnum_increment_newer:
  assumes "ls_seqnum (l_data l') = lsa_seqnum_increment l"
  shows "ospf_lsa_more_recent now (Some l') (Some l)
    = (if ntohl (ls_seqnum (l_data l)) = OSPF_MAX_SEQUENCE_NUMBER then -1 else 1)"
proof -
  let ?n = "ntohl (ls_seqnum (l_data l))"
  have sint_max: "sint ?n = 2147483647 \<longleftrightarrow> ?n = 0x7fffffff"
  proof
    assume "sint ?n = 2147483647"
    then have "(word_of_int (sint ?n) :: u32) = word_of_int 2147483647" by simp
    then show "?n = 0x7fffffff" by simp
  qed simp
  have "sint (?n + 1) = (if ?n = 0x7fffffff then - (2 ^ 31) else sint ?n + 1)"
  proof (cases "?n = 0x7fffffff")
    case False
    have "sint ?n < 2 ^ 31" "- (2 ^ 31) \<le> sint ?n" using sint_lt [of ?n] sint_ge [of ?n] by simp_all
    with False sint_max show ?thesis by (simp add: sint_word_ariths signed_take_bit_int_eq_self)
  qed simp
  with sint_max show ?thesis using assms
    by (auto simp: ospf_lsa_more_recent_def Let_def lsa_seqnum_increment_def)
qed

section \<open>Examples\<close>

definition ex_lsa :: "u32 \<Rightarrow> ospf_lsa" where
  "ex_lsa seq = \<lparr>l_flags = 0, l_data = \<lparr>ls_age = 0, lh_options = 2, lh_type = 1, lh_id = 1, lh_adv_router = 1,
     ls_seqnum = seq, lh_checksum = 7, lh_length = 0x1800\<rparr>, l_body = [0, 0, 0, 0],
     l_tv_recv = int2tv 0, l_tv_orig = int2tv 0, l_lock = 1, l_retransmit_counter = 0, l_refresh_list = -1\<rparr>"

theorem ospf_lsa_refresh_delay_exact_witness:
  "ospf_lsa_refresh_delay \<lparr>tv_sec = 2, tv_usec = 300000\<rparr> (ex_lsa 0x01000080) = Some 3"
  using ospf_lsa_refresh_delay_exact [of "\<lparr>tv_sec = 2, tv_usec = 300000\<rparr>" "ex_lsa 0x01000080"]
  by (auto simp: tv_total_def ex_lsa_def int2tv_def)

theorem lsa_seqnum_increment_newer_witness:
  "lsa_seqnum_increment (ex_lsa 0x01000080) = 0x02000080
   \<and> ospf_lsa_more_recent \<lparr>tv_sec = 2, tv_usec = 0\<rparr> (Some (ex_lsa 0x02000080)) (Some (ex_lsa 0x01000080)) = 1"
proof -
  have e: "lsa_seqnum_increment (ex_lsa 0x01000080) = 0x02000080" "ntohl (ls_seqnum (l_data (ex_lsa 0x01000080))) \<noteq> OSPF_MAX_SEQUENCE_NUMBER"
    by code_simp+
  then have "ls_seqnum (l_data (ex_lsa 0x02000080)) = lsa_seqnum_increment (ex_lsa 0x01000080)" by (simp add: ex_lsa_def)
  from lsa_seqnum_increment_newer [OF this] e show ?thesis by simp
qed

end
