(* ===== verification/Ospf_Lsdb.thy ===== *)
theory Ospf_Lsdb
  imports Ospf_Lsa
begin

text \<open>
  The link state database (\<open>ospf/ospf_lsdb.c\<close>): for every type of advertisement a table that is keyed by its
  identifier and its advertising router, with counts, sums of checksums, and references to the advertisements.
  The tables are those of a library that is not part of the repository (\<open>lib/table.h\<close> declares it). They are an
  argument: the information stored under a prefix, storing it, and the prefixes in the order of a walk. The walks
  of the database release nodes while they run, which does not disturb them. The hooks of a database are set only
  with opaque advertisements, which the daemon is built without.
\<close>

section \<open>Tables\<close>

record ('k, 't) route_ops =
  rt_new :: 't
  rt_info :: "'t \<Rightarrow> 'k \<Rightarrow> nat option"
  rt_put :: "'t \<Rightarrow> 'k \<Rightarrow> nat option \<Rightarrow> 't"
  rt_keys :: "'t \<Rightarrow> 'k list"

text \<open>What the database relies on: a new table is empty, it stores what is put in, and a walk visits all of it.\<close>

definition table_ok :: "('k, 't) route_ops \<Rightarrow> bool" where
  "table_ok T \<longleftrightarrow> rt_info T (rt_new T) = (\<lambda>_. None)
     \<and> (\<forall>t k v. rt_info T (rt_put T t k v) = (rt_info T t)(k := v))
     \<and> (\<forall>t. dom (rt_info T t) \<subseteq> set (rt_keys T t))"

lemma table_okD:
  assumes "table_ok T"
  shows "rt_info T (rt_new T) = (\<lambda>_. None)" "rt_info T (rt_put T t k v) = (rt_info T t)(k := v)"
    "rt_info T t k = Some a \<Longrightarrow> k \<in> set (rt_keys T t)"
  using assms by (simp_all add: table_ok_def) blast

type_synonym ls_key = "u32 \<times> u32"

section \<open>The database\<close>

abbreviation (input) "OSPF_MIN_LSA \<equiv> 1 :: nat"
abbreviation (input) "OSPF_MAX_LSA \<equiv> 8 :: nat"

record 't lsdb_type =
  lt_count :: u64
  lt_count_self :: u64
  lt_checksum :: u32
  lt_db :: "'t option"

record 't ospf_lsdb =
  ld_type :: "'t lsdb_type list"
  ld_total :: u64

definition ospf_lsdb_init :: "(ls_key, 't) route_ops \<Rightarrow> 't ospf_lsdb \<Rightarrow> 't ospf_lsdb" where
  "ospf_lsdb_init T db =
    db\<lparr>ld_type := map (\<lambda>i. if OSPF_MIN_LSA \<le> i then (ld_type db ! i)\<lparr>lt_db := Some (rt_new T)\<rparr> else ld_type db ! i) [0..<OSPF_MAX_LSA]\<rparr>"

definition ospf_lsdb_new :: "(ls_key, 't) route_ops \<Rightarrow> 't ospf_lsdb" where
  "ospf_lsdb_new T = ospf_lsdb_init T
     \<lparr>ld_type = replicate OSPF_MAX_LSA \<lparr>lt_count = 0, lt_count_self = 0, lt_checksum = 0, lt_db = None\<rparr>, ld_total = 0\<rparr>"

text \<open>An element of the array \<open>type\<close>, and its table; an index behind the array or a null table is a fault.\<close>

definition type_at :: "nat \<Rightarrow> 't ospf_lsdb \<Rightarrow> ('t lsdb_type \<times> 't) option" where
  "type_at i db =
    (if i < length (ld_type db) then map_option (\<lambda>t. (ld_type db ! i, t)) (lt_db (ld_type db ! i)) else None)"

definition lsa_type :: "ospf_lsa \<Rightarrow> nat" where
  "lsa_type l = unat (lh_type (l_data l))"

definition lsdb_prefix_set :: "ospf_lsa \<Rightarrow> ls_key" where
  "lsdb_prefix_set l = (lh_id (l_data l), lh_adv_router (l_data l))"

definition ospf_lsdb_delete_entry ::
    "(ls_key, 't) route_ops \<Rightarrow> nat \<Rightarrow> ls_key \<Rightarrow> 't ospf_lsdb \<times> lsas \<Rightarrow> ('t ospf_lsdb \<times> lsas) option" where
  "ospf_lsdb_delete_entry T i k = (\<lambda>(db, st). do {
     (ty, t) \<leftarrow> type_at i db;
     case rt_info T t k of
       None \<Rightarrow> Some (db, st)
     | Some a \<Rightarrow> do {
         l \<leftarrow> st a;
         if lsa_type l \<noteq> i then None
         else do {
           let ty = ty\<lparr>lt_count_self := (if IS_LSA_SELF l then lt_count_self ty - 1 else lt_count_self ty),
                       lt_count := lt_count ty - 1,
                       lt_checksum := lt_checksum ty - ucast (ntohs (lh_checksum (l_data l))),
                       lt_db := Some (rt_put T t k None)\<rparr>;
           st \<leftarrow> ospf_lsa_unlock (Some a) st;
           Some (db\<lparr>ld_type := (ld_type db)[i := ty], ld_total := ld_total db - 1\<rparr>, st) } } })"

definition ospf_lsdb_add ::
    "(ls_key, 't) route_ops \<Rightarrow> nat \<Rightarrow> 't ospf_lsdb \<times> lsas \<Rightarrow> ('t ospf_lsdb \<times> lsas) option" where
  "ospf_lsdb_add T a = (\<lambda>(db, st). do {
     l \<leftarrow> st a;
     let i = lsa_type l;
     let k = lsdb_prefix_set l;
     (ty, t) \<leftarrow> type_at i db;
     if rt_info T t k = Some a then Some (db, st)
     else do {
       (db, st) \<leftarrow> ospf_lsdb_delete_entry T i k (db, st);
       (ty, t) \<leftarrow> type_at i db;
       let ty = ty\<lparr>lt_count_self := (if IS_LSA_SELF l then lt_count_self ty + 1 else lt_count_self ty),
                   lt_count := lt_count ty + 1,
                   lt_checksum := lt_checksum ty + ucast (ntohs (lh_checksum (l_data l))),
                   lt_db := Some (rt_put T t k (Some a))\<rparr>;
       st \<leftarrow> ospf_lsa_lock a st;
       Some (db\<lparr>ld_type := (ld_type db)[i := ty], ld_total := ld_total db + 1\<rparr>, st) } })"

definition ospf_lsdb_delete ::
    "(ls_key, 't) route_ops \<Rightarrow> nat option \<Rightarrow> 't ospf_lsdb \<times> lsas \<Rightarrow> ('t ospf_lsdb \<times> lsas) option" where
  "ospf_lsdb_delete T p = (\<lambda>(db, st).
     case p of
       None \<Rightarrow> Some (db, st)
     | Some a \<Rightarrow> do {
         l \<leftarrow> st a;
         if \<not> lsa_type l < OSPF_MAX_LSA then None
         else do {
           (ty, t) \<leftarrow> type_at (lsa_type l) db;
           if rt_info T t (lsdb_prefix_set l) = Some a
           then ospf_lsdb_delete_entry T (lsa_type l) (lsdb_prefix_set l) (db, st)
           else Some (db, st) } })"

fun delete_nodes ::
    "(ls_key, 't) route_ops \<Rightarrow> nat \<Rightarrow> ls_key list \<Rightarrow> 't ospf_lsdb \<times> lsas \<Rightarrow> ('t ospf_lsdb \<times> lsas) option" where
  "delete_nodes T i [] s = Some s"
| "delete_nodes T i (k # ks) s = ospf_lsdb_delete_entry T i k s \<bind> delete_nodes T i ks"

fun delete_types ::
    "(ls_key, 't) route_ops \<Rightarrow> nat list \<Rightarrow> 't ospf_lsdb \<times> lsas \<Rightarrow> ('t ospf_lsdb \<times> lsas) option" where
  "delete_types T [] s = Some s"
| "delete_types T (i # is) s = do {
     (ty, t) \<leftarrow> type_at i (fst s);
     s \<leftarrow> delete_nodes T i (rt_keys T t) s;
     delete_types T is s }"

definition ospf_lsdb_delete_all ::
    "(ls_key, 't) route_ops \<Rightarrow> 't ospf_lsdb \<times> lsas \<Rightarrow> ('t ospf_lsdb \<times> lsas) option" where
  "ospf_lsdb_delete_all T s = delete_types T [OSPF_MIN_LSA..<OSPF_MAX_LSA] s"

text \<open>The two assertions of \<open>ospf_lsdb_cleanup\<close> come before the tables are released.\<close>

definition ospf_lsdb_cleanup ::
    "(ls_key, 't) route_ops \<Rightarrow> 't ospf_lsdb \<times> lsas \<Rightarrow> ('t ospf_lsdb \<times> lsas) option" where
  "ospf_lsdb_cleanup T = (\<lambda>(db, st). if ld_total db \<noteq> 0 then None else ospf_lsdb_delete_all T (db, st))"

definition ospf_lsdb_lookup_by_id ::
    "(ls_key, 't) route_ops \<Rightarrow> nat \<Rightarrow> u32 \<Rightarrow> u32 \<Rightarrow> 't ospf_lsdb \<Rightarrow> nat option option" where
  "ospf_lsdb_lookup_by_id T type lsid adv_router db = do {
     (ty, t) \<leftarrow> type_at type db;
     Some (rt_info T t (lsid, adv_router)) }"

definition ospf_lsdb_lookup :: "(ls_key, 't) route_ops \<Rightarrow> nat \<Rightarrow> 't ospf_lsdb \<times> lsas \<Rightarrow> nat option option" where
  "ospf_lsdb_lookup T a = (\<lambda>(db, st). do {
     l \<leftarrow> st a;
     (ty, t) \<leftarrow> type_at (lsa_type l) db;
     Some (rt_info T t (lsdb_prefix_set l)) })"

text \<open>The next entry behind a prefix that has one, or the first of all.\<close>

definition ospf_lsdb_lookup_by_id_next ::
    "(ls_key, 't) route_ops \<Rightarrow> nat \<Rightarrow> u32 \<Rightarrow> u32 \<Rightarrow> bool \<Rightarrow> 't ospf_lsdb \<Rightarrow> nat option option" where
  "ospf_lsdb_lookup_by_id_next T type lsid adv_router first db = do {
     (ty, t) \<leftarrow> type_at type db;
     let found = (\<lambda>ks. case find (\<lambda>k. rt_info T t k \<noteq> None) ks of None \<Rightarrow> None | Some k \<Rightarrow> rt_info T t k);
     if first then Some (found (rt_keys T t))
     else if rt_info T t (lsid, adv_router) = None then Some None
     else Some (found (tl (dropWhile (\<lambda>k. k \<noteq> (lsid, adv_router)) (rt_keys T t)))) }"

definition ospf_lsdb_count_all :: "'t ospf_lsdb \<Rightarrow> u64" where
  "ospf_lsdb_count_all db = ld_total db"

definition ospf_lsdb_count :: "nat \<Rightarrow> 't ospf_lsdb \<Rightarrow> u64 option" where
  "ospf_lsdb_count type db = (if type < length (ld_type db) then Some (lt_count (ld_type db ! type)) else None)"

definition ospf_lsdb_count_self :: "nat \<Rightarrow> 't ospf_lsdb \<Rightarrow> u64 option" where
  "ospf_lsdb_count_self type db = (if type < length (ld_type db) then Some (lt_count_self (ld_type db ! type)) else None)"

definition ospf_lsdb_checksum :: "nat \<Rightarrow> 't ospf_lsdb \<Rightarrow> u32 option" where
  "ospf_lsdb_checksum type db = (if type < length (ld_type db) then Some (lt_checksum (ld_type db ! type)) else None)"

definition ospf_lsdb_isempty :: "'t ospf_lsdb \<Rightarrow> bool" where
  "ospf_lsdb_isempty db \<longleftrightarrow> ld_total db = 0"

section \<open>Its contents and its invariant\<close>

definition lsdb_content :: "(ls_key, 't) route_ops \<Rightarrow> 't ospf_lsdb \<Rightarrow> nat \<times> ls_key \<Rightarrow> nat option" where
  "lsdb_content T db = (\<lambda>(i, k). case type_at i db of None \<Rightarrow> None | Some (ty, t) \<Rightarrow> rt_info T t k)"

text \<open>What the statistics of a database read of an advertisement, and the sum of such a statistic over a type.\<close>

definition lsa_view :: "lsas \<Rightarrow> nat \<Rightarrow> lsa_header \<times> bool" where
  "lsa_view st a = (case st a of None \<Rightarrow> undefined | Some l \<Rightarrow> (l_data l, IS_LSA_SELF l))"

definition lsdb_stat :: "(nat \<times> ls_key \<Rightarrow> nat option) \<Rightarrow> lsas \<Rightarrow> nat \<Rightarrow> (lsa_header \<times> bool \<Rightarrow> 'b::len word) \<Rightarrow> 'b word" where
  "lsdb_stat c st i f = (\<Sum>k | c (i, k) \<noteq> None. f (lsa_view st (the (c (i, k)))))"

definition lsdb_shape :: "'t ospf_lsdb \<Rightarrow> bool" where
  "lsdb_shape db \<longleftrightarrow> length (ld_type db) = 8 \<and> (\<forall>i < 8. lt_db (ld_type db ! i) = None \<longleftrightarrow> i = 0)"

definition lsdb_stats :: "(nat \<times> ls_key \<Rightarrow> nat option) \<Rightarrow> 't ospf_lsdb \<Rightarrow> lsas \<Rightarrow> bool" where
  "lsdb_stats c db st \<longleftrightarrow> finite (dom c) \<and> ld_total db = of_nat (card (dom c))
     \<and> (\<forall>i < 8. lt_count (ld_type db ! i) = lsdb_stat c st i (\<lambda>_. 1)
       \<and> lt_count_self (ld_type db ! i) = lsdb_stat c st i (\<lambda>(h, self). if self then 1 else 0)
       \<and> lt_checksum (ld_type db ! i) = lsdb_stat c st i (\<lambda>(h, self). ucast (ntohs (lh_checksum h))))"

definition lsdb_keyed :: "(nat \<times> ls_key \<Rightarrow> nat option) \<Rightarrow> lsas \<Rightarrow> bool" where
  "lsdb_keyed c st \<longleftrightarrow> (\<forall>x a. c x = Some a \<longrightarrow> (\<exists>l. st a = Some l \<and> x = (lsa_type l, lsdb_prefix_set l)))"

text \<open>
  References to an advertisement: those of others, which \<open>ext\<close> counts, that of its owner until it is discarded,
  and that of the database.
\<close>

definition lsa_refs :: "(nat \<Rightarrow> nat) \<Rightarrow> (nat \<times> ls_key \<Rightarrow> nat option) \<Rightarrow> nat \<Rightarrow> ospf_lsa \<Rightarrow> nat" where
  "lsa_refs ext c a l = ext a + (if flag_on OSPF_LSA_DISCARD (l_flags l) then 0 else 1) + (if a \<in> ran c then 1 else 0)"

definition lsdb_locks :: "(nat \<Rightarrow> nat) \<Rightarrow> (nat \<times> ls_key \<Rightarrow> nat option) \<Rightarrow> lsas \<Rightarrow> bool" where
  "lsdb_locks ext c st \<longleftrightarrow> (\<forall>a l. st a = Some l \<longrightarrow>
     0 < lsa_refs ext c a l \<and> l_lock l = int (lsa_refs ext c a l) \<and> (ext a = 0 \<longrightarrow> l_refresh_list l < 0))"

definition lsdb_inv :: "(ls_key, 't) route_ops \<Rightarrow> (nat \<Rightarrow> nat) \<Rightarrow> 't ospf_lsdb \<times> lsas \<Rightarrow> bool" where
  "lsdb_inv T ext = (\<lambda>(db, st). let c = lsdb_content T db in
     lsdb_shape db \<and> lsdb_stats c db st \<and> lsdb_keyed c st \<and> lsdb_locks ext c st)"

lemma type_at_shape: "lsdb_shape db \<Longrightarrow> (\<exists>ty t. type_at i db = Some (ty, t)) \<longleftrightarrow> 0 < i \<and> i < 8"
  by (auto simp: type_at_def lsdb_shape_def)

lemma type_at_nth: "type_at i db = Some (ty, t) \<Longrightarrow> ld_type db ! i = ty \<and> lt_db ty = Some t \<and> i < length (ld_type db)"
  by (auto simp: type_at_def split: if_splits)

lemma content_put:
  assumes "table_ok T" "type_at i db = Some (ty, t)" "lt_db ty' = Some (rt_put T t k v)"
  shows "lsdb_content T (db\<lparr>ld_type := (ld_type db)[i := ty'], ld_total := n\<rparr>) = (lsdb_content T db)((i, k) := v)"
proof (rule ext)
  fix x
  show "lsdb_content T (db\<lparr>ld_type := (ld_type db)[i := ty'], ld_total := n\<rparr>) x = ((lsdb_content T db)((i, k) := v)) x"
    using assms(3) type_at_nth [OF assms(2)]
    by (cases x) (auto simp: lsdb_content_def type_at_def table_okD [OF assms(1)] nth_list_update)
qed

lemma shape_put: "lsdb_shape db \<Longrightarrow> type_at i db = Some (ty, t) \<Longrightarrow> lt_db ty' = Some t' \<Longrightarrow>
    lsdb_shape (db\<lparr>ld_type := (ld_type db)[i := ty'], ld_total := n\<rparr>)"
  using type_at_shape [of db i] by (auto simp: lsdb_shape_def nth_list_update)

subsection \<open>Statistics\<close>

lemma typed_finite: "finite (dom c) \<Longrightarrow> finite {k. c (i, k) \<noteq> None}"
  using finite_vimageI [of "dom c" "Pair i"] by (simp add: vimage_def dom_def inj_on_def)

lemma stat_insert:
  assumes "finite (dom c)" "c (i, k) = None"
  shows "lsdb_stat (c((i, k) \<mapsto> a)) st i f = lsdb_stat c st i f + f (lsa_view st a)"
proof -
  have "{k'. (c((i, k) \<mapsto> a)) (i, k') \<noteq> None} = insert k {k'. c (i, k') \<noteq> None}" by auto
  moreover have "(\<Sum>k' | c (i, k') \<noteq> None. f (lsa_view st (the ((c((i, k) \<mapsto> a)) (i, k'))))) = lsdb_stat c st i f"
    unfolding lsdb_stat_def using assms(2) by (intro sum.cong) auto
  ultimately show ?thesis using assms typed_finite [OF assms(1)] by (simp add: lsdb_stat_def [of "c((i, k) \<mapsto> a)"])
qed

lemma stat_other: "j \<noteq> i \<Longrightarrow> lsdb_stat (c((i, k) := v)) st j f = lsdb_stat c st j f"
  by (simp add: lsdb_stat_def)

lemma stat_remove:
  assumes "finite (dom c)" "c (i, k) = Some a"
  shows "lsdb_stat (c((i, k) := None)) st i f = lsdb_stat c st i f - f (lsa_view st a)"
  using stat_insert [of "c((i, k) := None)" i k a st f] assms by (simp add: fun_upd_idem)

lemma stat_cong: "\<forall>x \<in> ran c. lsa_view st x = lsa_view st' x \<Longrightarrow> lsdb_stat c st i f = lsdb_stat c st' i f"
  unfolding lsdb_stat_def by (intro sum.cong) (auto, metis ranI)

subsection \<open>References\<close>

lemma unlock_refs:
  assumes "st a = Some l" "l_lock l = int n + 1" "n = 0 \<longrightarrow> flag_on OSPF_LSA_DISCARD (l_flags l) \<and> l_refresh_list l < 0"
  shows "ospf_lsa_unlock (Some a) st = Some (if n = 0 then st(a := None) else st(a \<mapsto> l\<lparr>l_lock := int n\<rparr>))"
  using assms by (auto simp: ospf_lsa_unlock_def ospf_lsa_free_def)

lemma keyedD: "lsdb_keyed c st \<Longrightarrow> c x = Some a \<Longrightarrow> \<exists>l. st a = Some l \<and> x = (lsa_type l, lsdb_prefix_set l)"
  unfolding lsdb_keyed_def by blast

lemma keyed_unique: "lsdb_keyed c st \<Longrightarrow> c x = Some a \<Longrightarrow> c y = Some a \<Longrightarrow> x = y"
  by (metis lsdb_keyed_def option.inject)

lemma keyed_ran_remove:
  assumes "lsdb_keyed c st" "c x = Some a"
  shows "ran (c(x := None)) = ran c - {a}"
proof -
  have u: "c y = Some a \<longleftrightarrow> y = x" for y using keyed_unique [OF assms(1)] assms(2) by metis
  show ?thesis
  proof (intro set_eqI iffI)
    fix b
    assume "b \<in> ran (c(x := None))"
    then show "b \<in> ran c - {a}" using u by (auto simp: ran_def split: if_splits)
  next
    fix b
    assume "b \<in> ran c - {a}"
    then obtain y where "c y = Some b" "b \<noteq> a" by (auto simp: ran_def)
    then show "b \<in> ran (c(x := None))" using assms(2) by (intro ranI [of _ y]) auto
  qed
qed

lemma ran_insert_new: "c x = None \<Longrightarrow> ran (c(x \<mapsto> a)) = insert a (ran c)"
  by simp

text \<open>The store without the reference of the database to one advertisement.\<close>

definition drop_ref :: "nat \<Rightarrow> lsas \<Rightarrow> lsas" where
  "drop_ref a st =
    (case st a of
       None \<Rightarrow> st
     | Some l \<Rightarrow> if l_lock l = 1 then st(a := None) else st(a \<mapsto> l\<lparr>l_lock := l_lock l - 1\<rparr>))"

lemma unlock_entry:
  assumes "lsdb_locks ext c st" "lsdb_keyed c st" "c x = Some a"
  shows "ospf_lsa_unlock (Some a) st = Some (drop_ref a st) \<and> lsdb_locks ext (c(x := None)) (drop_ref a st)"
proof -
  from assms(2,3) obtain l where l: "st a = Some l" unfolding lsdb_keyed_def by blast
  let ?n = "ext a + (if flag_on OSPF_LSA_DISCARD (l_flags l) then 0 else 1)"
  have "a \<in> ran c" using assms(3) by (rule ranI)
  with assms(1) l have lock: "l_lock l = int ?n + 1" "?n = 0 \<longrightarrow> flag_on OSPF_LSA_DISCARD (l_flags l) \<and> l_refresh_list l < 0"
    by (auto simp: lsdb_locks_def lsa_refs_def)
  have u: "ospf_lsa_unlock (Some a) st = Some (drop_ref a st)"
    using unlock_refs [of st a l ?n, OF l lock] l lock(1) by (simp add: drop_ref_def)
  have "lsa_refs ext (c(x := None)) b m = (if b = a then ext a + (if flag_on OSPF_LSA_DISCARD (l_flags m) then 0 else 1) else lsa_refs ext c b m)" for b m
    using keyed_ran_remove [OF assms(2,3)] by (auto simp: lsa_refs_def)
  with u assms(1) l lock show ?thesis
    by (auto simp: lsdb_locks_def drop_ref_def lsa_refs_def split: if_splits)
qed

lemma view_drop_ref: "b \<noteq> a \<or> drop_ref a st a \<noteq> None \<Longrightarrow> lsa_view (drop_ref a st) b = lsa_view st b"
  by (auto simp: drop_ref_def lsa_view_def IS_LSA_SELF_def split: option.splits if_splits)

lemma drop_ref_other: "b \<noteq> a \<Longrightarrow> drop_ref a st b = st b"
  by (simp add: drop_ref_def split: option.split)

lemma keyed_remove:
  assumes "lsdb_keyed c st" "c x = Some a"
  shows "lsdb_keyed (c(x := None)) (drop_ref a st)"
  unfolding lsdb_keyed_def
proof (intro allI impI)
  fix y b
  assume "(c(x := None)) y = Some b"
  then have y: "y \<noteq> x" "c y = Some b" by (auto split: if_splits)
  with keyed_unique [OF assms(1) y(2)] assms(2) have "b \<noteq> a" by metis
  with keyedD [OF assms(1) y(2)] show "\<exists>l. drop_ref a st b = Some l \<and> y = (lsa_type l, lsdb_prefix_set l)"
    by (simp add: drop_ref_other)
qed

lemma stat_removed:
  assumes "finite (dom c)" "lsdb_keyed c st" "c (i, k) = Some a" "st a = Some l"
  shows "lsdb_stat (c((i, k) := None)) (drop_ref a st) j f
    = (if j = i then lsdb_stat c st i f - f (l_data l, IS_LSA_SELF l) else lsdb_stat c st j f)"
proof -
  have same: "\<forall>b \<in> ran (c((i, k) := None)). lsa_view st b = lsa_view (drop_ref a st) b"
    using keyed_ran_remove [OF assms(2,3)] view_drop_ref [of _ a st] by auto
  show ?thesis unfolding stat_cong [OF same, symmetric]
    using assms(4) by (simp add: stat_remove [OF assms(1,3)] stat_other lsa_view_def)
qed

lemma stat_inserted:
  assumes "finite (dom c)" "c (i, k) = None" "st a = Some l"
  shows "lsdb_stat (c((i, k) \<mapsto> a)) (st(a \<mapsto> l\<lparr>l_lock := n\<rparr>)) j f
    = (if j = i then lsdb_stat c st i f + f (l_data l, IS_LSA_SELF l) else lsdb_stat c st j f)"
proof -
  have same: "\<forall>b \<in> ran (c((i, k) \<mapsto> a)). lsa_view st b = lsa_view (st(a \<mapsto> l\<lparr>l_lock := n\<rparr>)) b"
    using assms(3) by (auto simp: lsa_view_def IS_LSA_SELF_def)
  show ?thesis unfolding stat_cong [OF same, symmetric]
    using assms(3) by (simp add: stat_insert [OF assms(1,2)] stat_other lsa_view_def)
qed

lemma stats_remove:
  assumes "lsdb_stats c db st" "lsdb_keyed c st" "c (i, k) = Some a" "st a = Some l" "length (ld_type db) = 8" "i < 8"
  shows "lsdb_stats (c((i, k) := None))
    (db\<lparr>ld_type := (ld_type db)[i := (ld_type db ! i)\<lparr>
        lt_count_self := (if IS_LSA_SELF l then lt_count_self (ld_type db ! i) - 1 else lt_count_self (ld_type db ! i)),
        lt_count := lt_count (ld_type db ! i) - 1,
        lt_checksum := lt_checksum (ld_type db ! i) - ucast (ntohs (lh_checksum (l_data l))),
        lt_db := t\<rparr>], ld_total := ld_total db - 1\<rparr>) (drop_ref a st)"
proof -
  have fin: "finite (dom c)" using assms(1) by (simp add: lsdb_stats_def)
  have "card (dom c) > 0" using assms(3) fin by (auto simp: card_gt_0_iff)
  then have "of_nat (card (dom (c((i, k) := None)))) = (of_nat (card (dom c)) - 1 :: u64)"
    using assms(3) fin by (simp add: card_Diff_singleton domI of_nat_diff)
  then show ?thesis using assms(1,5,6) fin
    by (simp add: lsdb_stats_def nth_list_update stat_removed [of c st i k a l, OF fin assms(2-4)])
qed

lemma stats_insert:
  assumes "lsdb_stats c db st" "c (i, k) = None" "st a = Some l" "length (ld_type db) = 8" "i < 8"
  shows "lsdb_stats (c((i, k) \<mapsto> a))
    (db\<lparr>ld_type := (ld_type db)[i := (ld_type db ! i)\<lparr>
        lt_count_self := (if IS_LSA_SELF l then lt_count_self (ld_type db ! i) + 1 else lt_count_self (ld_type db ! i)),
        lt_count := lt_count (ld_type db ! i) + 1,
        lt_checksum := lt_checksum (ld_type db ! i) + ucast (ntohs (lh_checksum (l_data l))),
        lt_db := t\<rparr>], ld_total := ld_total db + 1\<rparr>) (st(a \<mapsto> l\<lparr>l_lock := n\<rparr>))"
proof -
  have fin: "finite (dom c)" using assms(1) by (simp add: lsdb_stats_def)
  have "of_nat (card (dom (c((i, k) \<mapsto> a)))) = (of_nat (card (dom c)) + 1 :: u64)"
    using assms(2) fin by (simp add: domIff)
  then show ?thesis using assms(1,4,5) fin
    by (simp add: lsdb_stats_def nth_list_update stat_inserted [of c i k st a l, OF fin assms(2,3)])
qed

lemma delete_entry_ok:
  assumes T: "table_ok T" and inv: "lsdb_inv T ext (db, st)" and i: "0 < i" "i < 8"
  shows "\<exists>db'. ospf_lsdb_delete_entry T i k (db, st)
      = Some (db', case lsdb_content T db (i, k) of None \<Rightarrow> st | Some a \<Rightarrow> drop_ref a st)
    \<and> lsdb_inv T ext (db', case lsdb_content T db (i, k) of None \<Rightarrow> st | Some a \<Rightarrow> drop_ref a st)
    \<and> lsdb_content T db' = (lsdb_content T db)((i, k) := None)"
proof -
  let ?c = "lsdb_content T db"
  from inv have sh: "lsdb_shape db" and sts: "lsdb_stats ?c db st" and ky: "lsdb_keyed ?c st" and lk: "lsdb_locks ext ?c st"
    by (simp_all add: lsdb_inv_def Let_def)
  from type_at_shape [OF sh] i obtain ty t where ty: "type_at i db = Some (ty, t)" by blast
  have ck: "?c (i, k) = rt_info T t k" by (simp add: lsdb_content_def ty)
  show ?thesis
  proof (cases "?c (i, k)")
    case None
    with inv ck ty show ?thesis by (simp add: ospf_lsdb_delete_entry_def fun_upd_idem)
  next
    case (Some a)
    from keyedD [OF ky Some] obtain l where l: "st a = Some l" "lsa_type l = i" "lsdb_prefix_set l = k" by auto
    let ?ty = "ty\<lparr>lt_count_self := (if IS_LSA_SELF l then lt_count_self ty - 1 else lt_count_self ty),
        lt_count := lt_count ty - 1, lt_checksum := lt_checksum ty - ucast (ntohs (lh_checksum (l_data l))),
        lt_db := Some (rt_put T t k None)\<rparr>"
    let ?db = "db\<lparr>ld_type := (ld_type db)[i := ?ty], ld_total := ld_total db - 1\<rparr>"
    have nth: "ld_type db ! i = ty" and len: "length (ld_type db) = 8" using type_at_nth [OF ty] sh by (simp_all add: lsdb_shape_def)
    have e: "ospf_lsdb_delete_entry T i k (db, st) = Some (?db, drop_ref a st)"
      using ty Some ck l unlock_entry [OF lk ky Some] by (simp add: ospf_lsdb_delete_entry_def)
    have c': "lsdb_content T ?db = ?c((i, k) := None)" by (rule content_put [OF T ty]) simp
    have "lsdb_stats (?c((i, k) := None)) ?db (drop_ref a st)"
      using stats_remove [OF sts ky Some l(1) len i(2), of "Some (rt_put T t k None)", unfolded nth] .
    moreover have "lsdb_shape ?db" by (rule shape_put [OF sh ty]) simp
    ultimately show ?thesis
      using e c' Some keyed_remove [OF ky Some] unlock_entry [OF lk ky Some] by (simp add: lsdb_inv_def Let_def)
  qed
qed

lemma lock_entry:
  assumes "lsdb_locks ext c st" "lsdb_keyed c st" "c x = None" "st a = Some l" "a \<notin> ran c"
  shows "lsdb_locks ext (c(x \<mapsto> a)) (st(a \<mapsto> l\<lparr>l_lock := l_lock l + 1\<rparr>))"
proof -
  have "lsa_refs ext (c(x \<mapsto> a)) b m = lsa_refs ext c b m + (if b = a then 1 else 0)" for b m
    using assms(3,5) by (simp add: lsa_refs_def)
  with assms(1,4) show ?thesis by (auto simp: lsdb_locks_def lsa_refs_def)
qed

lemma keyed_insert:
  assumes "lsdb_keyed c st" "st a = Some l"
  shows "lsdb_keyed (c((lsa_type l, lsdb_prefix_set l) \<mapsto> a)) (st(a \<mapsto> l\<lparr>l_lock := n\<rparr>))"
  unfolding lsdb_keyed_def
proof (intro allI impI)
  fix y b
  assume y: "(c((lsa_type l, lsdb_prefix_set l) \<mapsto> a)) y = Some b"
  show "\<exists>m. (st(a \<mapsto> l\<lparr>l_lock := n\<rparr>)) b = Some m \<and> y = (lsa_type m, lsdb_prefix_set m)"
  proof (cases "y = (lsa_type l, lsdb_prefix_set l)")
    case True
    with y show ?thesis by (simp add: lsa_type_def lsdb_prefix_set_def)
  next
    case False
    with y have "c y = Some b" by simp
    from keyedD [OF assms(1) this] assms(2) show ?thesis by (auto simp: lsa_type_def lsdb_prefix_set_def)
  qed
qed

lemma keyed_fresh:
  assumes "lsdb_keyed c st" "st a = Some l" "c (lsa_type l, lsdb_prefix_set l) = None"
  shows "a \<notin> ran c"
proof
  assume "a \<in> ran c"
  then obtain x where x: "c x = Some a" unfolding ran_def by blast
  with keyedD [OF assms(1) x] assms(2,3) show False by simp
qed

lemma ospf_lsdb_add_ok:
  assumes T: "table_ok T" and inv: "lsdb_inv T ext (db, st)" and l: "st a = Some l" "0 < lsa_type l" "lsa_type l < 8"
  shows "\<exists>s. ospf_lsdb_add T a (db, st) = Some s \<and> lsdb_inv T ext s
    \<and> lsdb_content T (fst s) = (lsdb_content T db)((lsa_type l, lsdb_prefix_set l) \<mapsto> a)"
proof -
  let ?i = "lsa_type l" and ?k = "lsdb_prefix_set l" and ?c = "lsdb_content T db"
  from inv have sh: "lsdb_shape db" and ky: "lsdb_keyed ?c st" by (simp_all add: lsdb_inv_def Let_def)
  from type_at_shape [OF sh] l obtain ty t where ty: "type_at ?i db = Some (ty, t)" by blast
  have ck: "?c (?i, ?k) = rt_info T t ?k" by (simp add: lsdb_content_def ty)
  show ?thesis
  proof (cases "?c (?i, ?k) = Some a")
    case True
    with inv ck ty l show ?thesis by (simp add: ospf_lsdb_add_def Let_def fun_upd_idem)
  next
    case False
    let ?st = "case ?c (?i, ?k) of None \<Rightarrow> st | Some b \<Rightarrow> drop_ref b st"
    from delete_entry_ok [OF T inv l(2,3), of ?k] obtain db' where
      d: "ospf_lsdb_delete_entry T ?i ?k (db, st) = Some (db', ?st)" "lsdb_inv T ext (db', ?st)"
        "lsdb_content T db' = ?c((?i, ?k) := None)" by blast
    let ?c' = "?c((?i, ?k) := None)"
    from d have sh': "lsdb_shape db'" and sts': "lsdb_stats ?c' db' ?st" and ky': "lsdb_keyed ?c' ?st"
      and lk': "lsdb_locks ext ?c' ?st" by (simp_all add: lsdb_inv_def Let_def)
    from type_at_shape [OF sh'] l obtain ty' t' where ty': "type_at ?i db' = Some (ty', t')" by blast
    have sta: "?st a = Some l" using l(1) False by (auto simp: drop_ref_other split: option.split)
    have out: "a \<notin> ran ?c'" by (rule keyed_fresh [OF ky' sta]) simp
    let ?ty = "ty'\<lparr>lt_count_self := (if IS_LSA_SELF l then lt_count_self ty' + 1 else lt_count_self ty'),
        lt_count := lt_count ty' + 1, lt_checksum := lt_checksum ty' + ucast (ntohs (lh_checksum (l_data l))),
        lt_db := Some (rt_put T t' ?k (Some a))\<rparr>"
    let ?db = "db'\<lparr>ld_type := (ld_type db')[?i := ?ty], ld_total := ld_total db' + 1\<rparr>"
      and ?st' = "?st(a \<mapsto> l\<lparr>l_lock := l_lock l + 1\<rparr>)"
    have nth: "ld_type db' ! ?i = ty'" and len: "length (ld_type db') = 8"
      using type_at_nth [OF ty'] sh' by (simp_all add: lsdb_shape_def)
    have e: "ospf_lsdb_add T a (db, st) = Some (?db, ?st')"
      using l(1) ty False ck d(1) ty' sta by (simp add: ospf_lsdb_add_def Let_def ospf_lsa_lock_def)
    have c': "lsdb_content T ?db = ?c((?i, ?k) \<mapsto> a)"
      using content_put [OF T ty', of ?ty ?k "Some a"] d(3) by simp
    have "lsdb_stats (?c'((?i, ?k) \<mapsto> a)) ?db ?st'"
      using stats_insert [OF sts' _ sta len l(3), of ?k "Some (rt_put T t' ?k (Some a))", unfolded nth] by simp
    moreover have "lsdb_shape ?db" by (rule shape_put [OF sh' ty']) simp
    ultimately show ?thesis
      using e c' keyed_insert [OF ky' sta] lock_entry [OF lk' ky' _ sta out, of "(?i, ?k)"]
      by (simp add: lsdb_inv_def Let_def)
  qed
qed

lemma ospf_lsdb_delete_ok:
  assumes T: "table_ok T" and inv: "lsdb_inv T ext (db, st)" and l: "st a = Some l" "0 < lsa_type l" "lsa_type l < 8"
  shows "\<exists>s. ospf_lsdb_delete T (Some a) (db, st) = Some s \<and> lsdb_inv T ext s
    \<and> lsdb_content T (fst s) =
      (if lsdb_content T db (lsa_type l, lsdb_prefix_set l) = Some a
       then (lsdb_content T db)((lsa_type l, lsdb_prefix_set l) := None) else lsdb_content T db)"
proof -
  from inv have "lsdb_shape db" by (simp add: lsdb_inv_def Let_def)
  from type_at_shape [OF this] l obtain ty t where ty: "type_at (lsa_type l) db = Some (ty, t)" by blast
  have "lsdb_content T db (lsa_type l, lsdb_prefix_set l) = rt_info T t (lsdb_prefix_set l)" by (simp add: lsdb_content_def ty)
  then show ?thesis using delete_entry_ok [OF T inv l(2,3), of "lsdb_prefix_set l"] inv l ty
    by (auto simp: ospf_lsdb_delete_def)
qed

lemma delete_nodes_ok:
  assumes "table_ok T" "lsdb_inv T ext s" "0 < i" "i < 8"
  shows "\<exists>s'. delete_nodes T i ks s = Some s' \<and> lsdb_inv T ext s'
    \<and> lsdb_content T (fst s') = (\<lambda>x. if fst x = i \<and> snd x \<in> set ks then None else lsdb_content T (fst s) x)"
  using assms(2)
proof (induction ks arbitrary: s)
  case (Cons k ks)
  obtain db st where s: "s = (db, st)" by force
  from delete_entry_ok [OF assms(1) Cons.prems [unfolded s] assms(3,4), of k] obtain s1 where
    s1: "ospf_lsdb_delete_entry T i k s = Some s1" "lsdb_inv T ext s1" "lsdb_content T (fst s1) = (lsdb_content T db)((i, k) := None)"
    unfolding s by auto
  from Cons.IH [OF s1(2)] s1 s show ?case by (auto simp: fun_eq_iff)
qed auto

lemma delete_types_ok:
  assumes "table_ok T" "lsdb_inv T ext s" "set is \<subseteq> {1..<8}"
  shows "\<exists>s'. delete_types T is s = Some s' \<and> lsdb_inv T ext s'
    \<and> lsdb_content T (fst s') = (\<lambda>x. if fst x \<in> set is then None else lsdb_content T (fst s) x)"
  using assms(2,3)
proof (induction "is" arbitrary: s)
  case (Cons i "is")
  have "lsdb_shape (fst s)" using Cons.prems(1) by (auto simp: lsdb_inv_def Let_def split: prod.splits)
  from type_at_shape [OF this, of i] Cons.prems(2) obtain ty t where ty: "type_at i (fst s) = Some (ty, t)" by auto
  from delete_nodes_ok [OF assms(1) Cons.prems(1), of i "rt_keys T t"] Cons.prems(2) obtain s1 where
    s1: "delete_nodes T i (rt_keys T t) s = Some s1" "lsdb_inv T ext s1"
      "lsdb_content T (fst s1) = (\<lambda>x. if fst x = i \<and> snd x \<in> set (rt_keys T t) then None else lsdb_content T (fst s) x)" by auto
  have "k \<in> set (rt_keys T t)" if "lsdb_content T (fst s) (i, k) = Some a" for k a
    using that ty table_okD(3) [OF assms(1), of t k a] by (simp add: lsdb_content_def)
  then have c1: "lsdb_content T (fst s1) = (\<lambda>x. if fst x = i then None else lsdb_content T (fst s) x)"
    unfolding s1(3) by (intro ext) (metis not_Some_eq prod.collapse)
  from Cons.IH [OF s1(2)] Cons.prems(2) obtain s2 where s2: "delete_types T is s1 = Some s2" "lsdb_inv T ext s2"
    "lsdb_content T (fst s2) = (\<lambda>x. if fst x \<in> set is then None else lsdb_content T (fst s1) x)" by auto
  have "lsdb_content T (fst s2) = (\<lambda>x. if fst x \<in> set (i # is) then None else lsdb_content T (fst s) x)"
    unfolding s2(3) c1 by auto
  with s2(1,2) s1(1) ty show ?case by simp
qed auto

lemma ospf_lsdb_delete_all_ok:
  assumes "table_ok T" "lsdb_inv T ext s"
  shows "\<exists>s'. ospf_lsdb_delete_all T s = Some s' \<and> lsdb_inv T ext s' \<and> lsdb_content T (fst s') = Map.empty"
proof -
  have "lsdb_shape (fst s)" using assms(2) by (auto simp: lsdb_inv_def Let_def split: prod.splits)
  then have "lsdb_content T (fst s) (i, k) = None" if "i \<notin> {1..<8}" for i k
    using that type_at_shape [of "fst s" i] by (cases "type_at i (fst s)") (auto simp: lsdb_content_def)
  with delete_types_ok [OF assms, of "[1..<8]"] show ?thesis
    by (auto simp: ospf_lsdb_delete_all_def fun_eq_iff)
qed

lemma stats_same_view:
  "lsdb_stats c db st \<Longrightarrow> \<forall>b \<in> ran c. lsa_view st b = lsa_view st' b \<Longrightarrow> lsdb_stats c db st'"
  by (simp add: lsdb_stats_def stat_cong [of c st st'])

lemma ospf_lsa_discard_ok:
  assumes inv: "lsdb_inv T ext (db, st)" and l: "st a = Some l"
  shows "\<exists>st'. ospf_lsa_discard a st = Some st' \<and> lsdb_inv T ext (db, st')"
proof (cases "flag_on OSPF_LSA_DISCARD (l_flags l)")
  case True
  with assms show ?thesis by (simp add: ospf_lsa_discard_def)
next
  case False
  let ?c = "lsdb_content T db" and ?l = "l\<lparr>l_flags := flag_set OSPF_LSA_DISCARD (l_flags l)\<rparr>"
  let ?n = "ext a + (if a \<in> ran ?c then 1 else 0)"
  let ?st = "if ?n = 0 then (st(a \<mapsto> ?l))(a := None) else (st(a \<mapsto> ?l))(a \<mapsto> ?l\<lparr>l_lock := int ?n\<rparr>)"
  from inv have sts: "lsdb_stats ?c db st" and ky: "lsdb_keyed ?c st" and lk: "lsdb_locks ext ?c st"
    by (simp_all add: lsdb_inv_def Let_def)
  have d: "flag_on OSPF_LSA_DISCARD (l_flags ?l)" "IS_LSA_SELF ?l = IS_LSA_SELF l"
    by (simp_all add: flag_simps IS_LSA_SELF_def)
  have lock: "l_lock ?l = int ?n + 1" "ext a = 0 \<longrightarrow> l_refresh_list l < 0"
    using lk l False by (auto simp: lsdb_locks_def lsa_refs_def)
  have e: "ospf_lsa_discard a st = Some ?st"
    using unlock_refs [of "st(a \<mapsto> ?l)" a ?l ?n] l False d lock by (simp add: ospf_lsa_discard_def)
  have v: "lsa_view st b = lsa_view ?st b" if "b \<in> ran ?c" for b
    using that l d(2) by (auto simp: lsa_view_def IS_LSA_SELF_def)
  have "lsdb_keyed ?c ?st"
    unfolding lsdb_keyed_def
  proof (intro allI impI)
    fix x b
    assume x: "?c x = Some b"
    from keyedD [OF ky x] ranI [of ?c, OF x] l show "\<exists>m. ?st b = Some m \<and> x = (lsa_type m, lsdb_prefix_set m)"
      by (auto simp: lsa_type_def lsdb_prefix_set_def)
  qed
  moreover have "lsdb_locks ext ?c ?st"
    using lk lock d(1) by (auto simp: lsdb_locks_def lsa_refs_def)
  ultimately show ?thesis
    using e inv stats_same_view [OF sts] v by (simp add: lsdb_inv_def Let_def)
qed

section \<open>The database refines a map\<close>

text \<open>The calls on a database; they carry the key of the advertisement for the specification.\<close>

datatype lsdb_use = LAdd nat "nat \<times> ls_key" | LDelete nat "nat \<times> ls_key" | LDeleteAll
  | LLookup nat "nat \<times> ls_key" | LLookupId nat u32 u32 | LDiscard nat

fun lsdb_step :: "(ls_key, 't) route_ops \<Rightarrow> lsdb_use \<Rightarrow> 't ospf_lsdb \<times> lsas \<Rightarrow> (nat option \<times> 't ospf_lsdb \<times> lsas) option" where
  "lsdb_step T (LAdd a x) s = map_option (Pair None) (ospf_lsdb_add T a s)"
| "lsdb_step T (LDelete a x) s = map_option (Pair None) (ospf_lsdb_delete T (Some a) s)"
| "lsdb_step T LDeleteAll s = map_option (Pair None) (ospf_lsdb_delete_all T s)"
| "lsdb_step T (LLookup a x) s = map_option (\<lambda>r. (r, s)) (ospf_lsdb_lookup T a s)"
| "lsdb_step T (LLookupId i d v) s = map_option (\<lambda>r. (r, s)) (ospf_lsdb_lookup_by_id T i d v (fst s))"
| "lsdb_step T (LDiscard a) s = map_option (\<lambda>st. (None, fst s, st)) (ospf_lsa_discard a (snd s))"

fun lsmap_step :: "lsdb_use \<Rightarrow> (nat \<times> ls_key \<Rightarrow> nat option) \<Rightarrow> nat option \<times> (nat \<times> ls_key \<Rightarrow> nat option)" where
  "lsmap_step (LAdd a x) c = (None, c(x \<mapsto> a))"
| "lsmap_step (LDelete a x) c = (None, if c x = Some a then c(x := None) else c)"
| "lsmap_step LDeleteAll c = (None, Map.empty)"
| "lsmap_step (LLookup a x) c = (c x, c)"
| "lsmap_step (LLookupId i d v) c = (c (i, d, v), c)"
| "lsmap_step (LDiscard a) c = (None, c)"

definition lsa_live :: "nat \<Rightarrow> nat \<times> ls_key \<Rightarrow> lsas \<Rightarrow> bool" where
  "lsa_live a x st = (case st a of None \<Rightarrow> False | Some l \<Rightarrow> x = (lsa_type l, lsdb_prefix_set l) \<and> 0 < fst x \<and> fst x < 8)"

fun lsdb_guard :: "lsdb_use \<Rightarrow> 't ospf_lsdb \<times> lsas \<Rightarrow> bool" where
  "lsdb_guard (LAdd a x) s = lsa_live a x (snd s)"
| "lsdb_guard (LDelete a x) s = lsa_live a x (snd s)"
| "lsdb_guard (LLookup a x) s = lsa_live a x (snd s)"
| "lsdb_guard (LLookupId i d v) s = (0 < i \<and> i < 8)"
| "lsdb_guard (LDiscard a) s = (snd s a \<noteq> None)"
| "lsdb_guard LDeleteAll s = True"

lemma lookup_content: "lsdb_shape db \<Longrightarrow> 0 < i \<Longrightarrow> i < 8 \<Longrightarrow>
    \<exists>ty t. type_at i db = Some (ty, t) \<and> lsdb_content T db (i, k) = rt_info T t k"
  using type_at_shape [of db i] by (auto simp: lsdb_content_def)

lemma lsdb_step_simulates:
  assumes "table_ok T" "lsdb_inv T ext s" "lsdb_guard u s"
  shows "\<exists>r t. lsdb_step T u s = Some (r, t) \<and> (table_ok T \<and> lsdb_inv T ext t)
    \<and> lsmap_step u (lsdb_content T (fst s)) = (r, lsdb_content T (fst t))"
proof -
  obtain db st where s: "s = (db, st)" by force
  have sh: "lsdb_shape db" using assms(2) by (simp add: s lsdb_inv_def Let_def)
  show ?thesis
  proof (cases u)
    case (LAdd a x)
    with assms s ospf_lsdb_add_ok [OF assms(1) assms(2) [unfolded s], of a] show ?thesis
      by (auto simp: lsa_live_def split: option.splits)
  next
    case (LDelete a x)
    with assms s ospf_lsdb_delete_ok [OF assms(1) assms(2) [unfolded s], of a] show ?thesis
      by (auto simp: lsa_live_def split: option.splits)
  next
    case LDeleteAll
    with assms s ospf_lsdb_delete_all_ok [OF assms(1,2)] show ?thesis by auto
  next
    case (LLookup a x)
    with assms s lookup_content [OF sh, of "fst x" T "snd x"] show ?thesis
      by (auto simp: lsa_live_def ospf_lsdb_lookup_def split: option.splits)
  next
    case (LLookupId i d v)
    with assms s lookup_content [OF sh, of i T "(d, v)"] show ?thesis by (auto simp: ospf_lsdb_lookup_by_id_def)
  next
    case (LDiscard a)
    with assms s ospf_lsa_discard_ok [OF assms(2) [unfolded s], of a] show ?thesis by auto
  qed
qed

interpretation lsdb: guarded_simulation "lsdb_step T" "\<lambda>s. table_ok T \<and> lsdb_inv T ext s" "\<lambda>s. lsdb_content T (fst s)"
    lsmap_step lsdb_guard for T ext
  by unfold_locales (auto dest: lsdb_step_simulates)

lemma lsdb_new_inv:
  assumes "table_ok T" "lsdb_locks ext Map.empty st"
  shows "lsdb_inv T ext (ospf_lsdb_new T, st)" and "lsdb_content T (ospf_lsdb_new T) = Map.empty"
proof -
  have nth: "ld_type (ospf_lsdb_new T) ! i = \<lparr>lt_count = 0, lt_count_self = 0, lt_checksum = 0,
      lt_db = if i = 0 then None else Some (rt_new T)\<rparr>" if "i < 8" for i
    using that by (auto simp: ospf_lsdb_new_def ospf_lsdb_init_def)
  have len: "length (ld_type (ospf_lsdb_new T)) = 8" by (simp add: ospf_lsdb_new_def ospf_lsdb_init_def)
  show c: "lsdb_content T (ospf_lsdb_new T) = Map.empty"
    using nth by (auto simp: lsdb_content_def type_at_def len table_okD [OF assms(1)] fun_eq_iff)
  have "ld_total (ospf_lsdb_new T) = 0" by (simp add: ospf_lsdb_new_def ospf_lsdb_init_def)
  with c assms(2) nth len show "lsdb_inv T ext (ospf_lsdb_new T, st)"
    by (simp add: lsdb_inv_def Let_def lsdb_shape_def lsdb_stats_def lsdb_keyed_def lsdb_stat_def)
qed

text \<open>
  C33. The link state database refines a map from type, identifier and router to advertisements. Every sequence
  of additions, deletions, lookups and discards that names advertisements which are not yet released ends without a
  failed assertion and answers as the map does; the count is the number of entries, and the reference count of
  every advertisement that is left is the number of its references.
\<close>

theorem ospf_lsdb_refines_map:
  assumes "table_ok T" "lsdb_locks ext Map.empty st" "run_ok (lsdb_step T) lsdb_guard us (ospf_lsdb_new T, st)"
  shows "\<exists>rs db st'. do_run (lsdb_step T) us (ospf_lsdb_new T, st) = Some (rs, db, st')
    \<and> spec_run lsmap_step us Map.empty = (rs, lsdb_content T db)
    \<and> ospf_lsdb_count_all db = of_nat (card (dom (lsdb_content T db)))
    \<and> lsdb_locks ext (lsdb_content T db) st'"
proof -
  note new = lsdb_new_inv [OF assms(1,2)]
  have "table_ok T \<and> lsdb_inv T ext (ospf_lsdb_new T, st)" using assms(1) new(1) by simp
  from lsdb.guarded_run_simulates [OF this assms(3)] obtain rs db st' where
    "do_run (lsdb_step T) us (ospf_lsdb_new T, st) = Some (rs, db, st')" "lsdb_inv T ext (db, st')"
    "spec_run lsmap_step us Map.empty = (rs, lsdb_content T db)"
    by (auto simp: new(2))
  then show ?thesis by (auto simp: lsdb_inv_def Let_def lsdb_stats_def ospf_lsdb_count_all_def)
qed

section \<open>Examples\<close>

text \<open>A table as a list of what was put in.\<close>

definition list_ops :: "('k, ('k \<times> nat option) list) route_ops" where
  "list_ops = \<lparr>rt_new = [], rt_info = (\<lambda>t k. case map_of t k of None \<Rightarrow> None | Some v \<Rightarrow> v),
     rt_put = (\<lambda>t k v. (k, v) # t), rt_keys = map fst\<rparr>"

lemma list_ops_ok: "table_ok list_ops"
  by (auto simp: table_ok_def list_ops_def dom_def dest!: map_of_SomeD split: option.splits) force

definition ex_lsas :: lsas where
  "ex_lsas = [1 \<mapsto> ex_lsa 0x01000080, 2 \<mapsto> ex_lsa 0x02000080]"

theorem ospf_lsdb_refines_map_witness:
  "\<exists>db st'. do_run (lsdb_step list_ops) [LAdd 1 (1, 1, 1), LDiscard 1, LAdd 2 (1, 1, 1), LLookupId 1 1 1]
      (ospf_lsdb_new list_ops, ex_lsas) = Some ([None, None, None, Some 2], db, st')
    \<and> ospf_lsdb_count_all db = 1"
proof -
  let ?us = "[LAdd 1 (1, 1, 1), LDiscard 1, LAdd 2 (1, 1, 1), LLookupId 1 1 1]"
  have "lsdb_locks (\<lambda>_. 0) Map.empty ex_lsas"
    by (auto simp: lsdb_locks_def lsa_refs_def ex_lsas_def ex_lsa_def split: if_splits)
  moreover have "run_ok (lsdb_step list_ops) lsdb_guard ?us (ospf_lsdb_new list_ops, ex_lsas)"
    by code_simp
  ultimately obtain rs db st' where
    r: "do_run (lsdb_step list_ops) ?us (ospf_lsdb_new list_ops, ex_lsas) = Some (rs, db, st')"
    and c: "spec_run lsmap_step ?us Map.empty = (rs, lsdb_content list_ops db)"
    and n: "ospf_lsdb_count_all db = of_nat (card (dom (lsdb_content list_ops db)))"
    using ospf_lsdb_refines_map [OF list_ops_ok] by blast
  from c have "rs = [None, None, None, Some 2]" "lsdb_content list_ops db = [(1, 1, 1) \<mapsto> 2]" by simp_all
  with r n show ?thesis by (intro exI conjI) simp_all
qed

end
