(* ===== verification/Ospf_Fsm.thy ===== *)
theory Ospf_Fsm
  imports Ospf_Lsdb Stream_Buf
begin

text \<open>
  The state machines of an OSPF interface and of its neighbours (\<open>ospf/ospf_ism.c\<close>, \<open>ospf_nsm.c\<close>,
  \<open>ospf_neighbor.c\<close>, and the reception of hello packets in \<open>ospf_packet.c\<close>): election of the designated router
  and its backup, the two transition tables, the actions, and the creation and deletion of neighbours.

  The state is one interface with the store of its neighbours, the table that names them, its timers (running or
  not), and the queue of scheduled events. The interface has a pseudo neighbour of its own, \<open>oi_self\<close>, which is in
  the table with the others; \<open>DR\<close> and \<open>BDR\<close> of the interface are fields of it. Calls into the flooding, the
  origination of advertisements and the sending of packets are recorded in \<open>oi_calls\<close> in their order; what they
  answer is an argument \<open>E\<close>. A null dereference, a use of a released neighbour and a failed assertion are \<open>None\<close>.
  Addresses are words in memory order. Tables of prefixes are the argument \<open>N\<close>.
\<close>

section \<open>States and events\<close>

datatype ism_state = ISM_DependUpon | ISM_Down | ISM_Loopback | ISM_Waiting | ISM_PointToPoint | ISM_DROther
  | ISM_Backup | ISM_DR

datatype ism_event = ISM_NoEvent | ISM_InterfaceUp | ISM_WaitTimer | ISM_BackupSeen | ISM_NeighborChange
  | ISM_LoopInd | ISM_UnloopInd | ISM_InterfaceDown

datatype nsm_state = NSM_DependUpon | NSM_Deleted | NSM_Down | NSM_Attempt | NSM_Init | NSM_TwoWay | NSM_ExStart
  | NSM_Exchange | NSM_Loading | NSM_Full

datatype nsm_event = NSM_NoEvent | NSM_PacketReceived | NSM_Start | NSM_TwoWayReceived | NSM_NegotiationDone
  | NSM_ExchangeDone | NSM_BadLSReq | NSM_LoadingDone | NSM_AdjOK | NSM_SeqNumberMismatch | NSM_OneWayReceived
  | NSM_KillNbr | NSM_InactivityTimer | NSM_LLDown

text \<open>The states are numbers in the source, and are compared as such.\<close>

primrec ism_num :: "ism_state \<Rightarrow> nat" where
  "ism_num ISM_DependUpon = 0" | "ism_num ISM_Down = 1" | "ism_num ISM_Loopback = 2" | "ism_num ISM_Waiting = 3"
| "ism_num ISM_PointToPoint = 4" | "ism_num ISM_DROther = 5" | "ism_num ISM_Backup = 6" | "ism_num ISM_DR = 7"

primrec nsm_num :: "nsm_state \<Rightarrow> nat" where
  "nsm_num NSM_DependUpon = 0" | "nsm_num NSM_Deleted = 1" | "nsm_num NSM_Down = 2" | "nsm_num NSM_Attempt = 3"
| "nsm_num NSM_Init = 4" | "nsm_num NSM_TwoWay = 5" | "nsm_num NSM_ExStart = 6" | "nsm_num NSM_Exchange = 7"
| "nsm_num NSM_Loading = 8" | "nsm_num NSM_Full = 9"

lemma ism_num_inject: "ism_num x = ism_num y \<Longrightarrow> x = y"
  by (cases x; cases y) simp_all

lemma nsm_num_inject: "nsm_num x = nsm_num y \<Longrightarrow> x = y"
  by (cases x; cases y) simp_all

instantiation ism_state :: linorder
begin

definition less_eq_ism_state :: "ism_state \<Rightarrow> ism_state \<Rightarrow> bool" where
  "less_eq_ism_state x y \<longleftrightarrow> ism_num x \<le> ism_num y"

definition less_ism_state :: "ism_state \<Rightarrow> ism_state \<Rightarrow> bool" where
  "less_ism_state x y \<longleftrightarrow> ism_num x < ism_num y"

instance
  by standard (auto simp: less_eq_ism_state_def less_ism_state_def intro: ism_num_inject)

end

instantiation nsm_state :: linorder
begin

definition less_eq_nsm_state :: "nsm_state \<Rightarrow> nsm_state \<Rightarrow> bool" where
  "less_eq_nsm_state x y \<longleftrightarrow> nsm_num x \<le> nsm_num y"

definition less_nsm_state :: "nsm_state \<Rightarrow> nsm_state \<Rightarrow> bool" where
  "less_nsm_state x y \<longleftrightarrow> nsm_num x < nsm_num y"

instance
  by standard (auto simp: less_eq_nsm_state_def less_nsm_state_def intro: nsm_num_inject)

end

lemmas state_order = less_eq_ism_state_def less_ism_state_def less_eq_nsm_state_def less_nsm_state_def

section \<open>Interfaces and neighbours\<close>

datatype if_type = OSPF_IFTYPE_NONE | OSPF_IFTYPE_POINTOPOINT | OSPF_IFTYPE_BROADCAST | OSPF_IFTYPE_NBMA
  | OSPF_IFTYPE_POINTOMULTIPOINT | OSPF_IFTYPE_VIRTUALLINK | OSPF_IFTYPE_LOOPBACK

datatype area_type = OSPF_AREA_DEFAULT | OSPF_AREA_STUB | OSPF_AREA_NSSA

abbreviation (input) "OSPF_OPTION_T \<equiv> 0x01 :: u8"
abbreviation (input) "OSPF_OPTION_E \<equiv> 0x02 :: u8"
abbreviation (input) "OSPF_OPTION_NP \<equiv> 0x08 :: u8"
abbreviation (input) "OSPF_DD_FLAG_MS \<equiv> 0x01 :: u8"

record ospf_nbr =
  nb_state :: nsm_state
  nb_dd_flags :: u8
  nb_dd_seqnum :: u32
  nb_address :: u32
  nb_src :: u32
  nb_router_id :: u32
  nb_options :: u8
  nb_priority :: int
  nb_d_router :: u32
  nb_bd_router :: u32
  nb_crypt_seqnum :: u32
  nb_t_inactivity :: bool
  nb_t_db_desc :: bool
  nb_t_ls_req :: bool
  nb_t_ls_upd :: bool
  nb_t_hello_reply :: bool
  nb_nbma :: "nat option"
  nb_ts_last_progress :: timeval
  nb_ts_last_regress :: timeval
  nb_last_regress :: "nsm_event option"
  nb_state_change :: u32

record ospf_nbr_nbma =
  nm_addr :: u32
  nm_oi :: bool
  nm_nbr :: "nat option"
  nm_t_poll :: bool
  nm_state_change :: u32

datatype sched = SNsm nat nsm_event | SIsm ism_event

datatype ospf_call = NbmaIfUpdate | SetMulticast | CheckAbrStatus | ScheduleAbrTask | RouterLsaUpdate
  | VlRouterLsaUpdate | NetworkLsaUpdate | NetworkLsaFlush nat | RefreshExternal | DbSummaryFill nat | DbDescSend nat
  | LsReqSend nat | ClearAdj nat | FreeLists nat | LsAckClear | LsUpdQueueEmpty | HelloSend

record 'n ospf_if =
  oi_type :: if_type
  oi_state :: ism_state
  oi_address :: u32
  oi_prefixlen :: u8
  oi_router_id :: u32
  oi_external :: area_type
  oi_cf_priority :: u8
  oi_cf_wait :: u32
  oi_cf_hello :: u32
  oi_cf_fast_hello :: u8
  oi_nbrs :: 'n
  oi_self :: nat
  oi_nbr :: "nat \<Rightarrow> ospf_nbr option"
  oi_nbma :: "nat list"
  oi_nbmas :: "nat \<Rightarrow> ospf_nbr_nbma option"
  oi_t_hello :: bool
  oi_t_wait :: bool
  oi_t_ls_ack :: bool
  oi_state_change :: u32
  oi_full_nbrs :: u32
  oi_area_full_nbrs :: u32
  oi_act_ints :: u32
  oi_vl_full :: "u32 option"
  oi_network_lsa :: "nat option"
  oi_crypt_seqnum :: u32
  oi_hello_in :: u32
  oi_sched :: "sched list"
  oi_calls :: "ospf_call list"

text \<open>
  The clock, the address of the next new object, and what other parts answer: whether the request list of a
  neighbour is empty, and the network advertisement after its update, by the number of calls made before.
\<close>

record ospf_env =
  ev_now :: timeval
  ev_time :: u32
  ev_new :: nat
  ev_req_empty :: bool
  ev_network_lsa :: "nat \<Rightarrow> nat option"

definition call :: "ospf_call \<Rightarrow> 'n ospf_if \<Rightarrow> 'n ospf_if" where
  "call c s = s\<lparr>oi_calls := oi_calls s @ [c]\<rparr>"

definition schedule :: "sched \<Rightarrow> 'n ospf_if \<Rightarrow> 'n ospf_if" where
  "schedule e s = s\<lparr>oi_sched := oi_sched s @ [e]\<rparr>"

definition upd_nbr :: "nat \<Rightarrow> (ospf_nbr \<Rightarrow> ospf_nbr) \<Rightarrow> 'n ospf_if \<Rightarrow> 'n ospf_if option" where
  "upd_nbr a f s = do { n \<leftarrow> oi_nbr s a; Some (s\<lparr>oi_nbr := (oi_nbr s)(a \<mapsto> f n)\<rparr>) }"

definition IPV4_ADDR_CMP :: "u32 \<Rightarrow> u32 \<Rightarrow> int" where
  "IPV4_ADDR_CMP a b = memcmp (in_memory a) (in_memory b)"

definition IPV4_ADDR_SAME :: "u32 \<Rightarrow> u32 \<Rightarrow> bool" where
  "IPV4_ADDR_SAME a b \<longleftrightarrow> memcmp (in_memory a) (in_memory b) = 0"

definition NBR_IS_DR :: "ospf_nbr \<Rightarrow> bool" where
  "NBR_IS_DR n = IPV4_ADDR_SAME (nb_address n) (nb_d_router n)"

definition NBR_IS_BDR :: "ospf_nbr \<Rightarrow> bool" where
  "NBR_IS_BDR n = IPV4_ADDR_SAME (nb_address n) (nb_bd_router n)"

definition DR :: "'n ospf_if \<Rightarrow> u32 option" where
  "DR s = do { n \<leftarrow> oi_nbr s (oi_self s); Some (nb_d_router n) }"

definition BDR :: "'n ospf_if \<Rightarrow> u32 option" where
  "BDR s = do { n \<leftarrow> oi_nbr s (oi_self s); Some (nb_bd_router n) }"

definition PRIORITY :: "'n ospf_if \<Rightarrow> int option" where
  "PRIORITY s = do { n \<leftarrow> oi_nbr s (oi_self s); Some (nb_priority n) }"

text \<open>The neighbours behind a list of pointers, and those that a walk over the table visits.\<close>

fun fetch :: "(nat \<Rightarrow> ospf_nbr option) \<Rightarrow> nat list \<Rightarrow> (nat \<times> ospf_nbr) list option" where
  "fetch st [] = Some []"
| "fetch st (a # as) = do { n \<leftarrow> st a; ns \<leftarrow> fetch st as; Some ((a, n) # ns) }"

definition walk :: "(u32, 'n) route_ops \<Rightarrow> 'n ospf_if \<Rightarrow> nat list" where
  "walk N s = List.map_filter (rt_info N (oi_nbrs s)) (rt_keys N (oi_nbrs s))"

section \<open>Election of the designated router\<close>

fun election_sub :: "(nat \<times> ospf_nbr) option \<Rightarrow> (nat \<times> ospf_nbr) list \<Rightarrow> (nat \<times> ospf_nbr) option" where
  "election_sub mx [] = mx"
| "election_sub None (x # xs) = election_sub (Some x) xs"
| "election_sub (Some (m, mn)) ((a, n) # xs) =
     (if nb_priority mn < nb_priority n then election_sub (Some (a, n)) xs
      else if nb_priority mn = nb_priority n \<and> IPV4_ADDR_CMP (nb_router_id mn) (nb_router_id n) < 0
      then election_sub (Some (a, n)) xs
      else election_sub (Some (m, mn)) xs)"

definition ospf_dr_election_sub :: "(nat \<times> ospf_nbr) list \<Rightarrow> (nat \<times> ospf_nbr) option" where
  "ospf_dr_election_sub routers = election_sub None routers"

definition ospf_elect_dr :: "nat list \<Rightarrow> 'n ospf_if \<Rightarrow> (nat option \<times> 'n ospf_if) option" where
  "ospf_elect_dr el_list s = do {
     ns \<leftarrow> fetch (oi_nbr s) el_list;
     b \<leftarrow> BDR s;
     let dr_list = filter (\<lambda>(a, n). NBR_IS_DR n) ns;
     let bdr = (case filter (\<lambda>(a, n). IPV4_ADDR_SAME b (nb_address n)) ns of [] \<Rightarrow> None | ms \<Rightarrow> Some (last ms));
     let dr = (if length dr_list > 0 then ospf_dr_election_sub dr_list else bdr);
     s \<leftarrow> upd_nbr (oi_self s) (\<lambda>n. n\<lparr>nb_d_router := (case dr of None \<Rightarrow> 0 | Some (a, m) \<Rightarrow> nb_address m)\<rparr>) s;
     Some (map_option fst dr, s) }"

definition ospf_elect_bdr :: "nat list \<Rightarrow> 'n ospf_if \<Rightarrow> (nat option \<times> 'n ospf_if) option" where
  "ospf_elect_bdr el_list s = do {
     ns \<leftarrow> fetch (oi_nbr s) el_list;
     let no_dr_list = filter (\<lambda>(a, n). \<not> NBR_IS_DR n) ns;
     let bdr_list = filter (\<lambda>(a, n). NBR_IS_BDR n) no_dr_list;
     let bdr = (if length bdr_list > 0 then ospf_dr_election_sub bdr_list else ospf_dr_election_sub no_dr_list);
     s \<leftarrow> upd_nbr (oi_self s) (\<lambda>n. n\<lparr>nb_bd_router := (case bdr of None \<Rightarrow> 0 | Some (a, m) \<Rightarrow> nb_address m)\<rparr>) s;
     Some (map_option fst bdr, s) }"

definition ospf_ism_state :: "'n ospf_if \<Rightarrow> ism_state option" where
  "ospf_ism_state s = do {
     d \<leftarrow> DR s;
     b \<leftarrow> BDR s;
     Some (if IPV4_ADDR_SAME d (oi_address s) then ISM_DR
           else if IPV4_ADDR_SAME b (oi_address s) then ISM_Backup
           else ISM_DROther) }"

definition ospf_dr_eligible_routers :: "(u32, 'n) route_ops \<Rightarrow> 'n ospf_if \<Rightarrow> nat list option" where
  "ospf_dr_eligible_routers N s = do {
     ns \<leftarrow> fetch (oi_nbr s) (walk N s);
     Some (map fst (filter (\<lambda>(a, n). nb_router_id n \<noteq> 0 \<and> nb_priority n > 0 \<and> nb_state n \<ge> NSM_TwoWay) ns)) }"

definition ospf_dr_change :: "(u32, 'n) route_ops \<Rightarrow> 'n ospf_if \<Rightarrow> 'n ospf_if option" where
  "ospf_dr_change N s = do {
     ns \<leftarrow> fetch (oi_nbr s) (walk N s);
     let todo = map fst (filter (\<lambda>(a, n). nb_router_id n \<noteq> 0 \<and> nb_state n \<ge> NSM_TwoWay
       \<and> \<not> IPV4_ADDR_SAME (nb_router_id n) (oi_router_id s)) ns);
     Some (fold (\<lambda>a. schedule (SNsm a NSM_AdjOK)) todo s) }"

definition ospf_dr_election :: "(u32, 'n) route_ops \<Rightarrow> 'n ospf_if \<Rightarrow> (ism_state \<times> 'n ospf_if) option" where
  "ospf_dr_election N s = do {
     old_dr \<leftarrow> DR s;
     old_bdr \<leftarrow> BDR s;
     let old_state = oi_state s;
     el_list \<leftarrow> ospf_dr_eligible_routers N s;
     (bdr, s) \<leftarrow> ospf_elect_bdr el_list s;
     (dr, s) \<leftarrow> ospf_elect_dr el_list s;
     new_state \<leftarrow> ospf_ism_state s;
     (new_state, s) \<leftarrow>
       (if new_state \<noteq> old_state \<and> \<not> (new_state = ISM_DROther \<and> old_state < ISM_DROther)
        then do {
          (bdr, s) \<leftarrow> ospf_elect_bdr el_list s;
          (dr, s) \<leftarrow> ospf_elect_dr el_list s;
          new_state \<leftarrow> ospf_ism_state s;
          Some (new_state, s) }
        else Some (new_state, s));
     new_dr \<leftarrow> DR s;
     new_bdr \<leftarrow> BDR s;
     s \<leftarrow> (if \<not> IPV4_ADDR_SAME old_dr new_dr \<or> \<not> IPV4_ADDR_SAME old_bdr new_bdr then ospf_dr_change N s else Some s);
     Some (new_state, s) }"

section \<open>The interface state machine\<close>

definition ospf_hello_timer :: "'n ospf_if \<Rightarrow> 'n ospf_if" where
  "ospf_hello_timer s = (call HelloSend (s\<lparr>oi_t_hello := False\<rparr>))\<lparr>oi_t_hello := True\<rparr>"

definition ospf_wait_timer :: "'n ospf_if \<Rightarrow> 'n ospf_if" where
  "ospf_wait_timer s = schedule (SIsm ISM_WaitTimer) (s\<lparr>oi_t_wait := False\<rparr>)"

definition ism_timer_set :: "'n ospf_if \<Rightarrow> 'n ospf_if" where
  "ism_timer_set s =
    (case oi_state s of
       ISM_DependUpon \<Rightarrow> s
     | ISM_Down \<Rightarrow> s\<lparr>oi_t_hello := False, oi_t_wait := False, oi_t_ls_ack := False\<rparr>
     | ISM_Loopback \<Rightarrow> s\<lparr>oi_t_hello := False, oi_t_wait := False, oi_t_ls_ack := False\<rparr>
     | ISM_Waiting \<Rightarrow> s\<lparr>oi_t_hello := True, oi_t_wait := True, oi_t_ls_ack := False\<rparr>
     | ISM_PointToPoint \<Rightarrow> s\<lparr>oi_t_hello := True, oi_t_wait := False, oi_t_ls_ack := True\<rparr>
     | ISM_DROther \<Rightarrow> s\<lparr>oi_t_hello := True, oi_t_wait := False, oi_t_ls_ack := True\<rparr>
     | ISM_Backup \<Rightarrow> s\<lparr>oi_t_hello := True, oi_t_wait := False, oi_t_ls_ack := True\<rparr>
     | ISM_DR \<Rightarrow> s\<lparr>oi_t_hello := True, oi_t_wait := False, oi_t_ls_ack := True\<rparr>)"

definition ism_interface_up :: "'n ospf_if \<Rightarrow> (ism_state \<times> 'n ospf_if) option" where
  "ism_interface_up s = do {
     p \<leftarrow> PRIORITY s;
     let next_state =
       (if oi_type s = OSPF_IFTYPE_POINTOPOINT \<or> oi_type s = OSPF_IFTYPE_POINTOMULTIPOINT \<or> oi_type s = OSPF_IFTYPE_VIRTUALLINK
        then ISM_PointToPoint
        else if p = 0 then ISM_DROther
        else ISM_Waiting);
     Some (next_state, if oi_type s = OSPF_IFTYPE_NBMA then call NbmaIfUpdate s else s) }"

datatype ism_func = F_ism_ignore | F_ism_interface_up | F_ism_loop_ind | F_ism_interface_down | F_ism_wait_timer
  | F_ism_backup_seen | F_ism_neighbor_change

definition ISM :: "ism_state \<Rightarrow> (ism_func \<times> ism_state) list" where
  "ISM state =
   (case state of
     ISM_DependUpon \<Rightarrow> [(F_ism_ignore, ISM_DependUpon), (F_ism_ignore, ISM_DependUpon), (F_ism_ignore, ISM_DependUpon),
       (F_ism_ignore, ISM_DependUpon), (F_ism_ignore, ISM_DependUpon), (F_ism_ignore, ISM_DependUpon),
       (F_ism_ignore, ISM_DependUpon), (F_ism_ignore, ISM_DependUpon)]
   | ISM_Down \<Rightarrow> [(F_ism_ignore, ISM_DependUpon), (F_ism_interface_up, ISM_DependUpon), (F_ism_ignore, ISM_Down),
       (F_ism_ignore, ISM_Down), (F_ism_ignore, ISM_Down), (F_ism_loop_ind, ISM_Loopback),
       (F_ism_ignore, ISM_Down), (F_ism_interface_down, ISM_Down)]
   | ISM_Loopback \<Rightarrow> [(F_ism_ignore, ISM_DependUpon), (F_ism_ignore, ISM_Loopback), (F_ism_ignore, ISM_Loopback),
       (F_ism_ignore, ISM_Loopback), (F_ism_ignore, ISM_Loopback), (F_ism_ignore, ISM_Loopback),
       (F_ism_ignore, ISM_Down), (F_ism_interface_down, ISM_Down)]
   | ISM_Waiting \<Rightarrow> [(F_ism_ignore, ISM_DependUpon), (F_ism_ignore, ISM_Waiting), (F_ism_wait_timer, ISM_DependUpon),
       (F_ism_backup_seen, ISM_DependUpon), (F_ism_ignore, ISM_Waiting), (F_ism_loop_ind, ISM_Loopback),
       (F_ism_ignore, ISM_Waiting), (F_ism_interface_down, ISM_Down)]
   | ISM_PointToPoint \<Rightarrow> [(F_ism_ignore, ISM_DependUpon), (F_ism_ignore, ISM_PointToPoint), (F_ism_ignore, ISM_PointToPoint),
       (F_ism_ignore, ISM_PointToPoint), (F_ism_ignore, ISM_PointToPoint), (F_ism_loop_ind, ISM_Loopback),
       (F_ism_ignore, ISM_PointToPoint), (F_ism_interface_down, ISM_Down)]
   | ISM_DROther \<Rightarrow> [(F_ism_ignore, ISM_DependUpon), (F_ism_ignore, ISM_DROther), (F_ism_ignore, ISM_DROther),
       (F_ism_ignore, ISM_DROther), (F_ism_neighbor_change, ISM_DependUpon), (F_ism_loop_ind, ISM_Loopback),
       (F_ism_ignore, ISM_DROther), (F_ism_interface_down, ISM_Down)]
   | ISM_Backup \<Rightarrow> [(F_ism_ignore, ISM_DependUpon), (F_ism_ignore, ISM_Backup), (F_ism_ignore, ISM_Backup),
       (F_ism_ignore, ISM_Backup), (F_ism_neighbor_change, ISM_DependUpon), (F_ism_loop_ind, ISM_Loopback),
       (F_ism_ignore, ISM_Backup), (F_ism_interface_down, ISM_Down)]
   | ISM_DR \<Rightarrow> [(F_ism_ignore, ISM_DependUpon), (F_ism_ignore, ISM_DR), (F_ism_ignore, ISM_DR),
       (F_ism_ignore, ISM_DR), (F_ism_neighbor_change, ISM_DependUpon), (F_ism_loop_ind, ISM_Loopback),
       (F_ism_ignore, ISM_DR), (F_ism_interface_down, ISM_Down)])"

primrec ism_event_num :: "ism_event \<Rightarrow> nat" where
  "ism_event_num ISM_NoEvent = 0" | "ism_event_num ISM_InterfaceUp = 1" | "ism_event_num ISM_WaitTimer = 2"
| "ism_event_num ISM_BackupSeen = 3" | "ism_event_num ISM_NeighborChange = 4" | "ism_event_num ISM_LoopInd = 5"
| "ism_event_num ISM_UnloopInd = 6" | "ism_event_num ISM_InterfaceDown = 7"

text \<open>The function of an entry; \<open>cleanup\<close> is what \<open>ism_interface_down\<close> calls.\<close>

fun ism_call :: "(u32, 'n) route_ops \<Rightarrow> ('n ospf_if \<Rightarrow> 'n ospf_if option) \<Rightarrow> ism_func \<Rightarrow> 'n ospf_if \<Rightarrow> (ism_state \<times> 'n ospf_if) option" where
  "ism_call N cleanup F_ism_ignore s = Some (ISM_DependUpon, s)"
| "ism_call N cleanup F_ism_loop_ind s = Some (ISM_DependUpon, s)"
| "ism_call N cleanup F_ism_interface_up s = ism_interface_up s"
| "ism_call N cleanup F_ism_interface_down s = do { s \<leftarrow> cleanup s; Some (ISM_DependUpon, s) }"
| "ism_call N cleanup F_ism_wait_timer s = ospf_dr_election N s"
| "ism_call N cleanup F_ism_backup_seen s = ospf_dr_election N s"
| "ism_call N cleanup F_ism_neighbor_change s = ospf_dr_election N s"

definition ism_change_state :: "ospf_env \<Rightarrow> ism_state \<Rightarrow> 'n ospf_if \<Rightarrow> 'n ospf_if" where
  "ism_change_state E state s =
    (let old_state = oi_state s;
         s = call SetMulticast (s\<lparr>oi_state := state, oi_state_change := oi_state_change s + 1\<rparr>);
         s = (if old_state = ISM_Down \<or> state = ISM_Down then call CheckAbrStatus s else s);
         s = (if state = ISM_Down then (if oi_act_ints s > 0 then s\<lparr>oi_act_ints := oi_act_ints s - 1\<rparr> else s)
              else if old_state = ISM_Down then s\<lparr>oi_act_ints := oi_act_ints s + 1\<rparr> else s);
         s = call RouterLsaUpdate s;
         s = (if old_state \<noteq> ISM_DR \<and> state = ISM_DR
              then call NetworkLsaUpdate (s\<lparr>oi_network_lsa := ev_network_lsa E (length (oi_calls s))\<rparr>)
              else if old_state = ISM_DR \<and> state \<noteq> ISM_DR
              then (case oi_network_lsa s of None \<Rightarrow> s | Some l \<Rightarrow> call (NetworkLsaFlush l) s)\<lparr>oi_network_lsa := None\<rparr>
              else s)
     in call CheckAbrStatus s)"

definition ism_event_with ::
    "(u32, 'n) route_ops \<Rightarrow> ospf_env \<Rightarrow> ('n ospf_if \<Rightarrow> 'n ospf_if option) \<Rightarrow> ism_event \<Rightarrow> 'n ospf_if \<Rightarrow> 'n ospf_if option" where
  "ism_event_with N E cleanup event s = do {
     (next_state, s) \<leftarrow> ism_call N cleanup (fst (ISM (oi_state s) ! ism_event_num event)) s;
     let next_state = (if next_state = ISM_DependUpon then snd (ISM (oi_state s) ! ism_event_num event) else next_state);
     let s = (if next_state \<noteq> oi_state s then ism_change_state E next_state s else s);
     Some (ism_timer_set s) }"

section \<open>The neighbour state machine\<close>

definition ospf_inactivity_timer :: "nat \<Rightarrow> 'n ospf_if \<Rightarrow> 'n ospf_if option" where
  "ospf_inactivity_timer a s = do {
     s \<leftarrow> upd_nbr a (\<lambda>n. n\<lparr>nb_t_inactivity := False\<rparr>) s;
     Some (schedule (SNsm a NSM_InactivityTimer) s) }"

definition nsm_timers :: "ospf_nbr \<Rightarrow> ospf_nbr" where
  "nsm_timers n =
    (let low = (\<lambda>n. n\<lparr>nb_t_db_desc := False, nb_t_ls_upd := False, nb_t_ls_req := False\<rparr>)
     in case nb_state n of
          NSM_Deleted \<Rightarrow> low (n\<lparr>nb_t_inactivity := False, nb_t_hello_reply := False\<rparr>)
        | NSM_Down \<Rightarrow> low (n\<lparr>nb_t_inactivity := False, nb_t_hello_reply := False\<rparr>)
        | NSM_Attempt \<Rightarrow> low n
        | NSM_Init \<Rightarrow> low n
        | NSM_TwoWay \<Rightarrow> low n
        | NSM_ExStart \<Rightarrow> n\<lparr>nb_t_db_desc := True, nb_t_ls_upd := False, nb_t_ls_req := False\<rparr>
        | NSM_Exchange \<Rightarrow>
            let n = n\<lparr>nb_t_ls_upd := True\<rparr>
            in if \<not> flag_on OSPF_DD_FLAG_MS (nb_dd_flags n) then n\<lparr>nb_t_db_desc := False\<rparr> else n
        | _ \<Rightarrow> n\<lparr>nb_t_db_desc := False\<rparr>)"

definition nsm_timer_set :: "nat \<Rightarrow> 'n ospf_if \<Rightarrow> 'n ospf_if option" where
  "nsm_timer_set a s = upd_nbr a nsm_timers s"

definition nsm_should_adj :: "nat \<Rightarrow> 'n ospf_if \<Rightarrow> bool option" where
  "nsm_should_adj a s = do {
     n \<leftarrow> oi_nbr s a;
     d \<leftarrow> DR s;
     b \<leftarrow> BDR s;
     Some (oi_type s = OSPF_IFTYPE_POINTOPOINT \<or> oi_type s = OSPF_IFTYPE_POINTOMULTIPOINT \<or> oi_type s = OSPF_IFTYPE_VIRTUALLINK
       \<or> IPV4_ADDR_SAME (oi_address s) d \<or> IPV4_ADDR_SAME (oi_address s) b
       \<or> IPV4_ADDR_SAME (nb_address n) d \<or> IPV4_ADDR_SAME (nb_address n) b) }"

definition poll_timer :: "bool \<Rightarrow> nat \<Rightarrow> 'n ospf_if \<Rightarrow> 'n ospf_if option" where
  "poll_timer on m s = do { c \<leftarrow> oi_nbmas s m; Some (s\<lparr>oi_nbmas := (oi_nbmas s)(m \<mapsto> c\<lparr>nm_t_poll := on\<rparr>)\<rparr>) }"

definition nsm_packet_received :: "nat \<Rightarrow> 'n ospf_if \<Rightarrow> (nsm_state \<times> 'n ospf_if) option" where
  "nsm_packet_received a s = do {
     s \<leftarrow> upd_nbr a (\<lambda>n. n\<lparr>nb_t_inactivity := True\<rparr>) s;
     n \<leftarrow> oi_nbr s a;
     s \<leftarrow> (case nb_nbma n of Some m \<Rightarrow> if oi_type s = OSPF_IFTYPE_NBMA then poll_timer False m s else Some s | None \<Rightarrow> Some s);
     Some (NSM_DependUpon, s) }"

definition nsm_start :: "nat \<Rightarrow> 'n ospf_if \<Rightarrow> (nsm_state \<times> 'n ospf_if) option" where
  "nsm_start a s = do {
     n \<leftarrow> oi_nbr s a;
     s \<leftarrow> (case nb_nbma n of Some m \<Rightarrow> poll_timer False m s | None \<Rightarrow> Some s);
     s \<leftarrow> upd_nbr a (\<lambda>n. n\<lparr>nb_t_inactivity := True\<rparr>) s;
     Some (NSM_DependUpon, s) }"

definition nsm_twoway_received :: "nat \<Rightarrow> 'n ospf_if \<Rightarrow> (nsm_state \<times> 'n ospf_if) option" where
  "nsm_twoway_received a s = do { adj \<leftarrow> nsm_should_adj a s; Some (if adj then NSM_ExStart else NSM_TwoWay, s) }"

definition nsm_negotiation_done :: "nat \<Rightarrow> 'n ospf_if \<Rightarrow> (nsm_state \<times> 'n ospf_if) option" where
  "nsm_negotiation_done a s = Some (NSM_DependUpon, call (DbSummaryFill a) s)"

definition nsm_exchange_done :: "ospf_env \<Rightarrow> nat \<Rightarrow> 'n ospf_if \<Rightarrow> (nsm_state \<times> 'n ospf_if) option" where
  "nsm_exchange_done E a s = Some (if ev_req_empty E then (NSM_Full, s) else (NSM_Loading, call (LsReqSend a) s))"

definition nsm_adj_ok :: "nat \<Rightarrow> 'n ospf_if \<Rightarrow> (nsm_state \<times> 'n ospf_if) option" where
  "nsm_adj_ok a s = do {
     n \<leftarrow> oi_nbr s a;
     adj \<leftarrow> nsm_should_adj a s;
     Some (if nb_state n = NSM_TwoWay \<and> adj then NSM_ExStart
           else if nb_state n \<ge> NSM_ExStart \<and> \<not> adj then NSM_TwoWay
           else nb_state n, s) }"

definition nsm_kill_nbr :: "nat \<Rightarrow> 'n ospf_if \<Rightarrow> (nsm_state \<times> 'n ospf_if) option" where
  "nsm_kill_nbr a s = do {
     n \<leftarrow> oi_nbr s a;
     if a = oi_self s then None
     else case nb_nbma n of
       Some m \<Rightarrow>
         if oi_type s = OSPF_IFTYPE_NBMA
         then do {
           c \<leftarrow> oi_nbmas s m;
           let s = s\<lparr>oi_nbmas := (oi_nbmas s)(m \<mapsto> c\<lparr>nm_nbr := None, nm_state_change := nb_state_change n\<rparr>)\<rparr>;
           s \<leftarrow> upd_nbr a (\<lambda>n. n\<lparr>nb_nbma := None\<rparr>) s;
           s \<leftarrow> poll_timer True m s;
           Some (NSM_DependUpon, s) }
         else Some (NSM_DependUpon, s)
     | None \<Rightarrow> Some (NSM_DependUpon, s) }"

datatype nsm_func = F_null | F_nsm_packet_received | F_nsm_start | F_nsm_twoway_received | F_nsm_negotiation_done
  | F_nsm_exchange_done | F_nsm_adj_ok | F_nsm_kill_nbr

definition NSM :: "nsm_state \<Rightarrow> (nsm_func \<times> nsm_state) list" where
  "NSM state =
   (case state of
     NSM_DependUpon \<Rightarrow> [(F_null, NSM_DependUpon), (F_null, NSM_DependUpon), (F_null, NSM_DependUpon),
       (F_null, NSM_DependUpon), (F_null, NSM_DependUpon), (F_null, NSM_DependUpon),
       (F_null, NSM_DependUpon), (F_null, NSM_DependUpon), (F_null, NSM_DependUpon),
       (F_null, NSM_DependUpon), (F_null, NSM_DependUpon), (F_null, NSM_DependUpon),
       (F_null, NSM_DependUpon), (F_null, NSM_DependUpon)]
   | NSM_Deleted \<Rightarrow> [(F_null, NSM_Deleted), (F_null, NSM_Deleted), (F_null, NSM_Deleted),
       (F_null, NSM_Deleted), (F_null, NSM_Deleted), (F_null, NSM_Deleted),
       (F_null, NSM_Deleted), (F_null, NSM_Deleted), (F_null, NSM_Deleted),
       (F_null, NSM_Deleted), (F_null, NSM_Deleted), (F_null, NSM_Deleted),
       (F_null, NSM_Deleted), (F_null, NSM_Deleted)]
   | NSM_Down \<Rightarrow> [(F_null, NSM_DependUpon), (F_nsm_packet_received, NSM_Init), (F_nsm_start, NSM_Attempt),
       (F_null, NSM_Down), (F_null, NSM_Down), (F_null, NSM_Down),
       (F_null, NSM_Down), (F_null, NSM_Down), (F_null, NSM_Down),
       (F_null, NSM_Down), (F_null, NSM_Down), (F_nsm_kill_nbr, NSM_Deleted),
       (F_nsm_kill_nbr, NSM_Deleted), (F_nsm_kill_nbr, NSM_Deleted)]
   | NSM_Attempt \<Rightarrow> [(F_null, NSM_DependUpon), (F_nsm_packet_received, NSM_Init), (F_null, NSM_Attempt),
       (F_null, NSM_Attempt), (F_null, NSM_Attempt), (F_null, NSM_Attempt),
       (F_null, NSM_Attempt), (F_null, NSM_Attempt), (F_null, NSM_Attempt),
       (F_null, NSM_Attempt), (F_null, NSM_Attempt), (F_nsm_kill_nbr, NSM_Deleted),
       (F_nsm_kill_nbr, NSM_Deleted), (F_nsm_kill_nbr, NSM_Deleted)]
   | NSM_Init \<Rightarrow> [(F_null, NSM_DependUpon), (F_nsm_packet_received, NSM_Init), (F_null, NSM_Init),
       (F_nsm_twoway_received, NSM_DependUpon), (F_null, NSM_Init), (F_null, NSM_Init),
       (F_null, NSM_Init), (F_null, NSM_Init), (F_null, NSM_Init),
       (F_null, NSM_Init), (F_null, NSM_Init), (F_nsm_kill_nbr, NSM_Deleted),
       (F_nsm_kill_nbr, NSM_Deleted), (F_nsm_kill_nbr, NSM_Deleted)]
   | NSM_TwoWay \<Rightarrow> [(F_null, NSM_DependUpon), (F_nsm_packet_received, NSM_TwoWay), (F_null, NSM_TwoWay),
       (F_null, NSM_TwoWay), (F_null, NSM_TwoWay), (F_null, NSM_TwoWay),
       (F_null, NSM_TwoWay), (F_null, NSM_TwoWay), (F_nsm_adj_ok, NSM_DependUpon),
       (F_null, NSM_TwoWay), (F_null, NSM_Init), (F_nsm_kill_nbr, NSM_Deleted),
       (F_nsm_kill_nbr, NSM_Deleted), (F_nsm_kill_nbr, NSM_Deleted)]
   | NSM_ExStart \<Rightarrow> [(F_null, NSM_DependUpon), (F_nsm_packet_received, NSM_ExStart), (F_null, NSM_ExStart),
       (F_null, NSM_ExStart), (F_nsm_negotiation_done, NSM_Exchange), (F_null, NSM_ExStart),
       (F_null, NSM_ExStart), (F_null, NSM_ExStart), (F_nsm_adj_ok, NSM_DependUpon),
       (F_null, NSM_ExStart), (F_null, NSM_Init), (F_nsm_kill_nbr, NSM_Deleted),
       (F_nsm_kill_nbr, NSM_Deleted), (F_nsm_kill_nbr, NSM_Deleted)]
   | NSM_Exchange \<Rightarrow> [(F_null, NSM_DependUpon), (F_nsm_packet_received, NSM_Exchange), (F_null, NSM_Exchange),
       (F_null, NSM_Exchange), (F_null, NSM_Exchange), (F_nsm_exchange_done, NSM_DependUpon),
       (F_null, NSM_ExStart), (F_null, NSM_Exchange), (F_nsm_adj_ok, NSM_DependUpon),
       (F_null, NSM_ExStart), (F_null, NSM_Init), (F_nsm_kill_nbr, NSM_Deleted),
       (F_nsm_kill_nbr, NSM_Deleted), (F_nsm_kill_nbr, NSM_Deleted)]
   | NSM_Loading \<Rightarrow> [(F_null, NSM_DependUpon), (F_nsm_packet_received, NSM_Loading), (F_null, NSM_Loading),
       (F_null, NSM_Loading), (F_null, NSM_Loading), (F_null, NSM_Loading),
       (F_null, NSM_ExStart), (F_null, NSM_Full), (F_nsm_adj_ok, NSM_DependUpon),
       (F_null, NSM_ExStart), (F_null, NSM_Init), (F_nsm_kill_nbr, NSM_Deleted),
       (F_nsm_kill_nbr, NSM_Deleted), (F_nsm_kill_nbr, NSM_Deleted)]
   | NSM_Full \<Rightarrow> [(F_null, NSM_DependUpon), (F_nsm_packet_received, NSM_Full), (F_null, NSM_Full),
       (F_null, NSM_Full), (F_null, NSM_Full), (F_null, NSM_Full),
       (F_null, NSM_ExStart), (F_null, NSM_Full), (F_nsm_adj_ok, NSM_DependUpon),
       (F_null, NSM_ExStart), (F_null, NSM_Init), (F_nsm_kill_nbr, NSM_Deleted),
       (F_nsm_kill_nbr, NSM_Deleted), (F_nsm_kill_nbr, NSM_Deleted)])"

primrec nsm_event_num :: "nsm_event \<Rightarrow> nat" where
  "nsm_event_num NSM_NoEvent = 0" | "nsm_event_num NSM_PacketReceived = 1" | "nsm_event_num NSM_Start = 2"
| "nsm_event_num NSM_TwoWayReceived = 3" | "nsm_event_num NSM_NegotiationDone = 4" | "nsm_event_num NSM_ExchangeDone = 5"
| "nsm_event_num NSM_BadLSReq = 6" | "nsm_event_num NSM_LoadingDone = 7" | "nsm_event_num NSM_AdjOK = 8"
| "nsm_event_num NSM_SeqNumberMismatch = 9" | "nsm_event_num NSM_OneWayReceived = 10" | "nsm_event_num NSM_KillNbr = 11"
| "nsm_event_num NSM_InactivityTimer = 12" | "nsm_event_num NSM_LLDown = 13"

fun nsm_call :: "ospf_env \<Rightarrow> nsm_func \<Rightarrow> nat \<Rightarrow> 'n ospf_if \<Rightarrow> (nsm_state \<times> 'n ospf_if) option" where
  "nsm_call E F_null a s = Some (NSM_DependUpon, s)"
| "nsm_call E F_nsm_packet_received a s = nsm_packet_received a s"
| "nsm_call E F_nsm_start a s = nsm_start a s"
| "nsm_call E F_nsm_twoway_received a s = nsm_twoway_received a s"
| "nsm_call E F_nsm_negotiation_done a s = nsm_negotiation_done a s"
| "nsm_call E F_nsm_exchange_done a s = nsm_exchange_done E a s"
| "nsm_call E F_nsm_adj_ok a s = nsm_adj_ok a s"
| "nsm_call E F_nsm_kill_nbr a s = nsm_kill_nbr a s"

definition nsm_notice_state_change :: "ospf_env \<Rightarrow> nat \<Rightarrow> nsm_state \<Rightarrow> nsm_event \<Rightarrow> 'n ospf_if \<Rightarrow> 'n ospf_if option" where
  "nsm_notice_state_change E a next_state event s =
     upd_nbr a (\<lambda>n. if next_state > nb_state n then n\<lparr>nb_ts_last_progress := ev_now E\<rparr>
                    else n\<lparr>nb_ts_last_regress := ev_now E, nb_last_regress := Some event\<rparr>) s"

text \<open>What a change to or from the full state does to the interface.\<close>

definition nsm_full_counts :: "bool \<Rightarrow> u32 option \<Rightarrow> 'n ospf_if \<Rightarrow> 'n ospf_if" where
  "nsm_full_counts full vl s =
    (if full
     then let s = call CheckAbrStatus (s\<lparr>oi_full_nbrs := oi_full_nbrs s + 1, oi_area_full_nbrs := oi_area_full_nbrs s + 1\<rparr>);
              s = (case vl of None \<Rightarrow> s
                   | Some c \<Rightarrow> (let s = s\<lparr>oi_vl_full := Some (c + 1)\<rparr> in if c + 1 = 1 then call ScheduleAbrTask s else s))
          in call RefreshExternal s
     else let s = call CheckAbrStatus (s\<lparr>oi_full_nbrs := oi_full_nbrs s - 1, oi_area_full_nbrs := oi_area_full_nbrs s - 1\<rparr>)
          in case vl of None \<Rightarrow> s
             | Some c \<Rightarrow> if c > 0 then (let s = s\<lparr>oi_vl_full := Some (c - 1)\<rparr> in if c - 1 = 0 then call ScheduleAbrTask s else s)
                        else s)"

definition nsm_full_change :: "ospf_env \<Rightarrow> bool \<Rightarrow> 'n ospf_if \<Rightarrow> 'n ospf_if" where
  "nsm_full_change E full s =
    (let vl = (if oi_type s = OSPF_IFTYPE_VIRTUALLINK then oi_vl_full s else None);
         s = call RouterLsaUpdate (nsm_full_counts full vl s);
         s = (if vl \<noteq> None then call VlRouterLsaUpdate s else s)
     in if oi_state s = ISM_DR
        then case oi_network_lsa s of
               Some l \<Rightarrow> if oi_full_nbrs s = 0 then (call (NetworkLsaFlush l) s)\<lparr>oi_network_lsa := None\<rparr>
                         else call NetworkLsaUpdate (s\<lparr>oi_network_lsa := ev_network_lsa E (length (oi_calls s))\<rparr>)
             | None \<Rightarrow> call NetworkLsaUpdate (s\<lparr>oi_network_lsa := ev_network_lsa E (length (oi_calls s))\<rparr>)
        else s)"

text \<open>
  The event \<open>NeighborChange\<close> is executed at once; it never takes the interface down, so what \<open>ism_interface_down\<close>
  calls does not matter there.
\<close>

definition nsm_change_state :: "(u32, 'n) route_ops \<Rightarrow> ospf_env \<Rightarrow> nat \<Rightarrow> nsm_state \<Rightarrow> 'n ospf_if \<Rightarrow> 'n ospf_if option" where
  "nsm_change_state N E a state s = do {
     n \<leftarrow> oi_nbr s a;
     let old_state = nb_state n;
     s \<leftarrow> upd_nbr a (\<lambda>n. n\<lparr>nb_state := state, nb_state_change := nb_state_change n + 1\<rparr>) s;
     let s = (if old_state \<noteq> NSM_Full \<and> state = NSM_Full \<or> old_state = NSM_Full \<and> state \<noteq> NSM_Full
              then nsm_full_change E (state = NSM_Full) s else s);
     let s = (if old_state > NSM_ExStart \<and> state \<le> NSM_ExStart then call (ClearAdj a) s else s);
     s \<leftarrow> (if state = NSM_ExStart
           then do {
             s \<leftarrow> upd_nbr a (\<lambda>n. n\<lparr>nb_dd_seqnum := (if nb_dd_seqnum n = 0 then ev_time E else nb_dd_seqnum n + 1), nb_dd_flags := 7\<rparr>) s;
             Some (call (DbDescSend a) s) }
           else Some s);
     s \<leftarrow> (if state = NSM_Down then upd_nbr a (\<lambda>n. n\<lparr>nb_crypt_seqnum := 0\<rparr>) s else Some s);
     if (oi_state s = ISM_DROther \<or> oi_state s = ISM_Backup \<or> oi_state s = ISM_DR)
        \<and> (old_state < NSM_TwoWay \<and> state \<ge> NSM_TwoWay \<or> old_state \<ge> NSM_TwoWay \<and> state < NSM_TwoWay)
     then ism_event_with N E (\<lambda>s. None) ISM_NeighborChange s
     else Some s }"

section \<open>Neighbours\<close>

definition ospf_nbr_key :: "'n ospf_if \<Rightarrow> ospf_nbr \<Rightarrow> u32" where
  "ospf_nbr_key s n = (if oi_type s = OSPF_IFTYPE_VIRTUALLINK then nb_router_id n else nb_src n)"

definition ospf_nbr_new :: ospf_nbr where
  "ospf_nbr_new = \<lparr>nb_state = NSM_Down, nb_dd_flags = 7, nb_dd_seqnum = 0, nb_address = 0, nb_src = 0, nb_router_id = 0,
     nb_options = 0, nb_priority = -1, nb_d_router = 0, nb_bd_router = 0, nb_crypt_seqnum = 0, nb_t_inactivity = False,
     nb_t_db_desc = False, nb_t_ls_req = False, nb_t_ls_upd = False, nb_t_hello_reply = False, nb_nbma = None,
     nb_ts_last_progress = int2tv 0, nb_ts_last_regress = int2tv 0, nb_last_regress = None, nb_state_change = 0\<rparr>"

definition ospf_nbr_free :: "nat \<Rightarrow> 'n ospf_if \<Rightarrow> 'n ospf_if option" where
  "ospf_nbr_free a s = do {
     n \<leftarrow> oi_nbr s a;
     let s = call (FreeLists a) s;
     s \<leftarrow> (case nb_nbma n of
            None \<Rightarrow> Some s
          | Some m \<Rightarrow> do { c \<leftarrow> oi_nbmas s m; Some (s\<lparr>oi_nbmas := (oi_nbmas s)(m \<mapsto> c\<lparr>nm_nbr := None\<rparr>)\<rparr>) });
     Some (s\<lparr>oi_sched := filter (\<lambda>e. case e of SNsm b ev \<Rightarrow> b \<noteq> a | SIsm ev \<Rightarrow> True) (oi_sched s), oi_nbr := (oi_nbr s)(a := None)\<rparr>) }"

definition ospf_nbr_delete :: "(u32, 'n) route_ops \<Rightarrow> nat \<Rightarrow> 'n ospf_if \<Rightarrow> 'n ospf_if option" where
  "ospf_nbr_delete N a s = do {
     n \<leftarrow> oi_nbr s a;
     let key = ospf_nbr_key s n;
     let s = (if rt_info N (oi_nbrs s) key \<noteq> None then s\<lparr>oi_nbrs := rt_put N (oi_nbrs s) key None\<rparr> else s);
     ospf_nbr_free a s }"

definition ospf_nbr_bidirectional :: "u32 \<Rightarrow> u32 list \<Rightarrow> bool" where
  "ospf_nbr_bidirectional router_id neighbors = list_ex (IPV4_ADDR_SAME router_id) neighbors"

definition ospf_nbr_add_self :: "(u32, 'n) route_ops \<Rightarrow> 'n ospf_if \<Rightarrow> 'n ospf_if option" where
  "ospf_nbr_add_self N s = do {
     s \<leftarrow> upd_nbr (oi_self s) (\<lambda>n. n\<lparr>nb_address := oi_address s, nb_priority := uint (oi_cf_priority s),
            nb_router_id := oi_router_id s, nb_src := oi_address s, nb_state := NSM_TwoWay,
            nb_options := (case oi_external s of
                OSPF_AREA_DEFAULT \<Rightarrow> flag_set OSPF_OPTION_E (nb_options n)
              | OSPF_AREA_STUB \<Rightarrow> flag_clear OSPF_OPTION_E (nb_options n)
              | OSPF_AREA_NSSA \<Rightarrow> flag_set OSPF_OPTION_NP (flag_clear OSPF_OPTION_E (nb_options n)))\<rparr>) s;
     n \<leftarrow> oi_nbr s (oi_self s);
     let key = ospf_nbr_key s n;
     case rt_info N (oi_nbrs s) key of
       Some b \<Rightarrow> if b = oi_self s then Some s else None
     | None \<Rightarrow> Some (s\<lparr>oi_nbrs := rt_put N (oi_nbrs s) key (Some (oi_self s))\<rparr>) }"

definition ospf_nbr_count :: "(u32, 'n) route_ops \<Rightarrow> nsm_state \<Rightarrow> 'n ospf_if \<Rightarrow> nat option" where
  "ospf_nbr_count N state s = do {
     ns \<leftarrow> fetch (oi_nbr s) (walk N s);
     Some (length (filter (\<lambda>(a, n). \<not> IPV4_ADDR_SAME (nb_router_id n) (oi_router_id s)
       \<and> (state = NSM_DependUpon \<or> nb_state n = state)) ns)) }"

text \<open>A neighbour found in the configuration of a non-broadcast network is linked with it.\<close>

fun link_nbma :: "nat \<Rightarrow> nat list \<Rightarrow> 'n ospf_if \<Rightarrow> 'n ospf_if option" where
  "link_nbma a [] s = Some s"
| "link_nbma a (m # ms) s = do {
     n \<leftarrow> oi_nbr s a;
     c \<leftarrow> oi_nbmas s m;
     s \<leftarrow> (if IPV4_ADDR_SAME (nm_addr c) (nb_src n)
           then upd_nbr a (\<lambda>n. n\<lparr>nb_nbma := Some m, nb_state_change := nm_state_change c + 1\<rparr>)
                  (s\<lparr>oi_nbmas := (oi_nbmas s)(m \<mapsto> c\<lparr>nm_nbr := Some a, nm_t_poll := False\<rparr>)\<rparr>)
           else Some s);
     link_nbma a ms s }"

definition ospf_nbr_add :: "ospf_env \<Rightarrow> u32 \<Rightarrow> u32 option \<Rightarrow> 'n ospf_if \<Rightarrow> 'n ospf_if option" where
  "ospf_nbr_add E src crypt s = do {
     let a = ev_new E;
     let s = s\<lparr>oi_nbr := (oi_nbr s)(a \<mapsto> ospf_nbr_new\<lparr>nb_state := NSM_Down, nb_src := src, nb_address := src, nb_nbma := None\<rparr>)\<rparr>;
     s \<leftarrow> (if oi_type s = OSPF_IFTYPE_NBMA then link_nbma a (oi_nbma s) s else Some s);
     case crypt of None \<Rightarrow> Some s | Some q \<Rightarrow> upd_nbr a (\<lambda>n. n\<lparr>nb_crypt_seqnum := q\<rparr>) s }"

definition ospf_nbr_get :: "(u32, 'n) route_ops \<Rightarrow> ospf_env \<Rightarrow> u32 \<Rightarrow> u32 \<Rightarrow> u32 option \<Rightarrow> 'n ospf_if \<Rightarrow> (nat \<times> 'n ospf_if) option" where
  "ospf_nbr_get N E src router_id crypt s = do {
     let key = (if oi_type s = OSPF_IFTYPE_VIRTUALLINK then router_id else src);
     (a, s) \<leftarrow>
       (case rt_info N (oi_nbrs s) key of
          Some a \<Rightarrow> do {
            n \<leftarrow> oi_nbr s a;
            s \<leftarrow> (if oi_type s = OSPF_IFTYPE_NBMA \<and> nb_state n = NSM_Attempt
                  then upd_nbr a (\<lambda>n. n\<lparr>nb_src := src, nb_address := src\<rparr>) s else Some s);
            Some (a, s) }
        | None \<Rightarrow> do {
            s \<leftarrow> ospf_nbr_add E src crypt s;
            Some (ev_new E, s\<lparr>oi_nbrs := rt_put N (oi_nbrs s) key (Some (ev_new E))\<rparr>) });
     s \<leftarrow> upd_nbr a (\<lambda>n. n\<lparr>nb_router_id := router_id\<rparr>) s;
     Some (a, s) }"

definition ospf_nsm_event :: "(u32, 'n) route_ops \<Rightarrow> ospf_env \<Rightarrow> nat \<Rightarrow> nsm_event \<Rightarrow> 'n ospf_if \<Rightarrow> 'n ospf_if option" where
  "ospf_nsm_event N E a event s = do {
     n \<leftarrow> oi_nbr s a;
     let (func, next_state) = NSM (nb_state n) ! nsm_event_num event;
     (func_state, s) \<leftarrow> nsm_call E func a s;
     let next_state = (if func \<noteq> F_null \<and> next_state = NSM_DependUpon then func_state else next_state);
     if next_state = NSM_DependUpon then None
     else do {
       s \<leftarrow> (if next_state \<noteq> nb_state n
             then do { s \<leftarrow> nsm_notice_state_change E a next_state event s; nsm_change_state N E a next_state s }
             else Some s);
       s \<leftarrow> nsm_timer_set a s;
       n \<leftarrow> oi_nbr s a;
       if nb_state n = NSM_Deleted then ospf_nbr_delete N a s else Some s } }"

section \<open>Interfaces going up and down\<close>

fun unlink_nbma :: "nat list \<Rightarrow> 'n ospf_if \<Rightarrow> 'n ospf_if option" where
  "unlink_nbma [] s = Some s"
| "unlink_nbma (m # ms) s = do {
     c \<leftarrow> oi_nbmas s m;
     s \<leftarrow> (case nm_nbr c of None \<Rightarrow> Some s | Some a \<Rightarrow> upd_nbr a (\<lambda>n. n\<lparr>nb_nbma := None\<rparr>) s);
     let s = s\<lparr>oi_nbmas := (oi_nbmas s)(m \<mapsto> c\<lparr>nm_t_poll := False, nm_nbr := None, nm_oi := False\<rparr>), oi_nbma := remove1 m (oi_nbma s)\<rparr>;
     unlink_nbma ms s }"

fun kill_nbrs :: "(u32, 'n) route_ops \<Rightarrow> ospf_env \<Rightarrow> u32 list \<Rightarrow> 'n ospf_if \<Rightarrow> 'n ospf_if option" where
  "kill_nbrs N E [] s = Some s"
| "kill_nbrs N E (k # ks) s = do {
     s \<leftarrow> (case rt_info N (oi_nbrs s) k of
            None \<Rightarrow> Some s
          | Some a \<Rightarrow> if a \<noteq> oi_self s then ospf_nsm_event N E a NSM_KillNbr s else Some s);
     kill_nbrs N E ks s }"

definition ospf_if_cleanup :: "(u32, 'n) route_ops \<Rightarrow> ospf_env \<Rightarrow> 'n ospf_if \<Rightarrow> 'n ospf_if option" where
  "ospf_if_cleanup N E s = do {
     s \<leftarrow> unlink_nbma (oi_nbma s) s;
     s \<leftarrow> kill_nbrs N E (rt_keys N (oi_nbrs s)) s;
     let s = call LsUpdQueueEmpty ((call LsAckClear s)\<lparr>oi_crypt_seqnum := 0\<rparr>);
     s \<leftarrow> ospf_nbr_delete N (oi_self s) s;
     let s = s\<lparr>oi_nbr := (oi_nbr s)(ev_new E \<mapsto> ospf_nbr_new), oi_self := ev_new E\<rparr>;
     ospf_nbr_add_self N s }"

definition ospf_ism_event :: "(u32, 'n) route_ops \<Rightarrow> ospf_env \<Rightarrow> ism_event \<Rightarrow> 'n ospf_if \<Rightarrow> 'n ospf_if option" where
  "ospf_ism_event N E event s = ism_event_with N E (ospf_if_cleanup N E) event s"

definition ospf_if_up :: "'n ospf_if \<Rightarrow> 'n ospf_if" where
  "ospf_if_up s = schedule (SIsm (if oi_type s = OSPF_IFTYPE_LOOPBACK then ISM_LoopInd else ISM_InterfaceUp)) s"

definition ospf_if_down :: "(u32, 'n) route_ops \<Rightarrow> ospf_env \<Rightarrow> 'n ospf_if \<Rightarrow> 'n ospf_if option" where
  "ospf_if_down N E s = ospf_ism_event N E ISM_InterfaceDown s"

section \<open>Hello packets\<close>

text \<open>
  The fields of a hello packet and of its headers that are read. The length of the prefix is what the library
  function \<open>ip_masklen\<close> gives for the mask.
\<close>

record ospf_hello_pkt =
  he_src :: u32
  he_router_id :: u32
  he_crypt :: "u32 option"
  he_masklen :: u8
  he_hello_interval :: u16
  he_options :: u8
  he_priority :: u8
  he_dead_interval :: u32
  he_d_router :: u32
  he_bd_router :: u32
  he_neighbors :: "u32 list"

definition nbr_info_set :: "ospf_hello_pkt \<Rightarrow> ospf_nbr \<Rightarrow> ospf_nbr" where
  "nbr_info_set h n = n\<lparr>nb_priority := uint (he_priority h), nb_d_router := he_d_router h, nb_bd_router := he_bd_router h\<rparr>"

definition hello_accepted :: "ospf_hello_pkt \<Rightarrow> 'n ospf_if \<Rightarrow> bool option" where
  "hello_accepted h s = do {
     self \<leftarrow> oi_nbr s (oi_self s);
     let opt = nb_options self;
     Some (\<not> IPV4_ADDR_SAME (he_router_id h) (oi_router_id s)
       \<and> (oi_type s = OSPF_IFTYPE_POINTOPOINT \<or> oi_type s = OSPF_IFTYPE_VIRTUALLINK \<or> oi_prefixlen s = he_masklen h)
       \<and> oi_cf_wait s = ntohl (he_dead_interval h)
       \<and> (oi_cf_fast_hello s \<noteq> 0 \<or> oi_cf_hello s = ucast (ntohs (he_hello_interval h)))
       \<and> \<not> flag_on OSPF_OPTION_T (he_options h)
       \<and> (if oi_external s = OSPF_AREA_NSSA
          then flag_on OSPF_OPTION_NP opt \<and> flag_on OSPF_OPTION_NP (he_options h)
            \<and> \<not> flag_on OSPF_OPTION_E opt \<and> \<not> flag_on OSPF_OPTION_E (he_options h)
          else flag_on OSPF_OPTION_E opt = flag_on OSPF_OPTION_E (he_options h))) }"

text \<open>The interface events that a hello packet of a known neighbour schedules.\<close>

definition hello_events :: "ospf_hello_pkt \<Rightarrow> ospf_nbr \<Rightarrow> 'n ospf_if \<Rightarrow> 'n ospf_if" where
  "hello_events h n s =
    (let a = nb_address n;
         s = (if IPV4_ADDR_SAME a (he_d_router h) \<and> he_bd_router h = 0 \<and> oi_state s = ISM_Waiting
              then schedule (SIsm ISM_BackupSeen) s else s);
         s = (if oi_state s = ISM_Waiting \<and> IPV4_ADDR_SAME a (he_bd_router h) then schedule (SIsm ISM_BackupSeen) s else s);
         s = (if IPV4_ADDR_SAME a (he_d_router h) \<and> IPV4_ADDR_CMP a (nb_d_router n) \<noteq> 0
                \<or> IPV4_ADDR_CMP a (he_d_router h) \<noteq> 0 \<and> IPV4_ADDR_SAME a (nb_d_router n)
              then schedule (SIsm ISM_NeighborChange) s else s);
         s = (if IPV4_ADDR_SAME a (he_bd_router h) \<and> IPV4_ADDR_CMP a (nb_bd_router n) \<noteq> 0
                \<or> IPV4_ADDR_CMP a (he_bd_router h) \<noteq> 0 \<and> IPV4_ADDR_SAME a (nb_bd_router n)
              then schedule (SIsm ISM_NeighborChange) s else s)
     in if nb_priority n \<ge> 0 \<and> nb_priority n \<noteq> uint (he_priority h) then schedule (SIsm ISM_NeighborChange) s else s)"

definition ospf_hello :: "(u32, 'n) route_ops \<Rightarrow> ospf_env \<Rightarrow> ospf_hello_pkt \<Rightarrow> 'n ospf_if \<Rightarrow> 'n ospf_if option" where
  "ospf_hello N E h s = do {
     let s = s\<lparr>oi_hello_in := oi_hello_in s + 1\<rparr>;
     acc \<leftarrow> hello_accepted h s;
     if \<not> acc then Some s
     else do {
       (a, s) \<leftarrow> ospf_nbr_get N E (he_src h) (he_router_id h) (he_crypt h) s;
       n \<leftarrow> oi_nbr s a;
       let old_state = nb_state n;
       let s = schedule (SNsm a NSM_PacketReceived) s;
       p \<leftarrow> PRIORITY s;
       d \<leftarrow> DR s;
       b \<leftarrow> BDR s;
       s \<leftarrow> (if oi_type s = OSPF_IFTYPE_NBMA \<and> p = 0 \<and> he_priority h > 0
               \<and> IPV4_ADDR_CMP d (he_src h) \<noteq> 0 \<and> IPV4_ADDR_CMP b (he_src h) \<noteq> 0
             then upd_nbr a (\<lambda>n. n\<lparr>nb_t_hello_reply := True\<rparr>) s else Some s);
       if oi_type s = OSPF_IFTYPE_NBMA \<and> (old_state = NSM_Down \<or> old_state = NSM_Attempt)
       then upd_nbr a (nbr_info_set h) (schedule (SNsm a NSM_OneWayReceived) s)
       else if ospf_nbr_bidirectional (oi_router_id s) (he_neighbors h)
       then do {
         s \<leftarrow> upd_nbr a (\<lambda>n. n\<lparr>nb_options := nb_options n OR he_options h\<rparr>) (schedule (SNsm a NSM_TwoWayReceived) s);
         n \<leftarrow> oi_nbr s a;
         upd_nbr a (nbr_info_set h) (hello_events h n s) }
       else upd_nbr a (nbr_info_set h) (schedule (SNsm a NSM_OneWayReceived) s) } }"

end
