(* ===== verification/Ospf_Election.thy ===== *)
theory Ospf_Election
  imports Ospf_Fsm
begin

text \<open>
  The election of the designated router and its backup. The comparison of two routers is a strict weak order, so
  the scan elects the best candidate. A designated router and a backup that are in office are never displaced, and a
  backup whose designated router has gone takes over.
\<close>

section \<open>The comparison\<close>

lemma in_memory_inject [simp]: "in_memory a = in_memory b \<longleftrightarrow> a = b"
proof
  assume "in_memory a = in_memory b"
  then have "le32 (byte_of 0 a) (byte_of 1 a) (byte_of 2 a) (byte_of 3 a) = le32 (byte_of 0 b) (byte_of 1 b) (byte_of 2 b) (byte_of 3 b)"
    by (simp add: in_memory_def)
  then show "a = b" by simp
qed simp

lemma IPV4_ADDR_SAME_eq [simp]: "IPV4_ADDR_SAME a b \<longleftrightarrow> a = b"
  unfolding IPV4_ADDR_SAME_def by (subst memcmp_eq_0) (simp_all add: in_memory_def [THEN arg_cong [where f = length]])

lemma IPV4_ADDR_CMP_0 [simp]: "IPV4_ADDR_CMP a b = 0 \<longleftrightarrow> a = b"
  unfolding IPV4_ADDR_CMP_def by (rule IPV4_ADDR_SAME_eq [unfolded IPV4_ADDR_SAME_def])

definition addr_val :: "u32 \<Rightarrow> nat" where
  "addr_val a = be_val (in_memory a)"

lemma IPV4_ADDR_CMP_less: "IPV4_ADDR_CMP a b < 0 \<longleftrightarrow> addr_val a < addr_val b"
  unfolding IPV4_ADDR_CMP_def addr_val_def by (rule memcmp_less_0) (simp add: in_memory_def)

definition dr_better :: "nat \<times> ospf_nbr \<Rightarrow> nat \<times> ospf_nbr \<Rightarrow> bool" where
  "dr_better x y \<longleftrightarrow> nb_priority (snd y) < nb_priority (snd x)
     \<or> nb_priority (snd y) = nb_priority (snd x) \<and> IPV4_ADDR_CMP (nb_router_id (snd y)) (nb_router_id (snd x)) < 0"

interpretation dr_order: priority_order dr_better
  by unfold_locales (auto simp: dr_better_def IPV4_ADDR_CMP_less)

lemma election_sub_pick: "election_sub mx xs = pick_best dr_better mx xs"
  by (induction mx xs rule: election_sub.induct) (auto simp: dr_better_def)

section \<open>One pass\<close>

definition best_router :: "(nat \<times> ospf_nbr) list \<Rightarrow> (nat \<times> ospf_nbr) option" where
  "best_router xs = pick_best dr_better None xs"

definition no_drs :: "(nat \<times> ospf_nbr) list \<Rightarrow> (nat \<times> ospf_nbr) list" where
  "no_drs ns = filter (\<lambda>x. \<not> NBR_IS_DR (snd x)) ns"

definition backup_of :: "(nat \<times> ospf_nbr) list \<Rightarrow> (nat \<times> ospf_nbr) option" where
  "backup_of ns =
    (if filter (\<lambda>x. NBR_IS_BDR (snd x)) (no_drs ns) \<noteq> []
     then best_router (filter (\<lambda>x. NBR_IS_BDR (snd x)) (no_drs ns)) else best_router (no_drs ns))"

definition router_addr :: "(nat \<times> ospf_nbr) option \<Rightarrow> u32" where
  "router_addr r = (case r of None \<Rightarrow> 0 | Some x \<Rightarrow> nb_address (snd x))"

definition designated_of :: "u32 \<Rightarrow> (nat \<times> ospf_nbr) list \<Rightarrow> (nat \<times> ospf_nbr) option" where
  "designated_of b ns =
    (if filter (\<lambda>x. NBR_IS_DR (snd x)) ns \<noteq> [] then best_router (filter (\<lambda>x. NBR_IS_DR (snd x)) ns)
     else case filter (\<lambda>x. b = nb_address (snd x)) ns of [] \<Rightarrow> None | ms \<Rightarrow> Some (last ms))"

definition set_roles :: "u32 \<Rightarrow> u32 \<Rightarrow> 'n ospf_if \<Rightarrow> 'n ospf_if" where
  "set_roles d b s =
    s\<lparr>oi_nbr := (oi_nbr s)(oi_self s := map_option (\<lambda>n. n\<lparr>nb_d_router := d, nb_bd_router := b\<rparr>) (oi_nbr s (oi_self s)))\<rparr>"

text \<open>The eligible routers as they look once the router itself declares the roles.\<close>

definition with_roles :: "nat \<Rightarrow> u32 \<Rightarrow> u32 \<Rightarrow> (nat \<times> ospf_nbr) list \<Rightarrow> (nat \<times> ospf_nbr) list" where
  "with_roles self d b ns = map (\<lambda>x. if fst x = self then (fst x, (snd x)\<lparr>nb_d_router := d, nb_bd_router := b\<rparr>) else x) ns"

lemma fetch_with_roles:
  "fetch (oi_nbr s) el = Some ns \<Longrightarrow> fetch (oi_nbr (set_roles d b s)) el = Some (with_roles (oi_self s) d b ns)"
proof (induction el arbitrary: ns)
  case (Cons a el)
  then obtain n ns' where n: "oi_nbr s a = Some n" "fetch (oi_nbr s) el = Some ns'" "ns = (a, n) # ns'"
    by (auto split: bind_splits)
  have "oi_nbr (set_roles d b s) a = Some (if a = oi_self s then n\<lparr>nb_d_router := d, nb_bd_router := b\<rparr> else n)"
    using n(1) by (auto simp: set_roles_def)
  with Cons.IH [OF n(2)] n(3) show ?case by (simp add: with_roles_def)
qed (simp add: with_roles_def)

lemma roles_of_set_roles:
  assumes "oi_nbr s (oi_self s) = Some me"
  shows "DR (set_roles d b s) = Some d" "BDR (set_roles d b s) = Some b"
    "set_roles d' b' (set_roles d b s) = set_roles d' b' s"
  using assms by (simp_all add: DR_def BDR_def set_roles_def)

lemma router_addr_case: "(case r of None \<Rightarrow> 0 | Some (a, m) \<Rightarrow> nb_address m) = router_addr r"
  by (auto simp: router_addr_def split: option.split)

lemma filter_case: "filter (\<lambda>(a, n). P n) ns = filter (\<lambda>x. P (snd x)) ns"
  by (simp add: case_prod_unfold)

lemma elect_bdr_eq:
  assumes "fetch (oi_nbr s) el = Some ns" "oi_nbr s (oi_self s) = Some me"
  shows "ospf_elect_bdr el s = Some (map_option fst (backup_of ns), set_roles (nb_d_router me) (router_addr (backup_of ns)) s)"
  using assms
  by (simp add: ospf_elect_bdr_def filter_case [of "\<lambda>n. \<not> NBR_IS_DR n"] filter_case backup_of_def no_drs_def best_router_def ospf_dr_election_sub_def
      election_sub_pick upd_nbr_def set_roles_def router_addr_case Let_def)

lemma elect_dr_eq:
  assumes "fetch (oi_nbr s) el = Some ns" "oi_nbr s (oi_self s) = Some me"
  shows "ospf_elect_dr el s = Some (map_option fst (designated_of (nb_bd_router me) ns),
      set_roles (router_addr (designated_of (nb_bd_router me) ns)) (nb_bd_router me) s)"
  using assms
  by (simp add: ospf_elect_dr_def filter_case designated_of_def best_router_def ospf_dr_election_sub_def BDR_def
      election_sub_pick upd_nbr_def set_roles_def router_addr_case Let_def split: list.split)

section \<open>The whole election\<close>

definition role_state :: "u32 \<Rightarrow> u32 \<Rightarrow> u32 \<Rightarrow> ism_state" where
  "role_state addr d b = (if d = addr then ISM_DR else if b = addr then ISM_Backup else ISM_DROther)"

definition pass :: "nat \<Rightarrow> u32 \<Rightarrow> (nat \<times> ospf_nbr) list \<Rightarrow> u32 \<times> u32" where
  "pass self d ns =
    (let b' = router_addr (backup_of ns) in (router_addr (designated_of b' (with_roles self d b' ns)), b'))"

definition elected :: "nat \<Rightarrow> u32 \<Rightarrow> ism_state \<Rightarrow> u32 \<Rightarrow> (nat \<times> ospf_nbr) list \<Rightarrow> u32 \<times> u32" where
  "elected self addr st d ns =
    (let (d1, b1) = pass self d ns; st1 = role_state addr d1 b1
     in if st1 \<noteq> st \<and> \<not> (st1 = ISM_DROther \<and> st < ISM_DROther) then pass self d1 (with_roles self d1 b1 ns) else (d1, b1))"

lemma with_roles_again: "with_roles self d b (with_roles self d' b' ns) = with_roles self d b ns"
  by (simp add: with_roles_def)

lemma elect_twice:
  assumes "fetch (oi_nbr s) el = Some ns" "oi_nbr s (oi_self s) = Some me"
  shows "do { (b, s) \<leftarrow> ospf_elect_bdr el s; (d, s) \<leftarrow> ospf_elect_dr el s; f s }
    = f (case pass (oi_self s) (nb_d_router me) ns of (d, b) \<Rightarrow> set_roles d b s)"
proof -
  let ?b = "router_addr (backup_of ns)" and ?d = "nb_d_router me"
  have "oi_nbr (set_roles ?d ?b s) (oi_self (set_roles ?d ?b s)) = Some (me\<lparr>nb_d_router := ?d, nb_bd_router := ?b\<rparr>)"
    using assms(2) by (simp add: set_roles_def)
  from elect_dr_eq [OF fetch_with_roles [OF assms(1), of ?d ?b] this] roles_of_set_roles(3) [OF assms(2)]
  show ?thesis using elect_bdr_eq [OF assms] by (simp add: pass_def Let_def)
qed

lemma ism_state_set_roles:
  "oi_nbr s (oi_self s) = Some me \<Longrightarrow> ospf_ism_state (set_roles d b s) = Some (role_state (oi_address s) d b)"
  by (simp add: ospf_ism_state_def roles_of_set_roles role_state_def) (simp add: set_roles_def)

lemma dr_election_eq:
  assumes "ospf_dr_eligible_routers N s = Some el" "fetch (oi_nbr s) el = Some ns" "oi_nbr s (oi_self s) = Some me"
  shows "ospf_dr_election N s =
    (case elected (oi_self s) (oi_address s) (oi_state s) (nb_d_router me) ns of (d, b) \<Rightarrow> do {
       t \<leftarrow> (if nb_d_router me \<noteq> d \<or> nb_bd_router me \<noteq> b then ospf_dr_change N (set_roles d b s) else Some (set_roles d b s));
       Some (role_state (oi_address s) d b, t) })"
proof -
  obtain d1 b1 where p1: "pass (oi_self s) (nb_d_router me) ns = (d1, b1)" by force
  let ?s1 = "set_roles d1 b1 s" and ?ns1 = "with_roles (oi_self s) d1 b1 ns"
  have s1: "oi_nbr ?s1 (oi_self ?s1) = Some (me\<lparr>nb_d_router := d1, nb_bd_router := b1\<rparr>)" "oi_self ?s1 = oi_self s"
    using assms(3) by (simp_all add: set_roles_def)
  obtain d2 b2 where p2: "pass (oi_self s) d1 ?ns1 = (d2, b2)" by force
  have roles: "DR s = Some (nb_d_router me)" "BDR s = Some (nb_bd_router me)"
    using assms(3) by (simp_all add: DR_def BDR_def)
  note second = elect_twice [OF fetch_with_roles [OF assms(2), of d1 b1] s1(1)]
  show ?thesis
    using p1 p2 s1(2)
    by (simp add: ospf_dr_election_def roles assms(1) elect_twice [OF assms(2,3)] second
        ism_state_set_roles [OF assms(3)] roles_of_set_roles [OF assms(3)] elected_def Let_def)
qed

lemma fold_schedule: "fold (\<lambda>a. schedule (SNsm a e)) as s = s\<lparr>oi_sched := oi_sched s @ map (\<lambda>a. SNsm a e) as\<rparr>"
  by (induction as arbitrary: s) (simp_all add: schedule_def)

lemma dr_change_eq:
  "fetch (oi_nbr s) (walk N s) = Some ns \<Longrightarrow> ospf_dr_change N s = Some (s\<lparr>oi_sched := oi_sched s @ map (\<lambda>a. SNsm a NSM_AdjOK)
     (map fst (filter (\<lambda>x. nb_router_id (snd x) \<noteq> 0 \<and> nb_state (snd x) \<ge> NSM_TwoWay \<and> nb_router_id (snd x) \<noteq> oi_router_id s) ns))\<rparr>)"
  by (simp add: ospf_dr_change_def fold_schedule case_prod_unfold)

lemma walk_set_roles [simp]: "walk N (set_roles d b s) = walk N s"
  by (simp add: walk_def set_roles_def)

lemma eligible_fetch: "ospf_dr_eligible_routers N s = Some el \<Longrightarrow> \<exists>ns. fetch (oi_nbr s) (walk N s) = Some ns"
  by (auto simp: ospf_dr_eligible_routers_def split: bind_splits)

lemma dr_election_outcome:
  assumes "ospf_dr_eligible_routers N s = Some el" "fetch (oi_nbr s) el = Some ns" "oi_nbr s (oi_self s) = Some me"
    "elected (oi_self s) (oi_address s) (oi_state s) (nb_d_router me) ns = (d, b)"
  shows "\<exists>t. ospf_dr_election N s = Some (role_state (oi_address s) d b, t) \<and> DR t = Some d \<and> BDR t = Some b"
proof -
  from eligible_fetch [OF assms(1)] obtain ws where ws: "fetch (oi_nbr s) (walk N s) = Some ws" by blast
  from dr_change_eq [of "set_roles d b s" N, simplified, OF fetch_with_roles [OF ws]] show ?thesis
    using roles_of_set_roles [OF assms(3), of d b] by (simp add: dr_election_eq [OF assms(1-3)] assms(4)) (simp add: DR_def BDR_def)
qed

section \<open>Properties\<close>

lemma best_router_member: "best_router xs = Some x \<Longrightarrow> x \<in> set xs"
  using dr_order.pick_best_member [of None xs x] by (simp add: best_router_def)

lemma best_router_best: "best_router xs = Some x \<Longrightarrow> y \<in> set xs \<Longrightarrow> \<not> dr_better y x"
  unfolding best_router_def by (rule dr_order.pick_best_least) auto

lemma best_router_None: "best_router xs = None \<longleftrightarrow> xs = []"
  by (simp add: best_router_def dr_order.pick_best_None_iff)

lemma best_router_single [simp]: "best_router [x] = Some x"
  by (simp add: best_router_def)

text \<open>
  The election of the backup picks, among the eligible routers that do not declare themselves designated, the
  best one of those that declare themselves backup, or of all of them when there is none: no candidate has a higher
  priority, or the same and a higher router identifier.
\<close>

theorem ospf_elect_bdr_best:
  assumes "fetch (oi_nbr s) el = Some ns" "oi_nbr s (oi_self s) = Some me"
    and "C = filter (\<lambda>x. \<not> NBR_IS_DR (snd x)) ns"
    and "K = (if filter (\<lambda>x. NBR_IS_BDR (snd x)) C \<noteq> [] then filter (\<lambda>x. NBR_IS_BDR (snd x)) C else C)"
  shows "\<exists>r t. ospf_elect_bdr el s = Some (r, t)
    \<and> (if K = [] then r = None \<and> BDR t = Some 0
       else \<exists>x \<in> set K. r = Some (fst x) \<and> BDR t = Some (nb_address (snd x)) \<and> (\<forall>y \<in> set K. \<not> dr_better y x))"
proof -
  have b: "backup_of ns = best_router K" using assms(3,4) by (simp add: backup_of_def no_drs_def)
  show ?thesis
  proof (cases "best_router K")
    case None
    with b best_router_None [of K] show ?thesis
      by (simp add: elect_bdr_eq [OF assms(1,2)] router_addr_def roles_of_set_roles [OF assms(2)])
  next
    case (Some x)
    with b best_router_None [of K] best_router_member [OF Some] best_router_best [OF Some] show ?thesis
      by (auto simp: elect_bdr_eq [OF assms(1,2)] router_addr_def roles_of_set_roles [OF assms(2)])
  qed
qed

text \<open>
  C37. A designated router and a backup in office are not displaced. When exactly one eligible router declares itself
  designated and exactly one other declares itself backup, and the interface knows them as such, an election changes
  nothing, whatever the priorities of the routers that have joined.
\<close>

theorem ospf_dr_not_displaced:
  assumes "ospf_dr_eligible_routers N s = Some el" "fetch (oi_nbr s) el = Some ns"
    and "filter (\<lambda>x. NBR_IS_DR (snd x)) ns = [(d, D)]"
    and "filter (\<lambda>x. NBR_IS_BDR (snd x) \<and> \<not> NBR_IS_DR (snd x)) ns = [(b, B)]"
    and "DR s = Some (nb_address D)" "BDR s = Some (nb_address B)" "ospf_ism_state s = Some (oi_state s)"
  shows "ospf_dr_election N s = Some (oi_state s, s)"
proof -
  from assms(5,6) obtain me where me: "oi_nbr s (oi_self s) = Some me" "nb_d_router me = nb_address D" "nb_bd_router me = nb_address B"
    by (auto simp: DR_def BDR_def split: bind_splits)
  have same: "set_roles (nb_address D) (nb_address B) s = s"
    using me by (simp add: set_roles_def fun_upd_idem flip: me(2,3))
  from assms(4) have bk: "backup_of ns = Some (b, B)" by (simp add: backup_of_def no_drs_def conj_commute)
  have "with_roles (oi_self s) (nb_address D) (nb_address B) ns = ns"
    using fetch_with_roles [OF assms(2), of "nb_address D" "nb_address B"] same assms(2) by simp
  then have "pass (oi_self s) (nb_d_router me) ns = (nb_address D, nb_address B)"
    using assms(3) bk me by (simp add: pass_def designated_of_def router_addr_def Let_def)
  moreover have "role_state (oi_address s) (nb_address D) (nb_address B) = oi_state s"
    using ism_state_set_roles [OF me(1), of "nb_address D" "nb_address B"] same assms(7) by simp
  ultimately have "elected (oi_self s) (oi_address s) (oi_state s) (nb_d_router me) ns = (nb_address D, nb_address B)"
    by (simp add: elected_def Let_def)
  then show ?thesis
    using me same \<open>role_state (oi_address s) (nb_address D) (nb_address B) = oi_state s\<close>
    by (simp add: dr_election_eq [OF assms(1,2) me(1)])
qed

lemma with_roles_others: "filter (\<lambda>x. fst x \<noteq> self) (with_roles self d b ns) = filter (\<lambda>x. fst x \<noteq> self) ns"
  by (induction ns) (auto simp: with_roles_def)

lemma with_roles_own: "filter (\<lambda>x. fst x = self) (with_roles self d b ns)
    = map (\<lambda>x. (self, (snd x)\<lparr>nb_d_router := d, nb_bd_router := b\<rparr>)) (filter (\<lambda>x. fst x = self) ns)"
  by (induction ns) (auto simp: with_roles_def)

lemma with_roles_cases:
  assumes "x \<in> set (with_roles self d b ns)" "filter (\<lambda>x. fst x = self) ns = [(self, me)]"
  shows "fst x \<noteq> self \<and> x \<in> set ns \<or> x = (self, me\<lparr>nb_d_router := d, nb_bd_router := b\<rparr>)"
proof -
  have own: "n = me" if "(self, n) \<in> set ns" for n
  proof -
    from that have "(self, n) \<in> set (filter (\<lambda>x. fst x = self) ns)" by simp
    then show ?thesis unfolding assms(2) by simp
  qed
  from assms(1) obtain y where y: "y \<in> set ns" "x = (if fst y = self then (fst y, (snd y)\<lparr>nb_d_router := d, nb_bd_router := b\<rparr>) else y)"
    unfolding with_roles_def set_map by blast
  obtain a n where "y = (a, n)" by force
  with y own [of n] show ?thesis by (cases "a = self") auto
qed

text \<open>
  C38. The backup takes over: when no eligible router declares itself designated any more and the router itself is the
  only one that declares itself backup, it becomes designated in the same election, and the best of the others becomes
  the new backup.
\<close>

theorem ospf_backup_takes_over:
  assumes "ospf_dr_eligible_routers N s = Some el" "fetch (oi_nbr s) el = Some ns"
    and "oi_nbr s (oi_self s) = Some me" "nb_address me = oi_address s" "oi_state s = ISM_Backup"
    and "\<not> NBR_IS_DR me" "NBR_IS_BDR me" "filter (\<lambda>x. fst x = oi_self s) ns = [(oi_self s, me)]"
    and "list_all (\<lambda>x. fst x = oi_self s \<or> \<not> NBR_IS_DR (snd x) \<and> \<not> NBR_IS_BDR (snd x) \<and> nb_address (snd x) \<noteq> oi_address s) ns"
  shows "\<exists>t. ospf_dr_election N s = Some (ISM_DR, t) \<and> DR t = Some (oi_address s)
    \<and> BDR t = Some (router_addr (best_router (filter (\<lambda>x. fst x \<noteq> oi_self s) ns)))"
proof -
  let ?self = "oi_self s" and ?addr = "oi_address s" and ?b2 = "router_addr (best_router (filter (\<lambda>x. fst x \<noteq> oi_self s) ns))"
  have oth: "\<not> NBR_IS_DR (snd x) \<and> \<not> NBR_IS_BDR (snd x) \<and> nb_address (snd x) \<noteq> ?addr" if "x \<in> set ns" "fst x \<noteq> ?self" for x
    using assms(9) that by (auto simp: list_all_iff)
  note cs = with_roles_cases [OF _ assms(8)]
  have own: "filter P (with_roles ?self d b ns) = [(?self, me\<lparr>nb_d_router := d, nb_bd_router := b\<rparr>)]"
    if "\<And>x. x \<in> set ns \<Longrightarrow> fst x \<noteq> ?self \<Longrightarrow> \<not> P x" "P (?self, me\<lparr>nb_d_router := d, nb_bd_router := b\<rparr>)" for P d b
  proof -
    have "filter P (with_roles ?self d b ns) = filter (\<lambda>x. fst x = ?self) (with_roles ?self d b ns)"
      using that cs by (intro filter_cong) (auto dest!: cs)
    then show ?thesis by (simp add: with_roles_own assms(8))
  qed
  have ns: "with_roles ?self (nb_d_router me) ?addr ns = ns" and me: "me\<lparr>nb_d_router := nb_d_router me, nb_bd_router := ?addr\<rparr> = me"
    using fetch_with_roles [OF assms(2), of "nb_d_router me" ?addr] assms(2,3,4,7)
    by (simp_all add: set_roles_def fun_upd_idem NBR_IS_BDR_def)
  have "filter (\<lambda>x. NBR_IS_BDR (snd x)) (no_drs ns) = [(?self, me)]"
    using own [where P = "\<lambda>x. \<not> NBR_IS_DR (snd x) \<and> NBR_IS_BDR (snd x)" and d = "nb_d_router me" and b = ?addr] oth assms(6,7) ns me
    by (simp add: no_drs_def)
  then have b1: "router_addr (backup_of ns) = ?addr" using assms(4) by (simp add: backup_of_def router_addr_def)
  have "filter (\<lambda>x. NBR_IS_DR (snd x)) ns = []"
    using cs [of _ "nb_d_router me" ?addr] ns me oth assms(6) by (force simp: filter_empty_conv)
  moreover have "filter (\<lambda>x. ?addr = nb_address (snd x)) ns = [(?self, me)]"
    using own [where P = "\<lambda>x. ?addr = nb_address (snd x)" and d = "nb_d_router me" and b = ?addr] oth assms(4) ns me by fastforce
  ultimately have p1: "pass ?self (nb_d_router me) ns = (?addr, ?addr)"
    using b1 ns assms(4) by (simp add: pass_def designated_of_def router_addr_def Let_def)
  let ?ns1 = "with_roles ?self ?addr ?addr ns"
  have nod: "no_drs ?ns1 = filter (\<lambda>x. fst x \<noteq> ?self) ns"
    unfolding no_drs_def with_roles_others [of ?self ?addr ?addr ns, symmetric]
    using oth assms(4) by (intro filter_cong) (auto dest!: cs simp: NBR_IS_DR_def)
  then have bk: "backup_of ?ns1 = best_router (filter (\<lambda>x. fst x \<noteq> ?self) ns)"
    using oth by (auto simp: backup_of_def filter_empty_conv)
  have "filter (\<lambda>x. NBR_IS_DR (snd x)) (with_roles ?self ?addr ?b2 ns) = [(?self, me\<lparr>nb_d_router := ?addr, nb_bd_router := ?b2\<rparr>)]"
    using oth assms(4) by (intro own) (auto simp: NBR_IS_DR_def)
  then have "pass ?self ?addr ?ns1 = (?addr, ?b2)"
    using bk assms(4) by (simp add: pass_def with_roles_again designated_of_def router_addr_def Let_def)
  with p1 assms(5) have "elected ?self ?addr (oi_state s) (nb_d_router me) ns = (?addr, ?b2)"
    by (simp add: elected_def role_state_def)
  from dr_election_outcome [OF assms(1-3) this] show ?thesis by (simp add: role_state_def)
qed

subsection \<open>Never both roles\<close>

text \<open>The address of the router is that of its own entry and of no other.\<close>

definition own_addr :: "nat \<Rightarrow> u32 \<Rightarrow> (nat \<times> ospf_nbr) list \<Rightarrow> bool" where
  "own_addr self addr ns \<longleftrightarrow> addr \<noteq> 0 \<and> list_all (\<lambda>x. nb_address (snd x) = addr \<longleftrightarrow> fst x = self) ns"

definition other_dr :: "nat \<Rightarrow> (nat \<times> ospf_nbr) list \<Rightarrow> bool" where
  "other_dr self ns \<longleftrightarrow> list_ex (\<lambda>x. fst x \<noteq> self \<and> NBR_IS_DR (snd x)) ns"

definition other_bdr :: "nat \<Rightarrow> (nat \<times> ospf_nbr) list \<Rightarrow> bool" where
  "other_bdr self ns \<longleftrightarrow> list_ex (\<lambda>x. fst x \<noteq> self \<and> \<not> NBR_IS_DR (snd x) \<and> NBR_IS_BDR (snd x)) ns"

lemma with_roles_other: "fst x \<noteq> self \<Longrightarrow> x \<in> set (with_roles self d b ns) \<longleftrightarrow> x \<in> set ns"
  by (auto simp: with_roles_def split: if_splits)

lemma with_roles_self_ex: "self \<in> fst ` set ns \<Longrightarrow> \<exists>x \<in> set (with_roles self d b ns). fst x = self"
  by (auto simp: with_roles_def intro: bexI [rotated])

lemma with_roles_self:
  assumes "own_addr self addr ns" "x \<in> set (with_roles self d b ns)"
  shows "nb_address (snd x) = addr \<longleftrightarrow> fst x = self"
    and "fst x = self \<Longrightarrow> NBR_IS_DR (snd x) \<longleftrightarrow> d = addr"
    and "fst x = self \<Longrightarrow> NBR_IS_BDR (snd x) \<longleftrightarrow> b = addr"
    and "fst x = self \<Longrightarrow> self \<in> fst ` set ns"
proof -
  obtain a n where y: "(a, n) \<in> set ns" "x = (if a = self then (a, n\<lparr>nb_d_router := d, nb_bd_router := b\<rparr>) else (a, n))"
    using assms(2) unfolding with_roles_def set_map by (elim imageE) (metis prod.collapse)
  from y(1) assms(1) have "nb_address n = addr \<longleftrightarrow> a = self" by (force simp: own_addr_def list_all_iff)
  with y show "nb_address (snd x) = addr \<longleftrightarrow> fst x = self" "fst x = self \<Longrightarrow> NBR_IS_DR (snd x) \<longleftrightarrow> d = addr"
      "fst x = self \<Longrightarrow> NBR_IS_BDR (snd x) \<longleftrightarrow> b = addr" "fst x = self \<Longrightarrow> self \<in> fst ` set ns"
    by (auto simp: NBR_IS_DR_def NBR_IS_BDR_def image_iff split: if_splits intro: bexI [rotated])
qed

lemma router_addr_own:
  assumes "own_addr self addr ns" "router_addr r = addr"
  shows "\<exists>x. r = Some x \<and> nb_address (snd x) = addr"
  using assms by (auto simp: router_addr_def own_addr_def split: option.splits)

lemma backup_self:
  assumes "own_addr self addr ns" "router_addr (backup_of (with_roles self d b ns)) = addr"
  shows "self \<in> fst ` set ns \<and> d \<noteq> addr \<and> (b = addr \<or> \<not> other_bdr self ns)"
proof -
  let ?W = "with_roles self d b ns"
  from router_addr_own [OF assms] obtain x where x: "backup_of ?W = Some x" "nb_address (snd x) = addr" by blast
  then have m: "x \<in> set ?W" "\<not> NBR_IS_DR (snd x)"
      "NBR_IS_BDR (snd x) \<or> filter (\<lambda>x. NBR_IS_BDR (snd x)) (no_drs ?W) = []"
    by (auto simp: backup_of_def no_drs_def dest!: best_router_member split: if_splits)
  note own = with_roles_self [OF assms(1) m(1)]
  have "b = addr \<or> \<not> other_bdr self ns"
    using m(3) own x(2) with_roles_other [of _ self d b ns] by (auto simp: no_drs_def filter_empty_conv other_bdr_def list_ex_iff)
  then show ?thesis using own x(2) m(2) by blast
qed

lemma designated_self:
  assumes "own_addr self addr ns" "router_addr (designated_of b (with_roles self d b ns)) = addr" "d \<noteq> addr"
  shows "\<not> other_dr self ns"
proof
  let ?W = "with_roles self d b ns" and ?L = "filter (\<lambda>x. NBR_IS_DR (snd x)) (with_roles self d b ns)"
  assume "other_dr self ns"
  then obtain y where y: "y \<in> set ns" "fst y \<noteq> self" "NBR_IS_DR (snd y)" by (auto simp: other_dr_def list_ex_iff)
  then have "?L \<noteq> []" using with_roles_other [of y self d b ns] by (auto simp: filter_empty_conv)
  then have e: "designated_of b ?W = best_router ?L" by (simp add: designated_of_def)
  from router_addr_own [OF assms(1,2)] obtain x where x: "best_router ?L = Some x" "nb_address (snd x) = addr"
    unfolding e by blast
  from best_router_member [OF x(1)] have "x \<in> set ?W" "NBR_IS_DR (snd x)" by auto
  with with_roles_self [OF assms(1)] x(2) assms(3) show False by blast
qed

lemma designated_self_if:
  assumes "own_addr self addr ns" "self \<in> fst ` set ns" "\<not> other_dr self ns" "d = addr \<or> b = addr"
  shows "router_addr (designated_of b (with_roles self d b ns)) = addr"
proof -
  let ?W = "with_roles self d b ns" and ?L = "filter (\<lambda>x. NBR_IS_DR (snd x)) (with_roles self d b ns)"
  obtain z where z: "z \<in> set ?W" "fst z = self" using with_roles_self_ex [OF assms(2)] by blast
  note own = with_roles_self [OF assms(1)]
  have "\<not> (x \<in> set ns \<and> fst x \<noteq> self \<and> NBR_IS_DR (snd x))" for x using assms(3) by (auto simp: other_dr_def list_ex_iff)
  then have L: "nb_address (snd x) = addr" if "x \<in> set ?L" for x
    using that own(1) with_roles_other [of x self d b ns] unfolding set_filter by blast
  show ?thesis
  proof (cases "?L = []")
    case False
    then obtain x where "best_router ?L = Some x" using best_router_None by blast
    with L [OF best_router_member [OF this]] False show ?thesis by (simp add: designated_of_def router_addr_def)
  next
    case True
    let ?M = "filter (\<lambda>x. b = nb_address (snd x)) ?W"
    have "d \<noteq> addr" using True own(2) [OF z] z by (auto simp: filter_empty_conv)
    then have b: "b = addr" using assms(4) by simp
    with z own(1) [OF z(1)] have "?M \<noteq> []" by (auto simp: filter_empty_conv)
    then have "last ?M \<in> set ?M" by (rule last_in_set)
    moreover have "designated_of b ?W = Some (last ?M)" using True \<open>?M \<noteq> []\<close> by (auto simp: designated_of_def split: list.split)
    ultimately show ?thesis using b by (auto simp: router_addr_def)
  qed
qed

lemma backup_other:
  assumes "own_addr self addr ns" "self \<in> fst ` set ns" "d \<noteq> addr" "b = addr"
    and "router_addr (backup_of (with_roles self d b ns)) \<noteq> addr"
  shows "other_bdr self ns"
proof -
  let ?W = "with_roles self d b ns" and ?L = "filter (\<lambda>x. NBR_IS_BDR (snd x)) (no_drs (with_roles self d b ns))"
  note own = with_roles_self [OF assms(1)]
  obtain z where z: "z \<in> set ?W" "fst z = self" using with_roles_self_ex [OF assms(2)] by blast
  with own(2,3) assms(3,4) have "z \<in> set ?L" by (simp add: no_drs_def)
  then have ne: "?L \<noteq> []" by (rule length_pos_if_in_set [THEN length_greater_0_conv [THEN iffD1]])
  then have x2: "backup_of ?W = best_router ?L" by (simp add: backup_of_def)
  from ne obtain x where x1: "best_router ?L = Some x" using best_router_None by blast
  note x = x1 x2
  from best_router_member [OF x(1)] have "x \<in> set ?W" "NBR_IS_BDR (snd x)" "\<not> NBR_IS_DR (snd x)" by (auto simp: no_drs_def)
  moreover from this x assms(5) own(1) have "fst x \<noteq> self" by (auto simp: router_addr_def)
  ultimately show ?thesis using with_roles_other [of x self d b ns] by (auto simp: other_bdr_def list_ex_iff)
qed

lemma elected_not_both:
  assumes "own_addr self addr ns" "st = ISM_DR \<or> st = ISM_Backup \<Longrightarrow> st = role_state addr d b"
    and "elected self addr st d (with_roles self d b ns) = (d', b')"
  shows "\<not> (d' = addr \<and> b' = addr)"
proof
  assume both: "d' = addr \<and> b' = addr"
  define b1 where "b1 = router_addr (backup_of (with_roles self d b ns))"
  define d1 where "d1 = router_addr (designated_of b1 (with_roles self d b1 ns))"
  let ?again = "role_state addr d1 b1 \<noteq> st \<and> \<not> (role_state addr d1 b1 = ISM_DROther \<and> st < ISM_DROther)"
  have p1: "pass self d (with_roles self d b ns) = (d1, b1)"
    by (simp add: pass_def with_roles_again d1_def b1_def Let_def)
  have el: "(if ?again then pass self d1 (with_roles self d1 b1 ns) else (d1, b1)) = (d', b')"
    using assms(3) unfolding elected_def Let_def p1 prod.case with_roles_again .
  note bs = backup_self [OF assms(1)]
  show False
  proof (cases ?again)
    case False
    have "d1 = addr" "b1 = addr" using el both unfolding if_not_P [OF False] by simp_all
    with False have "st = ISM_DR" by (simp add: role_state_def)
    with assms(2) have "d = addr" by (simp add: role_state_def split: if_splits)
    with bs [of d b] \<open>b1 = addr\<close> show False by (simp add: b1_def)
  next
    case True
    have p2: "pass self d1 (with_roles self d1 b1 ns) = (d', b')" using el unfolding if_P [OF True] .
    then have e: "router_addr (backup_of (with_roles self d1 b1 ns)) = addr"
        "router_addr (designated_of addr (with_roles self d1 addr ns)) = addr"
      using both by (auto simp: pass_def with_roles_again Let_def)
    from bs [OF e(1)] have b: "self \<in> fst ` set ns" "d1 \<noteq> addr" "b1 = addr \<or> \<not> other_bdr self ns" by blast+
    from designated_self [OF assms(1) e(2) b(2)] have n: "\<not> other_dr self ns" .
    with designated_self_if [OF assms(1) b(1) n, of d b1] b(2) have c: "d \<noteq> addr" "b1 \<noteq> addr" by (auto simp: d1_def)
    with b(2) True have "st = ISM_Backup \<or> st = ISM_DR" by (cases st) (simp_all add: role_state_def state_order)
    with assms(2) c(1) have "b = addr" by (auto simp: role_state_def split: if_splits)
    from backup_other [OF assms(1) b(1) c(1) this] b(3) c(2) show False by (simp add: b1_def)
  qed
qed

text \<open>
  C36. An election never gives the router both roles. Whatever its neighbours declare, a router whose state agrees with
  the roles it declares leaves the election as designated router, as backup or as neither, never as both.
\<close>

theorem ospf_never_both_roles:
  assumes "ospf_dr_eligible_routers N s = Some el" "fetch (oi_nbr s) el = Some ns"
    and "own_addr (oi_self s) (oi_address s) ns" "oi_nbr s (oi_self s) = Some me"
    and "oi_state s = ISM_DR \<or> oi_state s = ISM_Backup \<Longrightarrow> ospf_ism_state s = Some (oi_state s)"
  shows "\<exists>d b t. ospf_dr_election N s = Some (role_state (oi_address s) d b, t) \<and> DR t = Some d \<and> BDR t = Some b
    \<and> \<not> (d = oi_address s \<and> b = oi_address s)"
proof -
  have s: "set_roles (nb_d_router me) (nb_bd_router me) s = s" using assms(4) by (simp add: set_roles_def fun_upd_idem)
  have w: "with_roles (oi_self s) (nb_d_router me) (nb_bd_router me) ns = ns"
    using fetch_with_roles [OF assms(2), of "nb_d_router me" "nb_bd_router me"] assms(2) by (simp add: s)
  have r: "oi_state s = role_state (oi_address s) (nb_d_router me) (nb_bd_router me)" if "oi_state s = ISM_DR \<or> oi_state s = ISM_Backup"
    using assms(5) [OF that] ism_state_set_roles [OF assms(4), of "nb_d_router me" "nb_bd_router me"] by (simp add: s)
  obtain d b where e: "elected (oi_self s) (oi_address s) (oi_state s) (nb_d_router me) ns = (d, b)" by force
  from elected_not_both [OF assms(3) r, where d' = d and b' = b] e w dr_election_outcome [OF assms(1,2,4) e] show ?thesis
    by auto
qed

section \<open>Examples\<close>

text \<open>A segment with three routers, of which the first is the router itself.\<close>

definition ex_rtr :: "u32 \<Rightarrow> int \<Rightarrow> u32 \<Rightarrow> u32 \<Rightarrow> ospf_nbr" where
  "ex_rtr addr prio d b = ospf_nbr_new\<lparr>nb_state := NSM_TwoWay, nb_address := addr, nb_src := addr, nb_router_id := addr,
     nb_priority := prio, nb_d_router := d, nb_bd_router := b\<rparr>"

definition ex_segment :: "ism_state \<Rightarrow> ospf_nbr \<Rightarrow> ospf_nbr \<Rightarrow> ospf_nbr \<Rightarrow> (u32 \<times> nat option) list ospf_if" where
  "ex_segment st r0 r1 r2 = \<lparr>oi_type = OSPF_IFTYPE_BROADCAST, oi_state = st, oi_address = 0x0100000a, oi_prefixlen = 24,
     oi_router_id = 0x0100000a, oi_external = OSPF_AREA_DEFAULT, oi_cf_priority = 1, oi_cf_wait = 40, oi_cf_hello = 10,
     oi_cf_fast_hello = 0, oi_nbrs = [(0x0100000a, Some 0), (0x0200000a, Some 1), (0x0300000a, Some 2)], oi_self = 0,
     oi_nbr = [0 \<mapsto> r0, 1 \<mapsto> r1, 2 \<mapsto> r2], oi_nbma = [], oi_nbmas = Map.empty, oi_t_hello = True, oi_t_wait = False,
     oi_t_ls_ack = True, oi_state_change = 0, oi_full_nbrs = 0, oi_area_full_nbrs = 0, oi_act_ints = 1, oi_vl_full = None,
     oi_network_lsa = None, oi_crypt_seqnum = 0, oi_hello_in = 0, oi_sched = [], oi_calls = []\<rparr>"

definition ex_other :: "(u32 \<times> nat option) list ospf_if" where
  "ex_other = ex_segment ISM_DROther (ex_rtr 0x0100000a 9 0x0200000a 0x0300000a)
     (ex_rtr 0x0200000a 1 0x0200000a 0x0300000a) (ex_rtr 0x0300000a 1 0x0200000a 0x0300000a)"

definition ex_backup :: "(u32 \<times> nat option) list ospf_if" where
  "ex_backup = ex_segment ISM_Backup (ex_rtr 0x0100000a 1 0x0900000a 0x0100000a)
     (ex_rtr 0x0200000a 1 0x0900000a 0x0100000a) (ex_rtr 0x0300000a 2 0x0900000a 0x0100000a)"

theorem ospf_elect_bdr_best_witness:
  "\<exists>t. ospf_elect_bdr [0, 1, 2] ex_other = Some (Some 2, t) \<and> BDR t = Some 0x0300000a"
proof -
  let ?ns = "[(0, ex_rtr 0x0100000a 9 0x0200000a 0x0300000a), (1, ex_rtr 0x0200000a 1 0x0200000a 0x0300000a),
     (2, ex_rtr 0x0300000a 1 0x0200000a 0x0300000a)]"
  have f: "fetch (oi_nbr ex_other) [0, 1, 2] = Some ?ns"
    "oi_nbr ex_other (oi_self ex_other) = Some (ex_rtr 0x0100000a 9 0x0200000a 0x0300000a)"
    by (simp_all add: ex_other_def ex_segment_def)
  have c: "[(0, ex_rtr 0x0100000a 9 0x0200000a 0x0300000a), (2, ex_rtr 0x0300000a 1 0x0200000a 0x0300000a)]
      = filter (\<lambda>x. \<not> NBR_IS_DR (snd x)) ?ns" (is "?C = _")
    by (simp add: NBR_IS_DR_def ex_rtr_def ospf_nbr_new_def)
  have k: "[(2, ex_rtr 0x0300000a 1 0x0200000a 0x0300000a)]
      = (if filter (\<lambda>x. NBR_IS_BDR (snd x)) ?C \<noteq> [] then filter (\<lambda>x. NBR_IS_BDR (snd x)) ?C else ?C)"
    by (simp add: NBR_IS_BDR_def ex_rtr_def ospf_nbr_new_def)
  from ospf_elect_bdr_best [OF f c k] show ?thesis by (auto simp: ex_rtr_def)
qed

theorem ospf_dr_not_displaced_witness: "ospf_dr_election list_ops ex_other = Some (ISM_DROther, ex_other)"
proof -
  let ?r1 = "ex_rtr 0x0200000a 1 0x0200000a 0x0300000a" and ?r2 = "ex_rtr 0x0300000a 1 0x0200000a 0x0300000a"
  let ?ns = "[(0, ex_rtr 0x0100000a 9 0x0200000a 0x0300000a), (1, ?r1), (2, ?r2)]"
  have "ospf_dr_eligible_routers list_ops ex_other = Some [0, 1, 2]" by code_simp
  moreover have "fetch (oi_nbr ex_other) [0, 1, 2] = Some ?ns" by (simp add: ex_other_def ex_segment_def)
  moreover have "filter (\<lambda>x. NBR_IS_DR (snd x)) ?ns = [(1, ?r1)]" "filter (\<lambda>x. NBR_IS_BDR (snd x) \<and> \<not> NBR_IS_DR (snd x)) ?ns = [(2, ?r2)]"
    by (simp_all add: NBR_IS_DR_def NBR_IS_BDR_def ex_rtr_def ospf_nbr_new_def)
  moreover have "DR ex_other = Some (nb_address ?r1)" "BDR ex_other = Some (nb_address ?r2)"
      "ospf_ism_state ex_other = Some (oi_state ex_other)" by code_simp+
  ultimately have "ospf_dr_election list_ops ex_other = Some (oi_state ex_other, ex_other)" by (rule ospf_dr_not_displaced)
  then show ?thesis by (simp add: ex_other_def ex_segment_def)
qed

lemma ex_backup_routers:
  "ospf_dr_eligible_routers list_ops ex_backup = Some [0, 1, 2]"
  "fetch (oi_nbr ex_backup) [0, 1, 2] = Some [(0, ex_rtr 0x0100000a 1 0x0900000a 0x0100000a),
     (1, ex_rtr 0x0200000a 1 0x0900000a 0x0100000a), (2, ex_rtr 0x0300000a 2 0x0900000a 0x0100000a)]"
  "oi_nbr ex_backup (oi_self ex_backup) = Some (ex_rtr 0x0100000a 1 0x0900000a 0x0100000a)"
  "oi_self ex_backup = 0" "oi_address ex_backup = 0x0100000a" "oi_state ex_backup = ISM_Backup"
  by (code_simp, simp_all add: ex_backup_def ex_segment_def)

theorem ospf_backup_takes_over_witness:
  "\<exists>t. ospf_dr_election list_ops ex_backup = Some (ISM_DR, t) \<and> DR t = Some 0x0100000a \<and> BDR t = Some 0x0300000a"
proof -
  have "router_addr (best_router [(1, ex_rtr 0x0200000a 1 0x0900000a 0x0100000a), (2, ex_rtr 0x0300000a 2 0x0900000a 0x0100000a)])
    = 0x0300000a" by code_simp
  then show ?thesis
    using ospf_backup_takes_over [OF ex_backup_routers(1-3)] ex_backup_routers(4-)
    by (simp add: NBR_IS_DR_def NBR_IS_BDR_def ex_rtr_def ospf_nbr_new_def)
qed

theorem ospf_never_both_roles_witness:
  "\<exists>d b t. ospf_dr_election list_ops ex_backup = Some (role_state 0x0100000a d b, t) \<and> DR t = Some d \<and> BDR t = Some b
    \<and> \<not> (d = 0x0100000a \<and> b = 0x0100000a)"
proof -
  have "own_addr 0 0x0100000a [(0, ex_rtr 0x0100000a 1 0x0900000a 0x0100000a),
     (1, ex_rtr 0x0200000a 1 0x0900000a 0x0100000a), (2, ex_rtr 0x0300000a 2 0x0900000a 0x0100000a)]"
    "ospf_ism_state ex_backup = Some ISM_Backup" by code_simp+
  then show ?thesis
    using ospf_never_both_roles [OF ex_backup_routers(1,2) _ ex_backup_routers(3)] ex_backup_routers(4-) by simp
qed

end
