(* ===== verification/Ospf_Run.thy ===== *)
theory Ospf_Run
  imports Ospf_Election
begin

text \<open>
  Runs of an OSPF interface with its neighbours: hello packets, timers, scheduled events, events that other packets
  raise, and the interface going up and down, in any order. The invariant ties the table of neighbours to their
  store, keeps scheduled events on living neighbours, counts the full ones, and keeps the roles of the router apart.
\<close>

section \<open>The invariant\<close>

definition nbr_tab :: "(u32, 'n) route_ops \<Rightarrow> 'n ospf_if \<Rightarrow> bool" where
  "nbr_tab N s \<longleftrightarrow> (\<forall>k a. rt_info N (oi_nbrs s) k = Some a \<longleftrightarrow> (\<exists>n. oi_nbr s a = Some n \<and> nb_src n = k))"

definition self_ok :: "u32 \<Rightarrow> u32 \<Rightarrow> ospf_nbr \<Rightarrow> bool" where
  "self_ok addr rid me \<longleftrightarrow> nb_src me = addr \<and> nb_router_id me = rid \<and> nb_state me = NSM_TwoWay \<and> \<not> nb_t_inactivity me"

definition nbr_ok :: "ospf_nbr \<Rightarrow> bool" where
  "nbr_ok n \<longleftrightarrow> nb_address n = nb_src n \<and> nb_nbma n = None"

definition nbrs_ok :: "'n ospf_if \<Rightarrow> bool" where
  "nbrs_ok s \<longleftrightarrow> finite (dom (oi_nbr s)) \<and> (\<forall>n \<in> ran (oi_nbr s). nbr_ok n)"

definition sched_live :: "(nat \<Rightarrow> ospf_nbr option) \<Rightarrow> nat \<Rightarrow> sched \<Rightarrow> bool" where
  "sched_live st self e = (case e of SNsm a ev \<Rightarrow> st a \<noteq> None \<and> a \<noteq> self \<and> ev \<noteq> NSM_NoEvent | SIsm ev \<Rightarrow> ev \<noteq> ISM_NoEvent)"

definition roles_ok :: "ism_state \<Rightarrow> u32 \<Rightarrow> ospf_nbr \<Rightarrow> bool" where
  "roles_ok st addr me \<longleftrightarrow> st \<noteq> ISM_DependUpon
     \<and> (st = ISM_DR \<or> st = ISM_Backup \<longrightarrow> st = role_state addr (nb_d_router me) (nb_bd_router me))
     \<and> \<not> (nb_d_router me = addr \<and> nb_bd_router me = addr)"

definition if_ok :: "'n ospf_if \<Rightarrow> bool" where
  "if_ok s \<longleftrightarrow> oi_type s \<noteq> OSPF_IFTYPE_NBMA \<and> oi_type s \<noteq> OSPF_IFTYPE_VIRTUALLINK \<and> oi_nbma s = [] \<and> oi_address s \<noteq> 0"

definition core :: "(u32, 'n) route_ops \<Rightarrow> 'n ospf_if \<Rightarrow> bool" where
  "core N s \<longleftrightarrow> if_ok s \<and> nbr_tab N s \<and> nbrs_ok s \<and> list_all (sched_live (oi_nbr s) (oi_self s)) (oi_sched s)
     \<and> (\<exists>me. oi_nbr s (oi_self s) = Some me \<and> self_ok (oi_address s) (oi_router_id s) me \<and> roles_ok (oi_state s) (oi_address s) me)"

definition nbr_states :: "'n ospf_if \<Rightarrow> nat \<Rightarrow> nsm_state option" where
  "nbr_states s = map_option nb_state \<circ> oi_nbr s"

definition full_nbrs_of :: "'n ospf_if \<Rightarrow> nat set" where
  "full_nbrs_of s = {a. nbr_states s a = Some NSM_Full}"

definition oif_inv :: "(u32, 'n) route_ops \<Rightarrow> 'n ospf_if \<Rightarrow> bool" where
  "oif_inv N s \<longleftrightarrow> core N s \<and> ran (nbr_states s) \<inter> {NSM_DependUpon, NSM_Deleted} = {}
     \<and> oi_full_nbrs s = of_nat (card (full_nbrs_of s))"

lemmas core_parts = if_ok_def nbr_tab_def nbrs_ok_def

text \<open>What the invariant does not look at.\<close>

lemma oif_core_fields [simp]:
  "core N (s\<lparr>oi_calls := x1\<rparr>) = core N s" "core N (s\<lparr>oi_t_hello := x2\<rparr>) = core N s" "core N (s\<lparr>oi_t_wait := x2\<rparr>) = core N s"
  "core N (s\<lparr>oi_t_ls_ack := x2\<rparr>) = core N s" "core N (s\<lparr>oi_state_change := x3\<rparr>) = core N s" "core N (s\<lparr>oi_full_nbrs := x3\<rparr>) = core N s"
  "core N (s\<lparr>oi_area_full_nbrs := x3\<rparr>) = core N s" "core N (s\<lparr>oi_act_ints := x3\<rparr>) = core N s" "core N (s\<lparr>oi_vl_full := x4\<rparr>) = core N s"
  "core N (s\<lparr>oi_network_lsa := x5\<rparr>) = core N s" "core N (s\<lparr>oi_crypt_seqnum := x3\<rparr>) = core N s" "core N (s\<lparr>oi_hello_in := x3\<rparr>) = core N s"
  by (simp_all add: core_def core_parts)

lemma states_fields [simp]:
  "nbr_states (s\<lparr>oi_calls := x1\<rparr>) = nbr_states s" "nbr_states (s\<lparr>oi_t_hello := x2\<rparr>) = nbr_states s" "nbr_states (s\<lparr>oi_t_wait := x2\<rparr>) = nbr_states s"
  "nbr_states (s\<lparr>oi_t_ls_ack := x2\<rparr>) = nbr_states s" "nbr_states (s\<lparr>oi_state_change := x3\<rparr>) = nbr_states s" "nbr_states (s\<lparr>oi_full_nbrs := x3\<rparr>) = nbr_states s"
  "nbr_states (s\<lparr>oi_area_full_nbrs := x3\<rparr>) = nbr_states s" "nbr_states (s\<lparr>oi_act_ints := x3\<rparr>) = nbr_states s" "nbr_states (s\<lparr>oi_vl_full := x4\<rparr>) = nbr_states s"
  "nbr_states (s\<lparr>oi_network_lsa := x5\<rparr>) = nbr_states s" "nbr_states (s\<lparr>oi_crypt_seqnum := x3\<rparr>) = nbr_states s" "nbr_states (s\<lparr>oi_hello_in := x3\<rparr>) = nbr_states s"
  "nbr_states (s\<lparr>oi_sched := x6\<rparr>) = nbr_states s" "nbr_states (s\<lparr>oi_state := x7\<rparr>) = nbr_states s" "nbr_states (s\<lparr>oi_nbrs := x8\<rparr>) = nbr_states s"
  by (simp_all add: nbr_states_def)

lemma nbr_states_None: "nbr_states s a = None \<longleftrightarrow> oi_nbr s a = None"
  by (simp add: nbr_states_def)

lemma coreD:
  assumes "core N s"
  shows "oi_nbr s a = Some n \<Longrightarrow> rt_info N (oi_nbrs s) (nb_src n) = Some a"
    and "rt_info N (oi_nbrs s) k = Some a \<Longrightarrow> \<exists>n. oi_nbr s a = Some n \<and> nb_src n = k"
    and "oi_nbr s a = Some n \<Longrightarrow> nb_address n = nb_src n" "oi_nbr s a = Some n \<Longrightarrow> nb_nbma n = None"
    and "\<exists>me. oi_nbr s (oi_self s) = Some me \<and> self_ok (oi_address s) (oi_router_id s) me \<and> roles_ok (oi_state s) (oi_address s) me"
    and "finite (dom (oi_nbr s))" "if_ok s" "list_all (sched_live (oi_nbr s) (oi_self s)) (oi_sched s)"
  using assms by (auto simp: core_def nbr_tab_def nbrs_ok_def nbr_ok_def ran_def)

section \<open>Elections\<close>

lemma fetch_total: "\<forall>a \<in> set as. st a \<noteq> None \<Longrightarrow> fetch st as = Some (map (\<lambda>a. (a, the (st a))) as)"
  by (induction as) auto

lemma fetch_fst: "(\<And>x. x \<in> set xs \<Longrightarrow> st (fst x) = Some (snd x)) \<Longrightarrow> fetch st (map fst xs) = Some xs"
  by (induction xs) auto

lemma walk_live: "core N s \<Longrightarrow> a \<in> set (walk N s) \<Longrightarrow> oi_nbr s a \<noteq> None"
  using coreD(2) by (fastforce simp: walk_def map_filter_def)

lemma fetch_walk: "core N s \<Longrightarrow> fetch (oi_nbr s) (walk N s) = Some (map (\<lambda>a. (a, the (oi_nbr s a))) (walk N s))"
  by (rule fetch_total) (blast dest: walk_live)

text \<open>An election keeps the neighbours, sets the roles and schedules events on living neighbours only.\<close>

lemma election_ok:
  assumes "core N s"
  shows "\<exists>d b as. ospf_dr_election N s = Some (role_state (oi_address s) d b, (set_roles d b s)\<lparr>oi_sched := oi_sched s @ map (\<lambda>a. SNsm a NSM_AdjOK) as\<rparr>)
    \<and> \<not> (d = oi_address s \<and> b = oi_address s) \<and> (\<forall>a \<in> set as. oi_nbr s a \<noteq> None \<and> a \<noteq> oi_self s)"
proof -
  let ?W = "map (\<lambda>a. (a, the (oi_nbr s a))) (walk N s)"
  let ?P = "\<lambda>x. nb_router_id (snd x) \<noteq> 0 \<and> nb_priority (snd x) > 0 \<and> nb_state (snd x) \<ge> NSM_TwoWay"
  obtain me where me: "oi_nbr s (oi_self s) = Some me" "self_ok (oi_address s) (oi_router_id s) me" "roles_ok (oi_state s) (oi_address s) me"
    using coreD(5) [OF assms] by blast
  have live: "oi_nbr s (fst x) = Some (snd x)" if "x \<in> set ?W" for x using that walk_live [OF assms] by auto
  have el: "ospf_dr_eligible_routers N s = Some (map fst (filter ?P ?W))"
    by (simp add: ospf_dr_eligible_routers_def fetch_walk [OF assms] case_prod_unfold)
  have ns: "fetch (oi_nbr s) (map fst (filter ?P ?W)) = Some (filter ?P ?W)"
    by (rule fetch_fst) (rule live, simp)
  have inj: "a = oi_self s" if "oi_nbr s a = Some n" "nb_src n = oi_address s" for a n
    using coreD(1) [OF assms that(1)] coreD(1) [OF assms me(1)] me(2) that(2) by (simp add: self_ok_def)
  have "nb_address (snd x) = oi_address s \<longleftrightarrow> fst x = oi_self s" if "x \<in> set ?W" for x
    using coreD(3) [OF assms live [OF that]] inj [OF live [OF that]] live [OF that] me by (auto simp: self_ok_def)
  then have own: "own_addr (oi_self s) (oi_address s) (filter ?P ?W)"
    using coreD(7) [OF assms] by (simp add: own_addr_def list_all_iff if_ok_def del: set_map)
  obtain d b where e: "elected (oi_self s) (oi_address s) (oi_state s) (nb_d_router me) (filter ?P ?W) = (d, b)" by force
  have s: "set_roles (nb_d_router me) (nb_bd_router me) s = s" using me(1) by (simp add: set_roles_def fun_upd_idem)
  have w: "with_roles (oi_self s) (nb_d_router me) (nb_bd_router me) (filter ?P ?W) = filter ?P ?W"
    using fetch_with_roles [OF ns, of "nb_d_router me" "nb_bd_router me"] ns by (simp add: s)
  have nb: "\<not> (d = oi_address s \<and> b = oi_address s)"
    by (rule elected_not_both [OF own, of "oi_state s" "nb_d_router me" "nb_bd_router me"]) (use me(3) e w in \<open>auto simp: roles_ok_def\<close>)
  let ?r = "set_roles d b s" and ?V = "with_roles (oi_self s) d b ?W"
  let ?as = "map fst (filter (\<lambda>x. nb_router_id (snd x) \<noteq> 0 \<and> nb_state (snd x) \<ge> NSM_TwoWay \<and> nb_router_id (snd x) \<noteq> oi_router_id ?r) ?V)"
  have rid: "oi_router_id ?r = oi_router_id s" "oi_sched ?r = oi_sched s" by (simp_all add: set_roles_def)
  have "fetch (oi_nbr ?r) (walk N ?r) = Some ?V" using fetch_with_roles [OF fetch_walk [OF assms]] by simp
  from dr_change_eq [OF this] have ch: "ospf_dr_change N ?r = Some (?r\<lparr>oi_sched := oi_sched s @ map (\<lambda>a. SNsm a NSM_AdjOK) ?as\<rparr>)"
    by (simp only: rid)
  have as: "oi_nbr s a \<noteq> None \<and> a \<noteq> oi_self s" if "a \<in> set ?as" for a
  proof -
    from that obtain x where x: "x \<in> set ?V" "a = fst x" "nb_router_id (snd x) \<noteq> oi_router_id s" by (auto simp: rid(1))
    then obtain y where y: "y \<in> set ?W" "fst x = fst y" "nb_router_id (snd x) = nb_router_id (snd y)"
      by (force simp: with_roles_def)
    from live [OF y(1)] me x y show ?thesis by (auto simp: self_ok_def)
  qed
  show ?thesis
  proof (cases "nb_d_router me \<noteq> d \<or> nb_bd_router me \<noteq> b")
    case True
    then show ?thesis
      using dr_election_eq [OF el ns me(1)] e ch nb as by (intro exI [of _ d] exI [of _ b] exI [of _ ?as]) simp
  next
    case False
    then show ?thesis
      using dr_election_eq [OF el ns me(1)] e nb rid(2) by (intro exI [of _ d] exI [of _ b] exI [of _ "[]"]) simp
  qed
qed

lemma core_cong:
  assumes "oi_type s = oi_type t" "oi_nbma s = oi_nbma t" "oi_address s = oi_address t" "oi_router_id s = oi_router_id t"
    "oi_nbrs s = oi_nbrs t" "oi_nbr s = oi_nbr t" "oi_self s = oi_self t" "oi_sched s = oi_sched t" "oi_state s = oi_state t"
  shows "core N s = core N t"
  using assms by (simp add: core_def core_parts)

lemma ism_change_state_frame [simp]:
  "oi_type (ism_change_state E st s) = oi_type s" "oi_nbma (ism_change_state E st s) = oi_nbma s"
  "oi_address (ism_change_state E st s) = oi_address s" "oi_router_id (ism_change_state E st s) = oi_router_id s"
  "oi_nbrs (ism_change_state E st s) = oi_nbrs s" "oi_nbr (ism_change_state E st s) = oi_nbr s"
  "oi_self (ism_change_state E st s) = oi_self s" "oi_sched (ism_change_state E st s) = oi_sched s"
  "oi_state (ism_change_state E st s) = st" "oi_full_nbrs (ism_change_state E st s) = oi_full_nbrs s"
  by (simp_all add: ism_change_state_def call_def Let_def split: option.split)

lemma ism_timer_set_frame [simp]:
  "oi_type (ism_timer_set s) = oi_type s" "oi_nbma (ism_timer_set s) = oi_nbma s"
  "oi_address (ism_timer_set s) = oi_address s" "oi_router_id (ism_timer_set s) = oi_router_id s"
  "oi_nbrs (ism_timer_set s) = oi_nbrs s" "oi_nbr (ism_timer_set s) = oi_nbr s"
  "oi_self (ism_timer_set s) = oi_self s" "oi_sched (ism_timer_set s) = oi_sched s"
  "oi_state (ism_timer_set s) = oi_state s" "oi_full_nbrs (ism_timer_set s) = oi_full_nbrs s"
  by (simp_all add: ism_timer_set_def split: ism_state.split)

lemma core_timer_set [simp]: "core N (ism_timer_set s) = core N s"
  by (rule core_cong) simp_all

lemma core_change_state [simp]: "core N (ism_change_state E st s) = core N (s\<lparr>oi_state := st\<rparr>)"
  by (rule core_cong) simp_all

lemma core_same_state: "oi_state u = st \<Longrightarrow> core N (u\<lparr>oi_state := st\<rparr>) = core N u"
  by (rule core_cong) simp_all

lemma states_ism [simp]: "nbr_states (ism_timer_set s) = nbr_states s" "nbr_states (ism_change_state E st s) = nbr_states s"
  by (simp_all add: nbr_states_def)

text \<open>One neighbour changes, or the router itself together with the state of the interface.\<close>

lemma sched_live_upd: "st a \<noteq> None \<Longrightarrow> sched_live (st(a \<mapsto> n)) self = sched_live st self"
  by (auto simp: sched_live_def fun_eq_iff split: sched.split)

lemma core_upd:
  assumes "core N s" "oi_nbr s a = Some n" "nb_src n' = nb_src n" "nbr_ok n'"
    and "a \<noteq> oi_self s" 
  shows "core N (s\<lparr>oi_nbr := (oi_nbr s)(a \<mapsto> n')\<rparr>)"
  using assms by (auto simp: core_def core_parts sched_live_upd ran_def)

lemma core_upd_self:
  assumes "core N s" "oi_nbr s (oi_self s) = Some n" "nb_src n' = nb_src n" "nbr_ok n'"
    and "self_ok (oi_address s) (oi_router_id s) n'" "roles_ok st (oi_address s) n'"
  shows "core N (s\<lparr>oi_nbr := (oi_nbr s)(oi_self s \<mapsto> n'), oi_state := st\<rparr>)"
  using assms by (auto simp: core_def core_parts sched_live_upd ran_def)

lemma core_sched:
  "core N s \<Longrightarrow> list_all (sched_live (oi_nbr s) (oi_self s)) es \<Longrightarrow> core N (s\<lparr>oi_sched := es\<rparr>)"
  by (simp add: core_def core_parts)

lemma election_core:
  assumes "core N s" "ospf_dr_election N s = Some (st, t)"
  shows "core N (t\<lparr>oi_state := st\<rparr>) \<and> st \<noteq> ISM_DependUpon \<and> oi_self t = oi_self s \<and> oi_nbrs t = oi_nbrs s
    \<and> oi_full_nbrs t = oi_full_nbrs s \<and> nbr_states t = nbr_states s \<and> oi_state t = oi_state s"
proof -
  obtain d b as where t: "st = role_state (oi_address s) d b" "t = (set_roles d b s)\<lparr>oi_sched := oi_sched s @ map (\<lambda>a. SNsm a NSM_AdjOK) as\<rparr>"
    and nb: "\<not> (d = oi_address s \<and> b = oi_address s)" and as: "\<forall>a \<in> set as. oi_nbr s a \<noteq> None \<and> a \<noteq> oi_self s"
    using election_ok [OF assms(1)] assms(2) by auto
  obtain me where me: "oi_nbr s (oi_self s) = Some me" "self_ok (oi_address s) (oi_router_id s) me"
    using coreD(5) [OF assms(1)] by blast
  let ?n = "me\<lparr>nb_d_router := d, nb_bd_router := b\<rparr>"
  have r: "set_roles d b s = s\<lparr>oi_nbr := (oi_nbr s)(oi_self s \<mapsto> ?n)\<rparr>" using me(1) by (simp add: set_roles_def)
  have "core N (s\<lparr>oi_nbr := (oi_nbr s)(oi_self s \<mapsto> ?n), oi_state := st\<rparr>)"
    using me coreD(3,4) [OF assms(1) me(1)] nb
    by (intro core_upd_self [OF assms(1) me(1)]) (auto simp: self_ok_def roles_ok_def nbr_ok_def t(1) role_state_def)
  then have "core N (s\<lparr>oi_nbr := (oi_nbr s)(oi_self s \<mapsto> ?n), oi_state := st, oi_sched := oi_sched s @ map (\<lambda>a. SNsm a NSM_AdjOK) as\<rparr>)"
    using as coreD(8) [OF assms(1)] me(1) by (intro core_sched) (auto simp: sched_live_upd list_all_iff sched_live_def)
  then have "core N (t\<lparr>oi_state := st\<rparr>)" by (rule core_cong [THEN iffD1, rotated -1]) (simp_all add: t(2) r)
  then show ?thesis using me(1) by (simp add: t r nbr_states_def role_state_def fun_eq_iff)
qed

lemma election_event:
  assumes "core N s" "fst (ISM (oi_state s) ! ism_event_num e) \<in> {F_ism_wait_timer, F_ism_backup_seen, F_ism_neighbor_change}"
  shows "\<exists>t. ism_event_with N E c e s = Some t \<and> core N t \<and> oi_self t = oi_self s \<and> oi_nbrs t = oi_nbrs s
    \<and> oi_full_nbrs t = oi_full_nbrs s \<and> nbr_states t = nbr_states s"
proof -
  from election_ok [OF assms(1)] obtain st u where u: "ospf_dr_election N s = Some (st, u)" by blast
  have "ism_call N c (fst (ISM (oi_state s) ! ism_event_num e)) s = Some (st, u)" using assms(2) u by auto
  with election_core [OF assms(1) u] show ?thesis
    by (cases "st = oi_state s") (auto simp: ism_event_with_def core_same_state)
qed

section \<open>Events of a neighbour\<close>

text \<open>What an event of a neighbour leaves alone, until it raises an event of the interface.\<close>

definition same_if :: "'n ospf_if \<Rightarrow> 'n ospf_if \<Rightarrow> bool" where
  "same_if s t \<longleftrightarrow> oi_type t = oi_type s \<and> oi_nbma t = oi_nbma s \<and> oi_address t = oi_address s \<and> oi_router_id t = oi_router_id s
     \<and> oi_nbrs t = oi_nbrs s \<and> oi_self t = oi_self s \<and> oi_sched t = oi_sched s \<and> oi_state t = oi_state s"

definition nbr_kept :: "ospf_nbr \<Rightarrow> ospf_nbr \<Rightarrow> bool" where
  "nbr_kept n n' \<longleftrightarrow> nb_src n' = nb_src n \<and> nb_address n' = nb_address n \<and> nb_nbma n' = nb_nbma n"

lemma same_if_simps [simp]:
  "same_if s s" "same_if s (call c t) = same_if s t" "same_if s (t\<lparr>oi_nbr := x\<rparr>) = same_if s t"
  "oi_nbr (call c t) = oi_nbr t" "oi_full_nbrs (call c t) = oi_full_nbrs t"
  by (simp_all add: same_if_def call_def)

lemma same_if_trans: "same_if s t \<Longrightarrow> same_if t u \<Longrightarrow> same_if s u"
  by (simp add: same_if_def)

lemma same_nbr: "oi_nbr s = f \<Longrightarrow> s\<lparr>oi_nbr := f\<rparr> = s"
  by simp

lemma core_kept:
  assumes "core N s" "oi_nbr s a = Some n" "a \<noteq> oi_self s" "same_if s t" "oi_nbr t = (oi_nbr s)(a \<mapsto> n')" "nbr_kept n n'"
  shows "core N t"
proof -
  have "core N (s\<lparr>oi_nbr := (oi_nbr s)(a \<mapsto> n')\<rparr>)"
    using assms(6) coreD(3,4) [OF assms(1,2)] by (intro core_upd [OF assms(1,2) _ _ assms(3)]) (simp_all add: nbr_kept_def nbr_ok_def)
  then show ?thesis by (rule core_cong [THEN iffD1, rotated -1]) (use assms(4,5) in \<open>simp_all add: same_if_def\<close>)
qed

lemma full_counts_frame [simp]:
  "same_if s (nsm_full_counts full vl s)" "oi_nbr (nsm_full_counts full vl s) = oi_nbr s"
  "oi_full_nbrs (nsm_full_counts full vl s) = (if full then oi_full_nbrs s + 1 else oi_full_nbrs s - 1)"
  by (simp_all add: same_if_def nsm_full_counts_def call_def Let_def split: option.split)

lemma full_change_frame [simp]:
  "same_if s (nsm_full_change E full s)" "oi_nbr (nsm_full_change E full s) = oi_nbr s"
  "oi_full_nbrs (nsm_full_change E full s) = (if full then oi_full_nbrs s + 1 else oi_full_nbrs s - 1)"
  by (simp_all add: full_counts_frame(1) [unfolded same_if_def] same_if_def nsm_full_change_def call_def Let_def split: option.split)

lemma full_nbrs_upd:
  "nbr_states t = (nbr_states s)(a := z) \<Longrightarrow> full_nbrs_of t = (if z = Some NSM_Full then insert a (full_nbrs_of s) else full_nbrs_of s - {a})"
  by (auto simp: full_nbrs_of_def)

lemma finite_full: "finite (dom (oi_nbr s)) \<Longrightarrow> finite (full_nbrs_of s)"
  by (rule finite_subset [of _ "dom (oi_nbr s)"]) (auto simp: full_nbrs_of_def nbr_states_def)

text \<open>The change of state, up to the event of the interface.\<close>

lemma change_state_shape:
  assumes "oi_nbr s a = Some n"
  shows "\<exists>t n' Q. nsm_change_state N E a x s =
      (if (oi_state t = ISM_DROther \<or> oi_state t = ISM_Backup \<or> oi_state t = ISM_DR) \<and> Q
       then ism_event_with N E (\<lambda>s. None) ISM_NeighborChange t else Some t)
    \<and> same_if s t \<and> oi_nbr t = (oi_nbr s)(a \<mapsto> n') \<and> nbr_kept n n' \<and> nb_state n' = x
    \<and> oi_full_nbrs t = (if nb_state n \<noteq> NSM_Full \<and> x = NSM_Full then oi_full_nbrs s + 1
        else if nb_state n = NSM_Full \<and> x \<noteq> NSM_Full then oi_full_nbrs s - 1 else oi_full_nbrs s)"
proof -
  let ?Q = "nb_state n < NSM_TwoWay \<and> x \<ge> NSM_TwoWay \<or> nb_state n \<ge> NSM_TwoWay \<and> x < NSM_TwoWay"
  define n1 where "n1 = n\<lparr>nb_state := x, nb_state_change := nb_state_change n + 1\<rparr>"
  define s1 where "s1 = s\<lparr>oi_nbr := (oi_nbr s)(a \<mapsto> n1)\<rparr>"
  define s2 where "s2 = (if nb_state n \<noteq> NSM_Full \<and> x = NSM_Full \<or> nb_state n = NSM_Full \<and> x \<noteq> NSM_Full
    then nsm_full_change E (x = NSM_Full) s1 else s1)"
  define s3 where "s3 = (if nb_state n > NSM_ExStart \<and> x \<le> NSM_ExStart then call (ClearAdj a) s2 else s2)"
  have kept: "nbr_kept n n1" "nb_state n1 = x" by (simp_all add: n1_def nbr_kept_def)
  have s1: "same_if s s1" "oi_nbr s1 = (oi_nbr s)(a \<mapsto> n1)" "oi_full_nbrs s1 = oi_full_nbrs s" by (simp_all add: s1_def)
  have s2: "same_if s s2" "oi_nbr s2 = oi_nbr s1"
      "oi_full_nbrs s2 = (if nb_state n \<noteq> NSM_Full \<and> x = NSM_Full then oi_full_nbrs s + 1
        else if nb_state n = NSM_Full \<and> x \<noteq> NSM_Full then oi_full_nbrs s - 1 else oi_full_nbrs s)"
    using s1 same_if_trans [OF s1(1) full_change_frame(1)] by (auto simp: s2_def)
  have s3: "same_if s s3" "oi_nbr s3 = (oi_nbr s)(a \<mapsto> n1)" "oi_full_nbrs s3 = oi_full_nbrs s2"
    using s1 s2 by (simp_all add: s3_def)
  define m where "m = (if x = NSM_ExStart then n1\<lparr>nb_dd_seqnum := (if nb_dd_seqnum n1 = 0 then ev_time E else nb_dd_seqnum n1 + 1), nb_dd_flags := 7\<rparr>
    else if x = NSM_Down then n1\<lparr>nb_crypt_seqnum := 0\<rparr> else n1)"
  define t where "t = (if x = NSM_ExStart then call (DbDescSend a) (s3\<lparr>oi_nbr := (oi_nbr s)(a \<mapsto> m)\<rparr>) else s3\<lparr>oi_nbr := (oi_nbr s)(a \<mapsto> m)\<rparr>)"
  have "nbr_kept n m" "nb_state m = x" using kept by (simp_all add: m_def nbr_kept_def)
  moreover have "same_if s t" "oi_nbr t = (oi_nbr s)(a \<mapsto> m)" "oi_full_nbrs t = oi_full_nbrs s3" using s3 by (simp_all add: t_def)
  moreover have "nsm_change_state N E a x s = (if (oi_state t = ISM_DROther \<or> oi_state t = ISM_Backup \<or> oi_state t = ISM_DR) \<and> ?Q
       then ism_event_with N E (\<lambda>s. None) ISM_NeighborChange t else Some t)"
  proof -
    have n3: "oi_nbr s3 a = Some n1" using s3(2) by simp
    have u1: "upd_nbr a (\<lambda>n. n\<lparr>nb_state := x, nb_state_change := nb_state_change n + 1\<rparr>) s = Some s1"
      using assms by (simp add: upd_nbr_def s1_def n1_def)
    have "nsm_change_state N E a x s = do {
        s \<leftarrow> (if x = NSM_ExStart
           then do {
             s \<leftarrow> upd_nbr a (\<lambda>n. n\<lparr>nb_dd_seqnum := (if nb_dd_seqnum n = 0 then ev_time E else nb_dd_seqnum n + 1), nb_dd_flags := 7\<rparr>) s3;
             Some (call (DbDescSend a) s) }
           else Some s3);
        s \<leftarrow> (if x = NSM_Down then upd_nbr a (\<lambda>n. n\<lparr>nb_crypt_seqnum := 0\<rparr>) s else Some s);
        if (oi_state s = ISM_DROther \<or> oi_state s = ISM_Backup \<or> oi_state s = ISM_DR) \<and> ?Q
        then ism_event_with N E (\<lambda>s. None) ISM_NeighborChange s else Some s }"
      unfolding nsm_change_state_def assms Option.bind_lunit Let_def u1 s3_def s2_def ..
    moreover have "Option.bind (if x = NSM_ExStart
           then do {
             s \<leftarrow> upd_nbr a (\<lambda>n. n\<lparr>nb_dd_seqnum := (if nb_dd_seqnum n = 0 then ev_time E else nb_dd_seqnum n + 1), nb_dd_flags := 7\<rparr>) s3;
             Some (call (DbDescSend a) s) }
           else Some s3) (\<lambda>s. if x = NSM_Down then upd_nbr a (\<lambda>n. n\<lparr>nb_crypt_seqnum := 0\<rparr>) s else Some s) = Some t"
      using n3 s3(2) by (cases "x = NSM_ExStart"; cases "x = NSM_Down") (simp_all add: upd_nbr_def t_def m_def same_nbr)
    ultimately show ?thesis unfolding Option.bind_assoc [symmetric] by (simp only: Option.bind_lunit)
  qed
  ultimately show ?thesis
    using s3(3) s2(3) by (intro exI [of _ t] exI [of _ m] exI [of _ ?Q] conjI) (assumption | simp only:)+
qed

lemma change_state_ok:
  assumes "core N s" "oi_nbr s a = Some n" "a \<noteq> oi_self s" "oi_full_nbrs s = of_nat (card (full_nbrs_of s))"
  shows "\<exists>t. nsm_change_state N E a x s = Some t \<and> core N t \<and> oi_self t = oi_self s \<and> oi_nbrs t = oi_nbrs s
    \<and> nbr_states t = (nbr_states s)(a \<mapsto> x) \<and> oi_full_nbrs t = of_nat (card (full_nbrs_of t))"
proof -
  obtain t n' Q where t: "nsm_change_state N E a x s =
      (if (oi_state t = ISM_DROther \<or> oi_state t = ISM_Backup \<or> oi_state t = ISM_DR) \<and> Q
       then ism_event_with N E (\<lambda>s. None) ISM_NeighborChange t else Some t)"
    and f: "same_if s t" "oi_nbr t = (oi_nbr s)(a \<mapsto> n')" "nbr_kept n n'" "nb_state n' = x"
    and c: "oi_full_nbrs t = (if nb_state n \<noteq> NSM_Full \<and> x = NSM_Full then oi_full_nbrs s + 1
        else if nb_state n = NSM_Full \<and> x \<noteq> NSM_Full then oi_full_nbrs s - 1 else oi_full_nbrs s)"
    using change_state_shape [OF assms(2), of N E x] by blast
  have core: "core N t" by (rule core_kept [OF assms(1-3) f(1-3)])
  have st: "nbr_states t = (nbr_states s)(a \<mapsto> x)" "nbr_states s a = Some (nb_state n)"
    using f(2,4) assms(2) by (auto simp: nbr_states_def)
  note fu = full_nbrs_upd [OF st(1)]
  have fin: "finite (full_nbrs_of s)" by (rule finite_full [OF coreD(6) [OF assms(1)]])
  have mem: "a \<in> full_nbrs_of s \<longleftrightarrow> nb_state n = NSM_Full" using st(2) by (simp add: full_nbrs_of_def)
  have rem: "card (full_nbrs_of s) = Suc (card (full_nbrs_of s - {a}))" if "nb_state n = NSM_Full"
    by (rule card.remove [OF fin]) (simp add: mem that)
  have cnt: "oi_full_nbrs t = of_nat (card (full_nbrs_of t))"
    using c assms(4) fin mem
    by (cases "nb_state n = NSM_Full"; cases "x = NSM_Full") (simp_all add: fu insert_absorb rem del: card_Diff_insert)
  show ?thesis
  proof (cases "(oi_state t = ISM_DROther \<or> oi_state t = ISM_Backup \<or> oi_state t = ISM_DR) \<and> Q")
    case True
    then have "fst (ISM (oi_state t) ! ism_event_num ISM_NeighborChange) = F_ism_neighbor_change" by (auto simp: ISM_def)
    with election_event [OF core, of ISM_NeighborChange E "\<lambda>s. None"] obtain u where
      "ism_event_with N E (\<lambda>s. None) ISM_NeighborChange t = Some u" "core N u" "oi_self u = oi_self t" "oi_nbrs u = oi_nbrs t"
      "oi_full_nbrs u = oi_full_nbrs t" "nbr_states u = nbr_states t"
      by auto
    with True t cnt st f(1) show ?thesis by (simp add: full_nbrs_of_def same_if_def)
  next
    case False
    with t core cnt st f(1) show ?thesis by (auto simp: same_if_def)
  qed
qed

text \<open>The tables and the functions they name.\<close>

lemma nsm_table:
  assumes "st \<noteq> NSM_DependUpon" "e \<noteq> NSM_NoEvent" "NSM st ! nsm_event_num e = (f, x)"
  shows "x = NSM_DependUpon \<Longrightarrow> f \<in> {F_nsm_twoway_received, F_nsm_exchange_done, F_nsm_adj_ok}"
    and "e = NSM_KillNbr \<Longrightarrow> x = NSM_Deleted"
  using assms by (cases st; cases e; auto simp: NSM_def)+

lemma nsm_call_ok:
  assumes "core N s" "oi_nbr s a = Some n" "a \<noteq> oi_self s" "nb_state n \<notin> {NSM_DependUpon, NSM_Deleted}"
  shows "\<exists>fs t n'. nsm_call E f a s = Some (fs, t) \<and> same_if s t \<and> oi_nbr t = (oi_nbr s)(a \<mapsto> n') \<and> nbr_kept n n'
    \<and> nb_state n' = nb_state n \<and> oi_full_nbrs t = oi_full_nbrs s
    \<and> (f \<in> {F_nsm_twoway_received, F_nsm_exchange_done, F_nsm_adj_ok} \<longrightarrow> fs \<notin> {NSM_DependUpon, NSM_Deleted})"
proof -
  obtain me where me: "oi_nbr s (oi_self s) = Some me" using coreD(5) [OF assms(1)] by blast
  have n: "nb_nbma n = None" "(oi_nbr s)(a \<mapsto> n) = oi_nbr s" using coreD(4) [OF assms(1,2)] assms(2) by (simp_all add: fun_upd_idem)
  note d = upd_nbr_def nsm_packet_received_def nsm_start_def nsm_twoway_received_def nsm_negotiation_done_def
    nsm_exchange_done_def nsm_adj_ok_def nsm_kill_nbr_def nsm_should_adj_def DR_def BDR_def nbr_kept_def
  show ?thesis
  proof (cases "f = F_nsm_packet_received \<or> f = F_nsm_start")
    case True
    with assms n have "nsm_call E f a s = Some (NSM_DependUpon, s\<lparr>oi_nbr := (oi_nbr s)(a \<mapsto> n\<lparr>nb_t_inactivity := True\<rparr>)\<rparr>)"
      by (auto simp: d)
    then show ?thesis using True by (intro exI [of _ NSM_DependUpon] exI [of _ "n\<lparr>nb_t_inactivity := True\<rparr>"] exI conjI) (assumption | auto simp: nbr_kept_def)+
  next
    case False
    with assms n me obtain fs u where u: "nsm_call E f a s = Some (fs, u)" "same_if s u" "oi_nbr u = oi_nbr s" "oi_full_nbrs u = oi_full_nbrs s"
      and fs: "f \<in> {F_nsm_twoway_received, F_nsm_exchange_done, F_nsm_adj_ok} \<longrightarrow> fs \<notin> {NSM_DependUpon, NSM_Deleted}"
      by (cases f; cases "ev_req_empty E") (auto simp: d)
    have "oi_nbr u = (oi_nbr s)(a \<mapsto> n)" "nbr_kept n n" using u(3) n(2) by (simp_all add: nbr_kept_def)
    with u(1,2,4) fs show ?thesis by blast
  qed
qed

lemma delete_ok:
  assumes "table_ok N" "core N s" "oi_nbr s a = Some n" "a \<noteq> oi_self s"
  shows "\<exists>t. ospf_nbr_delete N a s = Some t \<and> core N t \<and> oi_self t = oi_self s \<and> oi_full_nbrs t = oi_full_nbrs s \<and> oi_nbr t = (oi_nbr s)(a := None)
    \<and> rt_info N (oi_nbrs t) = (rt_info N (oi_nbrs s))(nb_src n := None)"
proof -
  have n: "nb_nbma n = None" "rt_info N (oi_nbrs s) (nb_src n) = Some a" "ospf_nbr_key s n = nb_src n"
    using coreD(1,4,7) [OF assms(2)] assms(3) by (simp_all add: ospf_nbr_key_def if_ok_def)
  let ?t = "s\<lparr>oi_nbrs := rt_put N (oi_nbrs s) (nb_src n) None, oi_calls := oi_calls s @ [FreeLists a],
    oi_sched := filter (\<lambda>e. case e of SNsm b ev \<Rightarrow> b \<noteq> a | SIsm ev \<Rightarrow> True) (oi_sched s), oi_nbr := (oi_nbr s)(a := None)\<rparr>"
  have inj: "b = a" if "oi_nbr s b = Some m" "nb_src m = nb_src n" for b m using coreD(1) [OF assms(2) that(1)] that(2) n(2) by simp
  have "nbr_tab N ?t"
    using assms(2,3) by (auto simp: core_def nbr_tab_def table_okD(2) [OF assms(1)] dest: inj)
  moreover have "list_all (sched_live (oi_nbr ?t) (oi_self ?t)) (oi_sched ?t)"
    using coreD(8) [OF assms(2)] by (auto simp: list_all_iff sched_live_def split: sched.splits)
  moreover have "nbrs_ok ?t" using assms(2) by (auto simp: core_def nbrs_ok_def ran_def)
  ultimately have "core N ?t" using assms(2,4) by (auto simp: core_def if_ok_def)
  then show ?thesis using n assms(3) by (simp add: ospf_nbr_delete_def ospf_nbr_free_def call_def table_okD(2) [OF assms(1)])
qed

lemma states_upd:
  "oi_nbr t = (oi_nbr s)(a \<mapsto> n) \<Longrightarrow> nbr_states t = (nbr_states s)(a \<mapsto> nb_state n)"
  by (auto simp: nbr_states_def)

lemma states_same:
  "oi_nbr s a = Some n \<Longrightarrow> oi_nbr t = (oi_nbr s)(a \<mapsto> n') \<Longrightarrow> nb_state n' = nb_state n \<Longrightarrow> nbr_states t = nbr_states s"
  by (auto simp: nbr_states_def)

lemma timer_set_ok:
  assumes "core N s" "oi_nbr s a = Some n" "a \<noteq> oi_self s"
  shows "\<exists>t. nsm_timer_set a s = Some t \<and> core N t \<and> oi_self t = oi_self s \<and> oi_nbrs t = oi_nbrs s \<and> oi_full_nbrs t = oi_full_nbrs s \<and> nbr_states t = nbr_states s"
proof -
  let ?n = "nsm_timers n"
  have k: "nbr_kept n ?n" "nb_state ?n = nb_state n" by (cases "nb_state n"; simp add: nsm_timers_def nbr_kept_def Let_def)+
  have "core N (s\<lparr>oi_nbr := (oi_nbr s)(a \<mapsto> ?n)\<rparr>)" by (rule core_kept [OF assms _ _ k(1)]) simp_all
  then show ?thesis using assms(2) states_same [OF assms(2) _ k(2), of "s\<lparr>oi_nbr := (oi_nbr s)(a \<mapsto> ?n)\<rparr>"]
    by (simp add: nsm_timer_set_def upd_nbr_def)
qed

lemma notice_change_ok:
  assumes "core N t" "oi_nbr t a = Some n" "a \<noteq> oi_self t" "oi_full_nbrs t = of_nat (card (full_nbrs_of t))"
  shows "\<exists>u. do { s \<leftarrow> nsm_notice_state_change E a y e t; nsm_change_state N E a y s } = Some u
    \<and> core N u \<and> oi_self u = oi_self t \<and> oi_nbrs u = oi_nbrs t \<and> nbr_states u = (nbr_states t)(a \<mapsto> y) \<and> oi_full_nbrs u = of_nat (card (full_nbrs_of u))"
proof -
  define m where "m = (if y > nb_state n then n\<lparr>nb_ts_last_progress := ev_now E\<rparr>
    else n\<lparr>nb_ts_last_regress := ev_now E, nb_last_regress := Some e\<rparr>)"
  let ?v = "t\<lparr>oi_nbr := (oi_nbr t)(a \<mapsto> m)\<rparr>"
  have k: "nbr_kept n m" "nb_state m = nb_state n" by (simp_all add: m_def nbr_kept_def)
  have c: "core N ?v" by (rule core_kept [OF assms(1-3) _ _ k(1)]) simp_all
  have s: "nbr_states ?v = nbr_states t" by (rule states_same [OF assms(2) _ k(2)]) simp
  have "nsm_notice_state_change E a y e t = Some ?v" using assms(2) by (simp add: nsm_notice_state_change_def upd_nbr_def m_def)
  then show ?thesis using change_state_ok [OF c, of a m E y] assms(3,4) s by (simp add: full_nbrs_of_def)
qed

text \<open>The end of an event: a neighbour that reached the dummy state is deleted.\<close>

lemma finish_ok:
  assumes "table_ok N" "core N v" "oi_nbr v a = Some k" "a \<noteq> oi_self v" "nb_state k \<noteq> NSM_DependUpon"
    and "nbr_states v = f(a \<mapsto> nb_state k)" "ran f \<inter> {NSM_DependUpon, NSM_Deleted} = {}" "oi_full_nbrs v = of_nat (card (full_nbrs_of v))"
  shows "\<exists>t. (if nb_state k = NSM_Deleted then ospf_nbr_delete N a v else Some v) = Some t \<and> oif_inv N t \<and> oi_self t = oi_self v
    \<and> rt_info N (oi_nbrs t) \<subseteq>\<^sub>m rt_info N (oi_nbrs v) \<and> (nb_state k = NSM_Deleted \<longrightarrow> rt_info N (oi_nbrs t) (nb_src k) = None)"
proof (cases "nb_state k = NSM_Deleted")
  case True
  from delete_ok [OF assms(1-4)] obtain w where w: "ospf_nbr_delete N a v = Some w" "core N w" "oi_self w = oi_self v"
    "oi_full_nbrs w = oi_full_nbrs v" "oi_nbr w = (oi_nbr v)(a := None)" "rt_info N (oi_nbrs w) = (rt_info N (oi_nbrs v))(nb_src k := None)" by blast
  have sv: "nbr_states w = (nbr_states v)(a := None)" using w(5) by (auto simp: nbr_states_def)
  then have "nbr_states w = f(a := None)" by (simp add: assms(6))
  then have "ran (nbr_states w) \<inter> {NSM_DependUpon, NSM_Deleted} = {}" using assms(7) by (auto simp: ran_def)
  moreover have "a \<notin> full_nbrs_of v" using assms(6) True by (simp add: full_nbrs_of_def)
  then have "full_nbrs_of w = full_nbrs_of v" using full_nbrs_upd [OF sv] by simp
  ultimately have "oif_inv N w" using w(2,4) assms(8) by (simp add: oif_inv_def)
  then show ?thesis using True w(1,3,6) by (simp add: map_le_def)
next
  case False
  have "ran (nbr_states v) \<inter> {NSM_DependUpon, NSM_Deleted} = {}" using assms(5-7) False by (auto simp: ran_def)
  then have "oif_inv N v" using assms(2,8) by (simp add: oif_inv_def)
  then show ?thesis using False by simp
qed

lemma nsm_event_ok:
  assumes "table_ok N" "oif_inv N s" "oi_nbr s a = Some n" "a \<noteq> oi_self s" "e \<noteq> NSM_NoEvent"
  shows "\<exists>t. ospf_nsm_event N E a e s = Some t \<and> oif_inv N t \<and> oi_self t = oi_self s
    \<and> rt_info N (oi_nbrs t) \<subseteq>\<^sub>m rt_info N (oi_nbrs s) \<and> (e = NSM_KillNbr \<longrightarrow> rt_info N (oi_nbrs t) (nb_src n) = None)"
proof -
  have core: "core N s" and cnt: "oi_full_nbrs s = of_nat (card (full_nbrs_of s))" and st: "nb_state n \<notin> {NSM_DependUpon, NSM_Deleted}"
    and ok: "ran (nbr_states s) \<inter> {NSM_DependUpon, NSM_Deleted} = {}"
    using assms(2,3) by (auto simp: oif_inv_def ran_def nbr_states_def)
  obtain f x where fx: "NSM (nb_state n) ! nsm_event_num e = (f, x)" by force
  note tab = nsm_table [OF _ assms(5) fx]
  obtain fs t n' where t: "nsm_call E f a s = Some (fs, t)" "same_if s t" "oi_nbr t = (oi_nbr s)(a \<mapsto> n')" "nbr_kept n n'" "nb_state n' = nb_state n"
      "oi_full_nbrs t = oi_full_nbrs s" and fs: "f \<in> {F_nsm_twoway_received, F_nsm_exchange_done, F_nsm_adj_ok} \<longrightarrow> fs \<notin> {NSM_DependUpon, NSM_Deleted}"
    using nsm_call_ok [OF core assms(3,4) st, of E f] by blast
  define y where "y = (if f \<noteq> F_null \<and> x = NSM_DependUpon then fs else x)"
  have y: "y \<noteq> NSM_DependUpon" "e = NSM_KillNbr \<Longrightarrow> y = NSM_Deleted" using tab st fs by (auto simp: y_def)
  have ct: "core N t" by (rule core_kept [OF core assms(3,4) t(2-4)])
  have tn: "oi_nbr t a = Some n'" "a \<noteq> oi_self t" "oi_self t = oi_self s" "nbr_states t = nbr_states s" "oi_nbrs t = oi_nbrs s"
    using t(2,3) assms(4) states_same [OF assms(3) t(3,5)] by (simp_all add: same_if_def)
  have "\<exists>u. (if y \<noteq> nb_state n then do { s \<leftarrow> nsm_notice_state_change E a y e t; nsm_change_state N E a y s } else Some t) = Some u
    \<and> core N u \<and> oi_self u = oi_self s \<and> oi_nbrs u = oi_nbrs s \<and> nbr_states u = (nbr_states s)(a \<mapsto> y) \<and> oi_full_nbrs u = of_nat (card (full_nbrs_of u))"
  proof (cases "y = nb_state n")
    case True
    then have "(nbr_states s)(a \<mapsto> y) = nbr_states s" using assms(3) by (simp add: nbr_states_def fun_upd_idem)
    with True ct tn t(6) cnt show ?thesis by (simp add: full_nbrs_of_def)
  next
    case False
    with notice_change_ok [OF ct tn(1,2), of E y e] tn(3-5) t(6) cnt show ?thesis by (simp add: full_nbrs_of_def)
  qed
  then obtain u where u: "(if y \<noteq> nb_state n then do { s \<leftarrow> nsm_notice_state_change E a y e t; nsm_change_state N E a y s } else Some t) = Some u"
    "core N u" "oi_self u = oi_self s" "nbr_states u = (nbr_states s)(a \<mapsto> y)" "oi_full_nbrs u = of_nat (card (full_nbrs_of u))"
    "oi_nbrs u = oi_nbrs s" by blast
  then obtain m where m: "oi_nbr u a = Some m" by (metis fun_upd_same nbr_states_None not_None_eq option.distinct(1))
  from timer_set_ok [OF u(2) m] u(3) assms(4) obtain v where v: "nsm_timer_set a u = Some v" "core N v" "oi_self v = oi_self s"
    "oi_full_nbrs v = oi_full_nbrs u" "nbr_states v = nbr_states u" "oi_nbrs v = oi_nbrs u" by auto
  have ym: "nbr_states v a = Some y" by (simp add: v(5) u(4))
  then obtain k where k: "oi_nbr v a = Some k" "nb_state k = y" by (auto simp: nbr_states_def)
  have ev: "ospf_nsm_event N E a e s = (if y = NSM_Deleted then ospf_nbr_delete N a v else Some v)"
    by (simp only: ospf_nsm_event_def assms(3) Option.bind_lunit fx Let_def prod.case t(1) y_def [symmetric] y(1) if_False u(1) v(1) k)
  have src: "nb_src k = nb_src n" using coreD(2) [OF core coreD(1) [OF v(2) k(1), unfolded v(6) u(6)]] assms(3) by simp
  have "nbr_states v = (nbr_states s)(a \<mapsto> nb_state k)" "oi_full_nbrs v = of_nat (card (full_nbrs_of v))" "a \<noteq> oi_self v" "nb_state k \<noteq> NSM_DependUpon"
    using u(4,5) v(3-5) k(2) assms(4) y(1) by (simp_all add: full_nbrs_of_def)
  from finish_ok [OF assms(1) v(2) k(1) this(3,4,1) ok this(2)] show ?thesis
    using ev k(2) v(3,6) u(6) src y(2) by auto
qed

section \<open>Events of the interface\<close>

lemma inv_core: "oif_inv N s \<Longrightarrow> core N s"
  by (simp add: oif_inv_def)

lemma kill_ok:
  assumes "table_ok N" "oif_inv N s"
  shows "\<exists>t. kill_nbrs N E ks s = Some t \<and> oif_inv N t \<and> oi_self t = oi_self s \<and> rt_info N (oi_nbrs t) \<subseteq>\<^sub>m rt_info N (oi_nbrs s)
    \<and> (\<forall>k \<in> set ks. \<forall>a. rt_info N (oi_nbrs t) k = Some a \<longrightarrow> a = oi_self s)"
  using assms(2)
proof (induction ks arbitrary: s)
  case (Cons k ks)
  have "\<exists>u. (case rt_info N (oi_nbrs s) k of None \<Rightarrow> Some s
      | Some a \<Rightarrow> if a \<noteq> oi_self s then ospf_nsm_event N E a NSM_KillNbr s else Some s) = Some u
    \<and> oif_inv N u \<and> oi_self u = oi_self s \<and> rt_info N (oi_nbrs u) \<subseteq>\<^sub>m rt_info N (oi_nbrs s)
    \<and> (\<forall>a. rt_info N (oi_nbrs u) k = Some a \<longrightarrow> a = oi_self s)"
  proof (cases "\<exists>a. rt_info N (oi_nbrs s) k = Some a \<and> a \<noteq> oi_self s")
    case True
    then obtain a n where a: "rt_info N (oi_nbrs s) k = Some a" "a \<noteq> oi_self s" "oi_nbr s a = Some n" "nb_src n = k"
      using coreD(2) [OF inv_core [OF Cons.prems]] by blast
    from nsm_event_ok [OF assms(1) Cons.prems a(3,2), of NSM_KillNbr E] a show ?thesis by fastforce
  qed (use Cons.prems in \<open>auto split: option.split\<close>)
  then obtain u where u: "(case rt_info N (oi_nbrs s) k of None \<Rightarrow> Some s
      | Some a \<Rightarrow> if a \<noteq> oi_self s then ospf_nsm_event N E a NSM_KillNbr s else Some s) = Some u"
    "oif_inv N u" "oi_self u = oi_self s" "rt_info N (oi_nbrs u) \<subseteq>\<^sub>m rt_info N (oi_nbrs s)"
    "\<forall>a. rt_info N (oi_nbrs u) k = Some a \<longrightarrow> a = oi_self s" by blast
  from Cons.IH [OF u(2)] obtain t where t: "kill_nbrs N E ks u = Some t" "oif_inv N t" "oi_self t = oi_self u"
    "rt_info N (oi_nbrs t) \<subseteq>\<^sub>m rt_info N (oi_nbrs u)" "\<forall>k \<in> set ks. \<forall>a. rt_info N (oi_nbrs t) k = Some a \<longrightarrow> a = oi_self u" by blast
  have "rt_info N (oi_nbrs t) \<subseteq>\<^sub>m rt_info N (oi_nbrs s)" using t(4) u(4) by (rule map_le_trans)
  moreover have "rt_info N (oi_nbrs u) k = Some a" if "rt_info N (oi_nbrs t) k = Some a" for a
    using t(4) that by (metis domI map_le_def)
  moreover have "kill_nbrs N E (k # ks) s = Some t" unfolding kill_nbrs.simps u(1) Option.bind_lunit t(1) ..
  ultimately show ?case using t(2,3,5) u(3,5) by auto
qed (auto simp: map_le_refl)

lemma killed_all:
  assumes "table_ok N" "oif_inv N s"
  shows "\<exists>t me. kill_nbrs N E (rt_keys N (oi_nbrs s)) s = Some t \<and> oif_inv N t \<and> oi_self t = oi_self s
    \<and> oi_nbr t = [oi_self t \<mapsto> me] \<and> rt_info N (oi_nbrs t) = [oi_address t \<mapsto> oi_self t] \<and> oi_full_nbrs t = 0"
proof -
  from kill_ok [OF assms, of E "rt_keys N (oi_nbrs s)"] obtain t where t: "kill_nbrs N E (rt_keys N (oi_nbrs s)) s = Some t" "oif_inv N t"
    "oi_self t = oi_self s" "rt_info N (oi_nbrs t) \<subseteq>\<^sub>m rt_info N (oi_nbrs s)"
    and r: "\<forall>k \<in> set (rt_keys N (oi_nbrs s)). \<forall>a. rt_info N (oi_nbrs t) k = Some a \<longrightarrow> a = oi_self s" by blast
  note core = inv_core [OF t(2)]
  have only: "a = oi_self t" if "rt_info N (oi_nbrs t) k = Some a" for k a
    using t(3,4) r that table_okD(3) [OF assms(1)] by (metis domI map_le_def)
  from coreD(5) [OF core] obtain me where me: "oi_nbr t (oi_self t) = Some me" "self_ok (oi_address t) (oi_router_id t) me" by blast
  have nbr: "oi_nbr t = [oi_self t \<mapsto> me]"
  proof
    fix a show "oi_nbr t a = [oi_self t \<mapsto> me] a"
      using me(1) coreD(1) [OF core] only by (cases "oi_nbr t a") (auto split: if_splits)
  qed
  have tab: "rt_info N (oi_nbrs t) = [oi_address t \<mapsto> oi_self t]"
  proof
    fix k show "rt_info N (oi_nbrs t) k = [oi_address t \<mapsto> oi_self t] k"
      using only [of k] coreD(1) [OF core me(1)] coreD(2) [OF core, of k] me
      by (cases "rt_info N (oi_nbrs t) k") (auto simp: self_ok_def)
  qed
  have "full_nbrs_of t = {}" using me(2) by (auto simp: full_nbrs_of_def nbr_states_def nbr self_ok_def split: if_splits)
  then have "oi_full_nbrs t = 0" using t(2) by (simp add: oif_inv_def)
  with t nbr tab show ?thesis by blast
qed

end
