(* ===== verification/Ospf_Steps.thy ===== *)
theory Ospf_Steps
  imports Ospf_Run
begin

text \<open>
  The events of an OSPF interface, its hello packets, and whole runs of it: no run faults, the count of full
  neighbours is exact, and taking the interface down clears it.
\<close>

section \<open>Events of the interface\<close>

lemma core_state:
  "core N s \<Longrightarrow> st \<notin> {ISM_DependUpon, ISM_DR, ISM_Backup} \<Longrightarrow> core N (s\<lparr>oi_state := st\<rparr>)"
  by (auto simp: core_def core_parts roles_ok_def)

lemma inv_cong:
  assumes "oif_inv N s" "core N t" "nbr_states t = nbr_states s" "oi_full_nbrs t = oi_full_nbrs s"
  shows "oif_inv N t"
  using assms by (simp add: oif_inv_def full_nbrs_of_def)

lemma ism_table:
  assumes "st \<noteq> ISM_DependUpon" "e \<noteq> ISM_NoEvent" "ISM st ! ism_event_num e = (f, x)"
  shows "f = F_ism_ignore \<or> f = F_ism_loop_ind \<Longrightarrow> x = st \<or> x \<notin> {ISM_DependUpon, ISM_DR, ISM_Backup}"
    and "f = F_ism_interface_down \<longleftrightarrow> e = ISM_InterfaceDown" "e = ISM_InterfaceDown \<Longrightarrow> x = ISM_Down"
    and "f = F_ism_interface_up \<Longrightarrow> x = ISM_DependUpon"
  using assms by (cases st; cases e; auto simp: ISM_def)+

text \<open>What the cleanup of an interface leaves, with the state that the table then gives it.\<close>

lemma cleanup_ok:
  assumes "table_ok N" "oif_inv N s"
  shows "\<exists>t. ospf_if_cleanup N E s = Some t \<and> oi_state t \<noteq> ISM_DependUpon \<and> oif_inv N (t\<lparr>oi_state := ISM_Down\<rparr>)
    \<and> dom (oi_nbr t) = {oi_self t} \<and> oi_full_nbrs t = 0 \<and> DR t = Some 0 \<and> BDR t = Some 0"
proof -
  from killed_all [OF assms, of E] obtain u me where u: "kill_nbrs N E (rt_keys N (oi_nbrs s)) s = Some u" "oif_inv N u"
    "oi_nbr u = [oi_self u \<mapsto> me]" "rt_info N (oi_nbrs u) = [oi_address u \<mapsto> oi_self u]" "oi_full_nbrs u = 0" by blast
  note core = inv_core [OF u(2)]
  have me: "self_ok (oi_address u) (oi_router_id u) me" "roles_ok (oi_state u) (oi_address u) me" "nb_nbma me = None"
    using coreD(4,5) [OF core] u(3) by auto
  have ty: "oi_type u \<noteq> OSPF_IFTYPE_VIRTUALLINK" "oi_address u \<noteq> 0" using coreD(7) [OF core] by (auto simp: if_ok_def)
  have sch: "sched_live (oi_nbr u) (oi_self u) e" if "e \<in> set (oi_sched u)" for e using coreD(8) [OF core] that by (auto simp: list_all_iff)
  have nbma: "oi_nbma s = []" using coreD(7) [OF inv_core [OF assms(2)]] by (simp add: if_ok_def)
  define m where "m = ospf_nbr_new\<lparr>nb_address := oi_address u, nb_priority := uint (oi_cf_priority u), nb_router_id := oi_router_id u,
    nb_src := oi_address u, nb_state := NSM_TwoWay, nb_options := (case oi_external u of
        OSPF_AREA_DEFAULT \<Rightarrow> flag_set OSPF_OPTION_E (nb_options ospf_nbr_new) | OSPF_AREA_STUB \<Rightarrow> flag_clear OSPF_OPTION_E (nb_options ospf_nbr_new)
      | OSPF_AREA_NSSA \<Rightarrow> flag_set OSPF_OPTION_NP (flag_clear OSPF_OPTION_E (nb_options ospf_nbr_new)))\<rparr>"
  define t where "t = u\<lparr>oi_calls := oi_calls u @ [LsAckClear, LsUpdQueueEmpty, FreeLists (oi_self u)], oi_crypt_seqnum := 0,
    oi_sched := filter (\<lambda>e. case e of SNsm b ev \<Rightarrow> b \<noteq> oi_self u | SIsm ev \<Rightarrow> True) (oi_sched u), oi_self := ev_new E,
    oi_nbr := [ev_new E \<mapsto> m], oi_nbrs := rt_put N (rt_put N (oi_nbrs u) (oi_address u) None) (oi_address u) (Some (ev_new E))\<rparr>"
  have "nb_src me = oi_address u" using me(1) by (simp add: self_ok_def)
  then have c: "ospf_if_cleanup N E s = Some t"
    using u(3,4) me(3) ty(1) nbma
    by (simp add: ospf_if_cleanup_def u(1) ospf_nbr_delete_def ospf_nbr_free_def ospf_nbr_add_self_def upd_nbr_def ospf_nbr_key_def
        call_def table_okD(2) [OF assms(1)] Let_def) (rule ospf_if.equality; simp add: t_def m_def)
  have m: "self_ok (oi_address u) (oi_router_id u) m" "roles_ok ISM_Down (oi_address u) m" "nbr_ok m" "nb_d_router m = 0" "nb_bd_router m = 0"
      "nb_src m = oi_address u" "nb_state m = NSM_TwoWay"
    using ty(2) by (simp_all add: m_def ospf_nbr_new_def self_ok_def roles_ok_def nbr_ok_def)
  have "nbr_tab N t" using u(4) m(6) by (auto simp: nbr_tab_def t_def table_okD(2) [OF assms(1)] split: if_splits)
  moreover have "sched_live [ev_new E \<mapsto> m] (ev_new E) e" if "e \<in> set (oi_sched u)" for e
    using sch [OF that] u(3) by (auto simp: sched_live_def split: sched.splits if_splits)
  ultimately have "core N (t\<lparr>oi_state := ISM_Down\<rparr>)"
    using core m by (auto simp: core_def core_parts t_def list_all_iff)
  moreover have "nbr_states t = [ev_new E \<mapsto> NSM_TwoWay]" using m(7) by (auto simp: nbr_states_def t_def)
  ultimately have "oif_inv N (t\<lparr>oi_state := ISM_Down\<rparr>)" using u(5) by (simp add: oif_inv_def full_nbrs_of_def) (simp add: t_def)
  moreover have "dom (oi_nbr t) = {oi_self t}" "oi_full_nbrs t = 0" "DR t = Some 0" "BDR t = Some 0" "oi_state t \<noteq> ISM_DependUpon"
    using m(4,5) u(5) me(2) by (simp_all add: t_def DR_def BDR_def roles_ok_def)
  ultimately show ?thesis using c by blast
qed

text \<open>An event whose function does not hold an election, seen from the state it gives the interface.\<close>

lemma event_to_state:
  assumes "ism_call N c (fst (ISM (oi_state s) ! ism_event_num e)) s = Some (st, u)" "st = ISM_DependUpon \<Longrightarrow> x = snd (ISM (oi_state u) ! ism_event_num e)"
    and "st \<noteq> ISM_DependUpon \<Longrightarrow> x = st"
  shows "\<exists>t. ism_event_with N E c e s = Some t \<and> core N t = core N (u\<lparr>oi_state := x\<rparr>) \<and> nbr_states t = nbr_states u
    \<and> oi_full_nbrs t = oi_full_nbrs u \<and> oi_state t = x \<and> oi_self t = oi_self u \<and> oi_nbr t = oi_nbr u
    \<and> (x = ISM_Down \<longrightarrow> \<not> oi_t_hello t \<and> \<not> oi_t_wait t \<and> \<not> oi_t_ls_ack t)"
proof -
  let ?t = "ism_timer_set (if x \<noteq> oi_state u then ism_change_state E x u else u)"
  have "ism_event_with N E c e s = Some ?t"
    using assms by (cases "st = ISM_DependUpon") (simp_all add: ism_event_with_def)
  moreover have "oi_state ?t = x" by simp
  moreover from this have "x = ISM_Down \<longrightarrow> \<not> oi_t_hello ?t \<and> \<not> oi_t_wait ?t \<and> \<not> oi_t_ls_ack ?t"
    by (auto simp: ism_timer_set_def)
  moreover have "core N ?t = core N (u\<lparr>oi_state := x\<rparr>)" by (simp add: core_same_state)
  ultimately show ?thesis by (intro exI [of _ ?t]) simp
qed

lemma if_down_ok:
  assumes "table_ok N" "oif_inv N s"
  shows "\<exists>t. ospf_ism_event N E ISM_InterfaceDown s = Some t \<and> oif_inv N t \<and> oi_state t = ISM_Down \<and> dom (oi_nbr t) = {oi_self t}
    \<and> oi_full_nbrs t = 0 \<and> DR t = Some 0 \<and> BDR t = Some 0 \<and> \<not> oi_t_hello t \<and> \<not> oi_t_wait t \<and> \<not> oi_t_ls_ack t"
proof -
  have st: "oi_state s \<noteq> ISM_DependUpon" using coreD(5) [OF inv_core [OF assms(2)]] by (auto simp: roles_ok_def)
  from cleanup_ok [OF assms, of E] obtain u where u: "ospf_if_cleanup N E s = Some u" "oi_state u \<noteq> ISM_DependUpon" "oif_inv N (u\<lparr>oi_state := ISM_Down\<rparr>)"
    and k: "dom (oi_nbr u) = {oi_self u}" "oi_full_nbrs u = 0" "DR u = Some 0" "BDR u = Some 0" by blast
  have "fst (ISM (oi_state s) ! ism_event_num ISM_InterfaceDown) = F_ism_interface_down" "snd (ISM (oi_state u) ! ism_event_num ISM_InterfaceDown) = ISM_Down"
    using ism_table(2) [OF st, of ISM_InterfaceDown] ism_table(3) [OF u(2), of ISM_InterfaceDown] by (metis ism_event.distinct(13) prod.collapse)+
  then have "ism_call N (ospf_if_cleanup N E) (fst (ISM (oi_state s) ! ism_event_num ISM_InterfaceDown)) s = Some (ISM_DependUpon, u)"
    and "ISM_Down = snd (ISM (oi_state u) ! ism_event_num ISM_InterfaceDown)" using u(1) by simp_all
  from event_to_state [OF this(1) this(2), of E] obtain t where t: "ospf_ism_event N E ISM_InterfaceDown s = Some t"
    "core N t = core N (u\<lparr>oi_state := ISM_Down\<rparr>)" "nbr_states t = nbr_states u" "oi_full_nbrs t = oi_full_nbrs u" "oi_state t = ISM_Down"
    "oi_self t = oi_self u" "oi_nbr t = oi_nbr u" "\<not> oi_t_hello t \<and> \<not> oi_t_wait t \<and> \<not> oi_t_ls_ack t"
    by (auto simp: ospf_ism_event_def)
  have "oif_inv N t" using inv_core [OF u(3)] t(2-4) by (intro inv_cong [OF u(3)]) simp_all
  then show ?thesis using t k by (simp add: DR_def BDR_def)
qed

lemma ism_event_ok:
  assumes "table_ok N" "oif_inv N s" "e \<noteq> ISM_NoEvent"
  shows "\<exists>t. ospf_ism_event N E e s = Some t \<and> oif_inv N t"
proof (cases "e = ISM_InterfaceDown")
  case True
  with if_down_ok [OF assms(1,2), of E] show ?thesis by blast
next
  case False
  note core = inv_core [OF assms(2)]
  obtain f x where fx: "ISM (oi_state s) ! ism_event_num e = (f, x)" by force
  have st: "oi_state s \<noteq> ISM_DependUpon" using coreD(5) [OF core] by (auto simp: roles_ok_def)
  note tab = ism_table [OF st assms(3) fx]
  note ev = event_to_state [where e = e and s = s and N = N and E = E and c = "ospf_if_cleanup N E", unfolded fx fst_conv snd_conv]
  consider "f \<in> {F_ism_ignore, F_ism_loop_ind}" | "f = F_ism_interface_up" | "f \<in> {F_ism_wait_timer, F_ism_backup_seen, F_ism_neighbor_change}"
    using tab(2) False by (cases f) auto
  then show ?thesis
  proof cases
    case 1
    then have x: "x = oi_state s \<or> x \<notin> {ISM_DependUpon, ISM_DR, ISM_Backup}" using tab(1) by auto
    from 1 have "ism_call N (ospf_if_cleanup N E) f s = Some (ISM_DependUpon, s)" by auto
    from ev [OF this, of x] fx x core core_state [OF core, of x] show ?thesis
      by (auto simp: ospf_ism_event_def core_same_state intro: inv_cong [OF assms(2)])
  next
    case 2
    have ty: "oi_type s \<noteq> OSPF_IFTYPE_NBMA" using coreD(7) [OF core] by (simp add: if_ok_def)
    obtain me where me: "oi_nbr s (oi_self s) = Some me" using coreD(5) [OF core] by blast
    define st where "st = (if oi_type s = OSPF_IFTYPE_POINTOPOINT \<or> oi_type s = OSPF_IFTYPE_POINTOMULTIPOINT \<or> oi_type s = OSPF_IFTYPE_VIRTUALLINK
        then ISM_PointToPoint else if nb_priority me = 0 then ISM_DROther else ISM_Waiting)"
    have st: "st \<notin> {ISM_DependUpon, ISM_DR, ISM_Backup}" by (simp add: st_def)
    have "ism_call N (ospf_if_cleanup N E) f s = Some (st, s)"
      using 2 ty me by (simp add: ism_interface_up_def PRIORITY_def st_def)
    from ev [OF this, of st] st core_state [OF core st] show ?thesis
      by (auto simp: ospf_ism_event_def intro: inv_cong [OF assms(2)])
  next
    case 3
    with election_event [OF core, of e E "ospf_if_cleanup N E"] fx show ?thesis
      by (auto simp: ospf_ism_event_def intro: inv_cong [OF assms(2)])
  qed
qed

section \<open>Hello packets\<close>

lemma sched_frame [simp]:
  "oi_nbr (schedule e s) = oi_nbr s" "oi_self (schedule e s) = oi_self s" "oi_type (schedule e s) = oi_type s"
  "oi_router_id (schedule e s) = oi_router_id s" "nbr_states (schedule e s) = nbr_states s" "oi_full_nbrs (schedule e s) = oi_full_nbrs s"
  by (simp_all add: schedule_def)

lemma schedule_ok:
  assumes "oif_inv N s" "sched_live (oi_nbr s) (oi_self s) e"
  shows "oif_inv N (schedule e s)"
proof -
  note core = inv_core [OF assms(1)]
  have "core N (schedule e s)" using core_sched [OF core] coreD(8) [OF core] assms(2) by (simp add: schedule_def)
  then show ?thesis by (rule inv_cong [OF assms(1)]) simp_all
qed

lemma schedule_if:
  "oif_inv N s \<Longrightarrow> e \<noteq> ISM_NoEvent \<Longrightarrow> oif_inv N (if c then schedule (SIsm e) s else s)"
  "oi_nbr (if c then schedule (SIsm e) s else s) = oi_nbr s" "oi_self (if c then schedule (SIsm e) s else s) = oi_self s"
  by (simp_all add: schedule_ok sched_live_def)

lemma hello_events_ok:
  assumes "oif_inv N s"
  shows "oif_inv N (hello_events h n s)" "oi_nbr (hello_events h n s) = oi_nbr s" "oi_self (hello_events h n s) = oi_self s"
proof -
  show "oif_inv N (hello_events h n s)"
    unfolding hello_events_def Let_def by (intro schedule_if(1) assms ism_event.distinct(2)[symmetric]) simp_all
qed (simp_all only: hello_events_def Let_def schedule_if(2,3))

lemma upd_ok:
  assumes "oif_inv N s" "oi_nbr s a = Some n" "a \<noteq> oi_self s" "nbr_kept n (f n)" "nb_state (f n) = nb_state n"
  shows "\<exists>t. upd_nbr a f s = Some t \<and> oif_inv N t \<and> oi_nbr t = (oi_nbr s)(a \<mapsto> f n) \<and> same_if s t"
proof -
  let ?t = "s\<lparr>oi_nbr := (oi_nbr s)(a \<mapsto> f n)\<rparr>"
  have "core N ?t" by (rule core_kept [OF inv_core [OF assms(1)] assms(2,3) _ _ assms(4)]) simp_all
  then have "oif_inv N ?t" by (rule inv_cong [OF assms(1)]) (simp_all add: states_same [OF assms(2) _ assms(5)])
  then show ?thesis using assms(2) by (simp add: upd_nbr_def)
qed

text \<open>A neighbour that is new to the table.\<close>

lemma new_nbr_ok:
  assumes "table_ok N" "oif_inv N s" "oi_nbr s a = None" "rt_info N (oi_nbrs s) (nb_src n) = None" "nbr_ok n" "nb_state n = NSM_Down"
  shows "oif_inv N (s\<lparr>oi_nbr := (oi_nbr s)(a \<mapsto> n), oi_nbrs := rt_put N (oi_nbrs s) (nb_src n) (Some a)\<rparr>)"
proof -
  note core = inv_core [OF assms(2)]
  let ?t = "s\<lparr>oi_nbr := (oi_nbr s)(a \<mapsto> n), oi_nbrs := rt_put N (oi_nbrs s) (nb_src n) (Some a)\<rparr>"
  have tab: "rt_info N (oi_nbrs s) k = Some b \<longleftrightarrow> (\<exists>m. oi_nbr s b = Some m \<and> nb_src m = k)" for k b
    using core by (simp add: core_def nbr_tab_def)
  have "nb_src m \<noteq> nb_src n" if "oi_nbr s b = Some m" for b m using coreD(1) [OF core that] assms(4) by auto
  then have "nbr_tab N ?t" using assms(3) tab by (auto simp: nbr_tab_def table_okD(2) [OF assms(1)])
  moreover have "sched_live (oi_nbr ?t) (oi_self s) e" if "e \<in> set (oi_sched s)" for e
    using coreD(8) [OF core] that by (auto simp: list_all_iff sched_live_def split: sched.splits)
  moreover have "oi_self s \<noteq> a" using coreD(5) [OF core] assms(3) by auto
  ultimately have "core N ?t" using core assms(5) by (auto simp: core_def core_parts list_all_iff ran_def)
  moreover have st: "nbr_states ?t = (nbr_states s)(a \<mapsto> NSM_Down)" using assms(6) by (auto simp: nbr_states_def)
  moreover have "a \<notin> full_nbrs_of s" using assms(3) by (simp add: full_nbrs_of_def nbr_states_def)
  ultimately show ?thesis
    using assms(2) full_nbrs_upd [OF st] by (auto simp: oif_inv_def ran_def split: if_splits)
qed

lemma nbr_get_ok:
  assumes "table_ok N" "oif_inv N s" "src \<noteq> oi_address s" "oi_nbr s (ev_new E) = None"
  shows "\<exists>a t n. ospf_nbr_get N E src rid crypt s = Some (a, t) \<and> oif_inv N t \<and> oi_nbr t a = Some n \<and> a \<noteq> oi_self t \<and> oi_type t = oi_type s
    \<and> oi_router_id t = oi_router_id s"
proof -
  note core = inv_core [OF assms(2)]
  have ty: "oi_type s \<noteq> OSPF_IFTYPE_NBMA" "oi_type s \<noteq> OSPF_IFTYPE_VIRTUALLINK" using coreD(7) [OF core] by (simp_all add: if_ok_def)
  obtain me where me: "oi_nbr s (oi_self s) = Some me" "nb_src me = oi_address s" using coreD(5) [OF core] by (auto simp: self_ok_def)
  have fin: "\<exists>t n. upd_nbr a (\<lambda>n. n\<lparr>nb_router_id := rid\<rparr>) u = Some t \<and> oif_inv N t \<and> oi_nbr t a = Some n \<and> a \<noteq> oi_self t
      \<and> oi_type t = oi_type u \<and> oi_router_id t = oi_router_id u"
    if "oif_inv N u" "oi_nbr u a = Some n" "a \<noteq> oi_self u" for u a n
    using upd_ok [OF that, of "\<lambda>n. n\<lparr>nb_router_id := rid\<rparr>"] that(3) by (auto simp: nbr_kept_def same_if_def)
  show ?thesis
  proof (cases "rt_info N (oi_nbrs s) src")
    case (Some a)
    with coreD(2) [OF core] obtain n where n: "oi_nbr s a = Some n" "nb_src n = src" by blast
    have "a \<noteq> oi_self s" using n me assms(3) by auto
    from fin [OF assms(2) n(1) this] Some n(1) ty show ?thesis by (auto simp: ospf_nbr_get_def)
  next
    case None
    define n where "n = ospf_nbr_new\<lparr>nb_state := NSM_Down, nb_src := src, nb_address := src, nb_nbma := None\<rparr>"
    define m where "m = (case crypt of None \<Rightarrow> n | Some q \<Rightarrow> n\<lparr>nb_crypt_seqnum := q\<rparr>)"
    let ?u = "s\<lparr>oi_nbr := (oi_nbr s)(ev_new E \<mapsto> m), oi_nbrs := rt_put N (oi_nbrs s) src (Some (ev_new E))\<rparr>"
    have m: "nb_src m = src" "nbr_ok m" "nb_state m = NSM_Down" by (simp_all add: m_def n_def nbr_ok_def split: option.split)
    have "oif_inv N ?u" using new_nbr_ok [OF assms(1,2,4), of m] None m by simp
    moreover have "ev_new E \<noteq> oi_self s" using me(1) assms(4) by auto
    ultimately have "\<exists>t n. upd_nbr (ev_new E) (\<lambda>n. n\<lparr>nb_router_id := rid\<rparr>) ?u = Some t \<and> oif_inv N t \<and> oi_nbr t (ev_new E) = Some n
      \<and> ev_new E \<noteq> oi_self t \<and> oi_type t = oi_type ?u \<and> oi_router_id t = oi_router_id ?u" by (intro fin [of ?u "ev_new E" m]) simp_all
    moreover have "ospf_nbr_add E src crypt s = Some (s\<lparr>oi_nbr := (oi_nbr s)(ev_new E \<mapsto> m)\<rparr>)"
      using ty by (simp add: ospf_nbr_add_def upd_nbr_def m_def n_def split: option.split)
    ultimately show ?thesis using None ty by (auto simp: ospf_nbr_get_def)
  qed
qed

lemma hello_ok:
  assumes "table_ok N" "oif_inv N s" "he_src h \<noteq> oi_address s" "oi_nbr s (ev_new E) = None"
  shows "\<exists>t. ospf_hello N E h s = Some t \<and> oif_inv N t"
proof -
  let ?s = "s\<lparr>oi_hello_in := oi_hello_in s + 1\<rparr>"
  have s: "oif_inv N ?s" by (rule inv_cong [OF assms(2)]) (simp_all add: inv_core [OF assms(2)])
  obtain self where self: "oi_nbr ?s (oi_self ?s) = Some self" using coreD(5) [OF inv_core [OF s]] by blast
  obtain acc where acc: "hello_accepted h ?s = Some acc" unfolding hello_accepted_def self Let_def Option.bind_lunit by blast
  show ?thesis
  proof (cases acc)
    case False
    with s acc show ?thesis by (simp add: ospf_hello_def)
  next
    case True
    have "he_src h \<noteq> oi_address ?s" "oi_nbr ?s (ev_new E) = None" using assms(3,4) by simp_all
    from nbr_get_ok [OF assms(1) s this, of "he_router_id h" "he_crypt h"] obtain a u n where
      u: "ospf_nbr_get N E (he_src h) (he_router_id h) (he_crypt h) ?s = Some (a, u)" "oif_inv N u" "oi_nbr u a = Some n" "a \<noteq> oi_self u" by blast
    have ty: "oi_type u \<noteq> OSPF_IFTYPE_NBMA" using coreD(7) [OF inv_core [OF u(2)]] by (simp add: if_ok_def)
    obtain me where me: "oi_nbr u (oi_self u) = Some me" using coreD(5) [OF inv_core [OF u(2)]] by blast
    let ?v = "schedule (SNsm a NSM_PacketReceived) u"
    have v: "oif_inv N (schedule (SNsm a e) ?v)" if "e \<noteq> NSM_NoEvent" for e
      using u that by (intro schedule_ok) (simp_all add: sched_live_def)
    have info: "\<exists>t. upd_nbr a (nbr_info_set h) w = Some t \<and> oif_inv N t" if "oif_inv N w" "oi_nbr w a = Some k" "a \<noteq> oi_self w" for w k
      using upd_ok [OF that, of "nbr_info_set h"] by (auto simp: nbr_kept_def nbr_info_set_def)
    have p: "PRIORITY ?v = Some (nb_priority me)" "DR ?v = Some (nb_d_router me)" "BDR ?v = Some (nb_bd_router me)"
      using me by (simp_all add: PRIORITY_def DR_def BDR_def)
    have eq: "ospf_hello N E h s =
      (if ospf_nbr_bidirectional (oi_router_id u) (he_neighbors h)
       then do {
         s \<leftarrow> upd_nbr a (\<lambda>n. n\<lparr>nb_options := nb_options n OR he_options h\<rparr>) (schedule (SNsm a NSM_TwoWayReceived) ?v);
         n \<leftarrow> oi_nbr s a;
         upd_nbr a (nbr_info_set h) (hello_events h n s) }
       else upd_nbr a (nbr_info_set h) (schedule (SNsm a NSM_OneWayReceived) ?v))"
      by (simp only: ospf_hello_def Let_def acc True u(1,3) p sched_frame ty Option.bind_lunit prod.case simp_thms if_False if_True)
    show ?thesis
    proof (cases "ospf_nbr_bidirectional (oi_router_id u) (he_neighbors h)")
      case False
      with info [OF v [of NSM_OneWayReceived]] u(3,4) show ?thesis unfolding eq by simp
    next
      case bi: True
      from upd_ok [OF v [of NSM_TwoWayReceived], of a n "\<lambda>n. n\<lparr>nb_options := nb_options n OR he_options h\<rparr>"] u(3,4) obtain w where
        w: "upd_nbr a (\<lambda>n. n\<lparr>nb_options := nb_options n OR he_options h\<rparr>) (schedule (SNsm a NSM_TwoWayReceived) ?v) = Some w" "oif_inv N w"
        "oi_nbr w a = Some (n\<lparr>nb_options := nb_options n OR he_options h\<rparr>)" "oi_self w = oi_self u"
        by (auto simp: nbr_kept_def same_if_def)
      let ?n = "n\<lparr>nb_options := nb_options n OR he_options h\<rparr>"
      from info [OF hello_events_ok(1) [OF w(2)], of h ?n ?n] hello_events_ok(2,3) [OF w(2)] w(3,4) u(4)
      show ?thesis unfolding eq using bi w(1) by simp
    qed
  qed
qed

section \<open>Runs\<close>

text \<open>
  The interface is driven by hello packets, by its timers, by the thread that takes the next scheduled event, by the
  events that packets other than hello raise on a neighbour, and by the commands that take it up and down. Each step
  has its own environment: the clock, the address of a new object, and the answers of other parts.
\<close>

datatype oif_use = UHello ospf_hello_pkt | UDispatch | UHelloTimer | UWaitTimer | UInactivity nat | UNsm nat nsm_event | UUp | UDown

fun oif_step :: "(u32, 'n) route_ops \<Rightarrow> ospf_env \<times> oif_use \<Rightarrow> 'n ospf_if \<Rightarrow> 'n ospf_if option" where
  "oif_step N (E, UHello h) s = ospf_hello N E h s"
| "oif_step N (E, UDispatch) s =
     (case oi_sched s of
        [] \<Rightarrow> Some s
      | SNsm a e # es \<Rightarrow> ospf_nsm_event N E a e (s\<lparr>oi_sched := es\<rparr>)
      | SIsm e # es \<Rightarrow> ospf_ism_event N E e (s\<lparr>oi_sched := es\<rparr>))"
| "oif_step N (E, UHelloTimer) s = Some (ospf_hello_timer s)"
| "oif_step N (E, UWaitTimer) s = Some (ospf_wait_timer s)"
| "oif_step N (E, UInactivity a) s = ospf_inactivity_timer a s"
| "oif_step N (E, UNsm a e) s = ospf_nsm_event N E a e s"
| "oif_step N (E, UUp) s = Some (ospf_if_up s)"
| "oif_step N (E, UDown) s = ospf_if_down N E s"

text \<open>
  New objects are at unused addresses. The reader of packets has dropped those that come from the router's own address
  (\<open>ospf_read\<close>). Only timers that run expire, and packets raise events on neighbours that exist.
\<close>

fun oif_guard :: "ospf_env \<times> oif_use \<Rightarrow> 'n ospf_if \<Rightarrow> bool" where
  "oif_guard (E, u) s \<longleftrightarrow> oi_nbr s (ev_new E) = None
     \<and> (case u of
          UHello h \<Rightarrow> he_src h \<noteq> oi_address s
        | UHelloTimer \<Rightarrow> oi_t_hello s
        | UWaitTimer \<Rightarrow> oi_t_wait s
        | UInactivity a \<Rightarrow> (case oi_nbr s a of None \<Rightarrow> False | Some n \<Rightarrow> nb_t_inactivity n)
        | UNsm a e \<Rightarrow> oi_nbr s a \<noteq> None \<and> a \<noteq> oi_self s \<and> e \<noteq> NSM_NoEvent
        | _ \<Rightarrow> True)"

definition if_fresh :: "(u32, 'n) route_ops \<Rightarrow> 'n ospf_if \<Rightarrow> bool" where
  "if_fresh N s \<longleftrightarrow> if_ok s \<and> oi_state s = ISM_Down \<and> oi_nbrs s = rt_new N \<and> oi_nbr s = [oi_self s \<mapsto> ospf_nbr_new]
     \<and> oi_sched s = [] \<and> oi_full_nbrs s = 0"

lemma core_pop: "core N s \<Longrightarrow> oi_sched s = e # es \<Longrightarrow> core N (s\<lparr>oi_sched := es\<rparr>) \<and> sched_live (oi_nbr s) (oi_self s) e"
  using core_sched [of N s es] coreD(8) [of N s] by simp

lemma dispatch_ok:
  assumes "table_ok N" "oif_inv N s"
  shows "\<exists>t. oif_step N (E, UDispatch) s = Some t \<and> oif_inv N t"
proof (cases "oi_sched s")
  case (Cons e es)
  let ?s = "s\<lparr>oi_sched := es\<rparr>"
  note pop = core_pop [OF inv_core [OF assms(2)] Cons]
  have s: "oif_inv N ?s" by (rule inv_cong [OF assms(2)]) (simp_all add: pop)
  show ?thesis
  proof (cases e)
    case (SNsm a ev)
    with pop obtain n where "oi_nbr ?s a = Some n" "a \<noteq> oi_self ?s" "ev \<noteq> NSM_NoEvent" by (auto simp: sched_live_def)
    from nsm_event_ok [OF assms(1) s this, of E] show ?thesis using Cons SNsm by auto
  next
    case (SIsm ev)
    with pop have "ev \<noteq> ISM_NoEvent" by (simp add: sched_live_def)
    from ism_event_ok [OF assms(1) s this, of E] show ?thesis using Cons SIsm by auto
  qed
qed (use assms in simp)

lemma inactivity_ok:
  assumes "oif_inv N s" "oi_nbr s a = Some n" "nb_t_inactivity n"
  shows "\<exists>t. ospf_inactivity_timer a s = Some t \<and> oif_inv N t"
proof -
  have a: "a \<noteq> oi_self s" using coreD(5) [OF inv_core [OF assms(1)]] assms(2,3) by (auto simp: self_ok_def)
  from upd_ok [OF assms(1,2) a, of "\<lambda>n. n\<lparr>nb_t_inactivity := False\<rparr>"] obtain t where
    t: "upd_nbr a (\<lambda>n. n\<lparr>nb_t_inactivity := False\<rparr>) s = Some t" "oif_inv N t" "oi_nbr t a \<noteq> None" "oi_self t = oi_self s"
    by (auto simp: nbr_kept_def same_if_def)
  have "oif_inv N (schedule (SNsm a NSM_InactivityTimer) t)" by (rule schedule_ok [OF t(2)]) (use t a in \<open>simp add: sched_live_def\<close>)
  with t(1) show ?thesis by (simp add: ospf_inactivity_timer_def)
qed

lemma oif_step_ok:
  assumes "table_ok N" "oif_inv N s" "oif_guard (E, u) s"
  shows "\<exists>t. oif_step N (E, u) s = Some t \<and> oif_inv N t"
proof (cases u)
  case (UHello h)
  with assms hello_ok [OF assms(1,2), of h E] show ?thesis by simp
next
  case UDispatch
  with dispatch_ok [OF assms(1,2)] show ?thesis by blast
next
  case UHelloTimer
  moreover have "oif_inv N (ospf_hello_timer s)"
    by (rule inv_cong [OF assms(2)]) (simp_all add: ospf_hello_timer_def call_def inv_core [OF assms(2)])
  ultimately show ?thesis by simp
next
  case UWaitTimer
  have "oif_inv N (s\<lparr>oi_t_wait := False\<rparr>)" by (rule inv_cong [OF assms(2)]) (simp_all add: inv_core [OF assms(2)])
  with UWaitTimer show ?thesis by (simp add: ospf_wait_timer_def schedule_ok sched_live_def)
next
  case (UInactivity a)
  with assms(3) obtain n where "oi_nbr s a = Some n" "nb_t_inactivity n" by (auto split: option.splits)
  from inactivity_ok [OF assms(2) this] UInactivity show ?thesis by simp
next
  case (UNsm a e)
  with assms(3) obtain n where "oi_nbr s a = Some n" "a \<noteq> oi_self s" "e \<noteq> NSM_NoEvent" by auto
  from nsm_event_ok [OF assms(1,2) this, of E] UNsm show ?thesis by auto
next
  case UUp
  with assms(2) show ?thesis by (simp add: ospf_if_up_def schedule_ok sched_live_def)
next
  case UDown
  with ism_event_ok [OF assms(1,2), of ISM_InterfaceDown E] show ?thesis by (simp add: ospf_if_down_def)
qed

interpretation oif: guarded_machine "oif_step N" "\<lambda>s. table_ok N \<and> oif_inv N s" oif_guard for N
  by unfold_locales (metis oif_step_ok prod.exhaust)

lemma fresh_ok:
  assumes "table_ok N" "if_fresh N s" "ospf_nbr_add_self N s = Some t"
  shows "oif_inv N t"
proof -
  have f: "if_ok s" "oi_state s = ISM_Down" "oi_nbrs s = rt_new N" "oi_nbr s = [oi_self s \<mapsto> ospf_nbr_new]" "oi_sched s = []" "oi_full_nbrs s = 0"
    using assms(2) by (simp_all add: if_fresh_def)
  obtain m where m: "oi_nbr t = [oi_self s \<mapsto> m]" "nb_src m = oi_address s" "nbr_ok m" "self_ok (oi_address s) (oi_router_id s) m"
      "roles_ok ISM_Down (oi_address s) m" "nb_state m = NSM_TwoWay"
    and t: "oi_nbrs t = rt_put N (rt_new N) (oi_address s) (Some (oi_self s))" "oi_type t = oi_type s" "oi_nbma t = oi_nbma s" "oi_address t = oi_address s"
      "oi_router_id t = oi_router_id s" "oi_self t = oi_self s" "oi_sched t = oi_sched s" "oi_state t = oi_state s" "oi_full_nbrs t = oi_full_nbrs s"
    using assms(3) f
    by (auto simp: ospf_nbr_add_self_def upd_nbr_def ospf_nbr_key_def if_ok_def table_okD(1) [OF assms(1)] self_ok_def roles_ok_def nbr_ok_def
        ospf_nbr_new_def Let_def)
  have "nbr_tab N t" using m(1,2) by (auto simp: nbr_tab_def t(1) table_okD [OF assms(1)])
  then have "core N t" using m f t by (auto simp: core_def core_parts)
  moreover have "nbr_states t = [oi_self s \<mapsto> NSM_TwoWay]" using m(1,6) by (auto simp: nbr_states_def)
  ultimately show ?thesis using f(6) t by (simp add: oif_inv_def full_nbrs_of_def)
qed

lemma inv_roles:
  assumes "oif_inv N t"
  shows "\<not> (DR t = Some (oi_address t) \<and> BDR t = Some (oi_address t))"
    and "oi_state t = ISM_DR \<Longrightarrow> DR t = Some (oi_address t)" "oi_state t = ISM_Backup \<Longrightarrow> BDR t = Some (oi_address t)"
  using coreD(5) [OF inv_core [OF assms]] by (auto simp: DR_def BDR_def roles_ok_def role_state_def split: if_splits)



section \<open>Example\<close>

text \<open>A point-to-point interface that comes up, hears its neighbour and reaches the full state with it.\<close>

definition ex_link :: "(u32 \<times> nat option) list ospf_if" where
  "ex_link = (ex_segment ISM_Down (ex_rtr 0 0 0 0) (ex_rtr 0 0 0 0) (ex_rtr 0 0 0 0))\<lparr>oi_type := OSPF_IFTYPE_POINTOPOINT,
     oi_nbrs := [], oi_nbr := [0 \<mapsto> ospf_nbr_new]\<rparr>"

definition ex_env :: "nat \<Rightarrow> ospf_env" where
  "ex_env a = \<lparr>ev_now = int2tv 7, ev_time = 7, ev_new = a, ev_req_empty = True, ev_network_lsa = (\<lambda>_. None)\<rparr>"

definition ex_hello :: ospf_hello_pkt where
  "ex_hello = \<lparr>he_src = 0x0200000a, he_router_id = 0x0200000a, he_crypt = None, he_masklen = 24, he_hello_interval = 0x0a00,
     he_options = 2, he_priority = 1, he_dead_interval = 0x28000000, he_d_router = 0, he_bd_router = 0, he_neighbors = [0x0100000a]\<rparr>"

definition ex_uses :: "(ospf_env \<times> oif_use) list" where
  "ex_uses = [(ex_env 1, UUp), (ex_env 1, UDispatch), (ex_env 1, UHello ex_hello), (ex_env 2, UDispatch), (ex_env 2, UDispatch),
     (ex_env 2, UNsm 1 NSM_NegotiationDone), (ex_env 2, UNsm 1 NSM_ExchangeDone)]"

lemma ex_link_ok:
  "if_fresh list_ops ex_link" "ospf_nbr_add_self list_ops ex_link \<noteq> None"
  "all_ok (oif_step list_ops) oif_guard ex_uses (the (ospf_nbr_add_self list_ops ex_link))"
  "map_option oi_full_nbrs (run_events (oif_step list_ops) ex_uses (the (ospf_nbr_add_self list_ops ex_link))) = Some 1"
  subgoal by (simp add: if_fresh_def if_ok_def ex_link_def ex_segment_def list_ops_def)
  subgoal by code_simp
  subgoal by code_simp
  subgoal by code_simp
  done

lemma ex_link_start: "ospf_nbr_add_self list_ops ex_link = Some (the (ospf_nbr_add_self list_ops ex_link))"
  using ex_link_ok(2) by simp



end
