(* ===== verification/Spec2Isabelle.thy ===== *)
theory Spec2Isabelle
  imports Rstp_Mgmt Stp_Examples Jhash Switch_Examples Stream_Buf Stream_Fifo Vrrp_Props Ospf_Steps
begin

text \<open>
  This development verifies the layer 2 part of Layer3Switch (spanning trees, forwarding database, vlans,
  interfaces), its VRRP routers, the database and the state machines of its OSPF daemon, and the libraries they
  stand on.

  The program. A frame comes in through \<open>process_pkt\<close> (\<open>gdd/gdd_generic.c\<close>), which learns its source
  address in the forwarding database (\<open>bridge/fdb.c\<close>) and posts messages of the spanning tree to the
  manager (\<open>bridge/stpmgr_main.c\<close>). The manager's task takes them from its queue and hands them to the
  802.1D tree (\<open>bridge/stp\<close>) or to the 802.1w tree (\<open>bridge/rstp\<close>), whichever the vlan (\<open>vlan\<close>) runs.
  The interfaces (\<open>ifmgmt\<close>) send it events when a port goes up or down. Memory pools, message queues, hash
  tables and timers come from \<open>lib\<close>.

  Conventions. A C function is a function of the state it reads and returns the state it leaves. A null
  dereference, a use of released memory and an access outside an array are the value \<open>None\<close>; the return
  codes of the source are ordinary values. Objects of the C heap are addresses into a store that is a
  component of the state, with the list that links them. Integers have the width of the source wherever it
  matters; the host is little-endian with 64-bit pointers. What \<open>malloc\<close> returns, the clock, and the
  contents of uninitialised memory are arguments.

  Theories.

  \<^item> \<open>Switch_Prelude\<close>: words and bytes, runs of a machine, and the locales that say what a machine with an
    invariant, a guarded machine, and a simulation of a specification give for whole runs.
  \<^item> \<open>Mem_Pool\<close> (\<open>lib/mem_main.c\<close>): pools of blocks. A pool hands out its blocks once each, and freeing undoes
    an allocation.
  \<^item> \<open>Timers\<close>, \<open>Timer_Run\<close>, \<open>Timer_View\<close> (\<open>lib/tmr_init.c\<close>, \<open>update.c\<close>, \<open>btm_hlf.c\<close>): the timer wheels. The
    tick returns from every well-formed state, a timer fires when its packed time says, and the service
    refines the view that an owner has of its timer, which the spanning tree uses.
  \<^item> \<open>Rstp_Types\<close>, \<open>Rstp_Model\<close>, \<open>Rstp_Ops\<close> (\<open>bridge/rstp/bridgestp.c\<close>): the rapid spanning tree. \<open>Rstp_Frame\<close>,
    \<open>Rstp_Inv\<close> and \<open>Rstp_Run\<close> prove its invariant for all sequences of calls, \<open>Rstp_Props\<close> the election, the
    roles and the states of ports, \<open>Rstp_Wire\<close> the round trip of messages, \<open>Rstp_Mgmt\<close> the instances and the
    commands of \<open>rstp_cli.c\<close>.
  \<^item> \<open>Stp_Model\<close>, \<open>Stp_Ops\<close> (\<open>bridge/stp\<close>): the 802.1D tree on one instance; \<open>Stp_Inv\<close>, \<open>Stp_Run\<close> and
    \<open>Stp_Props\<close> its invariant, runs without faults, root election and port states; \<open>Stp_Wire\<close> its messages;
    \<open>Stp_System\<close> the list of instances, the lookups and the commands of \<open>stp_cli.c\<close>; \<open>Stp_Anchor\<close> what the
    operations keep of an instance; \<open>Stp_Examples\<close> concrete bridges.
  \<^item> \<open>Msg_Queue\<close> (\<open>lib/msg_queue.c\<close>): a queue refines a bounded channel.
  \<^item> \<open>Jhash\<close> (\<open>inc/jhash.h\<close>), \<open>Hash_Lib\<close> (\<open>lib/hashlib.c\<close>): the hash function, and a table that refines a map.
  \<^item> \<open>Fdb\<close> (\<open>bridge/fdb.c\<close>): the forwarding database refines a bounded table of stations.
  \<^item> \<open>Vlan\<close> (\<open>vlan\<close>): the vlan database and the byte-level port lists.
  \<^item> \<open>Stpmgr\<close> (\<open>bridge/stpmgr_main.c\<close>): the manager over its queue and its pool.
  \<^item> \<open>Switch\<close>, \<open>Switch_Run\<close>, \<open>Switch_Boot\<close>: interfaces, frames and the start of the bridge; the whole switch
    starts and runs without a fault. \<open>Switch_Examples\<close> has a concrete switch.
  \<^item> \<open>Stream_Buf\<close> (\<open>lib/stream.c\<close>): the packet buffers of the routing daemons. Values come out as they were put
    in, and no sequence of calls leaves the block, except the one that writes a prefix. A failed assertion and an
    access outside the block are two errors of a sum type here. \<open>Stream_Fifo\<close>: the queue of buffers refines a list.
  \<^item> \<open>Vrrp\<close> (\<open>vrrp/vrrpd.c\<close>, \<open>vrrp_main.c\<close>): the virtual routers. \<open>Vrrp_Props\<close> shows which advertisements a router
    accepts, how its timers wrap, and that no router becomes master.
  \<^item> \<open>Ospf_Lsa\<close> (\<open>ospf/ospf_lsa.c\<close>): advertisements, their ages, sequence numbers and reference counts. \<open>Ospf_Lsdb\<close>
    (\<open>ospf_lsdb.c\<close>): the database refines a finite map, and an advertisement is released with its last reference.
    The tables of prefixes it is built on are a library that is not in the repository: they are an argument, with
    the laws of insertion and lookup as a hypothesis.
  \<^item> \<open>Ospf_Fsm\<close> (\<open>ospf_ism.c\<close>, \<open>ospf_nsm.c\<close>, \<open>ospf_neighbor.c\<close>, parts of \<open>ospf_interface.c\<close> and \<open>ospf_packet.c\<close>): the
    state machines of an interface and of its neighbours. \<open>Ospf_Election\<close> shows that the election of the designated
    router picks the best candidate, keeps routers in office, lets the backup take over, and never gives a router
    both roles. \<open>Ospf_Run\<close> has the invariant of an interface with its neighbours and \<open>Ospf_Steps\<close> its runs: no
    sequence of packets, timers, events and commands faults, the count of full neighbours is exact, and taking the
    interface down clears it. The runs are of interfaces that are neither non-broadcast nor virtual links.

  Bounds. Loops over lists are structural. The recursion of the timer wheels and of role assignment has a
  termination proof; no function uses fuel. Capacities are those of the source: 12 ports, 1024 stations,
  4096 vlans, 100 messages of the manager and 24 places of every queue.

  Not modelled. The routing table manager and the DHCP daemons are ports of other programs that act through
  sockets, ioctls and libraries which the repository has only in part. So does the rest of the OSPF daemon:
  flooding, origination of advertisements, the calculation of routes, and packets other than hello; the state
  machines record their calls into it. The command line is a generated
  parser and terminal input and output; what its commands call is modelled. Tasks, locks, and the simulator
  act on the host system. The manager's task and the clock are modelled as steps that interleave with the
  others; the memory that a frame lies in is not. The commands that only print are left out, except the
  tables of vlans and of stations.
\<close>

end
